(* ===== verification/Prelude.thy ===== *)
theory Prelude
  imports Main "HOL-Library.Multiset" "HOL-Library.Sublist"
begin

text \<open>
  Shared vocabulary of the development: the collections the component proofs draw on, and the
  list functions by which the SQL fragments of the program are read (row lookup, conditional
  update, \<^verbatim>\<open>ORDER BY\<close>, \<^verbatim>\<open>LIMIT/OFFSET\<close>).  A table is a list of rows;
  the list order stands for the unspecified physical order, so that a statement proved for every
  list holds for every order in which the server may return ties.
\<close>

named_theorems ok_iff \<comment> \<open>when an action succeeds, and with which result\<close>
named_theorems steps_intro \<comment> \<open>introduction rules of the guarantee of an action\<close>
named_theorems const_defs \<comment> \<open>constants of the source that proofs unfold\<close>
named_theorems query_defs \<comment> \<open>definitions of the SQL statements\<close>

type_synonym time = int \<comment> \<open>instants and durations, in nanoseconds\<close>

definition second :: time where
  "second = 1000000000"

definition millisecond :: time where
  "millisecond = 1000000"

definition minute :: time where
  "minute = 60 * second"

definition hour :: time where
  "hour = 60 * minute"

lemma second_pos [simp]: "0 < second"
  by (simp add: second_def)

lemma minute_pos [simp]: "0 < minute"
  by (simp add: minute_def)

lemma minute_ge_second: "second \<le> minute"
  by (simp add: minute_def second_def)

lemmas time_defs = second_def millisecond_def minute_def hour_def

subsection \<open>Rows: lookup, conditional update, deletion\<close>

definition update_where :: "('r \<Rightarrow> bool) \<Rightarrow> ('r \<Rightarrow> 'r) \<Rightarrow> 'r list \<Rightarrow> 'r list" where
  "update_where p f rows = map (\<lambda>r. if p r then f r else r) rows"

definition count_where :: "('r \<Rightarrow> bool) \<Rightarrow> 'r list \<Rightarrow> nat" where
  "count_where p rows = length (filter p rows)"

lemma update_where_Nil [simp]: "update_where p f [] = []"
  by (simp add: update_where_def)

lemma update_where_Cons [simp]:
  "update_where p f (r # rows) = (if p r then f r else r) # update_where p f rows"
  by (simp add: update_where_def)

lemma length_update_where [simp]: "length (update_where p f rows) = length rows"
  by (simp add: update_where_def)

lemma set_update_where:
  "set (update_where p f rows) = (\<lambda>r. if p r then f r else r) ` set rows"
  by (simp add: update_where_def)

lemma update_where_cong_id: "(\<And>r. r \<in> set rows \<Longrightarrow> p r \<Longrightarrow> f r = r) \<Longrightarrow> update_where p f rows = rows"
  by (induction rows) auto

lemma update_where_none: "(\<And>r. r \<in> set rows \<Longrightarrow> \<not> p r) \<Longrightarrow> update_where p f rows = rows"
  by (induction rows) auto

lemma map_update_where: "(\<And>r. p r \<Longrightarrow> k (f r) = k r) \<Longrightarrow> map k (update_where p f rows) = map k rows"
  by (induction rows) auto

lemma filter_update_where_other:
  "(\<And>r. p r \<Longrightarrow> \<not> q r) \<Longrightarrow> (\<And>r. p r \<Longrightarrow> \<not> q (f r)) \<Longrightarrow>
     filter q (update_where p f rows) = filter q rows"
  by (induction rows) auto

lemma count_where_0 [simp]: "count_where p rows = 0 \<longleftrightarrow> (\<forall>r \<in> set rows. \<not> p r)"
  by (simp add: count_where_def filter_empty_conv)

lemma count_where_le: "(\<And>r. p r \<Longrightarrow> q r) \<Longrightarrow> count_where p rows \<le> count_where q rows"
  unfolding count_where_def by (induction rows) auto

lemma find_None_all: "find p xs = None \<longleftrightarrow> (\<forall>x \<in> set xs. \<not> p x)"
  by (induction xs) auto

lemma find_Some_ex: "find p xs = Some x \<Longrightarrow> x \<in> set xs \<and> p x"
  by (induction xs) (auto split: if_splits)

lemma find_append: "find p xs = None \<Longrightarrow> find p (xs @ ys) = find p ys"
  by (induction xs) (auto split: if_splits)

lemma find_update_where:
  "(\<And>r. p r \<Longrightarrow> p (f r)) \<Longrightarrow> find p (update_where p f rows) = map_option f (find p rows)"
  by (induction rows) auto

lemma find_Some_unique:
  assumes "inj_on k (set xs)" and "x \<in> set xs" and "p x"
    and "\<And>y. y \<in> set xs \<Longrightarrow> p y \<Longrightarrow> k y = k x"
  shows "find p xs = Some x"
proof -
  have "find p xs \<noteq> None" using assms(2,3) by (auto simp: find_None_all)
  then obtain y where y: "find p xs = Some y" by blast
  then have "y \<in> set xs" "p y" using find_Some_ex by fast+
  then have "k y = k x" using assms(4) by blast
  then have "y = x" using assms(1,2) \<open>y \<in> set xs\<close> by (meson inj_onD)
  with y show ?thesis by simp
qed

lemma count_where_distinct_le_1:
  assumes "distinct (map k rows)" and "\<And>r. p r \<Longrightarrow> k r = c"
  shows "count_where p rows \<le> 1"
  using assms unfolding count_where_def
proof (induction rows)
  case (Cons r rows)
  then show ?case
  proof (cases "p r")
    case True
    have "filter p rows = []"
      using Cons.prems True by (force simp: filter_empty_conv)
    with True show ?thesis by simp
  qed simp
qed simp

lemma count_where_append [simp]: "count_where q (xs @ ys) = count_where q xs + count_where q ys"
  by (simp add: count_where_def)

lemma count_where_Cons [simp]: "count_where q (x # xs) = (if q x then 1 else 0) + count_where q xs"
  by (simp add: count_where_def)

lemma count_where_Nil [simp]: "count_where q [] = 0"
  by (simp add: count_where_def)

lemma count_update_where_le:
  "(\<And>r. r \<in> set rows \<Longrightarrow> p r \<Longrightarrow> q (f r) \<Longrightarrow> q r) \<Longrightarrow> count_where q (update_where p f rows) \<le> count_where q rows"
  by (induction rows) auto

lemma count_update_where_hit:
  "(\<And>r. r \<in> set rows \<Longrightarrow> \<not> p r \<Longrightarrow> \<not> q r) \<Longrightarrow> count_where q (update_where p f rows) \<le> count_where p rows"
  by (induction rows) auto

lemma distinct_update_where:
  assumes "distinct (map k rows)" and "distinct (map key rows)"
    and "\<And>r. p r \<Longrightarrow> key r = i" and "\<And>r. p r \<Longrightarrow> k (f r) = c"
    and "\<And>r. r \<in> set rows \<Longrightarrow> \<not> p r \<Longrightarrow> k r \<noteq> c"
  shows "distinct (map k (update_where p f rows))"
  using assms(1,2,5)
proof (induction rows)
  case (Cons r rows)
  show ?case
  proof (cases "p r")
    case True
    then have none: "\<not> p x" if "x \<in> set rows" for x
      using Cons.prems(2) assms(3) that by fastforce
    with True Cons.prems assms(4) show ?thesis by (force simp: update_where_none)
  next
    case False
    with Cons.prems(1,3) assms(4) have "k r \<notin> k ` set (update_where p f rows)"
      by (fastforce simp: set_update_where)
    with False Cons show ?thesis by simp
  qed
qed simp

subsection \<open>Tables that only grow\<close>

text \<open>Rows are appended or replaced in place by rows that \<open>le\<close> allows; none disappears.\<close>

definition grows :: "('r \<Rightarrow> 'r \<Rightarrow> bool) \<Rightarrow> 'r list \<Rightarrow> 'r list \<Rightarrow> bool" where
  "grows le xs ys \<longleftrightarrow> length xs \<le> length ys \<and> (\<forall>i < length xs. le (xs ! i) (ys ! i))"

lemma grows_refl: "(\<And>x. le x x) \<Longrightarrow> grows le xs xs"
  by (simp add: grows_def)

lemma grows_trans:
  assumes "\<And>a b c. le a b \<Longrightarrow> le b c \<Longrightarrow> le a c" and "grows le xs ys" and "grows le ys zs"
  shows "grows le xs zs"
  using assms(2,3) unfolding grows_def by (meson assms(1) le_trans less_le_trans)

lemma grows_append: "(\<And>x. le x x) \<Longrightarrow> grows le xs (xs @ zs)"
  by (simp add: grows_def nth_append)

lemma grows_update_where:
  "(\<And>x. le x x) \<Longrightarrow> (\<And>r. r \<in> set rows \<Longrightarrow> p r \<Longrightarrow> le r (f r)) \<Longrightarrow> grows le rows (update_where p f rows)"
  by (simp add: grows_def update_where_def)

lemma grows_set: "grows le xs ys \<Longrightarrow> x \<in> set xs \<Longrightarrow> \<exists>y \<in> set ys. le x y"
  unfolding grows_def by (metis in_set_conv_nth less_le_trans)

subsection \<open>ORDER BY and LIMIT/OFFSET\<close>

text \<open>
  A stable insertion sort by an arbitrary comparison: the text columns compare by the collation
  of the database, which is not part of the program and stays a parameter.
\<close>

fun insert_by :: "('r \<Rightarrow> 'r \<Rightarrow> bool) \<Rightarrow> 'r \<Rightarrow> 'r list \<Rightarrow> 'r list" where
  "insert_by le x [] = [x]"
| "insert_by le x (y # ys) = (if le x y then x # y # ys else y # insert_by le x ys)"

definition order_by :: "('r \<Rightarrow> 'r \<Rightarrow> bool) \<Rightarrow> 'r list \<Rightarrow> 'r list" where
  "order_by le rows = foldr (insert_by le) rows []"

definition limit_offset :: "int \<Rightarrow> int \<Rightarrow> 'r list \<Rightarrow> 'r list" where
  "limit_offset lim off rows = take (nat lim) (drop (nat off) rows)"

lemma mset_insert_by [simp]: "mset (insert_by le x ys) = add_mset x (mset ys)"
  by (induction ys) auto

lemma mset_order_by [simp]: "mset (order_by le rows) = mset rows"
  unfolding order_by_def by (induction rows) auto

lemma set_order_by [simp]: "set (order_by le rows) = set rows"
  by (metis mset_order_by set_mset_mset)

lemma set_insert_by [simp]: "set (insert_by le x ys) = insert x (set ys)"
  by (metis mset_insert_by set_mset_mset set_mset_add_mset_insert)

lemma length_order_by [simp]: "length (order_by le rows) = length rows"
  by (metis mset_order_by size_mset)

lemma sorted_wrt_insert_by:
  assumes "\<And>a b. le a b \<or> le b a" and "\<And>a b c. le a b \<Longrightarrow> le b c \<Longrightarrow> le a c"
    and "sorted_wrt le ys"
  shows "sorted_wrt le (insert_by le x ys)"
  using assms(3)
proof (induction ys)
  case (Cons y ys)
  show ?case
  proof (cases "le x y")
    case True
    with Cons.prems assms(2) show ?thesis by fastforce
  next
    case False
    with assms(1) have "le y x" by blast
    with False Cons show ?thesis by auto
  qed
qed simp

lemma sorted_wrt_order_by:
  assumes "\<And>a b. le a b \<or> le b a" and "\<And>a b c. le a b \<Longrightarrow> le b c \<Longrightarrow> le a c"
  shows "sorted_wrt le (order_by le rows)"
  unfolding order_by_def
proof (induction rows)
  case (Cons r rows)
  then show ?case using sorted_wrt_insert_by [of le, OF assms] by simp
qed simp

lemma sorted_wrt_limit_offset: "sorted_wrt le rows \<Longrightarrow> sorted_wrt le (limit_offset l o' rows)"
  by (simp add: limit_offset_def sorted_wrt_drop sorted_wrt_take)

lemma set_limit_offset: "set (limit_offset l o' rows) \<subseteq> set rows"
  unfolding limit_offset_def by (meson order_trans set_drop_subset set_take_subset)

end
