(* ===== verification/Go_Text.thy ===== *)
theory Go_Text
  imports Prelude
begin

text \<open>
  What the program uses of Go's text libraries, on byte strings.  A \<^typ>\<open>string\<close> is a list of
  bytes (as in Go), so \<^const>\<open>length\<close> is Go's \<^verbatim>\<open>len\<close>; characters are counted by
  decoding UTF-8 with the tables of \<^verbatim>\<open>unicode/utf8\<close>.
\<close>

subsection \<open>unicode/utf8\<close>

definition bytes :: "string \<Rightarrow> nat list" where
  "bytes s = map of_char s"

definition of_bytes :: "nat list \<Rightarrow> string" where
  "of_bytes bs = map char_of bs"

definition cont :: "nat \<Rightarrow> bool" where
  "cont b \<longleftrightarrow> 0x80 \<le> b \<and> b \<le> 0xBF"

definition second_ok :: "nat \<Rightarrow> nat \<Rightarrow> bool" where
  "second_ok b0 b1 \<longleftrightarrow> cont b1
     \<and> (if b0 = 0xE0 then 0xA0 \<le> b1 else if b0 = 0xED then b1 \<le> 0x9F
        else if b0 = 0xF0 then 0x90 \<le> b1 else if b0 = 0xF4 then b1 \<le> 0x8F else True)"

text \<open>\<^verbatim>\<open>DecodeRune\<close>: the code point (None for RuneError) and the width.\<close>

fun decode_rune :: "nat list \<Rightarrow> nat option \<times> nat" where
  "decode_rune [] = (None, 0)"
| "decode_rune (b0 # bs) =
     (if b0 < 0x80 then (Some b0, 1)
      else if 0xC2 \<le> b0 \<and> b0 \<le> 0xDF then
        (case bs of
           b1 # _ \<Rightarrow> if second_ok b0 b1 then (Some ((b0 - 0xC0) * 64 + (b1 - 0x80)), 2) else (None, 1)
         | _ \<Rightarrow> (None, 1))
      else if 0xE0 \<le> b0 \<and> b0 \<le> 0xEF then
        (case bs of
           b1 # b2 # _ \<Rightarrow>
             if second_ok b0 b1 \<and> cont b2
             then (Some ((b0 - 0xE0) * 4096 + (b1 - 0x80) * 64 + (b2 - 0x80)), 3) else (None, 1)
         | _ \<Rightarrow> (None, 1))
      else if 0xF0 \<le> b0 \<and> b0 \<le> 0xF4 then
        (case bs of
           b1 # b2 # b3 # _ \<Rightarrow>
             if second_ok b0 b1 \<and> cont b2 \<and> cont b3
             then (Some ((b0 - 0xF0) * 262144 + (b1 - 0x80) * 4096 + (b2 - 0x80) * 64 + (b3 - 0x80)), 4)
             else (None, 1)
         | _ \<Rightarrow> (None, 1))
      else (None, 1))"

fun runes :: "nat list \<Rightarrow> nat option list" where
  "runes [] = []"
| "runes (b # bs) = (case decode_rune (b # bs) of (r, n) \<Rightarrow> r # runes (drop (n - 1) bs))"

definition ValidString :: "string \<Rightarrow> bool" where
  "ValidString s \<longleftrightarrow> list_all (\<lambda>r. r \<noteq> None) (runes (bytes s))"

definition RuneCountInString :: "string \<Rightarrow> nat" where
  "RuneCountInString s = length (runes (bytes s))"

definition valid_rune :: "nat \<Rightarrow> bool" where
  "valid_rune c \<longleftrightarrow> c < 0xD800 \<or> (0xE000 \<le> c \<and> c < 0x110000)"

definition encode_rune :: "nat \<Rightarrow> nat list" where
  "encode_rune c =
     (if c < 0x80 then [c]
      else if c < 0x800 then [0xC0 + c div 64, 0x80 + c mod 64]
      else if c < 0x10000 then [0xE0 + c div 4096, 0x80 + c div 64 mod 64, 0x80 + c mod 64]
      else [0xF0 + c div 262144, 0x80 + c div 4096 mod 64, 0x80 + c div 64 mod 64, 0x80 + c mod 64])"

definition utf8 :: "nat list \<Rightarrow> string" where
  "utf8 cs = of_bytes (concat (map encode_rune cs))"

lemma split64:
  fixes c :: nat
  shows "c = 64 * (c div 64) + c mod 64"
    and "c div 64 = 64 * (c div 4096) + c div 64 mod 64"
    and "c div 4096 = 64 * (c div 262144) + c div 4096 mod 64"
proof -
  have "c div 64 div 64 = c div 4096" "c div 4096 div 64 = c div 262144"
    by (simp_all add: div_mult2_eq [symmetric])
  then show "c div 64 = 64 * (c div 4096) + c div 64 mod 64"
    and "c div 4096 = 64 * (c div 262144) + c div 4096 mod 64"
    by (metis mult_div_mod_eq)+
qed simp

lemma decode_encode_rune:
  assumes "valid_rune c"
  shows "decode_rune (encode_rune c @ bs) = (Some c, length (encode_rune c))"
proof -
  consider "c < 0x80" | "0x80 \<le> c" "c < 0x800" | "0x800 \<le> c" "c < 0x10000" | "0x10000 \<le> c"
    by linarith
  then show ?thesis
  proof cases
    case 1
    then show ?thesis by (simp add: encode_rune_def)
  next
    case 2
    then have "2 \<le> c div 64" "c div 64 < 32" by auto
    with 2 show ?thesis
      by (simp add: encode_rune_def second_ok_def cont_def)
  next
    case 3
    note d = split64 [of c]
    have b: "c div 4096 < 16" "c div 64 mod 64 < 64" "c mod 64 < 64" using 3 by auto
    have lo: "c div 4096 = 0 \<Longrightarrow> 32 \<le> c div 64 mod 64" using 3 b d by linarith
    have hi: "c div 4096 = 13 \<Longrightarrow> c div 64 mod 64 < 32"
      using assms 3 b d unfolding valid_rune_def by linarith
    have dec: "c div 4096 * 4096 + c div 64 mod 64 * 64 + c mod 64 = c" using d by linarith
    show ?thesis using 3 b lo hi
      by (auto simp: encode_rune_def second_ok_def cont_def dec)
  next
    case 4
    have up: "c < 0x110000" using assms 4 by (auto simp: valid_rune_def)
    note d = split64 [of c]
    have b: "c div 262144 < 5" "c div 4096 mod 64 < 64" "c div 64 mod 64 < 64" "c mod 64 < 64"
      using up by auto
    have dec: "c div 262144 * 262144 + c div 4096 mod 64 * 4096 + c div 64 mod 64 * 64 + c mod 64 = c"
      using d by linarith
    have lo: "c div 262144 = 0 \<Longrightarrow> 16 \<le> c div 4096 mod 64" using 4 b d by linarith
    have hi: "c div 262144 = 4 \<Longrightarrow> c div 4096 mod 64 < 16" using up b d by linarith
    show ?thesis using 4 b lo hi
      by (auto simp: encode_rune_def second_ok_def cont_def dec)
  qed
qed

lemma encode_rune_nonempty [simp]: "encode_rune c \<noteq> []"
  by (simp add: encode_rune_def)

lemma encode_rune_bytes: "valid_rune c \<Longrightarrow> b \<in> set (encode_rune c) \<Longrightarrow> b < 256"
  by (auto simp: encode_rune_def valid_rune_def split: if_splits)

lemma runes_encode_rune:
  assumes "valid_rune c"
  shows "runes (encode_rune c @ bs) = Some c # runes bs"
proof -
  obtain b rest where e: "encode_rune c = b # rest" by (cases "encode_rune c") auto
  have "decode_rune (b # rest @ bs) = (Some c, Suc (length rest))"
    using decode_encode_rune [OF assms, of bs] by (simp add: e)
  then show ?thesis by (simp add: e)
qed

lemma runes_encode_all:
  "list_all valid_rune cs \<Longrightarrow> runes (concat (map encode_rune cs)) = map Some cs"
  by (induction cs) (auto simp: runes_encode_rune)

lemma bytes_of_bytes: "(\<And>b. b \<in> set bs \<Longrightarrow> b < 256) \<Longrightarrow> bytes (of_bytes bs) = bs"
  by (induction bs) (auto simp: bytes_def of_bytes_def)

lemma of_bytes_bytes [simp]: "of_bytes (bytes s) = s"
  by (induction s) (auto simp: bytes_def of_bytes_def)

lemma runes_utf8:
  assumes "list_all valid_rune cs"
  shows "runes (bytes (utf8 cs)) = map Some cs"
proof -
  have "bytes (utf8 cs) = concat (map encode_rune cs)"
    unfolding utf8_def using assms
    by (intro bytes_of_bytes) (auto simp: list_all_iff dest: encode_rune_bytes)
  then show ?thesis using runes_encode_all [OF assms] by simp
qed

lemma ValidString_utf8: "list_all valid_rune cs \<Longrightarrow> ValidString (utf8 cs)"
  by (simp add: ValidString_def runes_utf8 list_all_iff)

lemma RuneCount_utf8: "list_all valid_rune cs \<Longrightarrow> RuneCountInString (utf8 cs) = length cs"
  by (simp add: RuneCountInString_def runes_utf8)

lemma encode_rune_bounds:
  assumes "valid_rune c" and "b \<in> set (encode_rune c)"
  shows "b < 256" and "0x80 \<le> c \<Longrightarrow> 0x80 \<le> b" and "0 < c \<Longrightarrow> 0 < b"
  using assms by (auto simp: encode_rune_def valid_rune_def split: if_splits)

lemma length_encode_rune: "length (encode_rune c) \<le> 4"
  by (simp add: encode_rune_def)

lemma bytes_utf8: "list_all valid_rune cs \<Longrightarrow> bytes (utf8 cs) = concat (map encode_rune cs)"
  unfolding utf8_def by (rule bytes_of_bytes) (auto simp: list_all_iff encode_rune_bounds)

lemma length_utf8: "list_all valid_rune cs \<Longrightarrow> length (utf8 cs) \<le> 4 * length cs"
proof -
  have "length (concat (map encode_rune cs)) \<le> 4 * length cs"
    by (induction cs) (use length_encode_rune in \<open>auto simp: add_mono\<close>)
  then show ?thesis by (simp add: utf8_def of_bytes_def)
qed

lemma ValidString_Nil [simp]: "ValidString []"
  by (simp add: ValidString_def bytes_def)

lemma RuneCountInString_Nil [simp]: "RuneCountInString [] = 0"
  by (simp add: RuneCountInString_def bytes_def)

lemma length_runes_le: "length (runes bs) \<le> length bs"
proof (induction bs rule: runes.induct)
  case (2 b bs)
  obtain r n where d: "decode_rune (b # bs) = (r, n)" by force
  have "length (runes (drop (n - 1) bs)) \<le> length (drop (n - 1) bs)"
    using "2.IH" d by metis
  then show ?case by (simp add: d del: decode_rune.simps)
qed simp

lemma RuneCountInString_le: "RuneCountInString s \<le> length s"
  using length_runes_le [of "bytes s"] by (simp add: RuneCountInString_def bytes_def)

end
