(* ===== verification/Go_Strings.thy ===== *)
theory Go_Strings
  imports Go_Text
begin

text \<open>
  \<^verbatim>\<open>strings.TrimSpace\<close>, \<^verbatim>\<open>strings.Fields\<close> and their kin on byte strings.  UTF-8 is
  self-synchronising, so scanning for the encodings of the white-space code points byte by byte
  finds exactly the runes Go's rune-wise scan finds, in valid and in invalid text.
\<close>

text \<open>The code points with Unicode's White_Space property (\<^verbatim>\<open>unicode.IsSpace\<close>).\<close>

definition space_runes :: "nat list" where
  "space_runes = [9, 10, 11, 12, 13, 32, 0x85, 0xA0, 0x1680, 0x2000, 0x2001, 0x2002, 0x2003, 0x2004,
     0x2005, 0x2006, 0x2007, 0x2008, 0x2009, 0x200A, 0x2028, 0x2029, 0x202F, 0x205F, 0x3000]"

definition spaces :: "string list" where
  "spaces = map (\<lambda>c. of_bytes (encode_rune c)) space_runes"

definition strip_one :: "'a list list \<Rightarrow> 'a list \<Rightarrow> 'a list option" where
  "strip_one encs s =
     (case find (\<lambda>e. e \<noteq> [] \<and> take (length e) s = e) encs of
        None \<Rightarrow> None | Some e \<Rightarrow> Some (drop (length e) s))"

lemma strip_one_shorter: "strip_one encs s = Some s' \<Longrightarrow> length s' < length s"
  by (auto simp: strip_one_def split: option.splits dest!: find_Some_ex)
    (metis diff_less length_0_conv length_greater_0_conv take_Nil)

function trim_with :: "'a list list \<Rightarrow> 'a list \<Rightarrow> 'a list" where
  "trim_with encs s = (case strip_one encs s of None \<Rightarrow> s | Some s' \<Rightarrow> trim_with encs s')"
  by pat_completeness auto
termination
  by (relation "measure (\<lambda>(encs, s). length s)") (auto dest: strip_one_shorter)

declare trim_with.simps [simp del]

definition TrimSpace :: "string \<Rightarrow> string" where
  "TrimSpace s = rev (trim_with (map rev spaces) (rev (trim_with spaces s)))"

definition ContainsByte :: "string \<Rightarrow> nat \<Rightarrow> bool" where
  "ContainsByte s c \<longleftrightarrow> c \<in> set (bytes s)"

definition HasPrefix :: "string \<Rightarrow> string \<Rightarrow> bool" where
  "HasPrefix s p \<longleftrightarrow> take (length p) s = p"

definition lower_byte :: "nat \<Rightarrow> nat" where
  "lower_byte b = (if 65 \<le> b \<and> b \<le> 90 then b + 32 else b)"

definition lower_ascii :: "string \<Rightarrow> string" where
  "lower_ascii s = of_bytes (map lower_byte (bytes s))"

text \<open>
  \<^verbatim>\<open>strings.ToLower\<close>: ASCII text is mapped byte-wise; other text goes through the Unicode
  case tables, the parameter \<open>unicode_lower\<close>.
\<close>

definition ToLower :: "(string \<Rightarrow> string) \<Rightarrow> string \<Rightarrow> string" where
  "ToLower unicode_lower s =
     (if list_all (\<lambda>b. b < 0x80) (bytes s) then lower_ascii s else unicode_lower s)"

function fields_from :: "string \<Rightarrow> string \<Rightarrow> string list" where
  "fields_from cur s =
     (case s of
        [] \<Rightarrow> if cur = [] then [] else [rev cur]
      | c # cs \<Rightarrow>
          (case strip_one spaces s of
             Some s' \<Rightarrow> if cur = [] then fields_from [] s' else rev cur # fields_from [] s'
           | None \<Rightarrow> fields_from (c # cur) cs))"
  by pat_completeness auto
termination
  by (relation "measure (\<lambda>(cur, s). length s)") (auto dest: strip_one_shorter)

declare fields_from.simps [simp del]

definition Fields :: "string \<Rightarrow> string list" where
  "Fields s = fields_from [] s"

subsection \<open>Trimming\<close>

lemma trim_with_stable: "strip_one encs (trim_with encs s) = None"
proof (induction encs s rule: trim_with.induct)
  case (1 encs s)
  show ?case
    by (cases "strip_one encs s") (auto simp: trim_with.simps [of encs s] dest: 1)
qed

lemma trim_with_fix: "strip_one encs s = None \<Longrightarrow> trim_with encs s = s"
  by (simp add: trim_with.simps [of encs s])

lemma strip_one_suffix: "strip_one encs s = Some s' \<Longrightarrow> suffix s' s"
  by (auto simp: strip_one_def suffix_drop split: option.splits)

lemma trim_with_suffix: "suffix (trim_with encs s) s"
proof (induction encs s rule: trim_with.induct)
  case (1 encs s)
  show ?case
    by (cases "strip_one encs s")
      (auto simp: trim_with.simps [of encs s] dest: 1 strip_one_suffix suffix_order.trans)
qed

lemma strip_one_prefix_None:
  assumes "strip_one encs s = None" and "prefix t s"
  shows "strip_one encs t = None"
proof -
  have "\<not> (e \<noteq> [] \<and> take (length e) t = e)" if "e \<in> set encs" for e
  proof
    assume a: "e \<noteq> [] \<and> take (length e) t = e"
    then have "prefix e t" by (metis take_is_prefix)
    then have "prefix e s" using assms(2) prefix_order.trans by blast
    then have "take (length e) s = e" by (metis append_eq_conv_conj prefix_def)
    with a assms(1) that show False
      by (auto simp: strip_one_def find_None_all split: option.splits)
  qed
  then have "find (\<lambda>e. e \<noteq> [] \<and> take (length e) t = e) encs = None"
    unfolding find_None_all by blast
  then show ?thesis by (simp add: strip_one_def)
qed

lemma TrimSpace_left_clean: "strip_one spaces (TrimSpace s) = None"
proof -
  have "prefix (TrimSpace s) (trim_with spaces s)"
    using trim_with_suffix [of "map rev spaces" "rev (trim_with spaces s)"]
    by (simp add: TrimSpace_def suffix_to_prefix)
  then show ?thesis using trim_with_stable strip_one_prefix_None by blast
qed

lemma TrimSpace_right_clean: "strip_one (map rev spaces) (rev (TrimSpace s)) = None"
  by (simp add: TrimSpace_def trim_with_stable)

lemma TrimSpace_idem [simp]: "TrimSpace (TrimSpace s) = TrimSpace s"
  by (subst TrimSpace_def) (simp add: trim_with_fix TrimSpace_left_clean TrimSpace_right_clean)

lemma length_TrimSpace: "length (TrimSpace s) \<le> length s"
proof -
  have "length (trim_with (map rev spaces) (rev (trim_with spaces s))) \<le> length (trim_with spaces s)"
    using suffix_length_le [OF trim_with_suffix, of "map rev spaces" "rev (trim_with spaces s)"] by simp
  also have "\<dots> \<le> length s" by (rule suffix_length_le [OF trim_with_suffix])
  finally show ?thesis by (simp add: TrimSpace_def)
qed

lemma TrimSpace_sublist: "sublist (TrimSpace s) s"
proof -
  have p: "prefix (TrimSpace s) (trim_with spaces s)"
    using trim_with_suffix [of "map rev spaces" "rev (trim_with spaces s)"]
    by (simp add: TrimSpace_def suffix_to_prefix)
  have "suffix (trim_with spaces s) s" by (rule trim_with_suffix)
  with p show ?thesis
    by (meson prefix_imp_sublist sublist_order.order.trans suffix_imp_sublist)
qed

lemma set_TrimSpace: "set (TrimSpace s) \<subseteq> set s"
  using TrimSpace_sublist by (meson set_mono_sublist)

lemma ContainsByte_TrimSpace: "ContainsByte (TrimSpace s) c \<Longrightarrow> ContainsByte s c"
  using set_TrimSpace unfolding ContainsByte_def bytes_def by fastforce

subsection \<open>Lower case\<close>

lemma lower_byte_idem [simp]: "lower_byte (lower_byte b) = lower_byte b"
  by (simp add: lower_byte_def)

lemma lower_byte_ascii: "b < 0x80 \<Longrightarrow> lower_byte b < 0x80"
  by (simp add: lower_byte_def)

lemma bytes_lower_ascii: "bytes (lower_ascii s) = map lower_byte (bytes s)"
proof -
  have "lower_byte b < 256" if "b \<in> set (bytes s)" for b
    using that by (auto simp: bytes_def lower_byte_def)
  then show ?thesis unfolding lower_ascii_def by (intro bytes_of_bytes) auto
qed

lemma length_lower_ascii [simp]: "length (lower_ascii s) = length s"
  by (simp add: lower_ascii_def of_bytes_def bytes_def)

lemma lower_ascii_idem [simp]: "lower_ascii (lower_ascii s) = lower_ascii s"
  by (simp add: lower_ascii_def [of "lower_ascii s"] bytes_lower_ascii comp_def)
    (simp add: lower_ascii_def)

lemma ToLower_ascii_idem:
  "list_all (\<lambda>b. b < 0x80) (bytes s) \<Longrightarrow> ToLower u (ToLower u s) = ToLower u s"
  by (simp add: ToLower_def bytes_lower_ascii list_all_iff lower_byte_ascii)

subsection \<open>Fields\<close>

lemma fields_from_nonempty: "f \<in> set (fields_from cur s) \<Longrightarrow> f \<noteq> []"
proof (induction cur s rule: fields_from.induct)
  case (1 cur s)
  show ?case
    using 1 by (auto simp: fields_from.simps [of cur s] split: list.splits option.splits if_splits)
qed

lemma Fields_nonempty: "f \<in> set (Fields s) \<Longrightarrow> f \<noteq> []"
  by (simp add: Fields_def fields_from_nonempty)

subsection \<open>Text that needs no trimming\<close>

definition plain_byte :: "nat \<Rightarrow> bool" where
  "plain_byte b \<longleftrightarrow> 32 < b \<and> b < 0x80"

lemma spaces_heads: "e \<in> set spaces \<Longrightarrow> \<not> plain_byte (of_char (hd e)) \<and> e \<noteq> []"
  by (auto simp: spaces_def space_runes_def encode_rune_def of_bytes_def plain_byte_def)

lemma spaces_lasts: "e \<in> set (map rev spaces) \<Longrightarrow> \<not> plain_byte (of_char (hd e)) \<and> e \<noteq> []"
  by (auto simp: spaces_def space_runes_def encode_rune_def of_bytes_def plain_byte_def)

lemma strip_one_plain:
  assumes "\<And>e. e \<in> set encs \<Longrightarrow> \<not> plain_byte (of_char (hd e)) \<and> e \<noteq> []" and "plain_byte (of_char c)"
  shows "strip_one encs (c # s) = None"
proof -
  have "find (\<lambda>e. e \<noteq> [] \<and> take (length e) (c # s) = e) encs = None"
    unfolding find_None_all
  proof (intro ballI notI)
    fix e assume e: "e \<in> set encs" "e \<noteq> [] \<and> take (length e) (c # s) = e"
    then obtain x xs where "e = x # xs" by (meson neq_Nil_conv)
    with e(2) have "hd e = c" by simp
    with e(1) assms show False by blast
  qed
  then show ?thesis by (simp add: strip_one_def)
qed

lemma ToLower_lower:
  assumes "list_all (\<lambda>b. b < 0x80 \<and> lower_byte b = b) (bytes s)"
  shows "ToLower u s = s"
proof -
  have "map lower_byte (bytes s) = bytes s" using assms by (simp add: list_all_iff map_idI)
  with assms show ?thesis
    by (auto simp: ToLower_def lower_ascii_def list_all_iff of_bytes_def bytes_def comp_def intro: map_idI)
qed

lemma TrimSpace_plain:
  assumes "s \<noteq> ''''" "plain_byte (of_char (hd s))" "plain_byte (of_char (last s))"
  shows "TrimSpace s = s"
proof -
  have "strip_one spaces s = None"
    using assms strip_one_plain [of spaces, OF spaces_heads] by (cases s) auto
  moreover have "strip_one (map rev spaces) (rev s) = None"
    using assms strip_one_plain [of "map rev spaces", OF spaces_lasts] by (cases "rev s") (auto simp: hd_rev [symmetric] simp del: hd_rev)
  ultimately show ?thesis
    by (simp add: TrimSpace_def trim_with.simps [of spaces s] trim_with.simps [of "map rev spaces" "rev s"])
qed

end
