(* ===== verification/App_Error.thy ===== *)
theory App_Error
  imports Go_Strings "HOL-Library.Word"
begin

text \<open>
  Go's error values as far as the program looks into them: the sentinels it compares with
  \<^verbatim>\<open>errors.Is\<close>, the types it extracts with \<^verbatim>\<open>errors.As\<close>, and the wrappers that
  build error chains; then \<^verbatim>\<open>internal/apperror\<close>: classified business errors, retry delays
  and the diagnostic attributes that are the only thing of an error that reaches a log.
  A nil error is \<^const>\<open>None\<close> where a function takes or returns a possibly nil error.
\<close>

datatype Kind =
    NotFound | Conflict | Invalid | Unauthenticated | Unavailable | Forbidden | RateLimited
  | OtherKind "8 word" \<comment> \<open>the values of the uint8 that no constant names\<close>

text \<open>
  An \<^verbatim>\<open>*apperror.Error\<close>.  The program compares the pointers of package variables; no two
  of them share kind and message, so the pair stands for the pointer.
\<close>

datatype app_error = AppError (ae_kind: Kind) (ae_message: string)

datatype sentinel =
    Canceled | DeadlineExceeded | EOF | ErrUnexpectedEOF | ErrNoRows
  | ErrUnauthorized | IdentityUnavailable | ErrInvalidSubject | PaginationErrInvalid
  | FederationErrProof | FederationErrUnavailable
  | ErrInvalidKey | ErrInvalidTask | ErrReentrant | LockerErrUnavailable | ErrLockLost | ErrRelease

datatype goerr =
    Sentinel sentinel
  | Business app_error
  | PgError (pg_code: string) (pg_constraint: string)
  | NetError bool \<comment> \<open>a net.Error, with its Timeout()\<close>
  | Plain string \<comment> \<open>errors.New, or fmt.Errorf without a wrapped error\<close>
  | Wrapped string "goerr list" \<comment> \<open>a format and the errors it wraps, in order\<close>
  | RetryError goerr time
  | StageError string string int goerr
  | StatusError int string "string list" \<comment> \<open>huma.StatusError: status, detail, Errors messages\<close>

text \<open>The nodes of the error tree in the depth-first pre-order of \<^verbatim>\<open>errors.Is\<close>/\<^verbatim>\<open>As\<close>.\<close>

fun chain :: "goerr \<Rightarrow> goerr list" where
  "chain (Wrapped t es) = Wrapped t es # concat (map chain es)"
| "chain (RetryError e d) = RetryError e d # chain e"
| "chain (StageError s m a e) = StageError s m a e # chain e"
| "chain e = [e]"

fun first_some :: "('a \<Rightarrow> 'b option) \<Rightarrow> 'a list \<Rightarrow> 'b option" where
  "first_some f [] = None"
| "first_some f (x # xs) = (case f x of None \<Rightarrow> first_some f xs | Some y \<Rightarrow> Some y)"

definition errors_is :: "goerr \<Rightarrow> goerr \<Rightarrow> bool" where
  "errors_is e target \<longleftrightarrow> target \<in> set (chain e)"

definition as_business :: "goerr \<Rightarrow> app_error option" where
  "as_business e = first_some (\<lambda>x. case x of Business b \<Rightarrow> Some b | _ \<Rightarrow> None) (chain e)"

definition as_sqlstate :: "goerr \<Rightarrow> string option" where
  "as_sqlstate e = first_some (\<lambda>x. case x of PgError c k \<Rightarrow> Some c | _ \<Rightarrow> None) (chain e)"

definition as_pgerror :: "goerr \<Rightarrow> (string \<times> string) option" where
  "as_pgerror e = first_some (\<lambda>x. case x of PgError c k \<Rightarrow> Some (c, k) | _ \<Rightarrow> None) (chain e)"

definition as_neterror :: "goerr \<Rightarrow> bool option" where
  "as_neterror e = first_some (\<lambda>x. case x of NetError t \<Rightarrow> Some t
     | Sentinel DeadlineExceeded \<Rightarrow> Some True | _ \<Rightarrow> None) (chain e)"

definition as_status :: "goerr \<Rightarrow> (int \<times> string \<times> string list) option" where
  "as_status e = first_some (\<lambda>x. case x of StatusError s d es \<Rightarrow> Some (s, d, es) | _ \<Rightarrow> None) (chain e)"

definition as_retry :: "goerr \<Rightarrow> time option" where
  "as_retry e = first_some (\<lambda>x. case x of RetryError c d \<Rightarrow> Some d | _ \<Rightarrow> None) (chain e)"

definition as_stage :: "goerr \<Rightarrow> (string \<times> string \<times> int \<times> goerr) option" where
  "as_stage e = first_some (\<lambda>x. case x of StageError s m a c \<Rightarrow> Some (s, m, a, c) | _ \<Rightarrow> None) (chain e)"

text \<open>\<^verbatim>\<open>errors.Join\<close>: the errors that are not nil, under a node without text of its own; nil for none.\<close>

definition errors_Join :: "goerr option list \<Rightarrow> goerr option" where
  "errors_Join es = (case List.map_filter (\<lambda>e. e) es of [] \<Rightarrow> None | xs \<Rightarrow> Some (Wrapped [] xs))"

lemma errors_Join_None: "errors_Join es = None \<longleftrightarrow> (\<forall>e \<in> set es. e = None)"
proof -
  have "List.map_filter (\<lambda>e. e) es = [] \<longleftrightarrow> (\<forall>e \<in> set es. e = None)"
    by (induction es) (auto simp: map_filter_simps split: option.split)
  then show ?thesis by (auto simp: errors_Join_def split: list.split)
qed

subsection \<open>internal/apperror\<close>

definition apperror_ErrUnauthenticated :: app_error where
  "apperror_ErrUnauthenticated = AppError Unauthenticated ''authenticated subject required''"

definition Wrap :: "app_error option \<Rightarrow> goerr option \<Rightarrow> goerr option" where
  "Wrap business cause =
     (case business of
        None \<Rightarrow> cause
      | Some b \<Rightarrow>
          (case cause of
             None \<Rightarrow> Some (Business b)
           | Some c \<Rightarrow> Some (Wrapped '': '' [Business b, c])))"

definition WithRetryAfter :: "goerr option \<Rightarrow> time \<Rightarrow> goerr option" where
  "WithRetryAfter err delay =
     (case err of
        None \<Rightarrow> None
      | Some e \<Rightarrow> Some (RetryError e (if delay < second then second else delay)))"

definition RetryAfter :: "goerr \<Rightarrow> time \<times> bool" where
  "RetryAfter e = (case as_retry e of None \<Rightarrow> (0, False) | Some d \<Rightarrow> (d, True))"

definition validSQLState :: "string \<Rightarrow> bool" where
  "validSQLState code \<longleftrightarrow>
     length code = 5 \<and> list_all (\<lambda>b. (48 \<le> b \<and> b \<le> 57) \<or> (65 \<le> b \<and> b \<le> 90)) (bytes code)"

fun kind_reason :: "Kind \<Rightarrow> string" where
  "kind_reason NotFound = ''not_found''"
| "kind_reason Conflict = ''conflict''"
| "kind_reason Invalid = ''invalid_input''"
| "kind_reason Unauthenticated = ''unauthenticated''"
| "kind_reason Unavailable = ''dependency_unavailable''"
| "kind_reason Forbidden = ''forbidden''"
| "kind_reason RateLimited = ''rate_limited''"
| "kind_reason (OtherKind k) = ''internal_error''"

definition diagnostic_reason :: "goerr \<Rightarrow> string \<times> string" where
  "diagnostic_reason e =
     (if errors_is e (Sentinel Canceled) then (''canceled'', '''')
      else if errors_is e (Sentinel DeadlineExceeded) then (''deadline_exceeded'', '''')
      else case as_sqlstate e of
        Some code \<Rightarrow> (''database_error'', if validSQLState code then code else '''')
      | None \<Rightarrow>
          (case as_neterror e of
             Some timeout \<Rightarrow> (if timeout then ''network_timeout'' else ''network_error'', '''')
           | None \<Rightarrow>
               if errors_is e (Sentinel EOF) \<or> errors_is e (Sentinel ErrUnexpectedEOF)
               then (''connection_closed'', '''')
               else (case as_business e of
                       Some b \<Rightarrow> (kind_reason (ae_kind b), '''')
                     | None \<Rightarrow> (''internal_error'', ''''))))"

definition DiagnosticAttrs :: "goerr option \<Rightarrow> (string \<times> string) list" where
  "DiagnosticAttrs err =
     (case err of
        None \<Rightarrow> []
      | Some e \<Rightarrow>
          (case diagnostic_reason e of
             (reason, sqlState) \<Rightarrow>
               (''reason_code'', reason) # (if sqlState = '''' then [] else [(''sqlstate'', sqlState)])))"

subsection \<open>Facts about chains\<close>

lemma chain_self [simp]: "e \<in> set (chain e)"
  by (cases e) auto

lemma chain_nonempty [simp]: "chain e \<noteq> []"
  by (cases e) auto

lemma errors_is_refl [simp]: "errors_is e e"
  by (simp add: errors_is_def)

lemma errors_is_leaf [simp]:
  "errors_is (Sentinel s) t \<longleftrightarrow> t = Sentinel s"
  "errors_is (Business b) t \<longleftrightarrow> t = Business b"
  "errors_is (PgError c k) t \<longleftrightarrow> t = PgError c k"
  "errors_is (Plain m) t \<longleftrightarrow> t = Plain m"
  "errors_is (StatusError n d es) t \<longleftrightarrow> t = StatusError n d es"
  by (auto simp: errors_is_def)

lemma errors_is_wrapped [simp]:
  "errors_is (Wrapped f es) t \<longleftrightarrow> t = Wrapped f es \<or> (\<exists>e \<in> set es. errors_is e t)"
  "errors_is (RetryError e d) t \<longleftrightarrow> t = RetryError e d \<or> errors_is e t"
  "errors_is (StageError st m a e) t \<longleftrightarrow> t = StageError st m a e \<or> errors_is e t"
  by (auto simp: errors_is_def)

lemma first_some_append:
  "first_some f (xs @ ys) = (case first_some f xs of None \<Rightarrow> first_some f ys | Some y \<Rightarrow> Some y)"
  by (induction xs) (auto split: option.splits)

lemma as_business_simps [simp]:
  "as_business (Business b) = Some b"
  "as_business (Sentinel s) = None"
  "as_business (PgError c k) = None"
  "as_business (Plain m) = None"
  "as_business (StatusError n d0 es) = None"
  "as_business (RetryError e d) = as_business e"
  "as_business (StageError st m a e) = as_business e"
  "as_business (Wrapped f []) = None"
  "as_business (Wrapped f (e # errs)) =
     (case as_business e of None \<Rightarrow> as_business (Wrapped f errs) | Some b' \<Rightarrow> Some b')"
  by (simp_all add: as_business_def first_some_append split: option.split)

lemma as_retry_RetryError [simp]: "as_retry (RetryError e d) = Some d"
  by (simp add: as_retry_def)

lemma Wrap_Some [simp]:
  "Wrap (Some b) (Some c) = Some (Wrapped '': '' [Business b, c])"
  "Wrap (Some b) None = Some (Business b)" "Wrap None c' = c'"
  by (simp_all add: Wrap_def)

lemma RetryAfter_WithRetryAfter:
  "map_option RetryAfter (WithRetryAfter (Some e) d) = Some (max second d, True)"
  by (simp add: WithRetryAfter_def RetryAfter_def max_def)

lemma kind_reason_mem:
  "kind_reason k \<in> {''not_found'', ''conflict'', ''invalid_input'', ''unauthenticated'',
     ''dependency_unavailable'', ''forbidden'', ''rate_limited'', ''internal_error''}"
  by (cases k) auto

end
