(* ===== verification/Schema.thy ===== *)
theory Schema
  imports App_Error
begin

text \<open>
  The ten tables of \<^verbatim>\<open>internal/db/migrations/00001_init.sql\<close> with the row types that sqlc
  generates from them (\<^verbatim>\<open>internal/db/sqlc/models.go\<close>).  TEXT columns are byte strings,
  nullable columns are options, BIGINT version counters are unbounded integers (an overflow would
  need \<open>2 ^ 63\<close> bumps of one row), timestamps are nanoseconds.
\<close>

record project_row =
  p_ID :: string
  p_OwnerID :: string
  p_Name :: string
  p_Description :: string
  p_CreatedAt :: time
  p_UpdatedAt :: time

record task_row =
  t_ID :: string
  t_OwnerID :: string
  t_Title :: string
  t_Description :: string
  t_Status :: string
  t_CreatedAt :: time
  t_UpdatedAt :: time

record user_row =
  u_ID :: string
  u_DisplayName :: string
  u_Email :: "string option"
  u_EmailNormalized :: "string option"
  u_EmailVerifiedAt :: "time option"
  u_RecoveryEnabled :: bool
  u_Status :: string
  u_Role :: string
  u_AuthVersion :: int
  u_CreatedAt :: time
  u_UpdatedAt :: time

record account_row =
  a_ID :: string
  a_UserID :: string
  a_ProviderID :: string
  a_ProviderAccountID :: string
  a_ProviderNamespace :: string
  a_PasswordHash :: "string option"
  a_Version :: int
  a_CreatedAt :: time
  a_UpdatedAt :: time
  a_LastUsedAt :: "time option"
  a_RevokedAt :: "time option"

record session_row =
  s_ID :: string
  s_UserID :: string
  s_TokenHash :: string
  s_AuthMethod :: string
  s_AuthSourceID :: string
  s_AuthenticatedAt :: time
  s_AuthVersion :: int
  s_CreatedAt :: time
  s_LastSeenAt :: time
  s_IdleExpiresAt :: time
  s_AbsoluteExpiresAt :: time
  s_RevokedAt :: "time option"

record flow_row =
  f_ID :: string
  f_Purpose :: string
  f_TokenHash :: "string option"
  f_ProviderID :: string
  f_ConfigVersion :: string
  f_UserID :: "string option"
  f_SessionID :: "string option"
  f_AuthVersion :: int
  f_AccountID :: "string option"
  f_AccountVersion :: int
  f_Operation :: string
  f_Target :: string
  f_ReauthenticationID :: "string option"
  f_ClaimedBy :: "string option"
  f_StateHash :: "string option"
  f_ProtocolState :: "string option"
  f_VerifiedNamespace :: string
  f_VerifiedSubject :: string
  f_VerifiedName :: string
  f_AuthenticatedAt :: "time option"
  f_Status :: string
  f_CreatedAt :: time
  f_ExpiresAt :: time

record verification_row =
  v_ID :: string
  v_UserID :: string
  v_Purpose :: string
  v_TokenHash :: string
  v_Email :: string
  v_AuthVersion :: int
  v_SessionID :: "string option"
  v_ReauthenticationID :: "string option"
  v_CreatedAt :: time
  v_ExpiresAt :: time
  v_ConsumedAt :: "time option"

record audit_row =
  au_ID :: string
  au_OccurredAt :: time
  au_Action :: string
  au_Outcome :: string
  au_ActorType :: string
  au_ActorID :: "string option"
  au_ResourceType :: string
  au_ResourceID :: "string option"
  au_ScopeSubject :: "string option"
  au_SessionID :: "string option"
  au_RequestID :: "string option"
  au_ReasonCode :: "string option"
  au_SchemaVersion :: int
  au_Metadata :: string

record rate_row =
  r_BucketKey :: string
  r_Count :: int
  r_ExpiresAt :: time

record mail_row =
  m_ID :: string
  m_Kind :: string
  m_Recipient :: string
  m_Subject :: string
  m_Body :: string
  m_Status :: string
  m_Attempts :: int
  m_AvailableAt :: time
  m_ExpiresAt :: time
  m_LeaseID :: "string option"
  m_LeasedUntil :: "time option"
  m_LastError :: "string option"
  m_CreatedAt :: time
  m_CompletedAt :: "time option"

record db =
  projects :: "project_row list"
  tasks :: "task_row list"
  users :: "user_row list"
  accounts :: "account_row list"
  user_sessions :: "session_row list"
  auth_flows :: "flow_row list"
  auth_verifications :: "verification_row list"
  audit_events :: "audit_row list"
  auth_rate_limits :: "rate_row list"
  mail_outbox :: "mail_row list"

definition empty_db :: db where
  "empty_db = \<lparr>projects = [], tasks = [], users = [], accounts = [], user_sessions = [],
     auth_flows = [], auth_verifications = [], audit_events = [], auth_rate_limits = [],
     mail_outbox = []\<rparr>"

text \<open>
  A SQL statement: the value of \<^verbatim>\<open>now()\<close> and the database give the rows (or the server's
  error) and the new database.  \<open>one\<close> is a \<^verbatim>\<open>:one\<close> query, which reports
  \<^verbatim>\<open>pgx.ErrNoRows\<close> when there is no row.
\<close>

type_synonym 'a stmt = "time \<Rightarrow> db \<Rightarrow> (goerr + 'a) \<times> db"

definition one :: "'r option \<Rightarrow> goerr + 'r" where
  "one r = (case r of None \<Rightarrow> Inl (Sentinel ErrNoRows) | Some x \<Rightarrow> Inr x)"

definition uniqueViolationSQLState :: string where
  "uniqueViolationSQLState = ''23505''"

definition foreignKeyViolationSQLState :: string where
  "foreignKeyViolationSQLState = ''23503''"

definition unique_violation :: "string \<Rightarrow> goerr + 'a" where
  "unique_violation constraint = Inl (PgError uniqueViolationSQLState constraint)"

definition fk_violation :: "string \<Rightarrow> goerr + 'a" where
  "fk_violation constraint = Inl (PgError foreignKeyViolationSQLState constraint)"

lemma one_simps [simp]: "one (Some x) = Inr x" "one None = Inl (Sentinel ErrNoRows)"
  by (simp_all add: one_def)

lemma one_Inr [simp]: "one r = Inr x \<longleftrightarrow> r = Some x"
  by (auto simp: one_def split: option.splits)

lemma one_Inl [simp]: "one r = Inl e \<longleftrightarrow> r = None \<and> e = Sentinel ErrNoRows"
  by (auto simp: one_def split: option.splits)

lemma violation_not_Inr [simp]: "unique_violation c \<noteq> Inr x" "fk_violation c' \<noteq> Inr y"
  by (simp_all add: unique_violation_def fk_violation_def)

end
