(* ===== verification/Validation.thy ===== *)
theory Validation
  imports App_Error
begin

text \<open>
  \<^verbatim>\<open>internal/validation\<close> and the subject checks of \<^verbatim>\<open>internal/identity\<close>: opaque
  identifiers, bounded text, e-mail syntax.  \<open>parse_address\<close> is
  \<^verbatim>\<open>net/mail.ParseAddress\<close>, giving the \<^verbatim>\<open>Address\<close> field when it succeeds.
\<close>

definition MaxIdentifierBytes :: nat where
  "MaxIdentifierBytes = 255"

definition Identifier :: "string \<Rightarrow> bool" where
  "Identifier value \<longleftrightarrow> length value \<le> MaxIdentifierBytes \<and> TrimSpace value \<noteq> ''''
     \<and> ValidString value \<and> \<not> ContainsByte value 0"

definition TextWithin :: "string \<Rightarrow> int \<Rightarrow> bool" where
  "TextWithin value maxRunes \<longleftrightarrow> ValidString value \<and> maxRunes \<ge> 0
     \<and> int (RuneCountInString value) \<le> maxRunes \<and> \<not> ContainsByte value 0"

definition RequiredText :: "string \<Rightarrow> int \<Rightarrow> string \<times> bool" where
  "RequiredText value0 maxRunes =
     (let value = TrimSpace value0 in (value, value \<noteq> '''' \<and> TextWithin value maxRunes))"

definition Email :: "(string \<Rightarrow> string option) \<Rightarrow> string \<Rightarrow> bool" where
  "Email parse_address value =
     (if value = '''' \<or> \<not> ValidString value
         \<or> ContainsByte value 13 \<or> ContainsByte value 10 \<or> ContainsByte value 0
      then False
      else case parse_address value of
        None \<Rightarrow> False
      | Some address \<Rightarrow> address = value \<and> ContainsByte value 64)"

definition ValidateSubject :: "string \<Rightarrow> goerr option" where
  "ValidateSubject subject = (if \<not> Identifier subject then Some (Sentinel ErrInvalidSubject) else None)"

definition RequireSubject :: "string \<Rightarrow> goerr option" where
  "RequireSubject subject =
     (if ValidateSubject subject \<noteq> None then Some (Business apperror_ErrUnauthenticated) else None)"

lemma Identifier_nonempty: "Identifier s \<Longrightarrow> s \<noteq> ''''"
  using length_TrimSpace [of s] by (auto simp: Identifier_def)

lemma RequireSubject_None [simp]: "RequireSubject s = None \<longleftrightarrow> Identifier s"
  by (simp add: RequireSubject_def ValidateSubject_def)

lemma RequireSubject_Some [simp]:
  "RequireSubject s = Some e \<longleftrightarrow> \<not> Identifier s \<and> e = Business apperror_ErrUnauthenticated"
  by (auto simp: RequireSubject_def ValidateSubject_def)

lemma RequiredText_idem:
  "snd (RequiredText v n) \<Longrightarrow> RequiredText (fst (RequiredText v n)) n = (fst (RequiredText v n), True)"
  by (simp add: RequiredText_def Let_def)

lemma Email_nonempty: "Email pa v \<Longrightarrow> v \<noteq> ''''"
  by (auto simp: Email_def split: if_splits)

text \<open>What evaluates the checks on concrete ASCII text.\<close>

lemmas text_eval = RequireSubject_def ValidateSubject_def Identifier_def MaxIdentifierBytes_def TrimSpace_plain plain_byte_def ValidString_def
  bytes_def ContainsByte_def TextWithin_def RequiredText_def RuneCountInString_def Let_def

end
