(* ===== verification/World.thy ===== *)
theory World
  imports Schema Validation
begin

text \<open>
  How the services run: \<^verbatim>\<open>internal/db/errors.go\<close> and \<^verbatim>\<open>internal/db/transaction.go\<close>
  over an explicit world.  An action takes the world and returns an error or a value, and the new
  world.  What lies outside the program is the environment \<^term>\<open>cx\<close>, by step number:
  \<^item> \<open>e_clock\<close>: the database's \<^verbatim>\<open>now()\<close>; constant inside a transaction;
  \<^item> \<open>e_now\<close>: the process clock, \<^verbatim>\<open>time.Now()\<close>;
  \<^item> \<open>e_fault\<close>: whether a statement, a begin or a commit fails, with which error, and
    whether the server had applied it all the same (a lost acknowledgement);
  \<^item> \<open>e_other\<close>: what other sessions commit between two statements of this one.  A
    transaction's own statements are not interleaved with those of others;
  \<^item> \<open>e_id\<close>, \<open>e_rand\<close>: \<^verbatim>\<open>uuid.NewString\<close> and \<^verbatim>\<open>crypto/rand\<close>;
  \<^item> the library functions \<open>e_sha256\<close>, \<open>e_parse_address\<close>, \<open>e_unicode_lower\<close>
    and the collation \<open>e_collate\<close> of the database;
  \<^item> \<open>e_locked\<close>: the rows other sessions hold locked (skipped by \<^verbatim>\<open>SKIP LOCKED\<close>), and
    \<open>e_jitter\<close>: the draws of \<^verbatim>\<open>math/rand\<close>.
\<close>

datatype fault = Fault goerr bool

record env =
  e_clock :: "nat \<Rightarrow> time"
  e_now :: "nat \<Rightarrow> time"
  e_fault :: "nat \<Rightarrow> fault option"
  e_other :: "nat \<Rightarrow> db \<Rightarrow> db"
  e_id :: "nat \<Rightarrow> string"
  e_rand :: "nat \<Rightarrow> string"
  e_sha256 :: "string \<Rightarrow> string"
  e_parse_address :: "string \<Rightarrow> string option"
  e_unicode_lower :: "string \<Rightarrow> string"
  e_collate :: "string \<Rightarrow> string \<Rightarrow> bool"
  e_locked :: "nat \<Rightarrow> string \<Rightarrow> bool"
  e_jitter :: "nat \<Rightarrow> nat"

record world =
  w_db :: db
  w_step :: nat
  w_seed :: nat
  w_var :: string \<comment> \<open>a captured variable that a transaction's closure assigns\<close>

datatype conn = Pool | Tx time \<comment> \<open>sqlc.DBTX: the pool, or a transaction with its now()\<close>

type_synonym 'a act = "world \<Rightarrow> (goerr + 'a) \<times> world"

definition ret :: "'a \<Rightarrow> 'a act" where
  "ret a w = (Inr a, w)"

definition fail :: "goerr \<Rightarrow> 'a act" where
  "fail e w = (Inl e, w)"

definition bindA :: "'a act \<Rightarrow> ('a \<Rightarrow> 'b act) \<Rightarrow> 'b act" where
  "bindA m f w = (case m w of (Inl e, w') \<Rightarrow> (Inl e, w') | (Inr a, w') \<Rightarrow> f a w')"

text \<open>\<open>attempt m f\<close>: the caller looks at the error itself.\<close>

definition attempt :: "'a act \<Rightarrow> (goerr + 'a \<Rightarrow> 'b act) \<Rightarrow> 'b act" where
  "attempt m f w = (case m w of (r, w') \<Rightarrow> f r w')"

definition require :: "bool \<Rightarrow> goerr \<Rightarrow> unit act" where
  "require b e = (if b then ret () else fail e)"

definition check_err :: "goerr option \<Rightarrow> unit act" where
  "check_err e = (case e of None \<Rightarrow> ret () | Some x \<Rightarrow> fail x)"

definition from_sum :: "goerr + 'a \<Rightarrow> 'a act" where
  "from_sum r = (case r of Inl e \<Rightarrow> fail e | Inr a \<Rightarrow> ret a)"

definition query :: "env \<Rightarrow> conn \<Rightarrow> 'a stmt \<Rightarrow> 'a act" where
  "query cx q f w =
     (let n = w_step w;
          t = (case q of Pool \<Rightarrow> e_clock cx n | Tx t \<Rightarrow> t);
          d = (case q of Pool \<Rightarrow> e_other cx n (w_db w) | Tx t \<Rightarrow> w_db w);
          out = f t d;
          w1 = w\<lparr>w_step := Suc n, w_db := d\<rparr>
      in case e_fault cx n of
           None \<Rightarrow> (fst out, w1\<lparr>w_db := snd out\<rparr>)
         | Some (Fault e applied) \<Rightarrow> (Inl e, if applied then w1\<lparr>w_db := snd out\<rparr> else w1))"

definition NewID :: "env \<Rightarrow> string act" where
  "NewID cx w = (Inr (e_id cx (w_seed w)), w\<lparr>w_seed := Suc (w_seed w)\<rparr>)"

definition randomBytes :: "env \<Rightarrow> string act" where
  "randomBytes cx w = (Inr (e_rand cx (w_seed w)), w\<lparr>w_seed := Suc (w_seed w)\<rparr>)"

definition time_Now :: "env \<Rightarrow> time act" where
  "time_Now cx w = (Inr (e_now cx (w_step w)), w)"

text \<open>The database that the next statement finds.\<close>

definition seen :: "env \<Rightarrow> world \<Rightarrow> db" where
  "seen cx w = e_other cx (w_step w) (w_db w)"

subsection \<open>internal/db\<close>

record ErrorPolicy =
  Resource :: string
  PolicyNotFound :: "app_error option"
  UniqueConstraints :: "(string \<times> app_error) list"

text \<open>\<^verbatim>\<open>MapError\<close> on a non-nil error; the nil case is the success branch of the callers.\<close>

definition MapError :: "goerr \<Rightarrow> ErrorPolicy \<Rightarrow> goerr" where
  "MapError err policy =
     (if errors_is err (Sentinel Canceled) \<or> errors_is err (Sentinel DeadlineExceeded) then err
      else if errors_is err (Sentinel ErrNoRows) \<and> PolicyNotFound policy \<noteq> None
      then Wrapped '': '' [Business (the (PolicyNotFound policy)), err]
      else case as_pgerror err of
        Some (code, constraint) \<Rightarrow>
          if code = uniqueViolationSQLState then
            (case map_of (UniqueConstraints policy) constraint of
               Some business \<Rightarrow> Wrapped '': '' [Business business, err]
             | None \<Rightarrow> Wrapped (Resource policy @ '' storage: '') [err])
          else Wrapped (Resource policy @ '' storage: '') [err]
      | None \<Rightarrow> Wrapped (Resource policy @ '' storage: '') [err])"

definition map_err :: "ErrorPolicy \<Rightarrow> 'a act \<Rightarrow> 'a act" where
  "map_err policy m = attempt m (\<lambda>r. case r of Inl e \<Rightarrow> fail (MapError e policy) | Inr a \<Rightarrow> ret a)"

definition WithTransaction :: "env \<Rightarrow> ErrorPolicy \<Rightarrow> (conn \<Rightarrow> 'a act) \<Rightarrow> 'a act" where
  "WithTransaction cx policy fn w =
     (let n = w_step w; d = e_other cx n (w_db w); w1 = w\<lparr>w_step := Suc n, w_db := d\<rparr>
      in case e_fault cx n of
           Some (Fault e _) \<Rightarrow> (Inl (MapError e policy), w1)
         | None \<Rightarrow>
             (case fn (Tx (e_clock cx n)) w1 of
                (Inl e, w2) \<Rightarrow> (Inl (MapError e policy), w2\<lparr>w_db := d\<rparr>)
              | (Inr a, w2) \<Rightarrow>
                  (let m = w_step w2; w3 = w2\<lparr>w_step := Suc m\<rparr>
                   in case e_fault cx m of
                        None \<Rightarrow> (Inr a, w3)
                      | Some (Fault e applied) \<Rightarrow>
                          (Inl (MapError e policy), if applied then w3 else w3\<lparr>w_db := d\<rparr>))))"

subsection \<open>When an action succeeds\<close>

lemma ret_ok [ok_iff]: "ret a w = (Inr b, w') \<longleftrightarrow> b = a \<and> w' = w"
  by (auto simp: ret_def)

lemma fail_ok [ok_iff]: "fail e w = (Inr b, w') \<longleftrightarrow> False"
  by (simp add: fail_def)

lemma bindA_ok [ok_iff]:
  "bindA m f w = (Inr b, w') \<longleftrightarrow> (\<exists>a w1. m w = (Inr a, w1) \<and> f a w1 = (Inr b, w'))"
  by (auto simp: bindA_def split: prod.splits sum.splits)

lemma attempt_ok [ok_iff]:
  "attempt m f w = (Inr b, w') \<longleftrightarrow> (\<exists>r w1. m w = (r, w1) \<and> f r w1 = (Inr b, w'))"
  by (auto simp: attempt_def split: prod.splits)

lemma require_ok [ok_iff]: "require b e w = (Inr u, w') \<longleftrightarrow> b \<and> w' = w"
  by (auto simp: require_def ret_def fail_def)

lemma check_err_ok [ok_iff]: "check_err e w = (Inr u, w') \<longleftrightarrow> e = None \<and> w' = w"
  by (auto simp: check_err_def ret_def fail_def split: option.splits)

lemma from_sum_ok [ok_iff]: "from_sum r w = (Inr a, w') \<longleftrightarrow> r = Inr a \<and> w' = w"
  by (auto simp: from_sum_def ret_def fail_def split: sum.splits)

lemma NewID_ok [ok_iff]:
  "NewID cx w = (Inr i, w') \<longleftrightarrow> i = e_id cx (w_seed w) \<and> w' = w\<lparr>w_seed := Suc (w_seed w)\<rparr>"
  by (auto simp: NewID_def)

lemma randomBytes_ok [ok_iff]:
  "randomBytes cx w = (Inr i, w') \<longleftrightarrow> i = e_rand cx (w_seed w) \<and> w' = w\<lparr>w_seed := Suc (w_seed w)\<rparr>"
  by (auto simp: randomBytes_def)

lemma time_Now_ok [ok_iff]: "time_Now cx w = (Inr t, w') \<longleftrightarrow> t = e_now cx (w_step w) \<and> w' = w"
  by (auto simp: time_Now_def)

lemma query_tx_ok [ok_iff]:
  "query cx (Tx t) f w = (Inr a, w') \<longleftrightarrow>
     e_fault cx (w_step w) = None \<and> fst (f t (w_db w)) = Inr a
     \<and> w' = w\<lparr>w_step := Suc (w_step w), w_db := snd (f t (w_db w))\<rparr>"
  by (auto simp: query_def Let_def split: option.splits fault.splits)

lemma query_pool_ok [ok_iff]:
  "query cx Pool f w = (Inr a, w') \<longleftrightarrow>
     e_fault cx (w_step w) = None
     \<and> fst (f (e_clock cx (w_step w)) (e_other cx (w_step w) (w_db w))) = Inr a
     \<and> w' = w\<lparr>w_step := Suc (w_step w),
              w_db := snd (f (e_clock cx (w_step w)) (e_other cx (w_step w) (w_db w)))\<rparr>"
  by (auto simp: query_def Let_def split: option.splits fault.splits)

lemma map_err_ok [ok_iff]: "map_err policy m w = (Inr a, w') \<longleftrightarrow> m w = (Inr a, w')"
  by (cases "m w") (auto simp: map_err_def attempt_def ret_def fail_def split: sum.splits)

lemma WithTransaction_ok [ok_iff]:
  "WithTransaction cx policy fn w = (Inr a, w') \<longleftrightarrow>
     e_fault cx (w_step w) = None \<and>
     (\<exists>w2. fn (Tx (e_clock cx (w_step w)))
             (w\<lparr>w_step := Suc (w_step w), w_db := e_other cx (w_step w) (w_db w)\<rparr>) = (Inr a, w2)
       \<and> e_fault cx (w_step w2) = None \<and> w' = w2\<lparr>w_step := Suc (w_step w2)\<rparr>)"
  by (auto simp: WithTransaction_def Let_def split: option.splits fault.splits prod.splits sum.splits)

subsection \<open>Guarantees\<close>

text \<open>
  \<open>guarantees R m\<close>: whatever happens, the database before and after \<open>m\<close> is related
  by \<open>R\<close>; \<open>rely R cx\<close>: so is what the other sessions do.
\<close>

definition guarantees :: "(db \<Rightarrow> db \<Rightarrow> bool) \<Rightarrow> 'a act \<Rightarrow> bool" where
  "guarantees R m \<longleftrightarrow> (\<forall>w. R (w_db w) (w_db (snd (m w))))"

lemma guaranteesD: "guarantees R m \<Longrightarrow> m w = (r, w') \<Longrightarrow> R (w_db w) (w_db w')"
  unfolding guarantees_def by (metis snd_conv)

definition rely :: "(db \<Rightarrow> db \<Rightarrow> bool) \<Rightarrow> env \<Rightarrow> bool" where
  "rely R cx \<longleftrightarrow> (\<forall>n d. R d (e_other cx n d))"

definition stmt_guarantees :: "(db \<Rightarrow> db \<Rightarrow> bool) \<Rightarrow> 'a stmt \<Rightarrow> bool" where
  "stmt_guarantees R f \<longleftrightarrow> (\<forall>t d. R d (snd (f t d)))"

text \<open>
  The interface between a relation that the components are to keep and the way the program runs
  statements: for every preorder, the plumbing (sequencing, error handling, transactions with
  rollback or lost commits) keeps it as soon as the statements do.
\<close>

locale db_preorder =
  fixes R :: "db \<Rightarrow> db \<Rightarrow> bool"
  assumes R_refl: "R d d"
    and R_trans: "R a b \<Longrightarrow> R b c \<Longrightarrow> R a c"
begin

lemma g_ret: "guarantees R (ret a)"
  by (simp add: guarantees_def ret_def R_refl)

lemma g_fail: "guarantees R (fail e)"
  by (simp add: guarantees_def fail_def R_refl)

lemma g_require: "guarantees R (require b e)"
  by (simp add: require_def g_ret g_fail)

lemma g_check_err: "guarantees R (check_err e)"
  by (simp add: check_err_def g_ret g_fail split: option.split)

lemma g_from_sum: "guarantees R (from_sum r)"
  by (simp add: from_sum_def g_ret g_fail split: sum.split)

lemma g_NewID: "guarantees R (NewID cx)"
  by (simp add: guarantees_def NewID_def R_refl)

lemma g_randomBytes: "guarantees R (randomBytes cx)"
  by (simp add: guarantees_def randomBytes_def R_refl)

lemma g_time_Now: "guarantees R (time_Now cx)"
  by (simp add: guarantees_def time_Now_def R_refl)

lemma g_bindA:
  assumes "guarantees R m" and "\<And>a w w'. m w = (Inr a, w') \<Longrightarrow> guarantees R (f a)"
  shows "guarantees R (bindA m f)"
  unfolding guarantees_def
proof
  fix w :: world
  obtain r w1 where m: "m w = (r, w1)" by force
  have "R (w_db w) (w_db w1)" using assms(1) m unfolding guarantees_def by (metis snd_conv)
  moreover have "r = Inr a \<Longrightarrow> R (w_db w1) (w_db (snd (f a w1)))" for a
    using assms(2) m unfolding guarantees_def by blast
  ultimately show "R (w_db w) (w_db (snd (bindA m f w)))"
    using m by (cases r) (auto simp: bindA_def intro: R_trans)
qed

lemma g_attempt: "guarantees R m \<Longrightarrow> (\<And>r. guarantees R (f r)) \<Longrightarrow> guarantees R (attempt m f)"
  unfolding guarantees_def attempt_def
  by (auto split: prod.split) (metis R_trans snd_conv)

lemma g_map_err: "guarantees R m \<Longrightarrow> guarantees R (map_err policy m)"
  unfolding map_err_def by (intro g_attempt) (auto intro: g_ret g_fail split: sum.split)

lemma g_query: "rely R cx \<Longrightarrow> stmt_guarantees R f \<Longrightarrow> guarantees R (query cx q f)"
  unfolding guarantees_def rely_def stmt_guarantees_def query_def Let_def
  by (auto split: option.split fault.split conn.split intro: R_refl) (meson R_trans)+

lemma g_WithTransaction:
  assumes "rely R cx" and "\<And>q. guarantees R (fn q)"
  shows "guarantees R (WithTransaction cx policy fn)"
  unfolding guarantees_def
proof
  fix w :: world
  let ?n = "w_step w"
  let ?d = "e_other cx ?n (w_db w)"
  let ?w1 = "w\<lparr>w_step := Suc ?n, w_db := ?d\<rparr>"
  have 1: "R (w_db w) ?d" using assms(1) by (simp add: rely_def)
  obtain r w2 where f: "fn (Tx (e_clock cx ?n)) ?w1 = (r, w2)" by force
  have "R ?d (w_db w2)"
    using assms(2) [of "Tx (e_clock cx ?n)"] f unfolding guarantees_def
    by (metis (no_types, lifting) snd_conv world.select_convs(1) world.surjective world.update_convs(1))
  with 1 have 2: "R (w_db w) (w_db w2)" by (blast intro: R_trans)
  show "R (w_db w) (w_db (snd (WithTransaction cx policy fn w)))"
    using 1 2 f by (auto simp: WithTransaction_def Let_def split: option.split fault.split sum.split)
qed

lemmas g_intros =
  g_ret g_fail g_require g_check_err g_from_sum g_NewID g_randomBytes g_time_Now
  g_bindA g_attempt g_map_err g_query g_WithTransaction

end

text \<open>Keeping an invariant is such a relation.\<close>

definition keeps :: "(db \<Rightarrow> bool) \<Rightarrow> db \<Rightarrow> db \<Rightarrow> bool" where
  "keeps P d d' \<longleftrightarrow> (P d \<longrightarrow> P d')"

interpretation kp: db_preorder "keeps P" for P
  by unfold_locales (auto simp: keeps_def)

lemma stmt_keeps: "(\<And>t d. P d \<Longrightarrow> P (snd (f t d))) \<Longrightarrow> stmt_guarantees (keeps P) f"
  by (simp add: stmt_guarantees_def keeps_def)

text \<open>So is leaving a part of the database as it is.\<close>

definition same :: "(db \<Rightarrow> 'v) \<Rightarrow> db \<Rightarrow> db \<Rightarrow> bool" where
  "same v d d' \<longleftrightarrow> v d' = v d"

interpretation sm: db_preorder "same v" for v
  by unfold_locales (auto simp: same_def)

lemma stmt_same: "(\<And>t d. v (snd (f t d)) = v d) \<Longrightarrow> stmt_guarantees (same v) f"
  by (simp add: stmt_guarantees_def same_def)

subsection \<open>Atomicity\<close>

text \<open>
  Without a lost commit acknowledgement a failed transaction leaves exactly the database the
  other sessions had left at its begin.
\<close>

definition commit_lost :: "env \<Rightarrow> bool" where
  "commit_lost cx \<longleftrightarrow> (\<exists>n e. e_fault cx n = Some (Fault e True))"

lemma WithTransaction_err:
  assumes "WithTransaction cx policy fn w = (Inl e, w')" and "\<not> commit_lost cx"
  shows "w_db w' = e_other cx (w_step w) (w_db w)"
  using assms
  by (auto simp: WithTransaction_def Let_def commit_lost_def
      split: option.splits fault.splits prod.splits sum.splits if_splits)

lemma MapError_as_business:
  "as_business (MapError e policy) =
     (if errors_is e (Sentinel Canceled) \<or> errors_is e (Sentinel DeadlineExceeded) then as_business e
      else if errors_is e (Sentinel ErrNoRows) \<and> PolicyNotFound policy \<noteq> None then PolicyNotFound policy
      else case as_pgerror e of
        Some (code, k) \<Rightarrow>
          if code = uniqueViolationSQLState \<and> map_of (UniqueConstraints policy) k \<noteq> None
          then map_of (UniqueConstraints policy) k else as_business e
      | None \<Rightarrow> as_business e)"
  by (auto simp: MapError_def split: option.splits)

lemma MapError_errors_is:
  "errors_is (MapError e policy) t \<Longrightarrow> t \<noteq> MapError e policy \<Longrightarrow>
     errors_is e t \<or> (\<exists>b. t = Business b)"
  by (auto simp: MapError_def split: if_splits option.splits)

lemma errors_is_MapError: "errors_is e t \<Longrightarrow> errors_is (MapError e policy) t"
  by (auto simp: MapError_def split: option.splits)

text \<open>What the program relies on from the collation of the database.\<close>

definition linear_collation :: "(string \<Rightarrow> string \<Rightarrow> bool) \<Rightarrow> bool" where
  "linear_collation le \<longleftrightarrow> (\<forall>a b. le a b \<or> le b a) \<and> (\<forall>a b c. le a b \<longrightarrow> le b c \<longrightarrow> le a c)"

lemma sorted_newest_first:
  fixes tm :: "'r \<Rightarrow> time"
  assumes "linear_collation le"
    and "\<And>a b. before a b \<longleftrightarrow> tm b < tm a \<or> (tm a = tm b \<and> le (k b) (k a))"
  shows "sorted_wrt before (order_by before rows)"
proof (rule sorted_wrt_order_by)
  show "before a b \<or> before b a" for a b
    using assms(1) unfolding assms(2) linear_collation_def by (metis not_less_iff_gr_or_eq)
  show "before a b \<Longrightarrow> before b c \<Longrightarrow> before a c" for a b c
    using assms(1) unfolding assms(2) linear_collation_def by (metis less_trans)
qed

subsection \<open>A quiet environment\<close>

text \<open>
  The environment of the examples: nothing fails, no other session writes, clocks tick with the
  steps, identifiers and random bytes differ from draw to draw, text compares bytewise.
\<close>

fun bytes_le :: "nat list \<Rightarrow> nat list \<Rightarrow> bool" where
  "bytes_le [] ys = True"
| "bytes_le (x # xs) [] = False"
| "bytes_le (x # xs) (y # ys) = (x < y \<or> (x = y \<and> bytes_le xs ys))"

definition quiet :: env where
  "quiet = \<lparr>e_clock = (\<lambda>n. int n * second), e_now = (\<lambda>n. int n * second), e_fault = (\<lambda>_. None),
     e_other = (\<lambda>_ d. d), e_id = (\<lambda>n. ''id-'' @ replicate n CHR ''x''),
     e_rand = (\<lambda>n. replicate 32 (char_of n)),
     e_sha256 = (\<lambda>s. take 32 (rev s @ replicate 32 (CHR ''#''))), e_parse_address = Some,
     e_unicode_lower = (\<lambda>s. s), e_collate = (\<lambda>a b. bytes_le (bytes a) (bytes b)),
     e_locked = (\<lambda>_ _. False), e_jitter = (\<lambda>_. 0)\<rparr>"

lemma bytes_le_total: "bytes_le a b \<or> bytes_le b a"
  by (induction a b rule: bytes_le.induct) auto

lemma bytes_le_trans: "bytes_le a b \<Longrightarrow> bytes_le b c \<Longrightarrow> bytes_le a c"
proof (induction a b arbitrary: c rule: bytes_le.induct)
  case (3 x xs y ys)
  then show ?case by (cases c) auto
qed auto

lemma linear_collation_quiet: "linear_collation (e_collate quiet)"
  using bytes_le_total bytes_le_trans by (auto simp: linear_collation_def quiet_def)

lemma quiet_rely: "(\<And>d. R d d) \<Longrightarrow> rely R quiet"
  by (simp add: rely_def quiet_def)

lemma quiet_simps [simp]:
  "e_fault quiet n = None" "e_other quiet n d = d" "e_clock quiet n = int n * second"
  "e_now quiet n = int n * second" "e_id quiet n = ''id-'' @ replicate n CHR ''x''"
  "e_rand quiet n = replicate 32 (char_of n)"
  "e_sha256 quiet s = take 32 (rev s @ replicate 32 (CHR ''#''))"
  "e_parse_address quiet s = Some s" "e_unicode_lower quiet s = s"
  "e_collate quiet a b = bytes_le (bytes a) (bytes b)" "e_locked quiet n s = False" "e_jitter quiet n = 0"
  by (simp_all add: quiet_def)

definition start :: "db \<Rightarrow> world" where
  "start d = \<lparr>w_db = d, w_step = 0, w_seed = 0, w_var = ''''\<rparr>"

lemmas run_defs = bindA_def attempt_def map_err_def query_def NewID_def randomBytes_def time_Now_def
  ret_def fail_def require_def check_err_def from_sum_def WithTransaction_def Let_def start_def

end
