(* ===== verification/Mail_Outbox.thy ===== *)
theory Mail_Outbox
  imports World
begin

text \<open>
  \<^verbatim>\<open>internal/modules/mailoutbox\<close> with the statements of
  \<^verbatim>\<open>internal/db/sqlc/mail_outbox.sql.go\<close>: a durable queue of mails that workers claim under
  a lease, send outside any transaction, and complete, retry or give up.  \<open>locked\<close> are the
  rows that \<^verbatim>\<open>FOR UPDATE SKIP LOCKED\<close> passes over.  The sender is a parameter: by step
  number and message, the error it returns (\<^const>\<open>None\<close> when it accepted the message).
\<close>

definition StatusPending :: string where
  "StatusPending = ''pending''"

definition StatusProcessing :: string where
  "StatusProcessing = ''processing''"

definition StatusSent :: string where
  "StatusSent = ''sent''"

definition StatusFailed :: string where
  "StatusFailed = ''failed''"

lemmas mail_status_defs = StatusPending_def StatusProcessing_def StatusSent_def StatusFailed_def

definition mail_Valid :: "string \<Rightarrow> bool" where
  "mail_Valid s \<longleftrightarrow> s \<in> {StatusPending, StatusProcessing, StatusSent, StatusFailed}"

definition Terminal :: "string \<Rightarrow> bool" where
  "Terminal s \<longleftrightarrow> s = StatusSent \<or> s = StatusFailed"

record Message =
  msg_ID :: string
  msg_Kind :: string
  msg_To :: string
  msg_Subject :: string
  msg_HTML :: string

definition maxDeliveryAttempts :: int where
  "maxDeliveryAttempts = 5"

definition leaseDuration :: time where
  "leaseDuration = minute"

definition expiredMailBatchSize :: int where
  "expiredMailBatchSize = 100"

definition sendTimeout :: time where
  "sendTimeout = 10 * second"

definition leaseFinishReserve :: time where
  "leaseFinishReserve = 5 * second"

definition retryBaseSeconds :: int where
  "retryBaseSeconds = 15"

definition retryJitterSeconds :: nat where
  "retryJitterSeconds = 10"

subsection \<open>internal/db/sqlc/mail_outbox.sql.go\<close>

record EnqueueMailParams =
  em_ID :: string
  em_Kind :: string
  em_Recipient :: string
  em_Subject :: string
  em_Body :: string
  em_ExpiresAt :: time

definition EnqueueMail :: "EnqueueMailParams \<Rightarrow> unit stmt" where
  "EnqueueMail arg now d =
     (if list_ex (\<lambda>r. m_ID r = em_ID arg) (mail_outbox d) then (unique_violation ''mail_outbox_pkey'', d)
      else (Inr (), d\<lparr>mail_outbox := mail_outbox d @
        [\<lparr>m_ID = em_ID arg, m_Kind = em_Kind arg, m_Recipient = em_Recipient arg, m_Subject = em_Subject arg,
          m_Body = em_Body arg, m_Status = ''pending'', m_Attempts = 0, m_AvailableAt = now,
          m_ExpiresAt = em_ExpiresAt arg, m_LeaseID = None, m_LeasedUntil = None, m_LastError = None,
          m_CreatedAt = now, m_CompletedAt = None\<rparr>]\<rparr>))"

text \<open>SQL comparisons with NULL are not true.\<close>

definition null_le :: "time option \<Rightarrow> time \<Rightarrow> bool" where
  "null_le x t = (case x of None \<Rightarrow> False | Some y \<Rightarrow> y \<le> t)"

definition null_gt :: "time option \<Rightarrow> time \<Rightarrow> bool" where
  "null_gt x t = (case x of None \<Rightarrow> False | Some y \<Rightarrow> y > t)"

definition claimable :: "int \<Rightarrow> time \<Rightarrow> mail_row \<Rightarrow> bool" where
  "claimable maxAttempts now r \<longleftrightarrow>
     ((m_Status r = ''pending'' \<and> m_AvailableAt r \<le> now)
      \<or> (m_Status r = ''processing'' \<and> null_le (m_LeasedUntil r) now))
     \<and> m_ExpiresAt r > now \<and> m_Attempts r < maxAttempts"

definition claim_order :: "mail_row \<Rightarrow> mail_row \<Rightarrow> bool" where
  "claim_order a b \<longleftrightarrow> m_AvailableAt a < m_AvailableAt b
     \<or> (m_AvailableAt a = m_AvailableAt b \<and> m_CreatedAt a \<le> m_CreatedAt b)"

definition claim_row :: "string \<Rightarrow> int \<Rightarrow> time \<Rightarrow> mail_row \<Rightarrow> mail_row" where
  "claim_row lease leaseSeconds now r =
     r\<lparr>m_Status := ''processing'', m_Attempts := m_Attempts r + 1, m_LeaseID := Some lease,
       m_LeasedUntil := Some (now + leaseSeconds * second)\<rparr>"

definition ClaimMail :: "(string \<Rightarrow> bool) \<Rightarrow> string \<Rightarrow> int \<Rightarrow> int \<Rightarrow> mail_row stmt" where
  "ClaimMail locked lease maxAttempts leaseSeconds now d =
     (case order_by claim_order
             (filter (\<lambda>r. claimable maxAttempts now r \<and> \<not> locked (m_ID r)) (mail_outbox d)) of
        [] \<Rightarrow> (Inl (Sentinel ErrNoRows), d)
      | c # _ \<Rightarrow>
          (Inr (claim_row lease leaseSeconds now c),
           d\<lparr>mail_outbox := update_where (\<lambda>r. m_ID r = m_ID c) (claim_row lease leaseSeconds now)
                (mail_outbox d)\<rparr>))"

definition leased :: "string \<Rightarrow> string \<Rightarrow> time \<Rightarrow> mail_row \<Rightarrow> bool" where
  "leased i lease now r \<longleftrightarrow> m_ID r = i \<and> m_LeaseID r = Some lease \<and> m_Status r = ''processing''
     \<and> null_gt (m_LeasedUntil r) now"

definition complete_row :: "time \<Rightarrow> mail_row \<Rightarrow> mail_row" where
  "complete_row now r =
     r\<lparr>m_Status := ''sent'', m_Recipient := '''', m_Subject := '''', m_Body := '''', m_LeaseID := None,
       m_LeasedUntil := None, m_LastError := None, m_CompletedAt := Some now\<rparr>"

definition CompleteMail :: "string \<Rightarrow> string \<Rightarrow> int stmt" where
  "CompleteMail i lease now d =
     (Inr (int (count_where (leased i lease now) (mail_outbox d))),
      d\<lparr>mail_outbox := update_where (leased i lease now) (complete_row now) (mail_outbox d)\<rparr>)"

definition retry_row :: "int \<Rightarrow> int \<Rightarrow> time \<Rightarrow> mail_row \<Rightarrow> mail_row" where
  "retry_row maxAttempts delaySeconds now r =
     (let over = (m_Attempts r \<ge> maxAttempts \<or> m_ExpiresAt r \<le> now)
      in r\<lparr>m_Status := (if over then ''failed'' else ''pending''),
           m_Recipient := (if over then '''' else m_Recipient r),
           m_Subject := (if over then '''' else m_Subject r),
           m_Body := (if over then '''' else m_Body r),
           m_CompletedAt := (if over then Some now else None),
           m_AvailableAt := now + delaySeconds * second,
           m_LeaseID := None, m_LeasedUntil := None, m_LastError := Some ''sender_unavailable''\<rparr>)"

definition RetryMail :: "string \<Rightarrow> string \<Rightarrow> int \<Rightarrow> int \<Rightarrow> int stmt" where
  "RetryMail i lease maxAttempts delaySeconds now d =
     (Inr (int (count_where (leased i lease now) (mail_outbox d))),
      d\<lparr>mail_outbox := update_where (leased i lease now) (retry_row maxAttempts delaySeconds now)
            (mail_outbox d)\<rparr>)"

definition expirable :: "int \<Rightarrow> time \<Rightarrow> mail_row \<Rightarrow> bool" where
  "expirable maxAttempts now r \<longleftrightarrow>
     (m_Status r = ''pending'' \<or> (m_Status r = ''processing'' \<and> null_le (m_LeasedUntil r) now))
     \<and> (m_ExpiresAt r \<le> now \<or> m_Attempts r \<ge> maxAttempts)"

definition expire_row :: "time \<Rightarrow> mail_row \<Rightarrow> mail_row" where
  "expire_row now r =
     r\<lparr>m_Status := ''failed'', m_Recipient := '''', m_Subject := '''', m_Body := '''', m_LeaseID := None,
       m_LeasedUntil := None, m_CompletedAt := Some now, m_LastError := Some ''expired_or_exhausted''\<rparr>"

definition ExpireMail :: "(string \<Rightarrow> bool) \<Rightarrow> int \<Rightarrow> int \<Rightarrow> unit stmt" where
  "ExpireMail locked maxAttempts batch now d =
     (let ids = map m_ID (limit_offset batch 0
                  (order_by (\<lambda>a b. m_CreatedAt a \<le> m_CreatedAt b)
                    (filter (\<lambda>r. expirable maxAttempts now r \<and> \<not> locked (m_ID r)) (mail_outbox d))))
      in (Inr (), d\<lparr>mail_outbox := update_where (\<lambda>r. m_ID r \<in> set ids) (expire_row now) (mail_outbox d)\<rparr>))"

subsection \<open>The service\<close>

definition stage_attrs :: "string \<Rightarrow> string \<Rightarrow> int \<Rightarrow> goerr \<Rightarrow> (string \<times> (string + int)) list" where
  "stage_attrs stage messageID att cause =
     [(''stage'', Inl stage)]
     @ (if messageID \<noteq> '''' then [(''message_id'', Inl messageID), (''attempt'', Inr att)] else [])
     @ map (\<lambda>(k, v). (k, Inl v)) (DiagnosticAttrs (Some cause))"

text \<open>
  \<^verbatim>\<open>retryDelaySeconds\<close>; \<open>jitter\<close> is the draw of \<^verbatim>\<open>rand.IntN(retryJitterSeconds)\<close>.
\<close>

definition retryDelaySeconds :: "int \<Rightarrow> nat \<Rightarrow> int" where
  "retryDelaySeconds attempt0 draw =
     (let a1 = (if attempt0 < 1 then 1 else attempt0);
          a = (if a1 > maxDeliveryAttempts then maxDeliveryAttempts else a1)
      in retryBaseSeconds * push_bit (nat (a - 1)) 1 + int (draw mod retryJitterSeconds))"

definition send_deadline :: "time \<Rightarrow> mail_row \<Rightarrow> time" where
  "send_deadline now row =
     (let d0 = now + sendTimeout;
          d1 = (if m_ExpiresAt row < d0 then m_ExpiresAt row else d0);
          limit = the (m_LeasedUntil row) - leaseFinishReserve
      in if limit < d1 then limit else d1)"

text \<open>
  \<^verbatim>\<open>deliver\<close>: the error, and the message if the sender was called.  A context with a passed
  deadline, or of a cancelled parent, keeps the sender from being called.
\<close>

definition deliver ::
  "env \<Rightarrow> (nat \<Rightarrow> bool) \<Rightarrow> (nat \<Rightarrow> Message \<Rightarrow> goerr option) \<Rightarrow> mail_row \<Rightarrow> world
     \<Rightarrow> goerr option \<times> Message option" where
  "deliver cx cancelled send row w =
     (let now = e_now cx (w_step w); deadline = send_deadline now row;
          msg = \<lparr>msg_ID = m_ID row, msg_Kind = m_Kind row, msg_To = m_Recipient row,
                 msg_Subject = m_Subject row, msg_HTML = m_Body row\<rparr>
      in if cancelled (w_step w) then (Some (Sentinel Canceled), None)
         else if deadline \<le> now then (Some (Sentinel DeadlineExceeded), None)
         else (send (w_step w) msg, Some msg))"

definition finishDelivery ::
  "env \<Rightarrow> mail_row \<Rightarrow> string \<Rightarrow> goerr option \<Rightarrow> world \<Rightarrow> goerr option \<times> world" where
  "finishDelivery cx row lease sendErr w =
     (let (stage, (r, w')) =
        (case sendErr of
           None \<Rightarrow> (''complete'', query cx Pool (CompleteMail (m_ID row) lease) w)
         | Some _ \<Rightarrow>
             (''retry'',
              let delay = retryDelaySeconds (m_Attempts row) (e_jitter cx (w_seed w))
              in query cx Pool (RetryMail (m_ID row) lease maxDeliveryAttempts delay)
                   (w\<lparr>w_seed := Suc (w_seed w)\<rparr>)))
      in case r of
           Inl e \<Rightarrow> (Some (StageError stage (m_ID row) (m_Attempts row) e), w')
         | Inr n \<Rightarrow>
             (if n \<noteq> 1
              then (Some (StageError ''confirm_lease'' (m_ID row) (m_Attempts row)
                      (Plain (utf8 [0x90ae, 0x4ef6, 0x9886, 0x53d6, 0x79df, 0x7ea6, 0x5df2, 0x5931, 0x6548]))), w')
              else (None, w')))"

record processed =
  po_worked :: bool
  po_err :: "goerr option"
  po_sent :: "Message option"

definition ProcessOne ::
  "env \<Rightarrow> (nat \<Rightarrow> bool) \<Rightarrow> (nat \<Rightarrow> Message \<Rightarrow> goerr option) \<Rightarrow> world \<Rightarrow> processed \<times> world" where
  "ProcessOne cx cancelled send w =
     (case query cx Pool (ExpireMail (e_locked cx (w_step w)) maxDeliveryAttempts expiredMailBatchSize) w of
        (Inl e, w1) \<Rightarrow>
          (\<lparr>po_worked = False, po_err = Some (StageError ''expire'' '''' 0 e), po_sent = None\<rparr>, w1)
      | (Inr _, w1) \<Rightarrow>
          (let lease = e_id cx (w_seed w1); w2 = w1\<lparr>w_seed := Suc (w_seed w1)\<rparr>
           in case query cx Pool (ClaimMail (e_locked cx (w_step w2)) lease maxDeliveryAttempts
                (leaseDuration div second)) w2 of
                (Inl e, w3) \<Rightarrow>
                  (if errors_is e (Sentinel ErrNoRows)
                   then (\<lparr>po_worked = False, po_err = None, po_sent = None\<rparr>, w3)
                   else (\<lparr>po_worked = False, po_err = Some (StageError ''claim'' '''' 0 e), po_sent = None\<rparr>, w3))
              | (Inr row, w3) \<Rightarrow>
                  (if m_Status row \<noteq> StatusProcessing \<or> m_LeaseID row \<noteq> Some lease \<or> m_LeasedUntil row = None
                   then (\<lparr>po_worked = True,
                          po_err = Some (StageError ''validate_claim'' (m_ID row) (m_Attempts row)
                            (Plain (utf8 [0x90ae, 0x4ef6, 0x9886, 0x53d6, 0x72b6, 0x6001, 0x65e0, 0x6548]))),
                          po_sent = None\<rparr>, w3)
                   else (let (sendErr, sent) = deliver cx cancelled send row w3;
                             (err, w4) = finishDelivery cx row lease sendErr w3
                         in (\<lparr>po_worked = True, po_err = err, po_sent = sent\<rparr>, w4)))))"

text \<open>
  \<^verbatim>\<open>Run\<close>: until cancelled.  Waiting for the poll interval is a step of the clock.  The result
  is \<^const>\<open>None\<close> when the loop does not end; \<open>worker_loop\<close> returns the error entries
  it logs, the oldest first.
\<close>

definition run_log :: "(nat \<Rightarrow> bool) \<Rightarrow> processed \<Rightarrow> world \<Rightarrow> goerr list" where
  "run_log cancelled p w =
     (case po_err p of
        None \<Rightarrow> []
      | Some e \<Rightarrow>
          if po_worked p \<or> \<not> cancelled (w_step w) \<or> \<not> errors_is e (Sentinel Canceled) then [e] else [])"

partial_function (option) worker_loop ::
  "env \<Rightarrow> (nat \<Rightarrow> bool) \<Rightarrow> (nat \<Rightarrow> Message \<Rightarrow> goerr option) \<Rightarrow> goerr list \<Rightarrow> world \<Rightarrow> (goerr list \<times> world) option" where
  "worker_loop cx cancelled send log w =
     (if cancelled (w_step w) then Some (log, w)
      else (let (p, w1) = ProcessOne cx cancelled send w;
                log1 = log @ run_log cancelled p w1
            in if cancelled (w_step w1) then Some (log1, w1)
               else if po_worked p \<and> po_err p = None then worker_loop cx cancelled send log1 w1
               else worker_loop cx cancelled send log1 (w1\<lparr>w_step := Suc (w_step w1)\<rparr>)))"

definition mail_Run ::
  "env \<Rightarrow> (nat \<Rightarrow> bool) \<Rightarrow> (nat \<Rightarrow> Message \<Rightarrow> goerr option) \<Rightarrow> time \<Rightarrow> world
     \<Rightarrow> (goerr option \<times> goerr list \<times> world) option" where
  "mail_Run cx cancelled send poll w =
     (if poll \<le> 0
      then Some (Some (Plain (utf8 [0x90ae, 0x4ef6, 0x8f6e, 0x8be2, 0x95f4, 0x9694, 0x5fc5, 0x987b, 0x4e3a, 0x6b63])), [], w)
      else map_option (\<lambda>(log, w'). (None, log, w')) (worker_loop cx cancelled send [] w))"

subsection \<open>What a relation on databases needs for the worker to keep it\<close>

locale mail_guarantee = db_preorder R for R :: "db \<Rightarrow> db \<Rightarrow> bool" +
  assumes expire_R: "stmt_guarantees R (ExpireMail locked maxDeliveryAttempts b)"
    and claim_R: "stmt_guarantees R (ClaimMail locked lease maxDeliveryAttempts secs)"
    and complete_R: "stmt_guarantees R (CompleteMail i lease)"
    and retry_R: "stmt_guarantees R (RetryMail i lease maxDeliveryAttempts delay)"
begin

lemma query_R:
  assumes "rely R cx" and "stmt_guarantees R f"
  shows "query cx Pool f w = (r, w') \<Longrightarrow> R (w_db w) (w_db w')"
  using g_query [OF assms, of Pool] unfolding guarantees_def by (metis snd_conv)

lemma finishDelivery_R:
  assumes "rely R cx"
  shows "R (w_db w) (w_db (snd (finishDelivery cx row lease se w)))"
proof (cases se)
  case None
  obtain r w' where q: "query cx Pool (CompleteMail (m_ID row) lease) w = (r, w')" by force
  with query_R [OF assms complete_R q] None show ?thesis
    by (auto simp: finishDelivery_def Let_def split: sum.split)
next
  case (Some e)
  let ?w = "w\<lparr>w_seed := Suc (w_seed w)\<rparr>"
  let ?s = "RetryMail (m_ID row) lease maxDeliveryAttempts (retryDelaySeconds (m_Attempts row) (e_jitter cx (w_seed w)))"
  obtain r w' where q: "query cx Pool ?s ?w = (r, w')" by force
  with query_R [OF assms retry_R q] Some show ?thesis
    by (auto simp: finishDelivery_def Let_def split: sum.split)
qed

lemma ProcessOne_R:
  assumes "rely R cx"
  shows "R (w_db w) (w_db (snd (ProcessOne cx cancelled send w)))"
proof -
  obtain r1 w1 where q1: "query cx Pool (ExpireMail (e_locked cx (w_step w)) maxDeliveryAttempts expiredMailBatchSize) w = (r1, w1)"
    by force
  let ?w2 = "w1\<lparr>w_seed := Suc (w_seed w1)\<rparr>"
  obtain r2 w3 where q2: "query cx Pool (ClaimMail (e_locked cx (w_step w1)) (e_id cx (w_seed w1)) maxDeliveryAttempts
      (leaseDuration div second)) ?w2 = (r2, w3)" by force
  have 1: "R (w_db w) (w_db w1)" using query_R [OF assms expire_R q1] .
  have 2: "R (w_db w1) (w_db w3)" using query_R [OF assms claim_R q2] by simp
  have 3: "R (w_db w3) (w_db (snd (finishDelivery cx row lease se w3)))" for row lease se
    by (rule finishDelivery_R [OF assms])
  show ?thesis
  proof (cases r1)
    case (Inl e)
    with 1 q1 show ?thesis by (simp add: ProcessOne_def)
  next
    case r1: (Inr u)
    show ?thesis
    proof (cases r2)
      case (Inl e)
      with 1 2 q1 q2 r1 show ?thesis by (auto simp: ProcessOne_def Let_def intro: R_trans)
    next
      case (Inr row)
      obtain se sent where d: "deliver cx cancelled send row w3 = (se, sent)" by force
      obtain err w4 where f: "finishDelivery cx row (e_id cx (w_seed w1)) se w3 = (err, w4)" by force
      have "R (w_db w) (w_db w3)" "R (w_db w3) (w_db w4)"
        using R_trans [OF 1 2] 3 [of row "e_id cx (w_seed w1)" se] f by simp_all
      then show ?thesis using q1 q2 r1 Inr d f R_trans by (simp add: ProcessOne_def Let_def)
    qed
  qed
qed

lemma worker_loop_R:
  assumes "worker_loop cx cancelled send log w = Some y" and "rely R cx"
  shows "R (w_db w) (w_db (snd y))"
proof -
  have "rely R cx \<longrightarrow> R (w_db w) (w_db (snd y))"
  proof (rule worker_loop.raw_induct [OF _ assms(1)])
    fix f cx cancelled send log w y
    assume IH: "\<And>cx c s log w y. f cx c s log w = Some y \<Longrightarrow> rely R cx \<longrightarrow> R (w_db w) (w_db (snd y))"
      and run: "(if cancelled (w_step w) then Some (log, w)
        else (let (p, w1) = ProcessOne cx cancelled send w; log1 = log @ run_log cancelled p w1
              in if cancelled (w_step w1) then Some (log1, w1)
                 else if po_worked p \<and> po_err p = None then f cx cancelled send log1 w1
                 else f cx cancelled send log1 (w1\<lparr>w_step := Suc (w_step w1)\<rparr>))) = Some y"
    obtain p w1 where p: "ProcessOne cx cancelled send w = (p, w1)" by force
    have 1: "rely R cx \<Longrightarrow> R (w_db w) (w_db w1)" using ProcessOne_R [of cx w cancelled send] p by simp
    have 2: "rely R cx \<Longrightarrow> f cx cancelled send log' w2 = Some y \<Longrightarrow> w_db w2 = w_db w1 \<Longrightarrow> R (w_db w1) (w_db (snd y))" for log' w2
      using IH by metis
    show "rely R cx \<longrightarrow> R (w_db w) (w_db (snd y))"
      using run p 1 2 R_trans R_refl by (auto simp: Let_def split: if_splits)
  qed
  with assms(2) show ?thesis by blast
qed

end

subsection \<open>The invariant of the queue\<close>

text \<open>
  A lease exists exactly while a mail is processed; a mail in a terminal state has no payload
  left and a completion time; at most five attempts are ever counted.
\<close>

definition mail_row_ok :: "mail_row \<Rightarrow> bool" where
  "mail_row_ok r \<longleftrightarrow> mail_Valid (m_Status r) \<and> 0 \<le> m_Attempts r \<and> m_Attempts r \<le> maxDeliveryAttempts
     \<and> (m_Status r = StatusProcessing \<longrightarrow> m_LeaseID r \<noteq> None \<and> m_LeasedUntil r \<noteq> None \<and> 1 \<le> m_Attempts r)
     \<and> (m_Status r \<noteq> StatusProcessing \<longrightarrow> m_LeaseID r = None \<and> m_LeasedUntil r = None)
     \<and> (Terminal (m_Status r) \<longrightarrow> m_Recipient r = '''' \<and> m_Subject r = '''' \<and> m_Body r = ''''
          \<and> m_CompletedAt r \<noteq> None)"

definition mail_ok :: "db \<Rightarrow> bool" where
  "mail_ok d \<longleftrightarrow> distinct (map m_ID (mail_outbox d)) \<and> (\<forall>r \<in> set (mail_outbox d). mail_row_ok r)"

lemmas mail_row_simps = mail_row_ok_def mail_Valid_def Terminal_def mail_status_defs maxDeliveryAttempts_def

lemma rows_ok:
  "mail_row_ok r \<Longrightarrow> claimable maxDeliveryAttempts now r \<Longrightarrow> mail_row_ok (claim_row lease secs now r)"
  "mail_row_ok r \<Longrightarrow> mail_row_ok (complete_row now r)"
  "mail_row_ok r \<Longrightarrow> mail_row_ok (retry_row maxDeliveryAttempts delay now r)"
  "mail_row_ok r \<Longrightarrow> mail_row_ok (expire_row now r)"
  by (auto simp: mail_row_simps claimable_def claim_row_def complete_row_def retry_row_def expire_row_def Let_def)

lemma rows_keep_id [simp]:
  "m_ID (claim_row lease secs now r) = m_ID r" "m_ID (complete_row now r) = m_ID r"
  "m_ID (retry_row ma delay now r) = m_ID r" "m_ID (expire_row now r) = m_ID r"
  by (simp_all add: claim_row_def complete_row_def retry_row_def expire_row_def Let_def)

lemma mail_ok_update:
  assumes "mail_ok d" and "\<And>r. m_ID (f r) = m_ID r"
    and "\<And>r. r \<in> set (mail_outbox d) \<Longrightarrow> p r \<Longrightarrow> mail_row_ok r \<Longrightarrow> mail_row_ok (f r)"
  shows "mail_ok (d\<lparr>mail_outbox := update_where p f (mail_outbox d)\<rparr>)"
  using assms by (auto simp: mail_ok_def map_update_where set_update_where)

text \<open>The claimed row: eligible, not locked, first in the queue's order.\<close>

lemma ClaimMail_cases:
  obtains (none) "\<forall>r \<in> set (mail_outbox d). claimable ma now r \<longrightarrow> locked (m_ID r)"
      and "ClaimMail locked lease ma secs now d = (Inl (Sentinel ErrNoRows), d)"
  | (claimed) c where "c \<in> set (mail_outbox d)" and "claimable ma now c" and "\<not> locked (m_ID c)"
      and "\<forall>r \<in> set (mail_outbox d). claimable ma now r \<longrightarrow> \<not> locked (m_ID r) \<longrightarrow> claim_order c r"
      and "ClaimMail locked lease ma secs now d = (Inr (claim_row lease secs now c),
        d\<lparr>mail_outbox := update_where (\<lambda>r. m_ID r = m_ID c) (claim_row lease secs now) (mail_outbox d)\<rparr>)"
proof -
  let ?el = "filter (\<lambda>r. claimable ma now r \<and> \<not> locked (m_ID r)) (mail_outbox d)"
  let ?o = "order_by claim_order ?el"
  have set: "set ?o = {r \<in> set (mail_outbox d). claimable ma now r \<and> \<not> locked (m_ID r)}" by auto
  have sorted: "sorted_wrt claim_order ?o" by (rule sorted_wrt_order_by) (auto simp: claim_order_def)
  show ?thesis
  proof (cases ?o)
    case Nil
    with set have "\<forall>r \<in> set (mail_outbox d). claimable ma now r \<longrightarrow> locked (m_ID r)" by auto
    then show ?thesis by (rule none) (simp add: ClaimMail_def Nil)
  next
    case (Cons c cs)
    with set have "c \<in> set (mail_outbox d)" "claimable ma now c" "\<not> locked (m_ID c)" by auto
    moreover have "\<forall>r \<in> set ?o. claim_order c r"
      using sorted Cons by (auto simp: claim_order_def)
    then have "\<forall>r \<in> set (mail_outbox d). claimable ma now r \<longrightarrow> \<not> locked (m_ID r) \<longrightarrow> claim_order c r"
      using set by blast
    ultimately show ?thesis by (rule claimed) (simp add: ClaimMail_def Cons)
  qed
qed

lemma ClaimMail_keeps: "stmt_guarantees (keeps mail_ok) (ClaimMail locked lease maxDeliveryAttempts secs)"
proof (rule stmt_keeps)
  fix t d
  assume ok: "mail_ok d"
  show "mail_ok (snd (ClaimMail locked lease maxDeliveryAttempts secs t d))"
  proof (cases rule: ClaimMail_cases [of d maxDeliveryAttempts t locked lease secs])
    case none
    with ok show ?thesis by simp
  next
    case (claimed c)
    have "r = c" if "r \<in> set (mail_outbox d)" "m_ID r = m_ID c" for r
      using ok claimed(1) that by (auto simp: mail_ok_def distinct_map dest: inj_onD)
    with claimed ok show ?thesis by (auto intro!: mail_ok_update rows_ok)
  qed
qed

lemma mail_updates_keep:
  "stmt_guarantees (keeps mail_ok) (CompleteMail i lease)"
  "stmt_guarantees (keeps mail_ok) (RetryMail i lease maxDeliveryAttempts delay)"
  "stmt_guarantees (keeps mail_ok) (ExpireMail locked maxDeliveryAttempts b)"
  by (auto intro!: stmt_keeps mail_ok_update rows_ok simp: CompleteMail_def RetryMail_def ExpireMail_def Let_def)

lemma EnqueueMail_keeps: "stmt_guarantees (keeps mail_ok) (EnqueueMail arg)"
  by (rule stmt_keeps) (auto simp: EnqueueMail_def mail_ok_def mail_row_simps list_ex_iff)

interpretation mk: mail_guarantee "keeps mail_ok"
  by unfold_locales (rule mail_updates_keep ClaimMail_keeps)+

subsection \<open>How a mail evolves\<close>

definition mail_le :: "mail_row \<Rightarrow> mail_row \<Rightarrow> bool" where
  "mail_le r r' \<longleftrightarrow> m_ID r' = m_ID r \<and> m_Kind r' = m_Kind r \<and> m_CreatedAt r' = m_CreatedAt r
     \<and> m_ExpiresAt r' = m_ExpiresAt r \<and> m_Attempts r \<le> m_Attempts r'
     \<and> (Terminal (m_Status r) \<longrightarrow> r' = r)"

definition mail_evolves :: "db \<Rightarrow> db \<Rightarrow> bool" where
  "mail_evolves d d' \<longleftrightarrow> length (mail_outbox d) \<le> length (mail_outbox d')
     \<and> (\<forall>i < length (mail_outbox d). mail_le (mail_outbox d ! i) (mail_outbox d' ! i))"

lemma mail_le_trans: "mail_le a b \<Longrightarrow> mail_le b c \<Longrightarrow> mail_le a c"
  unfolding mail_le_def by fastforce

lemma mail_evolves_update:
  assumes "\<And>r. p r \<Longrightarrow> r \<in> set (mail_outbox d) \<Longrightarrow> mail_le r (f r)"
  shows "mail_evolves d (d\<lparr>mail_outbox := update_where p f (mail_outbox d)\<rparr>)"
  using assms by (auto simp: mail_evolves_def update_where_def mail_le_def)

lemma rows_le:
  "\<not> Terminal (m_Status r) \<Longrightarrow> mail_le r (claim_row lease secs now r)"
  "\<not> Terminal (m_Status r) \<Longrightarrow> mail_le r (complete_row now r)"
  "\<not> Terminal (m_Status r) \<Longrightarrow> mail_le r (retry_row ma delay now r)"
  "\<not> Terminal (m_Status r) \<Longrightarrow> mail_le r (expire_row now r)"
  by (simp_all add: mail_le_def claim_row_def complete_row_def retry_row_def expire_row_def Let_def)

lemma not_Terminal:
  "claimable ma now r \<Longrightarrow> \<not> Terminal (m_Status r)" "leased i lease now r \<Longrightarrow> \<not> Terminal (m_Status r)"
  "expirable ma now r \<Longrightarrow> \<not> Terminal (m_Status r)"
  by (auto simp: claimable_def leased_def expirable_def Terminal_def mail_status_defs)

text \<open>Identifiers are unique, so a statement that selects by identifier hits the rows it looked at.\<close>

definition mail_steps :: "db \<Rightarrow> db \<Rightarrow> bool" where
  "mail_steps d d' \<longleftrightarrow> keeps mail_ok d d' \<and> (mail_ok d \<longrightarrow> mail_evolves d d')"

lemma mail_id_inj:
  "mail_ok d \<Longrightarrow> r \<in> set (mail_outbox d) \<Longrightarrow> c \<in> set (mail_outbox d) \<Longrightarrow> m_ID r = m_ID c \<Longrightarrow> r = c"
  by (auto simp: mail_ok_def distinct_map dest: inj_onD)

lemma mail_steps_stmt:
  assumes "stmt_guarantees (keeps mail_ok) f" and "\<And>t d. mail_ok d \<Longrightarrow> mail_evolves d (snd (f t d))"
  shows "stmt_guarantees mail_steps f"
  using assms by (simp add: stmt_guarantees_def mail_steps_def)

lemma ClaimMail_evolves:
  assumes "mail_ok d"
  shows "mail_evolves d (snd (ClaimMail locked lease ma secs now d))"
proof (cases rule: ClaimMail_cases [of d ma now locked lease secs])
  case none
  then show ?thesis by (simp add: mail_evolves_def mail_le_def)
next
  case (claimed c)
  have "r \<in> set (mail_outbox d) \<Longrightarrow> m_ID r = m_ID c \<Longrightarrow> mail_le r (claim_row lease secs now r)" for r
    using mail_id_inj [OF assms _ claimed(1)] claimed(2) not_Terminal(1) rows_le(1) by blast
  with claimed show ?thesis by (auto intro!: mail_evolves_update)
qed

lemma ExpireMail_evolves:
  assumes "mail_ok d"
  shows "mail_evolves d (snd (ExpireMail locked ma b now d))"
proof -
  let ?rows = "limit_offset b 0 (order_by (\<lambda>a b. m_CreatedAt a \<le> m_CreatedAt b)
    (filter (\<lambda>r. expirable ma now r \<and> \<not> locked (m_ID r)) (mail_outbox d)))"
  have "mail_le r (expire_row now r)" if r: "m_ID r \<in> m_ID ` set ?rows" "r \<in> set (mail_outbox d)" for r
  proof -
    obtain x where x: "x \<in> set ?rows" "m_ID r = m_ID x" using r(1) by auto
    then have "x \<in> set (mail_outbox d)" "expirable ma now x" using set_limit_offset by fastforce+
    then show ?thesis using mail_id_inj [OF assms r(2)] x(2) not_Terminal(3) rows_le(4) by blast
  qed
  then show ?thesis by (auto simp: ExpireMail_def Let_def intro!: mail_evolves_update)
qed

interpretation me: mail_guarantee mail_steps
proof unfold_locales
  show "mail_steps d d" for d by (simp add: mail_steps_def keeps_def mail_evolves_def mail_le_def)
  show "mail_steps a b \<Longrightarrow> mail_steps b c \<Longrightarrow> mail_steps a c" for a b c
    unfolding mail_steps_def keeps_def mail_evolves_def
    by (meson mail_le_trans order_trans order_less_le_trans)
qed (auto intro!: mail_steps_stmt ClaimMail_evolves ExpireMail_evolves ClaimMail_keeps mail_updates_keep
    mail_evolves_update rows_le not_Terminal(2) simp: CompleteMail_def RetryMail_def)

text \<open>The worker writes no other table.\<close>

interpretation mq: mail_guarantee "same (\<lambda>d. d\<lparr>mail_outbox := []\<rparr>)"
  by unfold_locales
    (auto intro!: stmt_same simp: ClaimMail_def ExpireMail_def CompleteMail_def RetryMail_def Let_def split: list.split)

subsection \<open>Correctness of the worker\<close>

lemma query_step: "w_step (snd (query cx q f w)) = Suc (w_step w)"
  by (auto simp: query_def Let_def split: option.split fault.split)

lemma finishDelivery_step: "w_step (snd (finishDelivery cx row lease se w)) = Suc (w_step w)"
proof -
  have "query cx Pool f v = (r, w') \<Longrightarrow> w_step w' = Suc (w_step v)" for f :: "int stmt" and v r w'
    using query_step [of cx Pool f v] by simp
  then show ?thesis by (auto simp: finishDelivery_def Let_def split: option.split sum.split prod.split)
qed

lemma ProcessOne_step: "w_step w < w_step (snd (ProcessOne cx cancelled send w))"
proof -
  have "query cx Pool f v = (r, w') \<Longrightarrow> w_step w' = Suc (w_step v)" for f :: "'a stmt" and v r w'
    using query_step [of cx Pool f v] by simp
  note s = this
  have "query cx Pool f v = (r, w') \<Longrightarrow> w_step w' = Suc (w_step v)" for f :: "unit stmt" and v r w'
    using query_step [of cx Pool f v] by simp
  moreover have "query cx Pool f v = (r, w') \<Longrightarrow> w_step w' = Suc (w_step v)" for f :: "mail_row stmt" and v r w'
    using query_step [of cx Pool f v] by simp
  moreover have "finishDelivery cx row lease se v = (r, w') \<Longrightarrow> w_step w' = Suc (w_step v)" for row lease se v r w'
    using finishDelivery_step [of cx row lease se v] by simp
  ultimately show ?thesis
    by (fastforce simp: ProcessOne_def Let_def split: sum.split prod.split)
qed

lemma worker_loop_returns:
  assumes "\<And>m. n \<le> m \<Longrightarrow> cancelled m"
  shows "\<exists>y. worker_loop cx cancelled send log w = Some y"
proof (induction "n - w_step w" arbitrary: log w rule: less_induct)
  case less
  obtain p w1 where p: "ProcessOne cx cancelled send w = (p, w1)" by force
  have s: "w_step w < w_step w1" using ProcessOne_step [of w cx cancelled send] p by simp
  show ?case
  proof (cases "cancelled (w_step w) \<or> cancelled (w_step w1)")
    case True
    then show ?thesis using p by (auto simp: worker_loop.simps [of cx cancelled send log w] Let_def)
  next
    case False
    with assms have "\<not> n \<le> w_step w" by blast
    with s have "n - w_step w1 < n - w_step w" "n - Suc (w_step w1) < n - w_step w" by auto
    then have "\<exists>y. worker_loop cx cancelled send l w1 = Some y"
      "\<exists>y. worker_loop cx cancelled send l (w1\<lparr>w_step := Suc (w_step w1)\<rparr>) = Some y" for l
      using less [of w1 l] less [of "w1\<lparr>w_step := Suc (w_step w1)\<rparr>" l] by simp_all
    then show ?thesis using p False by (auto simp: worker_loop.simps [of cx cancelled send log w] Let_def)
  qed
qed

text \<open>
  C39.  One round of the worker, whatever the sender, the database and the other workers do, keeps
  the queue's invariant (valid states, at most five attempts, a lease exactly while processing,
  no payload left in a terminal state), never changes a mail that is in a terminal state, never
  lowers an attempt count, never loses a mail, and writes no other table.
\<close>

theorem mail_worker_safe:
  assumes "mail_ok (w_db w)" and "rely mail_steps cx" and "rely (same (\<lambda>d. d\<lparr>mail_outbox := []\<rparr>)) cx"
  shows "mail_ok (w_db (snd (ProcessOne cx cancelled send w)))
    \<and> mail_evolves (w_db w) (w_db (snd (ProcessOne cx cancelled send w)))
    \<and> (w_db (snd (ProcessOne cx cancelled send w)))\<lparr>mail_outbox := mail_outbox (w_db w)\<rparr> = w_db w"
proof -
  let ?d' = "w_db (snd (ProcessOne cx cancelled send w))"
  have "mail_steps (w_db w) ?d'" by (rule me.ProcessOne_R [OF assms(2)])
  moreover have "?d'\<lparr>mail_outbox := []\<rparr> = (w_db w)\<lparr>mail_outbox := []\<rparr>"
    using mq.ProcessOne_R [OF assms(3)] by (simp add: same_def)
  then have "?d'\<lparr>mail_outbox := mail_outbox (w_db w)\<rparr> = w_db w"
    by (cases "w_db w"; cases ?d') simp
  ultimately show ?thesis using assms(1) by (simp add: mail_steps_def keeps_def)
qed

definition example_mail :: EnqueueMailParams where
  "example_mail = \<lparr>em_ID = ''m1'', em_Kind = ''register'', em_Recipient = ''a@b'', em_Subject = ''s'',
     em_Body = ''b'', em_ExpiresAt = hour\<rparr>"

theorem mail_worker_safe_witness:
  "let d = snd (EnqueueMail example_mail 0 empty_db)
   in mail_ok d \<and> mail_ok (w_db (snd (ProcessOne quiet (\<lambda>_. False) (\<lambda>_ _. None) (start d))))"
proof -
  let ?d = "snd (EnqueueMail example_mail 0 empty_db)"
  have ok: "mail_ok ?d"
    by (simp add: EnqueueMail_def mail_ok_def mail_row_simps example_mail_def empty_db_def)
  have r: "rely mail_steps quiet" "rely (same (\<lambda>d. d\<lparr>mail_outbox := []\<rparr>)) quiet"
    by (rule quiet_rely, rule me.R_refl) (rule quiet_rely, rule sm.R_refl)
  have "mail_ok (w_db (start ?d))" using ok by (simp add: start_def)
  from mail_worker_safe [OF this r]
  have "mail_ok (w_db (snd (ProcessOne quiet (\<lambda>_. False) (\<lambda>_ _. None) (start ?d))))" by blast
  with ok show ?thesis by (simp only: Let_def simp_thms)
qed

text \<open>
  The worker never waits for ever: once its context is cancelled for good, \<^verbatim>\<open>Run\<close> returns,
  with no error for a positive poll interval.
\<close>

theorem mail_run_stops:
  assumes "\<And>m. n \<le> m \<Longrightarrow> cancelled m"
  shows "\<exists>err log w'. mail_Run cx cancelled send poll w = Some (err, log, w') \<and> (err = None \<longleftrightarrow> 0 < poll)"
  using worker_loop_returns [of n cancelled cx send "[]" w, OF assms] by (auto simp: mail_Run_def)

theorem mail_run_stops_witness:
  "\<exists>log w'. mail_Run quiet (\<lambda>m. 7 \<le> m) (\<lambda>_ _. None) second (start empty_db) = Some (None, log, w')"
  using mail_run_stops [of 7 "\<lambda>m. 7 \<le> m" quiet "\<lambda>_ _. None" second "start empty_db"] by auto

lemma retryDelaySeconds_value:
  "retryDelaySeconds a j = (if a \<le> 1 then 15 else if a = 2 then 30 else if a = 3 then 60
     else if a = 4 then 120 else 240) + int (j mod 10)"
proof -
  consider "a < 1" | "a = 1" | "a = 2" | "a = 3" | "a = 4" | "a = 5" | "a > 5" by linarith
  then show ?thesis
    by cases (simp_all add: retryDelaySeconds_def Let_def maxDeliveryAttempts_def retryBaseSeconds_def
        retryJitterSeconds_def push_bit_eq_mult)
qed

text \<open>
  The retry delay is a bounded exponential back-off: between 15 and 249 seconds, within ten
  seconds of \<open>15 * 2 ^ (attempt - 1)\<close> for the attempts that occur, and growing with them.
\<close>

theorem retry_delay_bounds:
  "15 \<le> retryDelaySeconds a j \<and> retryDelaySeconds a j \<le> 249
   \<and> (1 \<le> a \<longrightarrow> a \<le> 5 \<longrightarrow> 15 * 2 ^ nat (a - 1) \<le> retryDelaySeconds a j
        \<and> retryDelaySeconds a j < 15 * 2 ^ nat (a - 1) + 10)
   \<and> (1 \<le> a \<longrightarrow> a < b \<longrightarrow> b \<le> 5 \<longrightarrow> retryDelaySeconds a j < retryDelaySeconds b k)"
proof -
  have m: "int (j mod 10) < 10" "int (k mod 10) < 10" "0 \<le> int (j mod 10)" "0 \<le> int (k mod 10)" by simp_all
  have 1: "15 \<le> retryDelaySeconds a j \<and> retryDelaySeconds a j \<le> 249"
    using mod_less_divisor [of 10 j] unfolding retryDelaySeconds_value by auto
  have 2: "15 * 2 ^ nat (a - 1) \<le> retryDelaySeconds a j \<and> retryDelaySeconds a j < 15 * 2 ^ nat (a - 1) + 10"
    if b: "1 \<le> a" "a \<le> 5"
  proof -
    consider "a = 1" | "a = 2" | "a = 3" | "a = 4" | "a = 5" using b by linarith
    then show ?thesis using m by cases (simp_all add: retryDelaySeconds_value)
  qed
  have 3: "retryDelaySeconds a j < retryDelaySeconds b k" if b: "1 \<le> a" "a < b" "b \<le> 5"
  proof -
    consider "a = 1" | "a = 2" | "a = 3" | "a = 4" using b by linarith
    then show ?thesis using b m by cases (auto simp: retryDelaySeconds_value)
  qed
  from 1 2 3 show ?thesis by blast
qed

theorem retry_delay_bounds_witness: "retryDelaySeconds 2 7 < retryDelaySeconds 3 0"
  using retry_delay_bounds [of 2 7 3 0] by simp

end
