(* ===== verification/Mail_System.thy ===== *)
theory Mail_System
  imports Mail_Outbox
begin

text \<open>
  Several workers on one queue (\<^verbatim>\<open>internal/modules/mailoutbox\<close>), as a state machine: their
  statements interleave freely with each other, with API processes that enqueue mail, with crashes
  and with lost acknowledgements.  The machine logs every call of the sender with the mail and the
  attempt it belongs to.  The workers' clocks and the database's are taken as one.
\<close>

datatype phase =
    Idle
  | Claimed mail_row string \<comment> \<open>the row returned by ClaimMail and the lease\<close>
  | Tried mail_row string "goerr option" \<comment> \<open>after deliver, with its error\<close>

record sys =
  s_db :: db
  s_now :: time
  s_phase :: "nat \<Rightarrow> phase"
  s_leases :: "string list"
  s_sends :: "(string \<times> int) list"

definition finish_stmt :: "mail_row \<Rightarrow> string \<Rightarrow> goerr option \<Rightarrow> int \<Rightarrow> int stmt" where
  "finish_stmt row lease sendErr delay =
     (case sendErr of
        None \<Rightarrow> CompleteMail (m_ID row) lease
      | Some _ \<Rightarrow> RetryMail (m_ID row) lease maxDeliveryAttempts delay)"

inductive mail_step :: "sys \<Rightarrow> sys \<Rightarrow> bool" where
  Tick: "s_now s \<le> t \<Longrightarrow> mail_step s (s\<lparr>s_now := t\<rparr>)"
| Enqueue: "mail_step s (s\<lparr>s_db := snd (EnqueueMail arg (s_now s) (s_db s))\<rparr>)"
| Expire: "mail_step s (s\<lparr>s_db := snd (ExpireMail locked maxDeliveryAttempts b (s_now s) (s_db s))\<rparr>)"
| Claim: "s_phase s k = Idle \<Longrightarrow> lease \<notin> set (s_leases s) \<Longrightarrow>
    ClaimMail locked lease maxDeliveryAttempts (leaseDuration div second) (s_now s) (s_db s) = (Inr row, d) \<Longrightarrow>
    mail_step s (s\<lparr>s_db := d, s_phase := (s_phase s)(k := Claimed row lease), s_leases := lease # s_leases s\<rparr>)"
| Send: "s_phase s k = Claimed row lease \<Longrightarrow> s_now s < send_deadline (s_now s) row \<Longrightarrow>
    mail_step s (s\<lparr>s_phase := (s_phase s)(k := Tried row lease err),
                   s_sends := (m_ID row, m_Attempts row) # s_sends s\<rparr>)"
| Skip: "s_phase s k = Claimed row lease \<Longrightarrow>
    mail_step s (s\<lparr>s_phase := (s_phase s)(k := Tried row lease (Some err))\<rparr>)"
| Finish: "s_phase s k = Tried row lease err \<Longrightarrow>
    mail_step s (s\<lparr>s_db := snd (finish_stmt row lease err delay (s_now s) (s_db s)),
                   s_phase := (s_phase s)(k := Idle)\<rparr>)"
| Crash: "mail_step s (s\<lparr>s_phase := (s_phase s)(k := Idle)\<rparr>)"

inductive mail_reach :: "sys \<Rightarrow> sys \<Rightarrow> bool" where
  refl: "mail_reach s s"
| step: "mail_reach s s' \<Longrightarrow> mail_step s' s'' \<Longrightarrow> mail_reach s s''"

definition initial :: "sys \<Rightarrow> bool" where
  "initial s \<longleftrightarrow> mail_ok (s_db s) \<and> (\<forall>k. s_phase s k = Idle) \<and> s_sends s = []
     \<and> (\<forall>r \<in> set (mail_outbox (s_db s)). \<forall>l. m_LeaseID r = Some l \<longrightarrow> l \<in> set (s_leases s))"

fun holds :: "phase \<Rightarrow> (mail_row \<times> string) option" where
  "holds Idle = None"
| "holds (Claimed row lease) = Some (row, lease)"
| "holds (Tried row lease err) = Some (row, lease)"

text \<open>
  The claim of a worker: its row is still in the table, with at least the attempt it counted, and
  until the lease runs out exactly as it was claimed.
\<close>

definition claim_ok :: "sys \<Rightarrow> mail_row \<Rightarrow> string \<Rightarrow> bool" where
  "claim_ok s row lease \<longleftrightarrow> lease \<in> set (s_leases s) \<and> m_LeaseID row = Some lease
     \<and> m_Status row = ''processing'' \<and> m_LeasedUntil row \<noteq> None \<and> 1 \<le> m_Attempts row
     \<and> (\<exists>r \<in> set (mail_outbox (s_db s)). m_ID r = m_ID row \<and> m_Attempts row \<le> m_Attempts r
          \<and> (s_now s < the (m_LeasedUntil row) \<longrightarrow> r = row))"

definition sends_ok :: "sys \<Rightarrow> bool" where
  "sends_ok s \<longleftrightarrow> distinct (s_sends s)
     \<and> (\<forall>(i, a) \<in> set (s_sends s). 1 \<le> a \<and> (\<exists>r \<in> set (mail_outbox (s_db s)). m_ID r = i \<and> a \<le> m_Attempts r))
     \<and> (\<forall>k row lease. s_phase s k = Claimed row lease \<longrightarrow> (m_ID row, m_Attempts row) \<notin> set (s_sends s))"

definition claims_ok :: "sys \<Rightarrow> bool" where
  "claims_ok s \<longleftrightarrow>
     (\<forall>k row lease. holds (s_phase s k) = Some (row, lease) \<longrightarrow> claim_ok s row lease)
     \<and> (\<forall>k k' row row' lease lease'. k \<noteq> k' \<longrightarrow> holds (s_phase s k) = Some (row, lease) \<longrightarrow>
          holds (s_phase s k') = Some (row', lease') \<longrightarrow>
          lease \<noteq> lease' \<and> (m_ID row, m_Attempts row) \<noteq> (m_ID row', m_Attempts row'))"

lemma claims_okI:
  assumes "\<And>k row lease. holds (s_phase s k) = Some (row, lease) \<Longrightarrow> claim_ok s row lease"
    and "\<And>k k' row row' lease lease'. k \<noteq> k' \<Longrightarrow> holds (s_phase s k) = Some (row, lease) \<Longrightarrow>
      holds (s_phase s k') = Some (row', lease') \<Longrightarrow>
      lease \<noteq> lease' \<and> (m_ID row, m_Attempts row) \<noteq> (m_ID row', m_Attempts row')"
  shows "claims_ok s"
  unfolding claims_ok_def using assms by blast

lemma claims_ok_claim: "claims_ok s \<Longrightarrow> holds (s_phase s k) = Some (row, lease) \<Longrightarrow> claim_ok s row lease"
  unfolding claims_ok_def by blast

lemma claims_ok_distinct:
  "claims_ok s \<Longrightarrow> k \<noteq> k' \<Longrightarrow> holds (s_phase s k) = Some (row, lease) \<Longrightarrow>
     holds (s_phase s k') = Some (row', lease') \<Longrightarrow>
     lease \<noteq> lease' \<and> (m_ID row, m_Attempts row) \<noteq> (m_ID row', m_Attempts row')"
  unfolding claims_ok_def by blast

lemma sends_ok_claimed:
  "sends_ok s \<Longrightarrow> s_phase s k = Claimed row lease \<Longrightarrow> (m_ID row, m_Attempts row) \<notin> set (s_sends s)"
  unfolding sends_ok_def by blast

definition sys_inv :: "sys \<Rightarrow> bool" where
  "sys_inv s \<longleftrightarrow> mail_ok (s_db s) \<and> claims_ok s \<and> sends_ok s
     \<and> (\<forall>r \<in> set (mail_outbox (s_db s)). \<forall>l. m_LeaseID r = Some l \<longrightarrow> l \<in> set (s_leases s))"

lemma initial_inv: "initial s \<Longrightarrow> sys_inv s"
  by (auto simp: initial_def sys_inv_def claims_ok_def sends_ok_def)

lemma mail_evolves_row:
  assumes "mail_evolves d d'" and "r \<in> set (mail_outbox d)"
  obtains r' where "r' \<in> set (mail_outbox d')" and "mail_le r r'"
proof -
  obtain i where i: "i < length (mail_outbox d)" "r = mail_outbox d ! i" using assms(2) by (metis in_set_conv_nth)
  show thesis
    by (rule that [of "mail_outbox d' ! i"]) (use i assms(1) in \<open>auto simp: mail_evolves_def\<close>)
qed

lemma in_update_where: "r \<in> set rows \<Longrightarrow> \<not> p r \<Longrightarrow> r \<in> set (update_where p f rows)"
  by (force simp: set_update_where)

text \<open>One lemma for every step that changes the table: rows evolve, held rows are left alone.\<close>

lemma inv_change:
  assumes inv: "sys_inv s" and ok: "mail_ok d'" and ev: "mail_evolves (s_db s) d'"
    and ph: "\<And>k. ph k = s_phase s k \<or> ph k = Idle"
    and held: "\<And>k row lease. holds (ph k) = Some (row, lease) \<Longrightarrow> m_LeaseID row = Some lease \<Longrightarrow>
      m_Status row = ''processing'' \<Longrightarrow> s_now s < the (m_LeasedUntil row) \<Longrightarrow> m_LeasedUntil row \<noteq> None \<Longrightarrow>
      row \<in> set (mail_outbox (s_db s)) \<Longrightarrow> row \<in> set (mail_outbox d')"
    and ls: "set (s_leases s) \<subseteq> set leases"
    and lease: "\<And>r l. r \<in> set (mail_outbox d') \<Longrightarrow> m_LeaseID r = Some l \<Longrightarrow> l \<in> set leases"
  shows "sys_inv (s\<lparr>s_db := d', s_phase := ph, s_leases := leases\<rparr>)" (is "sys_inv ?s")
proof -
  have h: "holds (ph k) = Some x \<Longrightarrow> holds (s_phase s k) = Some x" for k x using ph [of k] by auto
  have c: "ph k = Claimed row l \<Longrightarrow> s_phase s k = Claimed row l" for k row l using ph [of k] by auto
  have co': "claim_ok ?s row l" if hk: "holds (ph k) = Some (row, l)" for k row l
  proof -
    have co: "claim_ok s row l" using inv h [OF hk] by (auto simp: sys_inv_def claims_ok_def)
    then obtain r where r: "r \<in> set (mail_outbox (s_db s))" "m_ID r = m_ID row" "m_Attempts row \<le> m_Attempts r"
      "s_now s < the (m_LeasedUntil row) \<longrightarrow> r = row" by (auto simp: claim_ok_def)
    obtain r' where r': "r' \<in> set (mail_outbox d')" "mail_le r r'" using mail_evolves_row [OF ev r(1)] .
    have "\<exists>x \<in> set (mail_outbox d'). m_ID x = m_ID row \<and> m_Attempts row \<le> m_Attempts x
        \<and> (s_now s < the (m_LeasedUntil row) \<longrightarrow> x = row)"
    proof (cases "s_now s < the (m_LeasedUntil row)")
      case True
      then have "row \<in> set (mail_outbox d')" using held [OF hk] co r by (auto simp: claim_ok_def)
      then show ?thesis by blast
    next
      case False
      then show ?thesis using r r' by (intro bexI [of _ r']) (auto simp: mail_le_def)
    qed
    then show ?thesis using co ls by (auto simp: claim_ok_def)
  qed
  have df: "lease \<noteq> lease' \<and> (m_ID row, m_Attempts row) \<noteq> (m_ID row', m_Attempts row')"
    if "k \<noteq> k'" "holds (ph k) = Some (row, lease)" "holds (ph k') = Some (row', lease')"
    for k k' row row' lease lease'
    using inv that(1) h [OF that(2)] h [OF that(3)] unfolding sys_inv_def claims_ok_def by blast
  have ph_s: "s_phase ?s = ph" by simp
  have "claims_ok ?s" by (rule claims_okI, unfold ph_s, erule co', erule (2) df)
  moreover have "sends_ok ?s"
    unfolding sends_ok_def
  proof (intro conjI)
    show "distinct (s_sends ?s)" using inv by (simp add: sys_inv_def sends_ok_def)
    show "\<forall>k row l. s_phase ?s k = Claimed row l \<longrightarrow> (m_ID row, m_Attempts row) \<notin> set (s_sends ?s)"
    proof (intro allI impI)
      fix k row l
      assume "s_phase ?s k = Claimed row l"
      then have "s_phase s k = Claimed row l" using c by simp
      then show "(m_ID row, m_Attempts row) \<notin> set (s_sends ?s)"
        using inv unfolding sys_inv_def sends_ok_def by simp blast
    qed
    show "\<forall>(i, a) \<in> set (s_sends ?s). 1 \<le> a \<and> (\<exists>r \<in> set (mail_outbox (s_db ?s)). m_ID r = i \<and> a \<le> m_Attempts r)"
    proof clarify
      fix i a
      assume "(i, a) \<in> set (s_sends ?s)"
      then obtain r where r: "1 \<le> a" "r \<in> set (mail_outbox (s_db s))" "m_ID r = i" "a \<le> m_Attempts r"
        using inv by (auto simp: sys_inv_def sends_ok_def)
      obtain r' where "r' \<in> set (mail_outbox d')" "mail_le r r'" using mail_evolves_row [OF ev r(2)] .
      with r show "1 \<le> a \<and> (\<exists>r \<in> set (mail_outbox (s_db ?s)). m_ID r = i \<and> a \<le> m_Attempts r)"
        by (auto simp: mail_le_def intro!: bexI [of _ r'])
    qed
  qed
  ultimately show ?thesis using ok lease by (simp add: sys_inv_def)
qed

lemma inv_db:
  assumes "sys_inv s" and "mail_ok d'" and "mail_evolves (s_db s) d'"
    and "\<And>row lease. m_LeaseID row = Some lease \<Longrightarrow> m_Status row = ''processing'' \<Longrightarrow>
      s_now s < the (m_LeasedUntil row) \<Longrightarrow> m_LeasedUntil row \<noteq> None \<Longrightarrow>
      row \<in> set (mail_outbox (s_db s)) \<Longrightarrow> row \<in> set (mail_outbox d')"
    and "\<And>r l. r \<in> set (mail_outbox d') \<Longrightarrow> m_LeaseID r = Some l \<Longrightarrow> l \<in> set (s_leases s)"
  shows "sys_inv (s\<lparr>s_db := d'\<rparr>)"
  using inv_change [OF assms(1-3), of "s_phase s" "s_leases s"] assms(4,5) by simp

lemma ok_db: "stmt_guarantees (keeps mail_ok) f \<Longrightarrow> mail_ok d \<Longrightarrow> mail_ok (snd (f t d))"
  by (simp add: stmt_guarantees_def keeps_def)

lemma inv_Enqueue:
  assumes "sys_inv s"
  shows "sys_inv (s\<lparr>s_db := snd (EnqueueMail arg (s_now s) (s_db s))\<rparr>)"
proof (rule inv_db [OF assms])
  show "mail_ok (snd (EnqueueMail arg (s_now s) (s_db s)))"
    using ok_db [OF EnqueueMail_keeps] assms by (simp add: sys_inv_def)
  show "mail_evolves (s_db s) (snd (EnqueueMail arg (s_now s) (s_db s)))"
    by (auto simp: EnqueueMail_def mail_evolves_def mail_le_def nth_append)
qed (use assms in \<open>auto simp: EnqueueMail_def sys_inv_def split: if_splits\<close>)

lemma inv_Expire:
  assumes "sys_inv s"
  shows "sys_inv (s\<lparr>s_db := snd (ExpireMail locked maxDeliveryAttempts b (s_now s) (s_db s))\<rparr>)"
proof (rule inv_db [OF assms])
  let ?d' = "snd (ExpireMail locked maxDeliveryAttempts b (s_now s) (s_db s))"
  let ?el = "limit_offset b 0 (order_by (\<lambda>a b. m_CreatedAt a \<le> m_CreatedAt b)
    (filter (\<lambda>r. expirable maxDeliveryAttempts (s_now s) r \<and> \<not> locked (m_ID r)) (mail_outbox (s_db s))))"
  have ok: "mail_ok (s_db s)" using assms by (simp add: sys_inv_def)
  show "mail_ok ?d'" by (rule ok_db [OF mail_updates_keep(3) ok])
  show "mail_evolves (s_db s) ?d'" by (rule ExpireMail_evolves [OF ok])
  show "row \<in> set (mail_outbox ?d')"
    if "m_Status row = ''processing''" "s_now s < the (m_LeasedUntil row)" "m_LeasedUntil row \<noteq> None"
      "row \<in> set (mail_outbox (s_db s))" for row
  proof -
    have "m_ID row \<notin> m_ID ` set ?el"
    proof
      assume "m_ID row \<in> m_ID ` set ?el"
      then obtain x where "x \<in> set ?el" "m_ID row = m_ID x" by auto
      then have "x \<in> set (mail_outbox (s_db s))" "expirable maxDeliveryAttempts (s_now s) x"
        using set_limit_offset by fastforce+
      then show False
        using mail_id_inj [OF ok that(4)] \<open>m_ID row = m_ID x\<close> that by (auto simp: expirable_def null_le_def)
    qed
    then show ?thesis using that(4) by (auto simp: ExpireMail_def Let_def intro: in_update_where)
  qed
  show "l \<in> set (s_leases s)" if "r \<in> set (mail_outbox ?d')" "m_LeaseID r = Some l" for r l
    using that assms
    by (auto simp: ExpireMail_def Let_def set_update_where sys_inv_def expire_row_def split: if_splits)
qed

lemma inv_Finish:
  assumes inv: "sys_inv s" and k: "s_phase s k = Tried row lease err"
  shows "sys_inv (s\<lparr>s_db := snd (finish_stmt row lease err delay (s_now s) (s_db s)),
                    s_phase := (s_phase s)(k := Idle)\<rparr>)"
proof -
  obtain f where d': "snd (finish_stmt row lease err delay (s_now s) (s_db s))
      = (s_db s)\<lparr>mail_outbox := update_where (leased (m_ID row) lease (s_now s)) f (mail_outbox (s_db s))\<rparr>"
    and f: "f = complete_row (s_now s) \<or> f = retry_row maxDeliveryAttempts delay (s_now s)"
    by (cases err) (auto simp: finish_stmt_def CompleteMail_def RetryMail_def)
  let ?d' = "(s_db s)\<lparr>mail_outbox := update_where (leased (m_ID row) lease (s_now s)) f (mail_outbox (s_db s))\<rparr>"
  have ok: "mail_ok (s_db s)" using inv by (simp add: sys_inv_def)
  have ok': "mail_ok ?d'" using f rows_ok(2,3) by (intro mail_ok_update [OF ok]) auto
  have ev: "mail_evolves (s_db s) ?d'"
    using f rows_le(2,3) not_Terminal(2) by (intro mail_evolves_update) blast
  have "sys_inv (s\<lparr>s_db := ?d', s_phase := (s_phase s)(k := Idle), s_leases := s_leases s\<rparr>)"
  proof (rule inv_change [OF inv ok' ev])
    fix k' row' lease'
    assume h: "holds (((s_phase s)(k := Idle)) k') = Some (row', lease')" "m_LeaseID row' = Some lease'"
      "row' \<in> set (mail_outbox (s_db s))"
    then have "k' \<noteq> k" "holds (s_phase s k') = Some (row', lease')" by (auto split: if_splits)
    moreover have "holds (s_phase s k) = Some (row, lease)" using k by simp
    ultimately have "lease' \<noteq> lease" using inv unfolding sys_inv_def claims_ok_def by blast
    then show "row' \<in> set (mail_outbox ?d')"
      using h by (auto simp: leased_def intro: in_update_where)
  next
    show "l \<in> set (s_leases s)" if "r \<in> set (mail_outbox ?d')" "m_LeaseID r = Some l" for r l
      using that inv f
      by (auto simp: set_update_where sys_inv_def complete_row_def retry_row_def Let_def split: if_splits)
  qed auto
  then show ?thesis using d' by simp
qed

lemma inv_Crash: "sys_inv s \<Longrightarrow> sys_inv (s\<lparr>s_phase := (s_phase s)(k := Idle)\<rparr>)"
  using inv_change [of s "s_db s" "(s_phase s)(k := Idle)" "s_leases s"]
  by (simp add: sys_inv_def mail_evolves_def mail_le_def)

lemma claim_ok_Tick: "claim_ok s row lease \<Longrightarrow> s_now s \<le> t \<Longrightarrow> claim_ok (s\<lparr>s_now := t\<rparr>) row lease"
  unfolding claim_ok_def by fastforce

lemma inv_Tick:
  assumes "sys_inv s" and "s_now s \<le> t"
  shows "sys_inv (s\<lparr>s_now := t\<rparr>)"
proof -
  have c: "claims_ok s" using assms(1) by (simp add: sys_inv_def)
  have "claims_ok (s\<lparr>s_now := t\<rparr>)"
  proof (rule claims_okI)
    fix k row lease
    assume "holds (s_phase (s\<lparr>s_now := t\<rparr>) k) = Some (row, lease)"
    then have "claim_ok s row lease" by (intro claims_ok_claim [OF c]) simp
    then show "claim_ok (s\<lparr>s_now := t\<rparr>) row lease" using assms(2) by (rule claim_ok_Tick)
  next
    fix k k' row row' lease lease'
    assume a: "k \<noteq> k'" "holds (s_phase (s\<lparr>s_now := t\<rparr>) k) = Some (row, lease)"
      "holds (s_phase (s\<lparr>s_now := t\<rparr>) k') = Some (row', lease')"
    show "lease \<noteq> lease' \<and> (m_ID row, m_Attempts row) \<noteq> (m_ID row', m_Attempts row')"
      by (rule claims_ok_distinct [OF c a(1)]) (use a in simp_all)
  qed
  then show ?thesis using assms(1) by (simp add: sys_inv_def sends_ok_def)
qed

text \<open>A worker that passes from a claim to having tried it.\<close>

lemma claims_Tried:
  assumes "claims_ok s" and "s_phase s k = Claimed row lease"
  shows "claims_ok (s\<lparr>s_phase := (s_phase s)(k := Tried row lease err), s_sends := sends\<rparr>)" (is "claims_ok ?s")
proof (rule claims_okI)
  have h: "holds (s_phase ?s k') = holds (s_phase s k')" for k' using assms(2) by simp
  fix k1 k2 r1 r2 l1 l2
  show "claim_ok ?s r1 l1" if "holds (s_phase ?s k1) = Some (r1, l1)"
    using claims_ok_claim [OF assms(1)] that unfolding h by (simp add: claim_ok_def)
  show "l1 \<noteq> l2 \<and> (m_ID r1, m_Attempts r1) \<noteq> (m_ID r2, m_Attempts r2)"
    if "k1 \<noteq> k2" "holds (s_phase ?s k1) = Some (r1, l1)" "holds (s_phase ?s k2) = Some (r2, l2)"
    using that unfolding h by (rule claims_ok_distinct [OF assms(1)])
qed

lemma inv_Skip:
  assumes "sys_inv s" and "s_phase s k = Claimed row lease"
  shows "sys_inv (s\<lparr>s_phase := (s_phase s)(k := Tried row lease err)\<rparr>)"
proof -
  have c: "claims_ok s" and se: "sends_ok s" using assms(1) by (simp_all add: sys_inv_def)
  let ?s = "s\<lparr>s_phase := (s_phase s)(k := Tried row lease err)\<rparr>"
  have "claims_ok ?s" using claims_Tried [OF c assms(2), where err = err and sends = "s_sends s"] by simp
  moreover have "(m_ID r, m_Attempts r) \<notin> set (s_sends s)" if "s_phase ?s k' = Claimed r l" for k' r l
    using sends_ok_claimed [OF se, of k' r l] that by (auto split: if_splits)
  then have "sends_ok ?s" using se unfolding sends_ok_def by simp
  ultimately show ?thesis using assms(1) by (simp add: sys_inv_def)
qed

lemma inv_Send:
  assumes inv: "sys_inv s" and k: "s_phase s k = Claimed row lease"
  shows "sys_inv (s\<lparr>s_phase := (s_phase s)(k := Tried row lease err),
                    s_sends := (m_ID row, m_Attempts row) # s_sends s\<rparr>)" (is "sys_inv ?s")
proof -
  have c: "claims_ok s" and se: "sends_ok s" using inv by (simp_all add: sys_inv_def)
  have co: "claim_ok s row lease" by (rule claims_ok_claim [OF c, of k]) (simp add: k)
  have "sends_ok ?s" unfolding sends_ok_def
  proof (intro conjI)
    show "distinct (s_sends ?s)" using sends_ok_claimed [OF se k] se by (simp add: sends_ok_def)
    show "\<forall>(i, a) \<in> set (s_sends ?s). 1 \<le> a \<and> (\<exists>r \<in> set (mail_outbox (s_db ?s)). m_ID r = i \<and> a \<le> m_Attempts r)"
      using se co by (auto simp: sends_ok_def claim_ok_def)
    show "\<forall>k' row' lease'. s_phase ?s k' = Claimed row' lease' \<longrightarrow> (m_ID row', m_Attempts row') \<notin> set (s_sends ?s)"
    proof (intro allI impI)
      fix k' row' lease'
      assume "s_phase ?s k' = Claimed row' lease'"
      then have k': "k' \<noteq> k" "s_phase s k' = Claimed row' lease'" by (auto split: if_splits)
      have "holds (s_phase s k) = Some (row, lease)" "holds (s_phase s k') = Some (row', lease')"
        using k k' by simp_all
      then have "(m_ID row', m_Attempts row') \<noteq> (m_ID row, m_Attempts row)"
        using claims_ok_distinct [OF c k'(1)] by blast
      moreover have "(m_ID row', m_Attempts row') \<notin> set (s_sends s)"
        by (rule sends_ok_claimed [OF se k'(2)])
      ultimately show "(m_ID row', m_Attempts row') \<notin> set (s_sends ?s)" by simp
    qed
  qed
  with inv claims_Tried [OF c k] show ?thesis by (simp add: sys_inv_def)
qed

text \<open>
  A claim: the row had no valid lease, so no worker's unexpired claim is touched, and the attempt
  it counts is larger than all earlier ones of that mail.
\<close>

lemma inv_Claim:
  assumes inv: "sys_inv s" and k: "s_phase s k = Idle" and fresh: "lease \<notin> set (s_leases s)"
    and cl: "ClaimMail locked lease maxDeliveryAttempts (leaseDuration div second) (s_now s) (s_db s) = (Inr row, d)"
  shows "sys_inv (s\<lparr>s_db := d, s_phase := (s_phase s)(k := Claimed row lease), s_leases := lease # s_leases s\<rparr>)"
    (is "sys_inv ?s")
proof -
  let ?secs = "leaseDuration div second"
  have ok: "mail_ok (s_db s)" using inv by (simp add: sys_inv_def)
  obtain c where c: "c \<in> set (mail_outbox (s_db s))" "claimable maxDeliveryAttempts (s_now s) c"
    and row: "row = claim_row lease ?secs (s_now s) c"
    and d: "d = (s_db s)\<lparr>mail_outbox := update_where (\<lambda>r. m_ID r = m_ID c) (claim_row lease ?secs (s_now s))
              (mail_outbox (s_db s))\<rparr>"
    using cl by (cases rule: ClaimMail_cases [of "s_db s" maxDeliveryAttempts "s_now s" locked lease ?secs]) auto
  have only: "x = c" if "x \<in> set (mail_outbox (s_db s))" "m_ID x = m_ID c" for x
    using mail_id_inj [OF ok that(1) c(1) that(2)] .
  have ok': "mail_ok d" and ev: "mail_evolves (s_db s) d"
    using ok_db [OF ClaimMail_keeps ok, of locked lease ?secs "s_now s"]
      ClaimMail_evolves [OF ok, of locked lease maxDeliveryAttempts ?secs "s_now s"] cl by simp_all
  have rowd: "row \<in> set (mail_outbox d)" using c(1) row d by (force simp: set_update_where)
  have inv1: "sys_inv (s\<lparr>s_db := d, s_phase := s_phase s, s_leases := lease # s_leases s\<rparr>)" (is "sys_inv ?s1")
  proof (rule inv_change [OF inv ok' ev])
    fix k' row' lease'
    assume h: "m_Status row' = ''processing''" "s_now s < the (m_LeasedUntil row')" "m_LeasedUntil row' \<noteq> None"
      "row' \<in> set (mail_outbox (s_db s))"
    then have "row' \<noteq> c" using c(2) by (auto simp: claimable_def null_le_def)
    then have "m_ID row' \<noteq> m_ID c" using only h(4) by blast
    then show "row' \<in> set (mail_outbox d)" using h(4) d by (auto intro: in_update_where)
  next
    show "l \<in> set (lease # s_leases s)" if "r \<in> set (mail_outbox d)" "m_LeaseID r = Some l" for r l
      using that inv d by (auto simp: set_update_where sys_inv_def claim_row_def split: if_splits)
  qed auto
  have old: "m_LeaseID r' \<noteq> None \<and> lease' \<noteq> lease \<and> (m_ID row', m_Attempts row') \<noteq> (m_ID row, m_Attempts row)"
    if "holds (s_phase s k') = Some (row', lease')" "r' = row'" for k' row' r' lease'
  proof -
    have co: "claim_ok s row' lease'" using inv that claims_ok_claim by (auto simp: sys_inv_def)
    then obtain r where r: "r \<in> set (mail_outbox (s_db s))" "m_ID r = m_ID row'" "m_Attempts row' \<le> m_Attempts r"
      by (auto simp: claim_ok_def)
    have "m_Attempts row' \<noteq> m_Attempts row" if "m_ID row' = m_ID row"
      using only [OF r(1)] r(2,3) that row by (simp add: claim_row_def)
    with co fresh that show ?thesis by (auto simp: claim_ok_def)
  qed
  have st: "m_LeaseID row = Some lease" "m_Status row = ''processing''" "m_LeasedUntil row \<noteq> None"
    "1 \<le> m_Attempts row"
    using row ok c(1) by (auto simp: claim_row_def mail_ok_def mail_row_ok_def)
  then have new: "claim_ok ?s row lease" using rowd by (auto simp: claim_ok_def)
  have "claims_ok ?s"
  proof (rule claims_okI)
    fix k1 r1 l1
    assume "holds (s_phase ?s k1) = Some (r1, l1)"
    then consider "r1 = row" "l1 = lease" | "holds (s_phase s k1) = Some (r1, l1)" by (auto split: if_splits)
    then show "claim_ok ?s r1 l1"
    proof cases
      case 2
      then have "claim_ok ?s1 r1 l1" using inv1 by (intro claims_ok_claim [of ?s1 k1]) (simp_all add: sys_inv_def)
      then show ?thesis by (simp add: claim_ok_def)
    qed (use new in simp)
  next
    fix k1 k2 r1 r2 l1 l2
    assume a: "k1 \<noteq> k2" "holds (s_phase ?s k1) = Some (r1, l1)" "holds (s_phase ?s k2) = Some (r2, l2)"
    have cs: "claims_ok s" using inv by (simp add: sys_inv_def)
    consider "k1 = k" | "k2 = k" | "k1 \<noteq> k" "k2 \<noteq> k" by blast
    then show "l1 \<noteq> l2 \<and> (m_ID r1, m_Attempts r1) \<noteq> (m_ID r2, m_Attempts r2)"
    proof cases
      case 1
      then show ?thesis using a old [of k2 r2 l2] by auto
    next
      case 2
      then show ?thesis using a old [of k1 r1 l1] by auto
    next
      case 3
      show ?thesis by (rule claims_ok_distinct [OF cs a(1)]) (use a 3 in simp_all)
    qed
  qed
  moreover have "sends_ok ?s"
  proof -
    have s1: "sends_ok ?s1" using inv1 by (simp add: sys_inv_def)
    have "(m_ID row, m_Attempts row) \<notin> set (s_sends s)"
    proof
      assume "(m_ID row, m_Attempts row) \<in> set (s_sends s)"
      then obtain r where "r \<in> set (mail_outbox (s_db s))" "m_ID r = m_ID row" "m_Attempts row \<le> m_Attempts r"
        using inv by (auto simp: sys_inv_def sends_ok_def)
      then show False using only [of r] row by (simp add: claim_row_def)
    qed
    then have "(m_ID r, m_Attempts r) \<notin> set (s_sends s)" if "s_phase ?s k' = Claimed r l" for k' r l
      using sends_ok_claimed [OF s1, of k' r l] that by (auto split: if_splits)
    with s1 show ?thesis unfolding sends_ok_def by simp
  qed
  ultimately show ?thesis using inv1 by (simp add: sys_inv_def)
qed

lemma inv_step: "mail_step s s' \<Longrightarrow> sys_inv s \<Longrightarrow> sys_inv s'"
  by (induction rule: mail_step.induct)
    (simp_all add: inv_Tick inv_Enqueue inv_Expire inv_Claim inv_Send inv_Skip inv_Finish inv_Crash)

lemma inv_reach: "mail_reach s s' \<Longrightarrow> sys_inv s \<Longrightarrow> sys_inv s'"
  by (induction rule: mail_reach.induct) (auto intro: inv_step)

subsection \<open>What the machine guarantees\<close>

lemma card_bounded_pairs:
  assumes "distinct ps" and "\<And>i a. (i, a) \<in> set ps \<Longrightarrow> i = x \<Longrightarrow> (1::int) \<le> a \<and> a \<le> 5"
  shows "length (filter (\<lambda>p. fst p = x) ps) \<le> 5"
proof -
  let ?f = "filter (\<lambda>p. fst p = x) ps"
  have "set ?f \<subseteq> {x} \<times> {1..5}" using assms(2) by auto
  then have "card (set ?f) \<le> card ({x} \<times> {1..5 :: int})" by (intro card_mono) auto
  then show ?thesis using distinct_card [of ?f] assms(1) by simp
qed

text \<open>
  C15.  However many workers run and however they crash, stall or lose acknowledgements, the sender
  is called at most five times for one mail, and never twice for the same attempt.
\<close>

theorem mail_at_most_five_sends:
  assumes "initial s0" and "mail_reach s0 s"
  shows "distinct (s_sends s) \<and> length (filter (\<lambda>p. fst p = i) (s_sends s)) \<le> 5"
proof -
  have inv: "sys_inv s" using inv_reach [OF assms(2)] initial_inv [OF assms(1)] by blast
  then have d: "distinct (s_sends s)" by (simp add: sys_inv_def sends_ok_def)
  have "1 \<le> a \<and> a \<le> 5" if m: "(j, a) \<in> set (s_sends s)" for j a
  proof -
    obtain r where r: "1 \<le> a" "r \<in> set (mail_outbox (s_db s))" "a \<le> m_Attempts r"
      using inv m by (auto simp: sys_inv_def sends_ok_def)
    then have "m_Attempts r \<le> 5"
      using inv by (auto simp: sys_inv_def mail_ok_def mail_row_ok_def maxDeliveryAttempts_def)
    with r show ?thesis by simp
  qed
  with d show ?thesis by (auto intro: card_bounded_pairs)
qed

definition queue_start :: sys where
  "queue_start = \<lparr>s_db = snd (EnqueueMail example_mail 0 empty_db), s_now = 0, s_phase = (\<lambda>_. Idle),
     s_leases = [], s_sends = []\<rparr>"

definition example_row :: mail_row where
  "example_row = claim_row ''lease-1'' 60 0 (hd (mail_outbox (s_db queue_start)))"

lemma queue_start_initial: "initial queue_start"
  by (simp add: initial_def queue_start_def EnqueueMail_def empty_db_def example_mail_def mail_ok_def mail_row_simps)

lemma queue_start_claim:
  "mail_reach queue_start (queue_start\<lparr>s_db := (s_db queue_start)\<lparr>mail_outbox := [example_row]\<rparr>,
     s_phase := (\<lambda>_. Idle)(0 := Claimed example_row ''lease-1''), s_leases := [''lease-1'']\<rparr>)"
proof -
  have "ClaimMail (\<lambda>_. False) ''lease-1'' maxDeliveryAttempts (leaseDuration div second) (s_now queue_start)
      (s_db queue_start) = (Inr example_row, (s_db queue_start)\<lparr>mail_outbox := [example_row]\<rparr>)"
    by (simp add: ClaimMail_def queue_start_def EnqueueMail_def empty_db_def example_mail_def claimable_def
        maxDeliveryAttempts_def time_defs order_by_def example_row_def leaseDuration_def)
  then have "mail_step queue_start (queue_start\<lparr>s_db := (s_db queue_start)\<lparr>mail_outbox := [example_row]\<rparr>,
      s_phase := (s_phase queue_start)(0 := Claimed example_row ''lease-1''), s_leases := ''lease-1'' # s_leases queue_start\<rparr>)"
    by (intro mail_step.Claim) (simp_all add: queue_start_def)
  then show ?thesis using mail_reach.step [OF mail_reach.refl] by (simp add: queue_start_def)
qed

lemma example_send_deadline: "0 < send_deadline 0 example_row"
  by (simp add: send_deadline_def example_row_def claim_row_def queue_start_def EnqueueMail_def empty_db_def
      example_mail_def time_defs sendTimeout_def leaseFinishReserve_def)

theorem mail_at_most_five_sends_witness:
  "\<exists>s. mail_reach queue_start s \<and> s_sends s = [(''m1'', 1)]
     \<and> length (filter (\<lambda>p. fst p = ''m1'') (s_sends s)) \<le> 5"
proof -
  let ?s = "queue_start\<lparr>s_db := (s_db queue_start)\<lparr>mail_outbox := [example_row]\<rparr>,
     s_phase := (\<lambda>_. Idle)(0 := Claimed example_row ''lease-1''), s_leases := [''lease-1'']\<rparr>"
  let ?s' = "?s\<lparr>s_phase := (s_phase ?s)(0 := Tried example_row ''lease-1'' None),
     s_sends := (m_ID example_row, m_Attempts example_row) # s_sends ?s\<rparr>"
  have "mail_step ?s ?s'"
    using example_send_deadline by (intro mail_step.Send) (simp_all add: queue_start_def)
  then have r: "mail_reach queue_start ?s'" using queue_start_claim by (rule mail_reach.step [rotated])
  have "s_sends ?s' = [(''m1'', 1)]"
    by (simp add: queue_start_def example_row_def claim_row_def EnqueueMail_def empty_db_def example_mail_def)
  with r mail_at_most_five_sends [OF queue_start_initial r] show ?thesis by blast
qed

text \<open>
  C16.  Sending is exclusive: whenever a worker may call the sender, its row is in the table exactly
  as it claimed it, at least five seconds of the lease and the mail's own validity remain, and no
  other worker holds an unexpired lease on the same mail.
\<close>

theorem mail_send_exclusive:
  assumes "initial s0" and "mail_reach s0 s"
    and "s_phase s k = Claimed row lease" and "s_now s < send_deadline (s_now s) row"
  shows "row \<in> set (mail_outbox (s_db s)) \<and> leased (m_ID row) lease (s_now s) row
    \<and> s_now s < the (m_LeasedUntil row) - 5 * second \<and> s_now s < m_ExpiresAt row
    \<and> (\<forall>k' row' lease'. k' \<noteq> k \<longrightarrow> holds (s_phase s k') = Some (row', lease') \<longrightarrow> m_ID row' = m_ID row \<longrightarrow>
         the (m_LeasedUntil row') \<le> s_now s)"
proof -
  have inv: "sys_inv s" using inv_reach [OF assms(2)] initial_inv [OF assms(1)] by blast
  then have ok: "mail_ok (s_db s)" and c: "claims_ok s" by (simp_all add: sys_inv_def)
  have dl: "s_now s < the (m_LeasedUntil row) - 5 * second" "s_now s < m_ExpiresAt row"
    using assms(4) by (auto simp: send_deadline_def leaseFinishReserve_def Let_def split: if_splits)
  then have now: "s_now s < the (m_LeasedUntil row)" using second_pos by linarith
  have h: "holds (s_phase s k) = Some (row, lease)" by (simp add: assms(3))
  have co: "claim_ok s row lease" by (rule claims_ok_claim [OF c h])
  then have row: "row \<in> set (mail_outbox (s_db s))" using now by (auto simp: claim_ok_def)
  have "leased (m_ID row) lease (s_now s) row" using co now by (auto simp: claim_ok_def leased_def null_gt_def)
  moreover have "the (m_LeasedUntil row') \<le> s_now s"
    if "k' \<noteq> k" and h': "holds (s_phase s k') = Some (row', lease')" and "m_ID row' = m_ID row" for k' row' lease'
  proof (rule ccontr)
    assume "\<not> the (m_LeasedUntil row') \<le> s_now s"
    with claims_ok_claim [OF c h'] have "row' \<in> set (mail_outbox (s_db s))" by (auto simp: claim_ok_def)
    then have "row' = row" using mail_id_inj [OF ok _ row] that(3) by blast
    then show False using claims_ok_distinct [OF c that(1) h' h] by blast
  qed
  ultimately show ?thesis using row dl by blast
qed

theorem mail_send_exclusive_witness:
  "\<exists>s row. mail_reach queue_start s \<and> s_phase s 0 = Claimed row ''lease-1'' \<and> row \<in> set (mail_outbox (s_db s))"
proof -
  let ?s = "queue_start\<lparr>s_db := (s_db queue_start)\<lparr>mail_outbox := [example_row]\<rparr>,
     s_phase := (\<lambda>_. Idle)(0 := Claimed example_row ''lease-1''), s_leases := [''lease-1'']\<rparr>"
  have p: "s_phase ?s 0 = Claimed example_row ''lease-1''" by simp
  have t: "s_now ?s < send_deadline (s_now ?s) example_row"
    using example_send_deadline by (simp add: queue_start_def)
  show ?thesis using mail_send_exclusive [OF queue_start_initial queue_start_claim p t] queue_start_claim p by blast
qed

subsection \<open>The worker's round is a run of the machine\<close>

text \<open>
  What one worker does in a round, as the moves of worker \<open>k\<close> alone: each is a step of the machine,
  and it is recorded which mail was taken and at which attempt, whether the sender was called and
  accepted the mail, and whether the outcome was written back or the mail was left to its lease.
\<close>

datatype deed =
    Expired
  | Took string int
  | Sent string int bool
  | Skipped
  | Finished string bool
  | Abandoned

inductive worker_step :: "nat \<Rightarrow> string \<Rightarrow> sys \<Rightarrow> deed list \<Rightarrow> sys \<Rightarrow> bool" for k lease where
  WTick: "s_now s \<le> t \<Longrightarrow> worker_step k lease s [] (s\<lparr>s_now := t\<rparr>)"
| WExpire: "worker_step k lease s [Expired] (s\<lparr>s_db := snd (ExpireMail locked maxDeliveryAttempts b (s_now s) (s_db s))\<rparr>)"
| WClaim: "s_phase s k = Idle \<Longrightarrow> lease \<notin> set (s_leases s) \<Longrightarrow>
    ClaimMail locked lease maxDeliveryAttempts (leaseDuration div second) (s_now s) (s_db s) = (Inr row, d) \<Longrightarrow>
    worker_step k lease s [Took (m_ID row) (m_Attempts row)]
      (s\<lparr>s_db := d, s_phase := (s_phase s)(k := Claimed row lease), s_leases := lease # s_leases s\<rparr>)"
| WSend: "s_phase s k = Claimed row l \<Longrightarrow> s_now s < send_deadline (s_now s) row \<Longrightarrow>
    worker_step k lease s [Sent (m_ID row) (m_Attempts row) (err = None)]
      (s\<lparr>s_phase := (s_phase s)(k := Tried row l err), s_sends := (m_ID row, m_Attempts row) # s_sends s\<rparr>)"
| WSkip: "s_phase s k = Claimed row l \<Longrightarrow>
    worker_step k lease s [Skipped] (s\<lparr>s_phase := (s_phase s)(k := Tried row l (Some err))\<rparr>)"
| WFinish: "s_phase s k = Tried row l err \<Longrightarrow>
    worker_step k lease s [Finished (m_ID row) (err = None)]
      (s\<lparr>s_db := snd (finish_stmt row l err delay (s_now s) (s_db s)), s_phase := (s_phase s)(k := Idle)\<rparr>)"
| WCrash: "worker_step k lease s [Abandoned] (s\<lparr>s_phase := (s_phase s)(k := Idle)\<rparr>)"

lemma worker_step_mail: "worker_step k lease s ds s' \<Longrightarrow> mail_step s s'"
  by (induction rule: worker_step.induct) (auto intro: mail_step.intros)

text \<open>
  A run of worker \<open>k\<close> among others: \<open>turn n\<close> is what all the others do before the \<open>n\<close>-th statement,
  and between the turns the worker moves alone.
\<close>

inductive worker_run :: "(nat \<Rightarrow> sys \<Rightarrow> sys) \<Rightarrow> nat \<Rightarrow> string \<Rightarrow> nat \<Rightarrow> sys \<Rightarrow> deed list \<Rightarrow> nat \<Rightarrow> sys \<Rightarrow> bool"
  for turn k lease n0 s0 where
  Begin: "worker_run turn k lease n0 s0 [] n0 s0"
| Turn: "worker_run turn k lease n0 s0 ds n s \<Longrightarrow> worker_run turn k lease n0 s0 ds (Suc n) (turn n s)"
| Own: "worker_run turn k lease n0 s0 ds n s \<Longrightarrow> worker_step k lease s e s' \<Longrightarrow> worker_run turn k lease n0 s0 (ds @ e) n s'"

text \<open>
  The others: their turns are runs of the machine that leave the worker's phase alone and do not draw
  its lease, they show in the database as the environment says, and they end before the statement.
  What the others rely on, \<open>I\<close>, holds at every turn and is not disturbed by the worker's own moves.
\<close>

definition others_step :: "nat \<Rightarrow> string \<Rightarrow> sys \<Rightarrow> sys \<Rightarrow> bool" where
  "others_step k lease s s' \<longleftrightarrow> mail_step s s' \<and> s_phase s' k = s_phase s k
     \<and> (lease \<in> set (s_leases s') \<longrightarrow> lease \<in> set (s_leases s))"

definition others :: "env \<Rightarrow> nat \<Rightarrow> string \<Rightarrow> (nat \<Rightarrow> sys \<Rightarrow> sys) \<Rightarrow> (nat \<Rightarrow> sys \<Rightarrow> bool) \<Rightarrow> bool" where
  "others cx k lease turn I \<longleftrightarrow>
     (\<forall>n s. I n s \<longrightarrow> s_now s \<le> e_clock cx n \<longrightarrow> (others_step k lease)\<^sup>*\<^sup>* s (turn n s)
        \<and> s_db (turn n s) = e_other cx n (s_db s) \<and> s_now (turn n s) \<le> e_clock cx n \<and> I (Suc n) (turn n s))
     \<and> (\<forall>n s ds s'. I n s \<longrightarrow> worker_step k lease s ds s' \<longrightarrow> I n s')"

lemma reach_trans: "mail_reach a b \<Longrightarrow> mail_reach b c \<Longrightarrow> mail_reach a c"
  by (rotate_tac, induction rule: mail_reach.induct) (auto intro: mail_reach.step)

lemma others_steps:
  "(others_step k lease)\<^sup>*\<^sup>* s s' \<Longrightarrow> mail_reach s s' \<and> s_phase s' k = s_phase s k \<and> (lease \<in> set (s_leases s') \<longrightarrow> lease \<in> set (s_leases s))"
  by (induction rule: rtranclp_induct) (auto simp: others_step_def intro: mail_reach.intros)

text \<open>Where a run has got to: the invariant of the others holds, and it is a run of the whole machine.\<close>

definition running :: "(nat \<Rightarrow> sys \<Rightarrow> sys) \<Rightarrow> nat \<Rightarrow> string \<Rightarrow> (nat \<Rightarrow> sys \<Rightarrow> bool) \<Rightarrow> nat \<Rightarrow> sys \<Rightarrow> deed list \<Rightarrow> nat \<Rightarrow> sys \<Rightarrow> bool" where
  "running turn k lease I n0 s0 ds n s \<longleftrightarrow> worker_run turn k lease n0 s0 ds n s \<and> mail_reach s0 s \<and> I n s"

lemma running_own:
  assumes "others cx k lease turn I" and "running turn k lease I n0 s0 ds n s" and "worker_step k lease s e s'"
  shows "running turn k lease I n0 s0 (ds @ e) n s'"
  using assms worker_run.Own worker_step_mail mail_reach.step unfolding running_def others_def by metis

lemma running_tick:
  assumes "others cx k lease turn I" and "running turn k lease I n0 s0 ds n s" and "s_now s \<le> t"
  shows "running turn k lease I n0 s0 ds n (s\<lparr>s_now := t\<rparr>)"
  using running_own [OF assms(1,2) worker_step.WTick [OF assms(3)]] by simp

lemma query_seen:
  assumes "query cx Pool f w = (r, w')"
  shows "w_step w' = Suc (w_step w)" and "w_seed w' = w_seed w"
    and "w_db w' = seen cx w \<or> w_db w' = snd (f (e_clock cx (w_step w)) (seen cx w))"
    and "r = Inr a \<Longrightarrow> f (e_clock cx (w_step w)) (seen cx w) = (Inr a, w_db w')"
    and "r = Inl e \<Longrightarrow> (\<exists>b. e_fault cx (w_step w) = Some (Fault e b)) \<or> f (e_clock cx (w_step w)) (seen cx w) = (Inl e, w_db w')"
  using assms by (auto simp: query_def seen_def Let_def prod_eq_iff split: option.splits fault.splits if_splits)

text \<open>Before a statement the others have their turn, and time passes until it is executed.\<close>

lemma statement_turn:
  assumes co: "others cx k lease turn I" and at: "running turn k lease I n0 s0 ds (w_step w) s"
    and s: "s_db s = w_db w" "s_now s \<le> e_clock cx (w_step w)"
  obtains s1 where "running turn k lease I n0 s0 ds (Suc (w_step w)) s1" "s_db s1 = seen cx w" "s_now s1 = e_clock cx (w_step w)"
    "s_phase s1 k = s_phase s k" "lease \<in> set (s_leases s1) \<longrightarrow> lease \<in> set (s_leases s)"
proof -
  let ?n = "w_step w"
  let ?s = "turn ?n s"
  have t: "(others_step k lease)\<^sup>*\<^sup>* s ?s" "s_db ?s = seen cx w" "s_now ?s \<le> e_clock cx ?n" "I (Suc ?n) ?s"
    using co at s unfolding others_def running_def seen_def by simp_all
  note o = others_steps [OF t(1)]
  have "running turn k lease I n0 s0 ds (Suc ?n) ?s"
    using at worker_run.Turn reach_trans o t(4) unfolding running_def by metis
  from running_tick [OF co this t(3)]
  show thesis by (rule that) (use t o in simp_all)
qed

lemma round_expire:
  assumes co: "others cx k lease turn I" and at: "running turn k lease I n0 s0 [] (w_step w) s"
    and s: "s_db s = w_db w" "s_now s \<le> e_clock cx (w_step w)"
    and q: "query cx Pool (ExpireMail (e_locked cx (w_step w)) maxDeliveryAttempts expiredMailBatchSize) w = (r, w')"
  obtains s1 ds where "running turn k lease I n0 s0 ds (w_step w') s1" "s_db s1 = w_db w'" "s_now s1 = e_clock cx (w_step w)"
    "s_phase s1 k = s_phase s k" "lease \<in> set (s_leases s1) \<longrightarrow> lease \<in> set (s_leases s)"
    "ds = [Expired] \<or> ds = [] \<and> (\<exists>e. r = Inl e)"
proof -
  let ?f = "ExpireMail (e_locked cx (w_step w)) maxDeliveryAttempts expiredMailBatchSize"
  obtain s1 where s1: "running turn k lease I n0 s0 [] (Suc (w_step w)) s1" "s_db s1 = seen cx w" "s_now s1 = e_clock cx (w_step w)"
      "s_phase s1 k = s_phase s k" "lease \<in> set (s_leases s1) \<longrightarrow> lease \<in> set (s_leases s)"
    using statement_turn [OF co at s] .
  have run: "running turn k lease I n0 s0 [Expired] (w_step w') (s1\<lparr>s_db := snd (?f (e_clock cx (w_step w)) (seen cx w))\<rparr>)"
    using running_own [OF co s1(1) worker_step.WExpire [of k lease s1 "e_locked cx (w_step w)" expiredMailBatchSize]] s1(2,3) query_seen(1) [OF q]
    by simp
  show thesis
  proof (cases "w_db w' = snd (?f (e_clock cx (w_step w)) (seen cx w))")
    case True
    show thesis by (rule that [OF run]) (use True s1 in simp_all)
  next
    case False
    then have "w_db w' = seen cx w" using query_seen(3) [OF q] by blast
    moreover have "\<exists>e. r = Inl e" using False query_seen(4) [OF q] by (cases r) auto
    ultimately show thesis using s1 query_seen(1) [OF q] by (intro that [of "[]" s1]) simp_all
  qed
qed

lemma claimed_valid:
  assumes "ClaimMail locked lease a secs t d = (Inr row, d')"
  shows "m_Status row = StatusProcessing" and "m_LeaseID row = Some lease" and "m_LeasedUntil row \<noteq> None"
proof -
  obtain c where "row = claim_row lease secs t c"
    using assms by (cases rule: ClaimMail_cases [of d a t locked lease secs]) auto
  then show "m_Status row = StatusProcessing" "m_LeaseID row = Some lease" "m_LeasedUntil row \<noteq> None"
    by (simp_all add: claim_row_def StatusProcessing_def)
qed

text \<open>A claim that reported an error has either left nothing or a lease that nobody will use.\<close>

lemma round_claim_failed:
  assumes co: "others cx k lease turn I" and at: "running turn k lease I n0 s0 ds (w_step w) s"
    and s: "s_db s = w_db w" "s_now s \<le> e_clock cx (w_step w)" "s_phase s k = Idle" "lease \<notin> set (s_leases s)"
    and q: "query cx Pool (ClaimMail locked lease maxDeliveryAttempts (leaseDuration div second)) w = (Inl e, w')"
    and driver: "\<And>n x b. e_fault cx n = Some (Fault x b) \<Longrightarrow> \<not> errors_is x (Sentinel ErrNoRows)"
  obtains s1 ds' where "running turn k lease I n0 s0 (ds @ ds') (w_step w') s1" "s_db s1 = w_db w'" "s_phase s1 k = Idle"
    "ds' = [] \<or> \<not> errors_is e (Sentinel ErrNoRows) \<and> (\<exists>i a. ds' = [Took i a, Abandoned])"
proof -
  let ?t = "e_clock cx (w_step w)"
  let ?f = "ClaimMail locked lease maxDeliveryAttempts (leaseDuration div second)"
  obtain s1 where s1: "running turn k lease I n0 s0 ds (Suc (w_step w)) s1" "s_db s1 = seen cx w" "s_now s1 = ?t"
      "s_phase s1 k = s_phase s k" "lease \<in> set (s_leases s1) \<longrightarrow> lease \<in> set (s_leases s)"
    using statement_turn [OF co at s(1,2)] .
  show thesis
  proof (cases "w_db w' = seen cx w")
    case True
    show thesis by (rule that [of "[]" s1]) (use True s1 s(3) query_seen(1) [OF q] in simp_all)
  next
    case False
    then have d: "w_db w' = snd (?f ?t (seen cx w))" using query_seen(3) [OF q] by blast
    with False obtain row where row: "?f ?t (seen cx w) = (Inr row, w_db w')"
      by (cases rule: ClaimMail_cases [of "seen cx w" maxDeliveryAttempts ?t locked lease "leaseDuration div second"]) auto
    then have "\<not> errors_is e (Sentinel ErrNoRows)" using query_seen(5) [OF q, of e] driver by auto
    moreover have "worker_step k lease s1 [Took (m_ID row) (m_Attempts row)] (s1\<lparr>s_db := w_db w', s_phase := (s_phase s1)(k := Claimed row lease),
        s_leases := lease # s_leases s1\<rparr>)" (is "worker_step k lease s1 _ ?s2")
      by (rule worker_step.WClaim [where locked = locked]) (use s1 s row in auto)
    then have "running turn k lease I n0 s0 ((ds @ [Took (m_ID row) (m_Attempts row)]) @ [Abandoned]) (Suc (w_step w)) (?s2\<lparr>s_phase := (s_phase ?s2)(k := Idle)\<rparr>)"
      (is "running _ _ _ _ _ _ _ _ ?s3")
      using running_own [OF co running_own [OF co s1(1)] worker_step.WCrash] by blast
    moreover have "s_db ?s3 = w_db w'" "s_phase ?s3 k = Idle" by simp_all
    ultimately show thesis using query_seen(1) [OF q]
      by (intro that [of "[Took (m_ID row) (m_Attempts row), Abandoned]" ?s3]) (simp_all only: append.assoc append.simps, blast)
  qed
qed

lemma round_claim:
  assumes co: "others cx k lease turn I" and at: "running turn k lease I n0 s0 ds (w_step w) s"
    and s: "s_db s = w_db w" "s_now s \<le> e_clock cx (w_step w)" "s_phase s k = Idle" "lease \<notin> set (s_leases s)"
    and q: "query cx Pool (ClaimMail locked lease maxDeliveryAttempts (leaseDuration div second)) w = (Inr row, w')"
  obtains s1 d t where "running turn k lease I n0 s0 (ds @ [Took (m_ID row) (m_Attempts row)]) (w_step w') s1" "s_db s1 = w_db w'"
    "s_now s1 = e_clock cx (w_step w)" "s_phase s1 k = Claimed row lease"
    "ClaimMail locked lease maxDeliveryAttempts (leaseDuration div second) t d = (Inr row, w_db w')"
proof -
  let ?t = "e_clock cx (w_step w)"
  obtain s1 where s1: "running turn k lease I n0 s0 ds (Suc (w_step w)) s1" "s_db s1 = seen cx w" "s_now s1 = ?t"
      "s_phase s1 k = s_phase s k" "lease \<in> set (s_leases s1) \<longrightarrow> lease \<in> set (s_leases s)"
    using statement_turn [OF co at s(1,2)] .
  have row: "ClaimMail locked lease maxDeliveryAttempts (leaseDuration div second) ?t (seen cx w) = (Inr row, w_db w')"
    using query_seen(4) [OF q] by simp
  have "worker_step k lease s1 [Took (m_ID row) (m_Attempts row)] (s1\<lparr>s_db := w_db w', s_phase := (s_phase s1)(k := Claimed row lease),
      s_leases := lease # s_leases s1\<rparr>)" (is "worker_step k lease s1 _ ?s2")
    by (rule worker_step.WClaim [where locked = locked]) (use s1 s row in auto)
  from running_own [OF co s1(1) this]
  show thesis by (intro that [OF _ _ _ _ row, of ?s2]) (use query_seen(1) [OF q] s1(3) in simp_all)
qed

text \<open>The attempt itself, between two statements.\<close>

lemma round_deliver:
  assumes co: "others cx k lease turn I" and at: "running turn k lease I n0 s0 ds n s"
    and s: "s_phase s k = Claimed row lease" "s_now s = e_now cx (w_step w)"
    and del: "deliver cx cancelled send row w = (err, sent)"
  obtains s1 where "running turn k lease I n0 s0 (ds @ [case sent of None \<Rightarrow> Skipped | Some m \<Rightarrow> Sent (msg_ID m) (m_Attempts row) (send (w_step w) m = None)]) n s1"
    "s_db s1 = s_db s" "s_now s1 = s_now s" "s_phase s1 k = Tried row lease err"
    "case sent of None \<Rightarrow> err \<noteq> None | Some m \<Rightarrow> msg_ID m = m_ID row \<and> err = send (w_step w) m"
proof (cases sent)
  case None
  then obtain e where e: "err = Some e" using del by (auto simp: deliver_def Let_def split: if_splits)
  from running_own [OF co at worker_step.WSkip [OF s(1), where err = e]]
  show thesis by (intro that [of "s\<lparr>s_phase := (s_phase s)(k := Tried row lease (Some e))\<rparr>"]) (simp_all add: e None)
next
  case (Some m)
  then have t: "s_now s < send_deadline (s_now s) row" and m: "msg_ID m = m_ID row" "err = send (w_step w) m"
    using del s(2) by (auto simp: deliver_def Let_def split: if_splits)
  from running_own [OF co at worker_step.WSend [OF s(1) t, where err = err]]
  show thesis
    by (intro that [of "s\<lparr>s_phase := (s_phase s)(k := Tried row lease err), s_sends := (m_ID row, m_Attempts row) # s_sends s\<rparr>"])
      (simp_all add: Some m)
qed

lemma round_finish:
  assumes co: "others cx k lease turn I" and at: "running turn k lease I n0 s0 ds (w_step w) s"
    and s: "s_db s = w_db w" "s_now s \<le> e_clock cx (w_step w)" "s_phase s k = Tried row lease err"
    and fin: "finishDelivery cx row lease err w = (fe, w')"
  obtains s1 x where "running turn k lease I n0 s0 (ds @ [x]) (w_step w') s1" "s_db s1 = w_db w'" "s_phase s1 k = Idle"
    "x = Finished (m_ID row) (err = None) \<or> x = Abandoned \<and> fe \<noteq> None"
proof -
  let ?t = "e_clock cx (w_step w)"
  define v where "v = (case err of None \<Rightarrow> w | Some _ \<Rightarrow> w\<lparr>w_seed := Suc (w_seed w)\<rparr>)"
  define delay where "delay = retryDelaySeconds (m_Attempts row) (e_jitter cx (w_seed w))"
  have v: "w_db v = w_db w" "w_step v = w_step w" by (simp_all add: v_def split: option.split)
  obtain r w2 where q2: "query cx Pool (finish_stmt row lease err delay) v = (r, w2)" by force
  then have w2: "w2 = w'" and r: "\<And>e. r = Inl e \<Longrightarrow> fe \<noteq> None"
    using fin by (cases err; cases r; auto simp: finishDelivery_def finish_stmt_def v_def delay_def Let_def split: if_splits)+
  note q = q2 [unfolded w2]
  have "seen cx v = seen cx w" using v by (simp add: seen_def)
  note seen = query_seen [OF q, unfolded v(2) this]
  obtain s1 where s1: "running turn k lease I n0 s0 ds (Suc (w_step w)) s1" "s_db s1 = seen cx w" "s_now s1 = ?t"
      "s_phase s1 k = s_phase s k" "lease \<in> set (s_leases s1) \<longrightarrow> lease \<in> set (s_leases s)"
    using statement_turn [OF co at s(1,2)] .
  have ph: "s_phase s1 k = Tried row lease err" using s1(4) s(3) by simp
  show thesis
  proof (cases "w_db w' = snd (finish_stmt row lease err delay ?t (seen cx w))")
    case True
    have "running turn k lease I n0 s0 (ds @ [Finished (m_ID row) (err = None)]) (w_step w')
        (s1\<lparr>s_db := w_db w', s_phase := (s_phase s1)(k := Idle)\<rparr>)"
      using running_own [OF co s1(1) worker_step.WFinish [OF ph, where delay = delay]] True s1(2,3) seen(1) by simp
    then show thesis by (rule that) simp_all
  next
    case False
    then have d: "w_db w' = seen cx w" using seen(3) by blast
    have "\<exists>e. r = Inl e" using False seen(4) by (cases r) auto
    then have fe: "fe \<noteq> None" using r by blast
    have "running turn k lease I n0 s0 (ds @ [Abandoned]) (w_step w') (s1\<lparr>s_phase := (s_phase s1)(k := Idle)\<rparr>)"
      using running_own [OF co s1(1) worker_step.WCrash] seen(1) by simp
    then show thesis by (rule that) (simp_all add: s1(2) d fe)
  qed
qed

text \<open>What a round may have done, given what it reports.\<close>

definition round_deeds :: "(nat \<Rightarrow> Message \<Rightarrow> goerr option) \<Rightarrow> processed \<Rightarrow> deed list \<Rightarrow> bool" where
  "round_deeds send p ds \<longleftrightarrow>
     (case po_sent p of
        None \<Rightarrow> ds = [] \<or> ds = [Expired] \<or> (\<exists>i a. ds = [Expired, Took i a, Abandoned])
          \<or> (\<exists>i a x. ds = [Expired, Took i a, Skipped, x] \<and> x \<in> {Finished i False, Abandoned})
      | Some m \<Rightarrow> \<exists>a n x. ds = [Expired, Took (msg_ID m) a, Sent (msg_ID m) a (send n m = None), x]
          \<and> x \<in> {Finished (msg_ID m) (send n m = None), Abandoned})
     \<and> (po_err p = None \<longrightarrow> (if po_worked p then \<exists>ys i ok. ds = ys @ [Finished i ok] else ds = [Expired]))"


text \<open>An example: between the clean-up of this round and its claim, a rival worker claims the mail.\<close>

definition rival_claim :: "db \<Rightarrow> (goerr + mail_row) \<times> db" where
  "rival_claim d = ClaimMail (\<lambda>_. False) ''rival'' maxDeliveryAttempts (leaseDuration div second) second d"

definition busy :: env where
  "busy = quiet\<lparr>e_other := \<lambda>n d. if n = 1 then snd (rival_claim d) else d\<rparr>"

definition rival_turn :: "nat \<Rightarrow> sys \<Rightarrow> sys" where
  "rival_turn n s =
     (if n \<noteq> 1 then s
      else case rival_claim (s_db s) of
        (Inl _, _) \<Rightarrow> s
      | (Inr row, d) \<Rightarrow> s\<lparr>s_now := second, s_db := d, s_phase := (s_phase s)(1 := Claimed row ''rival''),
          s_leases := ''rival'' # s_leases s\<rparr>)"

text \<open>Until its turn the rival is idle and has not drawn its lease.\<close>

definition rival_ready :: "nat \<Rightarrow> sys \<Rightarrow> bool" where
  "rival_ready n s \<longleftrightarrow> (n \<le> 1 \<longrightarrow> s_phase s 1 = Idle \<and> ''rival'' \<notin> set (s_leases s))"

lemma rival_claim_none: "rival_claim d = (Inl e, d') \<Longrightarrow> d' = d"
  by (auto simp: rival_claim_def ClaimMail_def split: list.splits)

lemma rival_ready_own: "worker_step 0 ''id-'' s ds s' \<Longrightarrow> rival_ready n s \<Longrightarrow> rival_ready n s'"
  by (induction rule: worker_step.induct) (auto simp: rival_ready_def)

lemma rival_others: "others busy 0 ''id-'' rival_turn rival_ready"
proof -
  have turn: "(others_step 0 ''id-'')\<^sup>*\<^sup>* s (rival_turn n s) \<and> s_db (rival_turn n s) = e_other busy n (s_db s)
      \<and> s_now (rival_turn n s) \<le> e_clock busy n \<and> rival_ready (Suc n) (rival_turn n s)"
    if I: "rival_ready n s" and t: "s_now s \<le> int n * second" for n s
  proof (cases "n = 1 \<and> (\<exists>row d. rival_claim (s_db s) = (Inr row, d))")
    case True
    then obtain row d where n: "n = 1" and c: "rival_claim (s_db s) = (Inr row, d)" by blast
    have "others_step 0 ''id-'' s (s\<lparr>s_now := second\<rparr>)" using mail_step.Tick [of s second] t n by (simp add: others_step_def)
    moreover have "mail_step (s\<lparr>s_now := second\<rparr>) (rival_turn n s)"
      using mail_step.Claim [of "s\<lparr>s_now := second\<rparr>" 1 "''rival''" "\<lambda>_. False" row d] c I n
      by (simp add: rival_turn_def rival_claim_def rival_ready_def)
    then have "others_step 0 ''id-'' (s\<lparr>s_now := second\<rparr>) (rival_turn n s)" using n c by (simp add: others_step_def rival_turn_def)
    ultimately have "(others_step 0 ''id-'')\<^sup>*\<^sup>* s (rival_turn n s)" by (meson rtranclp.rtrancl_into_rtrancl r_into_rtranclp)
    then show ?thesis using n c by (simp add: rival_turn_def busy_def rival_ready_def)
  next
    case False
    then have "rival_turn n s = s" "e_other busy n (s_db s) = s_db s"
      using rival_claim_none [of "s_db s"] by (cases "rival_claim (s_db s)"; cases "fst (rival_claim (s_db s))";
        auto simp: rival_turn_def busy_def)+
    moreover have "rival_ready (Suc n) s" using I by (simp add: rival_ready_def)
    ultimately show ?thesis using t by (simp add: busy_def)
  qed
  then show ?thesis using rival_ready_own by (simp add: others_def busy_def)
qed


lemma due_not_expired:
  assumes "mail_ok d" and "r \<in> set (mail_outbox d)" and "\<not> expirable maxDeliveryAttempts t r"
  shows "r \<in> set (mail_outbox (snd (ExpireMail locked maxDeliveryAttempts b t d)))"
proof -
  let ?el = "limit_offset b 0 (order_by (\<lambda>a b. m_CreatedAt a \<le> m_CreatedAt b)
    (filter (\<lambda>r. expirable maxDeliveryAttempts t r \<and> \<not> locked (m_ID r)) (mail_outbox d)))"
  have "m_ID r \<notin> m_ID ` set ?el"
  proof
    assume "m_ID r \<in> m_ID ` set ?el"
    then obtain x where "x \<in> set ?el" "m_ID r = m_ID x" by auto
    then have "x \<in> set (mail_outbox d)" "expirable maxDeliveryAttempts t x"
      using set_limit_offset by fastforce+
    then show False using mail_id_inj [OF assms(1,2)] \<open>m_ID r = m_ID x\<close> assms(3) by blast
  qed
  then show ?thesis using assms(2) by (auto simp: ExpireMail_def Let_def intro: in_update_where)
qed

text \<open>A claimed row is the only one under its lease, and there is time to send it.\<close>

lemma claimed_leased:
  assumes "ClaimMail locked lease maxDeliveryAttempts (leaseDuration div second) t d = (Inr row, d')" and "mail_ok d"
    and "t' < t + minute"
  shows "row \<in> set (mail_outbox d')" and "leased (m_ID row) lease t' row"
    and "count_where (leased (m_ID row) lease t') (mail_outbox d') = 1" and "t < send_deadline t row"
proof -
  let ?secs = "leaseDuration div second"
  have sec: "?secs * second = minute" by (simp add: leaseDuration_def time_defs)
  obtain c where c: "c \<in> set (mail_outbox d)" "claimable maxDeliveryAttempts t c" "row = claim_row lease ?secs t c"
      "d' = d\<lparr>mail_outbox := update_where (\<lambda>r. m_ID r = m_ID c) (claim_row lease ?secs t) (mail_outbox d)\<rparr>"
    using assms(1) by (cases rule: ClaimMail_cases [of d maxDeliveryAttempts t locked lease ?secs]) auto
  show row: "row \<in> set (mail_outbox d')" using c by (force simp: set_update_where)
  show l: "leased (m_ID row) lease t' row" using assms(3) sec by (simp add: c(3) leased_def claim_row_def null_gt_def)
  have ok: "mail_ok d'" using ok_db [OF ClaimMail_keeps assms(2), of locked lease ?secs t] assms(1) by simp
  show "count_where (leased (m_ID row) lease t') (mail_outbox d') = 1"
  proof (rule antisym)
    show "count_where (leased (m_ID row) lease t') (mail_outbox d') \<le> 1"
      using ok by (intro count_where_distinct_le_1 [where k = m_ID and c = "m_ID row"]) (auto simp: mail_ok_def leased_def)
    show "1 \<le> count_where (leased (m_ID row) lease t') (mail_outbox d')"
      using row l by (metis count_where_0 One_nat_def less_one not_le)
  qed
  show "t < send_deadline t row" using c(2) sec second_pos
    by (auto simp: c(3) send_deadline_def claim_row_def claimable_def sendTimeout_def leaseFinishReserve_def Let_def time_defs)
qed

text \<open>
  C18.  Delivery: when nothing fails and the sender accepts, a round with a mail that is due sends
  one mail and completes it under its lease: it ends in state \<^verbatim>\<open>sent\<close> with its payload cleared.
\<close>

theorem mail_delivered:
  assumes ok: "mail_ok (w_db w)"
    and quiet: "\<And>n. e_fault cx n = None" "\<And>n d. e_other cx n d = d" "\<And>n i. \<not> e_locked cx n i"
    and due: "r \<in> set (mail_outbox (w_db w))"
      "claimable maxDeliveryAttempts (e_clock cx (Suc (w_step w))) r"
    and clock: "e_clock cx (w_step w) \<le> e_clock cx (Suc (w_step w))"
      "e_now cx (Suc (Suc (w_step w))) = e_clock cx (Suc (w_step w))"
      "e_clock cx (Suc (Suc (w_step w))) < e_clock cx (Suc (w_step w)) + minute"
    and run: "\<And>n. \<not> cancelled n" "\<And>n m. send n m = None"
  shows "\<exists>m w'. ProcessOne cx cancelled send w = (\<lparr>po_worked = True, po_err = None, po_sent = Some m\<rparr>, w')
    \<and> (\<exists>x \<in> set (mail_outbox (w_db w')). m_ID x = msg_ID m \<and> m_Status x = StatusSent
         \<and> m_Recipient x = '''' \<and> m_Subject x = '''' \<and> m_Body x = '''')"
proof -
  let ?n = "w_step w" and ?te = "e_clock cx (w_step w)" and ?t = "e_clock cx (Suc (w_step w))" and ?lease = "e_id cx (w_seed w)"
  let ?t2 = "e_clock cx (Suc (Suc ?n))" and ?locked = "e_locked cx (Suc ?n)" and ?secs = "leaseDuration div second"
  let ?d1 = "snd (ExpireMail (e_locked cx ?n) maxDeliveryAttempts expiredMailBatchSize ?te (w_db w))"
  have ok1: "mail_ok ?d1" by (rule ok_db [OF mail_updates_keep(3) ok])
  have "\<not> expirable maxDeliveryAttempts ?te r" using due(2) clock(1) by (auto simp: claimable_def expirable_def)
  then have r1: "r \<in> set (mail_outbox ?d1)" by (rule due_not_expired [OF ok due(1)])
  obtain row d2 where cl: "ClaimMail ?locked ?lease maxDeliveryAttempts ?secs ?t ?d1 = (Inr row, d2)"
    using r1 due(2) quiet(3) by (cases rule: ClaimMail_cases [of ?d1 maxDeliveryAttempts ?t ?locked ?lease ?secs]) auto
  note row = claimed_leased [OF cl ok1 clock(3)] and st = claimed_valid [OF cl]
  let ?d3 = "d2\<lparr>mail_outbox := update_where (leased (m_ID row) ?lease ?t2) (complete_row ?t2) (mail_outbox d2)\<rparr>"
  let ?m = "\<lparr>msg_ID = m_ID row, msg_Kind = m_Kind row, msg_To = m_Recipient row, msg_Subject = m_Subject row, msg_HTML = m_Body row\<rparr>"
  have ex: "fst (ExpireMail l ma b t d) = Inr ()" for l ma b t d by (simp add: ExpireMail_def Let_def)
  have P: "ProcessOne cx cancelled send w = (\<lparr>po_worked = True, po_err = None, po_sent = Some ?m\<rparr>,
      \<lparr>w_db = ?d3, w_step = Suc (Suc (Suc ?n)), w_seed = Suc (w_seed w), w_var = w_var w\<rparr>)"
    using cl st row(3,4)
    by (simp add: ProcessOne_def query_def quiet clock(2,3) run Let_def ex deliver_def finishDelivery_def CompleteMail_def del: not_None_eq)
  have "complete_row ?t2 row \<in> set (mail_outbox ?d3)" using row(1,2) by (force simp: set_update_where)
  then have X: "\<exists>x \<in> set (mail_outbox ?d3). m_ID x = msg_ID ?m \<and> m_Status x = StatusSent
      \<and> m_Recipient x = '''' \<and> m_Subject x = '''' \<and> m_Body x = ''''"
    by (rule bexI [rotated]) (simp add: complete_row_def StatusSent_def)
  show ?thesis by (rule exI [of _ ?m], rule exI, rule conjI, rule P) (use X in simp)
qed

theorem mail_delivered_witness:
  "\<exists>m w'. ProcessOne (quiet\<lparr>e_now := \<lambda>n. int (n - 1) * second\<rparr>) (\<lambda>_. False) (\<lambda>_ _. None) (start (s_db queue_start))
     = (\<lparr>po_worked = True, po_err = None, po_sent = Some m\<rparr>, w')"
proof -
  let ?cx = "quiet\<lparr>e_now := \<lambda>n. int (n - 1) * second\<rparr>"
  have "\<exists>m w'. ProcessOne ?cx (\<lambda>_. False) (\<lambda>_ _. None) (start (s_db queue_start))
      = (\<lparr>po_worked = True, po_err = None, po_sent = Some m\<rparr>, w')
    \<and> (\<exists>x \<in> set (mail_outbox (w_db w')). m_ID x = msg_ID m \<and> m_Status x = StatusSent
         \<and> m_Recipient x = '''' \<and> m_Subject x = '''' \<and> m_Body x = '''')"
  proof (rule mail_delivered)
    show "mail_ok (w_db (start (s_db queue_start)))"
      using queue_start_initial by (simp add: initial_def start_def)
    show "hd (mail_outbox (s_db queue_start)) \<in> set (mail_outbox (w_db (start (s_db queue_start))))"
      by (simp add: start_def queue_start_def EnqueueMail_def empty_db_def)
    show "claimable maxDeliveryAttempts (e_clock ?cx (Suc (w_step (start (s_db queue_start)))))
        (hd (mail_outbox (s_db queue_start)))"
      by (simp add: start_def queue_start_def EnqueueMail_def empty_db_def example_mail_def claimable_def
          maxDeliveryAttempts_def time_defs)
  qed (simp_all add: start_def time_defs)
  then show ?thesis by blast
qed

end
