(* ===== verification/Locker.thy ===== *)
theory Locker
  imports Validation
begin

text \<open>
  \<^verbatim>\<open>internal/platform/locker\<close>: named locks for background work (\<^verbatim>\<open>runner.go\<close>,
  \<^verbatim>\<open>locker.go\<close>) over PostgreSQL session advisory locks (\<^verbatim>\<open>postgres/locker.go\<close>,
  \<^verbatim>\<open>postgres/lease.go\<close>).  The part up to \<open>Run\<close> takes what a call meets (its context, the
  answers of the backend, random delays, the fate of the lease) from a record; the second part
  models the server's lock table, the connection pool and concurrent holders.  Metrics are left out.
\<close>

subsection \<open>locker.go\<close>

text \<open>A \<^verbatim>\<open>failure\<close> prints its kind and unwraps to kind and cause.\<close>

definition locker_Wrap :: "goerr \<Rightarrow> goerr option \<Rightarrow> goerr" where
  "locker_Wrap kind cause = (case cause of None \<Rightarrow> kind | Some c \<Rightarrow> Wrapped '''' [kind, c])"

subsection \<open>runner.go\<close>

definition maxNamespaceBytes :: nat where
  "maxNamespaceBytes = 64"

definition maxKeyBytes :: nat where
  "maxKeyBytes = 256"

record lock_Options =
  lo_Namespace :: string
  lo_AcquireTimeout :: time
  lo_ReleaseTimeout :: time
  lo_RetryMin :: time
  lo_RetryMax :: time

fun key_rune :: "nat option \<Rightarrow> bool" where
  "key_rune None = False"
| "key_rune (Some c) \<longleftrightarrow> (97 \<le> c \<and> c \<le> 122) \<or> (65 \<le> c \<and> c \<le> 90) \<or> (48 \<le> c \<and> c \<le> 57) \<or> c \<in> {58, 95, 45, 46}"

definition validKey :: "string \<Rightarrow> nat \<Rightarrow> bool" where
  "validKey key mx \<longleftrightarrow> \<not> (length key = 0 \<or> length key > mx) \<and> list_all key_rune (runes (bytes key))"

definition or_default :: "time \<Rightarrow> time \<Rightarrow> time" where
  "or_default x d = (if x = 0 then d else x)"

definition locker_New :: "'b option \<Rightarrow> lock_Options \<Rightarrow> goerr + lock_Options" where
  "locker_New backend o0 =
     (if backend = None \<or> \<not> validKey (lo_Namespace o0) maxNamespaceBytes \<or> ContainsByte (lo_Namespace o0) 58
      then Inl (Plain (utf8 [0x9501, 0x540e, 0x7aef, 0x6216, 0x547d, 0x540d, 0x7a7a, 0x95f4, 0x65e0, 0x6548]))
      else
        let o1 = o0\<lparr>lo_AcquireTimeout := or_default (lo_AcquireTimeout o0) (5 * second),
                    lo_ReleaseTimeout := or_default (lo_ReleaseTimeout o0) (5 * second),
                    lo_RetryMin := or_default (lo_RetryMin o0) (50 * millisecond),
                    lo_RetryMax := or_default (lo_RetryMax o0) second\<rparr>
        in if lo_AcquireTimeout o1 < 0 \<or> lo_ReleaseTimeout o1 < 0 \<or> lo_RetryMin o1 < millisecond \<or> lo_RetryMax o1 < lo_RetryMin o1
           then Inl (Plain (utf8 [0x9501, 0x8d85, 0x65f6, 0x6216, 0x91cd, 0x8bd5, 0x914d, 0x7f6e, 0x65e0, 0x6548]))
           else Inr o1)"

text \<open>The context carries the names held by the enclosing callbacks, innermost first.\<close>

definition full_key :: "lock_Options \<Rightarrow> string \<Rightarrow> string" where
  "full_key o' key = lo_Namespace o' @ '':'' @ key"

type_synonym task = "string list \<Rightarrow> goerr option"

definition prepare :: "lock_Options \<Rightarrow> goerr option \<Rightarrow> string list \<Rightarrow> string \<Rightarrow> task option \<Rightarrow> goerr + string" where
  "prepare o' ctxErr held key task =
     (if \<not> validKey key maxKeyBytes then Inl (Sentinel ErrInvalidKey)
      else if task = None then Inl (Sentinel ErrInvalidTask)
      else case ctxErr of
        Some e \<Rightarrow> Inl e
      | None \<Rightarrow> if full_key o' key \<in> set held then Inl (Sentinel ErrReentrant) else Inr (full_key o' key))"

text \<open>
  What happens to a lease: the cause of the working context before the callback, what
  \<^verbatim>\<open>Watch\<close> returned and whether it had been told to stop, the cause at the end, and the error
  of \<^verbatim>\<open>Release\<close>.
\<close>

record lease_run =
  ls_start :: "goerr option"
  ls_stopped :: "goerr option"
  ls_watch :: "goerr option"
  ls_cause :: "goerr option"
  ls_release :: "goerr option"

definition is_error :: "goerr option \<Rightarrow> goerr \<Rightarrow> bool" where
  "is_error e target = (case e of None \<Rightarrow> False | Some x \<Rightarrow> errors_is x target)"

definition watch_outcome :: "goerr option \<Rightarrow> goerr option \<Rightarrow> goerr option" where
  "watch_outcome stopped e =
     (case stopped of
        Some s \<Rightarrow> if is_error e s \<and> \<not> is_error e (Sentinel ErrLockLost) then None else Some (locker_Wrap (Sentinel ErrLockLost) e)
      | None \<Rightarrow> Some (locker_Wrap (Sentinel ErrLockLost) e))"

definition execute :: "string list \<Rightarrow> string \<Rightarrow> lease_run \<Rightarrow> task \<Rightarrow> bool \<times> goerr option" where
  "execute held key l task =
     (let (ran, err) = (case ls_start l of Some cause \<Rightarrow> (False, Some cause) | None \<Rightarrow> (True, task (key # held)));
          err1 = errors_Join [err, watch_outcome (ls_stopped l) (ls_watch l), ls_cause l];
          err2 = (case ls_release l of
                    None \<Rightarrow> err1
                  | Some e \<Rightarrow> errors_Join [err1, Some (locker_Wrap (Sentinel ErrRelease) (Some e))])
      in (ran, err2))"

record lock_call =
  k_ctx :: "goerr option" \<comment> \<open>\<open>ctx.Err()\<close> at the start\<close>
  k_held :: "string list"
  k_try :: "nat \<Rightarrow> goerr + lease_run option" \<comment> \<open>the backend's answer to the n-th attempt\<close>
  k_rand :: "nat \<Rightarrow> nat"
  k_wait :: "nat \<Rightarrow> goerr option" \<comment> \<open>the context ended during the n-th wait\<close>

definition runner_acquire :: "lock_call \<Rightarrow> nat \<Rightarrow> goerr + lease_run option" where
  "runner_acquire k n =
     (case k_try k n of
        Inl e \<Rightarrow> Inl (locker_Wrap (Sentinel LockerErrUnavailable) (Some e))
      | Inr l \<Rightarrow> Inr l)"

definition TryRun :: "lock_Options \<Rightarrow> lock_call \<Rightarrow> string \<Rightarrow> task option \<Rightarrow> bool \<times> goerr option" where
  "TryRun o' k key task =
     (case prepare o' (k_ctx k) (k_held k) key task of
        Inl e \<Rightarrow> (False, Some e)
      | Inr name \<Rightarrow>
          (case runner_acquire k 0 of
             Inl e \<Rightarrow> (False, Some e)
           | Inr None \<Rightarrow> (False, None)
           | Inr (Some l) \<Rightarrow> execute (k_held k) name l (the task)))"

definition wait_time :: "lock_call \<Rightarrow> nat \<Rightarrow> time \<Rightarrow> time" where
  "wait_time k n delay = delay div 2 + int (k_rand k n) mod (delay div 2 + 1)"

definition next_delay :: "lock_Options \<Rightarrow> time \<Rightarrow> time" where
  "next_delay o' delay = (if delay \<le> lo_RetryMax o' div 2 then delay * 2 else lo_RetryMax o')"

text \<open>The loop of \<^verbatim>\<open>Run\<close>, which may wait forever; the result has the waits it made.\<close>

partial_function (option) run_loop ::
  "lock_Options \<Rightarrow> lock_call \<Rightarrow> string \<Rightarrow> task \<Rightarrow> nat \<Rightarrow> time \<Rightarrow> (goerr option \<times> time list) option" where
  "run_loop o' k name task n delay =
     (case runner_acquire k n of
        Inl e \<Rightarrow> Some (Some e, [])
      | Inr (Some l) \<Rightarrow> Some (snd (execute (k_held k) name l task), [])
      | Inr None \<Rightarrow>
          (case k_wait k n of
             Some e \<Rightarrow> Some (Some e, [wait_time k n delay])
           | None \<Rightarrow>
               Option.bind (run_loop o' k name task (Suc n) (next_delay o' delay))
                 (\<lambda>(r, ts). Some (r, wait_time k n delay # ts))))"

definition Run :: "lock_Options \<Rightarrow> lock_call \<Rightarrow> string \<Rightarrow> task option \<Rightarrow> (goerr option \<times> time list) option" where
  "Run o' k key task =
     (case prepare o' (k_ctx k) (k_held k) key task of
        Inl e \<Rightarrow> Some (Some e, [])
      | Inr name \<Rightarrow> run_loop o' k name (the task) 0 (lo_RetryMin o'))"

subsection \<open>Waiting\<close>

lemma locker_New_ok:
  assumes "locker_New backend o0 = Inr o'"
  shows "0 < lo_RetryMin o'" and "lo_RetryMin o' \<le> lo_RetryMax o'" and "lo_Namespace o' = lo_Namespace o0"
    and "validKey (lo_Namespace o') maxNamespaceBytes" and "\<not> ContainsByte (lo_Namespace o') 58"
  using assms by (auto simp: locker_New_def Let_def millisecond_def split: if_splits)

lemma next_delay_min: "0 < d \<Longrightarrow> next_delay o' (min d (lo_RetryMax o')) = min (d * 2) (lo_RetryMax o')" if "0 < lo_RetryMax o'"
  using that by (auto simp: next_delay_def min_def)

text \<open>The delays double up to the maximum.\<close>

lemma delay_closed_form:
  assumes "0 < lo_RetryMin o'" and "lo_RetryMin o' \<le> lo_RetryMax o'"
  shows "(next_delay o' ^^ n) (lo_RetryMin o') = min (lo_RetryMin o' * 2 ^ n) (lo_RetryMax o')"
proof (induction n)
  case 0
  then show ?case using assms by simp
next
  case (Suc n)
  have "0 < lo_RetryMin o' * 2 ^ n" using assms by simp
  with Suc show ?case using next_delay_min [of o' "lo_RetryMin o' * 2 ^ n"] assms by (simp add: mult.assoc)
qed

lemma wait_time_bounds: "0 < d \<Longrightarrow> d div 2 \<le> wait_time k n d \<and> wait_time k n d \<le> d"
proof -
  assume "0 < d"
  then have "0 \<le> int (k_rand k n) mod (d div 2 + 1)" "int (k_rand k n) mod (d div 2 + 1) < d div 2 + 1"
    using pos_mod_bound [of "d div 2 + 1" "int (k_rand k n)"] by simp_all
  then show ?thesis by (simp add: wait_time_def)
qed

definition decisive :: "lock_call \<Rightarrow> nat \<Rightarrow> bool" where
  "decisive k m \<longleftrightarrow> k_try k m \<noteq> Inr None \<or> k_wait k m \<noteq> None"

text \<open>What \<open>Run\<close> returns when the m-th attempt decides, and how many waits it made before.\<close>

definition decided :: "lock_call \<Rightarrow> string \<Rightarrow> task \<Rightarrow> nat \<Rightarrow> goerr option \<Rightarrow> nat \<Rightarrow> bool" where
  "decided k name task m r waits \<longleftrightarrow>
     (case runner_acquire k m of
        Inl e \<Rightarrow> r = Some e \<and> waits = m
      | Inr (Some l) \<Rightarrow> r = snd (execute (k_held k) name l task) \<and> waits = m
      | Inr None \<Rightarrow> r = k_wait k m \<and> r \<noteq> None \<and> waits = Suc m)"

lemma runner_acquire_busy: "runner_acquire k n = Inr None \<longleftrightarrow> k_try k n = Inr None"
  by (simp add: runner_acquire_def split: sum.split)

lemma run_loop_decides:
  assumes "n \<le> m" and "\<And>j. n \<le> j \<Longrightarrow> j < m \<Longrightarrow> \<not> decisive k j" and "decisive k m"
  shows "\<exists>r ts. run_loop o' k name task n delay = Some (r, ts) \<and> decided k name task m r (n + length ts)
    \<and> (\<forall>i < length ts. ts ! i = wait_time k (n + i) ((next_delay o' ^^ i) delay))"
  using assms
proof (induction "m - n" arbitrary: n delay)
  case 0
  then show ?case
    by (subst run_loop.simps) (auto simp: decided_def decisive_def runner_acquire_def split: sum.splits option.splits)
next
  case (Suc d)
  then have nm: "d = m - Suc n" "Suc n \<le> m" by simp_all
  then have nd: "\<not> decisive k n" using Suc.prems(2) by simp
  then have busy: "runner_acquire k n = Inr None" "k_wait k n = None" by (simp_all add: decisive_def runner_acquire_busy)
  obtain r ts where ih: "run_loop o' k name task (Suc n) (next_delay o' delay) = Some (r, ts)"
      "decided k name task m r (Suc n + length ts)"
      "\<forall>i < length ts. ts ! i = wait_time k (Suc n + i) ((next_delay o' ^^ i) (next_delay o' delay))"
    using Suc.hyps(1) [of "Suc n" "next_delay o' delay"] nm Suc.prems(2,3) by (metis Suc_leD)
  have "(wait_time k n delay # ts) ! i = wait_time k (n + i) ((next_delay o' ^^ i) delay)" if "i < Suc (length ts)" for i
    using that ih(3) by (cases i) (auto simp: funpow_swap1)
  then show ?case using ih(1,2) busy by (subst run_loop.simps) auto
qed

lemma run_loop_stuck:
  assumes "run_loop o' k name task n delay = Some out"
  shows "\<exists>m \<ge> n. decisive k m"
  using assms
proof (rule run_loop.raw_induct [where P = "\<lambda>o' k name task n delay out. \<exists>m \<ge> n. decisive k m", rotated])
  fix run o' k name task n delay out
  assume ih: "\<And>o' k name task n delay out. run o' k name task n delay = Some out \<Longrightarrow> \<exists>m \<ge> n. decisive k m"
    and e: "(case runner_acquire k n of
        Inl e \<Rightarrow> Some (Some e, [])
      | Inr None \<Rightarrow>
          (case k_wait k n of
             None \<Rightarrow> Option.bind (run o' k name task (Suc n) (next_delay o' delay)) (\<lambda>(r, ts). Some (r, wait_time k n delay # ts))
           | Some e \<Rightarrow> Some (Some e, [wait_time k n delay]))
      | Inr (Some l) \<Rightarrow> Some (snd (execute (k_held k) name l task), [])) = Some out"
  show "\<exists>m \<ge> n. decisive k m"
  proof (cases "decisive k n")
    case False
    then have "runner_acquire k n = Inr None" "k_wait k n = None" by (simp_all add: decisive_def runner_acquire_busy)
    with e obtain out' where "run o' k name task (Suc n) (next_delay o' delay) = Some out'" by (auto simp: bind_eq_Some_conv)
    from ih [OF this] show ?thesis by (meson Suc_leD)
  qed blast
qed

text \<open>
  C28.  Waiting for a lock: once the name is prepared, \<^verbatim>\<open>Run\<close> returns if and only if some attempt
  is answered other than busy or the context ends during some wait; the first such event decides
  what is returned, after exactly the waits before it; and the i-th wait is between half and the
  whole of the minimum delay doubled i times, capped at the maximum.
\<close>

theorem lock_run:
  assumes "locker_New backend o0 = Inr o'" and "prepare o' (k_ctx k) (k_held k) key (Some task) = Inr name"
  shows "((\<exists>out. Run o' k key (Some task) = Some out) \<longleftrightarrow> (\<exists>m. decisive k m))
    \<and> (\<forall>r ts. Run o' k key (Some task) = Some (r, ts) \<longrightarrow>
         (\<exists>m. decisive k m \<and> (\<forall>j < m. \<not> decisive k j) \<and> decided k name task m r (length ts))
         \<and> (\<forall>i < length ts. min (lo_RetryMin o' * 2 ^ i) (lo_RetryMax o') div 2 \<le> ts ! i
              \<and> ts ! i \<le> min (lo_RetryMin o' * 2 ^ i) (lo_RetryMax o')))"
proof -
  note o' = locker_New_ok [OF assms(1)]
  have run: "Run o' k key (Some task) = run_loop o' k name task 0 (lo_RetryMin o')" using assms(2) by (simp add: Run_def)
  have first: "\<exists>m. decisive k m \<and> (\<forall>j < m. \<not> decisive k j)" if "decisive k m" for m
    using that by (meson LeastI not_less_Least)
  have total: "\<exists>r ts. Run o' k key (Some task) = Some (r, ts) \<and> decided k name task m r (length ts)
      \<and> (\<forall>i < length ts. ts ! i = wait_time k i (min (lo_RetryMin o' * 2 ^ i) (lo_RetryMax o')))"
    if "decisive k m" "\<forall>j < m. \<not> decisive k j" for m
    unfolding run using run_loop_decides [of 0 m k o' name task "lo_RetryMin o'"] that
    by (simp add: delay_closed_form [OF o'(1,2)])
  show ?thesis
  proof (intro conjI allI impI)
    show "(\<exists>out. Run o' k key (Some task) = Some out) \<longleftrightarrow> (\<exists>m. decisive k m)"
      using total first run_loop_stuck unfolding run by metis
  next
    fix r ts assume r: "Run o' k key (Some task) = Some (r, ts)"
    then obtain m where m: "decisive k m" "\<forall>j < m. \<not> decisive k j" using run_loop_stuck first unfolding run by metis
    then show "\<exists>m. decisive k m \<and> (\<forall>j < m. \<not> decisive k j) \<and> decided k name task m r (length ts)"
      using total [OF m] r by auto
    fix i assume i: "i < length ts"
    have "0 < min (lo_RetryMin o' * 2 ^ i) (lo_RetryMax o')" using o'(1,2) by simp
    from wait_time_bounds [OF this]
    show "min (lo_RetryMin o' * 2 ^ i) (lo_RetryMax o') div 2 \<le> ts ! i" "ts ! i \<le> min (lo_RetryMin o' * 2 ^ i) (lo_RetryMax o')"
      using total [OF m] r i by (auto; metis)+
  qed
qed


subsection \<open>Outcomes\<close>

lemma errors_Join_is:
  assumes "Some x \<in> set es" and "errors_is x target"
  shows "is_error (errors_Join es) target"
proof -
  let ?xs = "List.map_filter (\<lambda>e. e) es"
  have x: "x \<in> set ?xs" using assms(1) by (force simp: map_filter_def image_iff)
  then have "errors_Join es = Some (Wrapped [] ?xs)" by (auto simp: errors_Join_def split: list.split)
  then show ?thesis using x assms(2) by (auto simp: is_error_def errors_is_def)
qed

lemma errors_Join_is_Some: "is_error e target \<Longrightarrow> e \<in> set es \<Longrightarrow> is_error (errors_Join es) target"
  using errors_Join_is by (cases e) (auto simp: is_error_def)

lemma locker_Wrap_is: "errors_is (locker_Wrap (Sentinel s) e) (Sentinel s)"
  by (cases e) (simp_all add: locker_Wrap_def errors_is_def)

text \<open>
  C29.  What \<^verbatim>\<open>execute\<close> reports: the callback was entered exactly when its context had not ended
  before; no error is reported exactly when the callback ran and returned none, the lock was never
  lost, the context did not end and the release succeeded; and the callback's own error, a lost lock
  and a failed release can each be recognised in the error.
\<close>

theorem lock_outcome:
  assumes "execute held name l task = (entered, err)"
  shows "(entered \<longleftrightarrow> ls_start l = None)
    \<and> (err = None \<longleftrightarrow> entered \<and> task (name # held) = None \<and> watch_outcome (ls_stopped l) (ls_watch l) = None
         \<and> ls_cause l = None \<and> ls_release l = None)
    \<and> (\<forall>e. entered \<longrightarrow> task (name # held) = Some e \<longrightarrow> is_error err e)
    \<and> (watch_outcome (ls_stopped l) (ls_watch l) \<noteq> None \<longrightarrow> is_error err (Sentinel ErrLockLost))
    \<and> (ls_release l \<noteq> None \<longrightarrow> is_error err (Sentinel ErrRelease))"
proof -
  define own where "own = (case ls_start l of Some cause \<Rightarrow> Some cause | None \<Rightarrow> task (name # held))"
  define lost where "lost = watch_outcome (ls_stopped l) (ls_watch l)"
  define joined where "joined = errors_Join [own, lost, ls_cause l]"
  have e: "entered \<longleftrightarrow> ls_start l = None" "err = (case ls_release l of None \<Rightarrow> joined
      | Some e \<Rightarrow> errors_Join [joined, Some (locker_Wrap (Sentinel ErrRelease) (Some e))])"
    using assms by (auto simp: execute_def own_def lost_def joined_def Let_def split: option.splits)
  have keep: "is_error joined x \<Longrightarrow> is_error err x" for x
    using errors_Join_is_Some [of joined x] by (simp add: e(2) split: option.split)
  have "err = None \<longleftrightarrow> own = None \<and> lost = None \<and> ls_cause l = None \<and> ls_release l = None"
    by (auto simp: e(2) joined_def errors_Join_None split: option.split)
  moreover have "is_error err x" if "own = Some x" for x
    using keep [of x] errors_Join_is [of x "[own, lost, ls_cause l]" x] that by (simp add: joined_def)
  moreover have "is_error err (Sentinel ErrLockLost)" if l: "lost \<noteq> None"
  proof -
    obtain y where y: "lost = Some y" using l by blast
    then have "errors_is y (Sentinel ErrLockLost)"
      by (auto simp: lost_def watch_outcome_def locker_Wrap_is split: option.splits if_splits)
    then show ?thesis using keep errors_Join_is [of y "[own, lost, ls_cause l]"] y by (simp add: joined_def)
  qed
  moreover have "is_error err (Sentinel ErrRelease)" if "ls_release l \<noteq> None"
    using that locker_Wrap_is by (auto simp: e(2) intro!: errors_Join_is)
  ultimately show ?thesis using e(1) by (auto simp: own_def lost_def split: option.splits)
qed

text \<open>Names of different namespaces or keys never coincide, and the callback cannot take its own lock again.\<close>

lemma split_at_first: "x \<notin> set as \<Longrightarrow> x \<notin> set bs \<Longrightarrow> as @ x # xs = bs @ x # ys \<longleftrightarrow> as = bs \<and> xs = ys"
proof (induction as arbitrary: bs)
  case (Cons a as)
  then show ?case by (cases bs) auto
qed (auto simp: Cons_eq_append_conv)

lemma full_key_inj:
  assumes "\<not> ContainsByte (lo_Namespace o1) 58" and "\<not> ContainsByte (lo_Namespace o2) 58"
  shows "full_key o1 k1 = full_key o2 k2 \<longleftrightarrow> lo_Namespace o1 = lo_Namespace o2 \<and> k1 = k2"
proof -
  have "CHR '':'' \<notin> set (lo_Namespace o1)" "CHR '':'' \<notin> set (lo_Namespace o2)"
    using assms by (auto simp: ContainsByte_def bytes_def image_iff; force)+
  then show ?thesis by (simp add: full_key_def split_at_first)
qed

lemma lock_not_reentrant:
  assumes "prepare o' ctxErr held key task = Inr name"
  shows "prepare o' None (name # held) key task = Inl (Sentinel ErrReentrant)" and "name = full_key o' key"
  using assms by (auto simp: prepare_def split: if_splits option.splits)


subsection \<open>postgres/locker.go\<close>

record lockKey =
  lk_namespace :: "32 word"
  lk_resource :: "32 word"

definition Uint32 :: "nat list \<Rightarrow> 32 word" where
  "Uint32 bs = word_of_nat (foldl (\<lambda>n b. n * 256 + b) 0 bs)"

definition keyFor :: "(string \<Rightarrow> string) \<Rightarrow> string \<Rightarrow> lockKey" where
  "keyFor sha256 name =
     (let hash = bytes (sha256 name) in \<lparr>lk_namespace = Uint32 (take 4 hash), lk_resource = Uint32 (take 4 (drop 4 hash))\<rparr>)"

record pg_Options =
  CheckInterval :: time
  OperationTimeout :: time

definition postgres_New :: "'p option \<Rightarrow> pg_Options \<Rightarrow> goerr + pg_Options" where
  "postgres_New pool o0 =
     (if pool = None then Inl (Plain (utf8 [0x9501, 0x8fde, 0x63a5, 0x6c60, 0x4e0d, 0x80fd, 0x4e3a, 0x7a7a]))
      else
        let o1 = \<lparr>CheckInterval = or_default (CheckInterval o0) (2 * second),
                  OperationTimeout = or_default (OperationTimeout o0) (2 * second)\<rparr>
        in if CheckInterval o1 < 0 \<or> OperationTimeout o1 < 0
           then Inl (Plain (utf8 [0x9501, 0x68c0, 0x6d4b, 0x914d, 0x7f6e, 0x65e0, 0x6548])) else Inr o1)"

text \<open>
  The server and the pool: which session owns a lock, which sessions have ended, the idle
  connections, and the number of the next new session.  A session that ends loses its locks.
\<close>

type_synonym session = nat

record pg =
  pg_owner :: "lockKey \<Rightarrow> session option"
  pg_dead :: "session list"
  pg_idle :: "session list"
  pg_next :: session

definition pg_end :: "session \<Rightarrow> pg \<Rightarrow> pg" where
  "pg_end c st = st\<lparr>pg_owner := (\<lambda>k. if pg_owner st k = Some c then None else pg_owner st k), pg_dead := c # pg_dead st\<rparr>"

definition pg_try_advisory_lock :: "session \<Rightarrow> lockKey \<Rightarrow> pg \<Rightarrow> bool \<times> pg" where
  "pg_try_advisory_lock c k st =
     (if pg_owner st k = None \<or> pg_owner st k = Some c then (True, st\<lparr>pg_owner := (pg_owner st)(k := Some c)\<rparr>) else (False, st))"

definition pg_advisory_unlock :: "session \<Rightarrow> lockKey \<Rightarrow> pg \<Rightarrow> bool \<times> pg" where
  "pg_advisory_unlock c k st =
     (if pg_owner st k = Some c then (True, st\<lparr>pg_owner := (pg_owner st)(k := None)\<rparr>) else (False, st))"

text \<open>
  What a call meets: an error of the pool, the idle connection it is given (or a new one), a failed
  statement (and whether the server had executed it), an error when the connection is closed.
\<close>

record net =
  nt_pool :: "goerr option"
  nt_pick :: "nat option"
  nt_fault :: "(goerr \<times> bool) option"
  nt_close :: "goerr option"

definition pool_take :: "nat option \<Rightarrow> pg \<Rightarrow> session \<times> pg" where
  "pool_take pick st =
     (case pick of
        Some i \<Rightarrow>
          if i < length (pg_idle st) then (pg_idle st ! i, st\<lparr>pg_idle := remove1 (pg_idle st ! i) (pg_idle st)\<rparr>)
          else (pg_next st, st\<lparr>pg_next := Suc (pg_next st)\<rparr>)
      | None \<Rightarrow> (pg_next st, st\<lparr>pg_next := Suc (pg_next st)\<rparr>))"

definition pool_put :: "session \<Rightarrow> pg \<Rightarrow> pg" where
  "pool_put c st = st\<lparr>pg_idle := c # pg_idle st\<rparr>"

text \<open>A statement on an ended session fails without effect.\<close>

definition statement :: "net \<Rightarrow> session \<Rightarrow> (pg \<Rightarrow> bool \<times> pg) \<Rightarrow> pg \<Rightarrow> (goerr + bool) \<times> pg" where
  "statement nt c f st =
     (if List.member (pg_dead st) c then (Inl (Sentinel EOF), st)
      else case nt_fault nt of
        Some (e, applied) \<Rightarrow> (Inl e, if applied then snd (f st) else st)
      | None \<Rightarrow> (Inr (fst (f st)), snd (f st)))"

text \<open>\<^verbatim>\<open>conn.Hijack().Close\<close>: the connection leaves the pool; the session ends, unless closing fails.\<close>

definition hijack_close :: "net \<Rightarrow> session \<Rightarrow> pg \<Rightarrow> pg" where
  "hijack_close nt c st = (case nt_close nt of None \<Rightarrow> pg_end c st | Some _ \<Rightarrow> st)"

record lease =
  le_conn :: "session option"
  le_key :: lockKey

definition TryAcquire :: "(string \<Rightarrow> string) \<Rightarrow> net \<Rightarrow> string \<Rightarrow> pg \<Rightarrow> (goerr + lease option) \<times> pg" where
  "TryAcquire sha256 nt name st =
     (case nt_pool nt of
        Some e \<Rightarrow> (Inl (locker_Wrap (Sentinel LockerErrUnavailable) (Some e)), st)
      | None \<Rightarrow>
          (let (c, st1) = pool_take (nt_pick nt) st; key = keyFor sha256 name
           in case statement nt c (pg_try_advisory_lock c key) st1 of
                (Inl e, st2) \<Rightarrow>
                  (Inl (locker_Wrap (Sentinel LockerErrUnavailable) (errors_Join [Some e, nt_close nt])), hijack_close nt c st2)
              | (Inr acquired, st2) \<Rightarrow>
                  if \<not> acquired then (Inr None, pool_put c st2)
                  else (Inr (Some \<lparr>le_conn = Some c, le_key = key\<rparr>), st2)))"

subsection \<open>postgres/lease.go\<close>

text \<open>The events of \<^verbatim>\<open>Watch\<close>: the context ends, or a tick with the context and the result of the ping.\<close>

datatype watch_event = WDone goerr | WTick "goerr option" "goerr option"

fun Watch :: "watch_event list \<Rightarrow> goerr option" where
  "Watch [] = None" \<comment> \<open>still watching\<close>
| "Watch (WDone e # es) = Some e"
| "Watch (WTick (Some e) ping # es) = Some e"
| "Watch (WTick None (Some e) # es) = Some (locker_Wrap (Sentinel ErrLockLost) (Some e))"
| "Watch (WTick None None # es) = Watch es"

definition Release :: "net \<Rightarrow> lease \<Rightarrow> pg \<Rightarrow> goerr option \<times> lease \<times> pg" where
  "Release nt l st =
     (case le_conn l of
        None \<Rightarrow> (None, l, st)
      | Some c \<Rightarrow>
          (let l' = l\<lparr>le_conn := None\<rparr>
           in case statement nt c (pg_advisory_unlock c (le_key l)) st of
                (Inr True, st1) \<Rightarrow> (None, l', pool_put c st1)
              | (Inr False, st1) \<Rightarrow>
                  (Some (locker_Wrap (Sentinel ErrRelease) (errors_Join [Some (Sentinel ErrLockLost), nt_close nt])), l', hijack_close nt c st1)
              | (Inl e, st1) \<Rightarrow>
                  (Some (locker_Wrap (Sentinel ErrRelease) (errors_Join [Some e, nt_close nt])), l', hijack_close nt c st1)))"

subsection \<open>Concurrent holders\<close>

text \<open>
  Each caller holds at most one lease at a time here (nested locks are other callers); its callback
  runs only between the successful \<open>TryAcquire\<close> and the \<open>Release\<close>.  A session may end at any time.
\<close>

type_synonym lock_system = "pg \<times> (nat \<Rightarrow> (string \<times> lease) option)"

inductive lock_step :: "(string \<Rightarrow> string) \<Rightarrow> lock_system \<Rightarrow> lock_system \<Rightarrow> bool" for sha256 where
  acquired: "hold t = None \<Longrightarrow> TryAcquire sha256 nt name st = (Inr (Some l), st') \<Longrightarrow>
    lock_step sha256 (st, hold) (st', hold(t \<mapsto> (name, l)))"
| refused: "TryAcquire sha256 nt name st = (r, st') \<Longrightarrow> \<forall>l. r \<noteq> Inr (Some l) \<Longrightarrow>
    lock_step sha256 (st, hold) (st', hold)"
| released: "hold t = Some (name, l) \<Longrightarrow> Release nt l st = (e, l', st') \<Longrightarrow>
    lock_step sha256 (st, hold) (st', hold(t := None))"
| session_ends: "lock_step sha256 (st, hold) (pg_end c st, hold)"

inductive_cases lock_stepE: "lock_step sha256 s s'"

definition empty_server :: pg where
  "empty_server = \<lparr>pg_owner = (\<lambda>_. None), pg_dead = [], pg_idle = [], pg_next = 0\<rparr>"


subsection \<open>The invariant of the locks\<close>

text \<open>
  Relative to the connections in use: idle connections are distinct, own no lock and are not in use;
  all sessions are older than the next one.
\<close>

definition clean :: "pg \<Rightarrow> session set \<Rightarrow> bool" where
  "clean st used \<longleftrightarrow> distinct (pg_idle st) \<and> (\<forall>c \<in> set (pg_idle st). c < pg_next st \<and> c \<notin> used \<and> (\<forall>k. pg_owner st k \<noteq> Some c))
     \<and> (\<forall>c \<in> used. c < pg_next st) \<and> (\<forall>k c. pg_owner st k = Some c \<longrightarrow> c < pg_next st)"

lemma pool_take_clean:
  assumes "clean st used" and "pool_take p st = (c, st1)"
  shows "c \<notin> used" and "pg_owner st k \<noteq> Some c" and "pg_owner st1 = pg_owner st" and "pg_dead st1 = pg_dead st" and "clean st1 (insert c used)"
proof -
  consider (idle) "c \<in> set (pg_idle st)" "st1 = st\<lparr>pg_idle := remove1 c (pg_idle st)\<rparr>"
    | (new) "c = pg_next st" "st1 = st\<lparr>pg_next := Suc (pg_next st)\<rparr>"
    using assms(2) by (auto simp: pool_take_def split: option.splits if_splits)
  then have "c \<notin> used \<and> (\<forall>k. pg_owner st k \<noteq> Some c) \<and> pg_owner st1 = pg_owner st \<and> pg_dead st1 = pg_dead st \<and> clean st1 (insert c used)"
  proof cases
    case idle
    then show ?thesis using assms(1) by (auto simp: clean_def)
  next
    case new
    then show ?thesis using assms(1) by (fastforce simp: clean_def)
  qed
  then show "c \<notin> used" "pg_owner st k \<noteq> Some c" "pg_owner st1 = pg_owner st" "pg_dead st1 = pg_dead st" "clean st1 (insert c used)"
    by simp_all
qed

lemma pool_put_clean: "clean st (insert c used) \<Longrightarrow> c \<notin> used \<Longrightarrow> \<forall>k. pg_owner st k \<noteq> Some c \<Longrightarrow> clean (pool_put c st) used"
  by (auto simp: clean_def pool_put_def)

lemma clean_less: "clean st (insert c used) \<Longrightarrow> clean st used"
  by (auto simp: clean_def)

lemma pg_end_clean: "clean st used \<Longrightarrow> clean (pg_end c st) used"
  by (auto simp: clean_def pg_end_def)

lemma hijack_close_clean: "clean st (insert c used) \<Longrightarrow> clean (hijack_close nt c st) used"
  by (auto simp: hijack_close_def intro: clean_less pg_end_clean split: option.split)

lemma try_lock_clean: "clean st used \<Longrightarrow> c \<in> used \<Longrightarrow> clean (snd (pg_try_advisory_lock c k st)) used"
  by (auto simp: clean_def pg_try_advisory_lock_def)

lemma unlock_clean: "clean st used \<Longrightarrow> clean (snd (pg_advisory_unlock c k st)) used"
  by (auto simp: clean_def pg_advisory_unlock_def)

text \<open>What a change leaves to the sessions in use: their locks, unless they have ended, and no others.\<close>

definition leaves :: "session set \<Rightarrow> pg \<Rightarrow> pg \<Rightarrow> bool" where
  "leaves used st st' \<longleftrightarrow> set (pg_dead st) \<subseteq> set (pg_dead st')
     \<and> (\<forall>k. \<forall>c \<in> used. pg_owner st k = Some c \<longrightarrow> pg_owner st' k = Some c \<or> c \<in> set (pg_dead st'))
     \<and> (\<forall>k. \<forall>c \<in> used. pg_owner st' k = Some c \<longrightarrow> pg_owner st k = Some c)"

lemma leaves_refl [simp]: "leaves used st st"
  by (simp add: leaves_def)

lemma leaves_trans: "leaves used st st1 \<Longrightarrow> leaves used st1 st2 \<Longrightarrow> leaves used st st2"
  by (auto simp: leaves_def) (metis subsetD)

lemma leaves_end: "leaves used st (pg_end c st)"
  by (auto simp: leaves_def pg_end_def)

lemma leaves_close: "leaves used st (hijack_close nt c st)"
  by (simp add: hijack_close_def leaves_end split: option.split)

lemma leaves_try: "c \<notin> used \<Longrightarrow> leaves used st (snd (pg_try_advisory_lock c k st))"
  by (auto simp: leaves_def pg_try_advisory_lock_def)

lemma leaves_unlock: "c \<notin> used \<Longrightarrow> leaves used st (snd (pg_advisory_unlock c k st))"
  by (auto simp: leaves_def pg_advisory_unlock_def)

lemma statement_leaves:
  assumes "statement nt c f st = (r, st')" and "leaves used st (snd (f st))" and "clean st used' \<Longrightarrow> clean (snd (f st)) used'"
  shows "leaves used st st'" and "clean st used' \<Longrightarrow> clean st' used'"
  using assms by (auto simp: statement_def split: if_splits option.splits)


lemma TryAcquire_lease:
  assumes "TryAcquire sha256 nt name st = (Inr (Some l), st')" and "clean st used"
  shows "\<exists>c. le_conn l = Some c \<and> le_key l = keyFor sha256 name \<and> c \<notin> used \<and> clean st' (insert c used) \<and> leaves used st st'
    \<and> (\<forall>k. pg_owner st' k = Some c \<longleftrightarrow> k = le_key l)"
proof -
  obtain c st1 where t: "pool_take (nt_pick nt) st = (c, st1)" by force
  note c = pool_take_clean [OF assms(2) t]
  let ?f = "pg_try_advisory_lock c (keyFor sha256 name)"
  obtain s: "statement nt c ?f st1 = (Inr True, st')" and l: "l = \<lparr>le_conn = Some c, le_key = keyFor sha256 name\<rparr>"
    using assms(1) by (auto simp: TryAcquire_def t Let_def split: option.splits sum.splits prod.splits if_splits)
  have st': "fst (?f st1)" "st' = snd (?f st1)" using s by (auto simp: statement_def split: if_splits option.splits)
  have "leaves used st st1" using c(3,4) by (simp add: leaves_def)
  then have "leaves used st st'" using leaves_try [OF c(1)] leaves_trans st'(2) by blast
  moreover have "\<forall>k. pg_owner st' k = Some c \<longleftrightarrow> k = keyFor sha256 name"
    using st' c(2,3) by (auto simp: pg_try_advisory_lock_def split: if_splits)
  ultimately show ?thesis using l c(1) try_lock_clean [OF c(5)] st'(2) by simp
qed

lemma TryAcquire_none:
  assumes "TryAcquire sha256 nt name st = (r, st')" and "\<forall>l. r \<noteq> Inr (Some l)" and "clean st used"
  shows "clean st' used \<and> leaves used st st'"
proof (cases "nt_pool nt")
  case None
  obtain c st1 where t: "pool_take (nt_pick nt) st = (c, st1)" by force
  note c = pool_take_clean [OF assms(3) t]
  let ?f = "pg_try_advisory_lock c (keyFor sha256 name)"
  obtain r1 st2 where s: "statement nt c ?f st1 = (r1, st2)" by force
  have k: "leaves used st1 st2" "clean st2 (insert c used)"
    using statement_leaves [OF s leaves_try [OF c(1)], of "insert c used"] try_lock_clean c(5) by blast+
  have l1: "leaves used st st1" using c(3,4) by (simp add: leaves_def)
  show ?thesis
  proof (cases r1)
    case (Inl e)
    then have "st' = hijack_close nt c st2" using assms(1) None by (simp add: TryAcquire_def t s Let_def)
    then show ?thesis using hijack_close_clean [OF k(2)] leaves_trans [OF leaves_trans [OF l1 k(1)] leaves_close] by simp
  next
    case (Inr acquired)
    then have "\<not> acquired" "st' = pool_put c st2" using assms(1,2) None by (auto simp: TryAcquire_def t s Let_def split: if_splits)
    moreover have "st2 = st1"
      using s Inr \<open>\<not> acquired\<close> by (auto simp: statement_def pg_try_advisory_lock_def split: if_splits option.splits)
    ultimately have "clean st' used" "leaves used st2 st'" using pool_put_clean [OF k(2) c(1)] c(2,3) by (auto simp: leaves_def pool_put_def)
    then show ?thesis using leaves_trans [OF leaves_trans [OF l1 k(1)]] by blast
  qed
qed (use assms in \<open>simp add: TryAcquire_def\<close>)

lemma Release_gives_back:
  assumes "Release nt l st = (e, l', st')" and "le_conn l = Some c" and "clean st (insert c used)" and "c \<notin> used"
    and "{k. pg_owner st k = Some c} \<subseteq> {le_key l}"
  shows "clean st' used \<and> leaves used st st'"
proof -
  let ?f = "pg_advisory_unlock c (le_key l)"
  obtain r1 st1 where s: "statement nt c ?f st = (r1, st1)" by force
  have k: "leaves used st st1" "clean st1 (insert c used)"
    using statement_leaves [OF s leaves_unlock [OF assms(4)] unlock_clean] assms(3) by blast+
  have close: "clean (hijack_close nt c st1) used \<and> leaves used st (hijack_close nt c st1)"
    using hijack_close_clean [OF k(2)] leaves_trans [OF k(1) leaves_close] by blast
  show ?thesis
  proof (cases "r1 = Inr True")
    case True
    then have "st' = pool_put c st1" using assms(1,2) by (simp add: Release_def s Let_def)
    moreover have st1: "st1 = st\<lparr>pg_owner := (pg_owner st)(le_key l := None)\<rparr>"
      using s True by (auto simp: statement_def pg_advisory_unlock_def split: if_splits option.splits)
    have free: "pg_owner st1 k \<noteq> Some c" for k
      using assms(5) by (cases "k = le_key l") (auto simp: st1)
    moreover have "leaves used st1 (pool_put c st1)" by (simp add: leaves_def pool_put_def)
    ultimately show ?thesis using pool_put_clean [OF k(2) assms(4)] leaves_trans [OF k(1)] free by blast
  next
    case False
    then have "st' = hijack_close nt c st1" using assms(1,2) by (auto simp: Release_def s Let_def split: sum.splits bool.splits)
    then show ?thesis using close by simp
  qed
qed


definition in_use :: "(nat \<Rightarrow> (string \<times> lease) option) \<Rightarrow> session set" where
  "in_use hold = {c. \<exists>t name l. hold t = Some (name, l) \<and> le_conn l = Some c}"

text \<open>A lease has a connection of its own, which owns exactly its lock unless its session has ended.\<close>

definition lease_ok :: "(string \<Rightarrow> string) \<Rightarrow> pg \<Rightarrow> string \<Rightarrow> lease \<Rightarrow> bool" where
  "lease_ok sha256 st name l \<longleftrightarrow> le_key l = keyFor sha256 name
     \<and> (\<exists>c. le_conn l = Some c \<and> (c \<in> set (pg_dead st) \<or> pg_owner st (le_key l) = Some c)
          \<and> {k. pg_owner st k = Some c} \<subseteq> {le_key l})"

definition lock_inv :: "(string \<Rightarrow> string) \<Rightarrow> lock_system \<Rightarrow> bool" where
  "lock_inv sha256 s \<longleftrightarrow> (case s of (st, hold) \<Rightarrow>
     clean st (in_use hold) \<and> (\<forall>t name l. hold t = Some (name, l) \<longrightarrow> lease_ok sha256 st name l)
     \<and> (\<forall>t t' n n' l l'. hold t = Some (n, l) \<longrightarrow> hold t' = Some (n', l') \<longrightarrow> le_conn l = le_conn l' \<longrightarrow> t = t'))"

lemma lease_ok_leaves:
  assumes "lease_ok sha256 st name l" and "leaves used st st'" and "le_conn l = Some c" and "c \<in> used"
  shows "lease_ok sha256 st' name l"
proof -
  have c: "le_key l = keyFor sha256 name" "c \<in> set (pg_dead st) \<or> pg_owner st (le_key l) = Some c"
      "{k. pg_owner st k = Some c} \<subseteq> {le_key l}"
    using assms(1,3) unfolding lease_ok_def by auto
  have "c \<in> set (pg_dead st') \<or> pg_owner st' (le_key l) = Some c" "{k. pg_owner st' k = Some c} \<subseteq> {k. pg_owner st k = Some c}"
    using assms(2,4) c(2) unfolding leaves_def by blast+
  then show ?thesis unfolding lease_ok_def using assms(3) c(1,3) by blast
qed

lemma in_use_add:
  assumes "hold t = None" and "le_conn l = Some c"
  shows "in_use (hold(t \<mapsto> (name, l))) = insert c (in_use hold)"
  using assms by (auto simp: in_use_def) (metis option.distinct(1))+

lemma in_use_drop:
  assumes "lock_inv sha256 (st, hold)" and "hold t = Some (name, l)" and "le_conn l = Some c"
  shows "in_use hold = insert c (in_use (hold(t := None)))" and "c \<notin> in_use (hold(t := None))"
proof -
  have only: "t1 = t" if "hold t1 = Some (n, l1)" "le_conn l1 = Some c" for t1 n l1
    using assms that unfolding lock_inv_def prod.case by metis
  have "c \<in> in_use hold" using assms(2,3) unfolding in_use_def by blast
  moreover have "c1 \<in> in_use hold \<longleftrightarrow> c1 \<in> in_use (hold(t := None))" if "c1 \<noteq> c" for c1
    using assms(2,3) that unfolding in_use_def mem_Collect_eq by (metis fun_upd_apply option.distinct(1) option.inject prod.inject)
  ultimately have "c1 \<in> in_use hold \<longleftrightarrow> c1 \<in> insert c (in_use (hold(t := None)))" for c1 by (cases "c1 = c") simp_all
  then show "in_use hold = insert c (in_use (hold(t := None)))" by (rule set_eqI)
  show "c \<notin> in_use (hold(t := None))" using only by (auto simp: in_use_def)
qed

lemma lease_kept:
  assumes "lock_inv sha256 (st, hold)" and "hold t = Some (name, l)" and "hold' t = Some (name, l)" and "leaves (in_use hold') st st'"
  shows "lease_ok sha256 st' name l"
proof -
  have ok: "lease_ok sha256 st name l" using assms(1,2) by (simp add: lock_inv_def)
  then obtain c where c: "le_conn l = Some c" by (auto simp: lease_ok_def)
  then have "c \<in> in_use hold'" using assms(3) unfolding in_use_def by blast
  then show ?thesis by (rule lease_ok_leaves [OF ok assms(4) c])
qed

lemma lock_inv_step:
  assumes "lock_step sha256 s s'" and "lock_inv sha256 s"
  shows "lock_inv sha256 s'"
  using assms(1)
proof cases
  case (acquired hold t nt name st l st')
  have inv: "lock_inv sha256 (st, hold)" using assms(2) acquired(1) by simp
  then have cl: "clean st (in_use hold)" by (simp add: lock_inv_def)
  obtain c where c: "le_conn l = Some c" "le_key l = keyFor sha256 name" "c \<notin> in_use hold" "clean st' (insert c (in_use hold))"
      "leaves (in_use hold) st st'" "\<forall>k. pg_owner st' k = Some c \<longleftrightarrow> k = le_key l"
    using TryAcquire_lease [OF acquired(4) cl] by blast
  have other: "le_conn l1 \<noteq> Some c" if "hold t1 = Some (n, l1)" for t1 n l1
    using that c(3) unfolding in_use_def by blast
  have new: "lease_ok sha256 st' name l" using c(1,2,6) by (simp add: lease_ok_def)
  show ?thesis unfolding acquired(2) lock_inv_def prod.case in_use_add [of hold t, OF acquired(3) c(1)]
  proof (intro conjI allI impI)
    show "clean st' (insert c (in_use hold))" by (rule c(4))
    show "lease_ok sha256 st' n l1" if "(hold(t \<mapsto> (name, l))) t1 = Some (n, l1)" for t1 n l1
      using that new lease_kept [OF inv _ _ c(5)] by (auto split: if_splits)
    show "t1 = t2" if "(hold(t \<mapsto> (name, l))) t1 = Some (n, l1)" "(hold(t \<mapsto> (name, l))) t2 = Some (n', l2)" "le_conn l1 = le_conn l2"
      for t1 t2 n n' l1 l2
      using that other c(1) inv unfolding lock_inv_def by (auto split: if_splits)
  qed
next
  case (refused nt name st r st' hold)
  have inv: "lock_inv sha256 (st, hold)" using assms(2) refused(1) by simp
  have k: "clean st' (in_use hold)" "leaves (in_use hold) st st'"
    using TryAcquire_none [OF refused(3,4)] inv by (simp_all add: lock_inv_def)
  show ?thesis using inv k(1) lease_kept [OF inv _ _ k(2)] unfolding refused(2) lock_inv_def prod.case by blast
next
  case (released hold t name l nt st e l' st')
  have inv: "lock_inv sha256 (st, hold)" using assms(2) released(1) by simp
  obtain c where c: "le_conn l = Some c" "{k. pg_owner st k = Some c} \<subseteq> {le_key l}"
    using inv released(3) unfolding lock_inv_def lease_ok_def prod.case by blast
  note u = in_use_drop [OF inv released(3) c(1)]
  let ?hold = "hold(t := None)"
  have k: "clean st' (in_use ?hold)" "leaves (in_use ?hold) st st'"
    using Release_gives_back [OF released(4) c(1) _ u(2) c(2)] inv u(1) by (simp_all add: lock_inv_def)
  have sub: "hold t1 = Some x" if "?hold t1 = Some x" for t1 x using that by (auto split: if_splits)
  show ?thesis unfolding released(2) lock_inv_def prod.case
  proof (intro conjI allI impI)
    show "clean st' (in_use ?hold)" by (rule k(1))
    show "lease_ok sha256 st' n l1" if "?hold t1 = Some (n, l1)" for t1 n l1
      by (rule lease_kept [OF inv sub [OF that] that k(2)])
    show "t1 = t2" if "?hold t1 = Some (n, l1)" "?hold t2 = Some (n', l2)" "le_conn l1 = le_conn l2" for t1 t2 n n' l1 l2
      using sub [OF that(1)] sub [OF that(2)] that(3) inv unfolding lock_inv_def prod.case by blast
  qed
next
  case (session_ends st hold c)
  have inv: "lock_inv sha256 (st, hold)" using assms(2) session_ends(1) by simp
  show ?thesis using inv lease_kept [OF inv _ _ leaves_end] pg_end_clean
    unfolding session_ends(2) lock_inv_def prod.case by blast
qed

text \<open>
  C27.  Mutual exclusion: whatever statements fail, whichever answers are lost, and whenever sessions
  end, two leases of the same lock coexist only if the session behind one of them has ended (which
  its watcher reports as a lost lock); and the pool never hands out a connection that owns a lock.
\<close>

theorem lock_exclusive:
  assumes "(lock_step sha256)\<^sup>*\<^sup>* (empty_server, Map.empty) (st, hold)"
  shows "(\<forall>t t' name name' l l' c c'. t \<noteq> t' \<longrightarrow> hold t = Some (name, l) \<longrightarrow> hold t' = Some (name', l')
        \<longrightarrow> keyFor sha256 name = keyFor sha256 name' \<longrightarrow> le_conn l = Some c \<longrightarrow> le_conn l' = Some c'
        \<longrightarrow> c \<in> set (pg_dead st) \<or> c' \<in> set (pg_dead st))
    \<and> (\<forall>c \<in> set (pg_idle st). \<forall>k. pg_owner st k \<noteq> Some c)"
proof -
  have "lock_inv sha256 (empty_server, Map.empty)"
    by (simp add: lock_inv_def clean_def empty_server_def in_use_def)
  with assms have inv: "lock_inv sha256 (st, hold)"
    by (induction rule: rtranclp_induct) (auto intro: lock_inv_step)
  show ?thesis
  proof (intro conjI allI impI)
    show "\<forall>c \<in> set (pg_idle st). \<forall>k. pg_owner st k \<noteq> Some c" using inv by (simp add: lock_inv_def clean_def)
    fix t t' name name' l l' c c'
    assume a: "t \<noteq> t'" "hold t = Some (name, l)" "hold t' = Some (name', l')" "keyFor sha256 name = keyFor sha256 name'"
      "le_conn l = Some c" "le_conn l' = Some c'"
    have "c \<noteq> c'" using inv a unfolding lock_inv_def prod.case by metis
    moreover have "lease_ok sha256 st name l" "lease_ok sha256 st name' l'" using inv a(2,3) by (simp_all add: lock_inv_def)
    ultimately show "c \<in> set (pg_dead st) \<or> c' \<in> set (pg_dead st)" using a(4-6) by (auto simp: lease_ok_def)
  qed
qed


text \<open>A failed probe is reported, also when the watcher has meanwhile been told to stop.\<close>

lemma Watch_reports:
  "Watch (replicate n (WTick None None) @ WTick None (Some e) # es) = Some (locker_Wrap (Sentinel ErrLockLost) (Some e))"
  by (induction n) simp_all

lemma watch_outcome_lost: "is_error e (Sentinel ErrLockLost) \<Longrightarrow> watch_outcome stopped e \<noteq> None"
  by (simp add: watch_outcome_def split: option.split)

subsection \<open>Examples\<close>

definition good_lease :: lease_run where
  "good_lease = \<lparr>ls_start = None, ls_stopped = Some (Sentinel Canceled), ls_watch = Some (Sentinel Canceled), ls_cause = None, ls_release = None\<rparr>"

definition example_lock_options :: lock_Options where
  "example_lock_options = \<lparr>lo_Namespace = ''jobs'', lo_AcquireTimeout = 5 * second, lo_ReleaseTimeout = 5 * second,
     lo_RetryMin = 50 * millisecond, lo_RetryMax = second\<rparr>"

definition example_lock_call :: lock_call where
  "example_lock_call = \<lparr>k_ctx = None, k_held = [], k_try = (\<lambda>n. if n < 3 then Inr None else Inr (Some good_lease)),
     k_rand = (\<lambda>n. n), k_wait = (\<lambda>n. None)\<rparr>"

definition no_faults :: net where
  "no_faults = \<lparr>nt_pool = None, nt_pick = None, nt_fault = None, nt_close = None\<rparr>"

lemma example_lock_New: "locker_New (Some ()) (example_lock_options\<lparr>lo_AcquireTimeout := 0, lo_RetryMin := 0\<rparr>) = Inr example_lock_options"
  by (simp add: locker_New_def example_lock_options_def validKey_def maxNamespaceBytes_def bytes_def ContainsByte_def or_default_def
      time_defs)

lemma example_prepare:
  "prepare example_lock_options (k_ctx example_lock_call) (k_held example_lock_call) ''sweep'' (Some (\<lambda>held. None)) = Inr ''jobs:sweep''"
  by (simp add: prepare_def example_lock_call_def example_lock_options_def validKey_def maxKeyBytes_def bytes_def full_key_def)

theorem lock_run_witness:
  "\<exists>r ts. Run example_lock_options example_lock_call ''sweep'' (Some (\<lambda>held. None)) = Some (r, ts)
     \<and> (\<exists>m. decided example_lock_call ''jobs:sweep'' (\<lambda>held. None) m r (length ts))"
proof -
  have "decisive example_lock_call 3" by (simp add: decisive_def example_lock_call_def)
  with lock_run [OF example_lock_New example_prepare] show ?thesis by (metis surj_pair)
qed

theorem lock_outcome_witness:
  "\<exists>entered err. execute [] ''jobs:sweep'' good_lease (\<lambda>held. None) = (entered, err) \<and> entered \<and> err = None"
proof -
  obtain entered err where e: "execute [] ''jobs:sweep'' good_lease (\<lambda>held. None) = (entered, err)" by force
  show ?thesis using lock_outcome [OF e] e
    by (auto simp: good_lease_def watch_outcome_def is_error_def errors_is_def)
qed

theorem lock_exclusive_witness:
  "\<exists>st hold. (lock_step (\<lambda>s. s))\<^sup>*\<^sup>* (empty_server, Map.empty) (st, hold) \<and> hold 0 \<noteq> None
     \<and> (\<forall>c \<in> set (pg_idle st). \<forall>k. pg_owner st k \<noteq> Some c)"
proof -
  obtain l st' where a: "TryAcquire (\<lambda>s. s) no_faults ''jobs:sweep'' empty_server = (Inr (Some l), st')"
    by (simp add: TryAcquire_def no_faults_def pool_take_def empty_server_def statement_def pg_try_advisory_lock_def Let_def)
  have "lock_step (\<lambda>s. s) (empty_server, Map.empty) (st', Map.empty(0 \<mapsto> (''jobs:sweep'', l)))"
    by (rule lock_step.acquired [OF _ a]) simp
  then have "(lock_step (\<lambda>s. s))\<^sup>*\<^sup>* (empty_server, Map.empty) (st', Map.empty(0 \<mapsto> (''jobs:sweep'', l)))" by (rule r_into_rtranclp)
  from this lock_exclusive [OF this] show ?thesis by fastforce
qed

end
