(* ===== verification/Go_Encoding.thy ===== *)
theory Go_Encoding
  imports Go_Text
begin

text \<open>
  \<^verbatim>\<open>encoding/base64\<close> (RawURLEncoding, with Strict decoding), \<^verbatim>\<open>html.EscapeString\<close> and
  \<^verbatim>\<open>url.PathEscape\<close>.
\<close>

subsection \<open>Base64, URL alphabet, no padding\<close>

definition b64_char :: "nat \<Rightarrow> nat" where
  "b64_char v =
     (if v < 26 then v + 65 else if v < 52 then v + 71 else if v < 62 then v - 4
      else if v = 62 then 45 else 95)"

definition b64_value :: "nat \<Rightarrow> nat option" where
  "b64_value c =
     (if 65 \<le> c \<and> c \<le> 90 then Some (c - 65) else if 97 \<le> c \<and> c \<le> 122 then Some (c - 71)
      else if 48 \<le> c \<and> c \<le> 57 then Some (c + 4) else if c = 45 then Some 62
      else if c = 95 then Some 63 else None)"

fun b64_encode :: "nat list \<Rightarrow> nat list" where
  "b64_encode [] = []"
| "b64_encode [a] = [b64_char (a div 4), b64_char (a mod 4 * 16)]"
| "b64_encode [a, b] =
     [b64_char (a div 4), b64_char (a mod 4 * 16 + b div 16), b64_char (b mod 16 * 4)]"
| "b64_encode (a # b # c # rest) =
     b64_char (a div 4) # b64_char (a mod 4 * 16 + b div 16)
       # b64_char (b mod 16 * 4 + c div 64) # b64_char (c mod 64) # b64_encode rest"

text \<open>Strict decoding of sextets: the unused low bits of the last one must be zero.\<close>

fun b64_groups :: "nat list \<Rightarrow> nat list option" where
  "b64_groups [] = Some []"
| "b64_groups [a] = None"
| "b64_groups [a, b] = (if b mod 16 = 0 then Some [a * 4 + b div 16] else None)"
| "b64_groups [a, b, c] =
     (if c mod 4 = 0 then Some [a * 4 + b div 16, b mod 16 * 16 + c div 4] else None)"
| "b64_groups (a # b # c # d # rest) =
     (case b64_groups rest of
        None \<Rightarrow> None
      | Some out \<Rightarrow> Some ((a * 4 + b div 16) # (b mod 16 * 16 + c div 4) # (c mod 4 * 64 + d) # out))"

fun all_values :: "nat list \<Rightarrow> nat list option" where
  "all_values [] = Some []"
| "all_values (c # cs) =
     (case b64_value c of
        None \<Rightarrow> None
      | Some v \<Rightarrow> (case all_values cs of None \<Rightarrow> None | Some vs \<Rightarrow> Some (v # vs)))"

text \<open>The decoder skips carriage returns and line feeds, also in strict mode.\<close>

definition EncodeToString :: "string \<Rightarrow> string" where
  "EncodeToString s = of_bytes (b64_encode (bytes s))"

definition DecodeString :: "string \<Rightarrow> string option" where
  "DecodeString s =
     (case all_values (filter (\<lambda>c. c \<noteq> 10 \<and> c \<noteq> 13) (bytes s)) of
        None \<Rightarrow> None
      | Some vs \<Rightarrow> map_option of_bytes (b64_groups vs))"

definition EncodedLen :: "nat \<Rightarrow> nat" where
  "EncodedLen n = n div 3 * 4 + (n mod 3 * 8 + 5) div 6"

lemma b64_value_char: "v < 64 \<Longrightarrow> b64_value (b64_char v) = Some v"
  by (auto simp: b64_value_def b64_char_def)

lemma b64_char_not_newline: "b64_char v \<noteq> 10" "b64_char v \<noteq> 13"
  by (auto simp: b64_char_def)

lemma b64_char_bound: "b64_char v < 128"
  by (auto simp: b64_char_def)

lemma b64_encode_props:
  "c \<in> set (b64_encode bs) \<Longrightarrow> c < 128 \<and> c \<noteq> 10 \<and> c \<noteq> 13"
  by (induction bs rule: b64_encode.induct) (auto simp: b64_char_bound b64_char_not_newline)

lemma length_b64_encode: "length (b64_encode bs) = EncodedLen (length bs)"
proof (induction bs rule: b64_encode.induct)
  case (4 a b c rest)
  have "EncodedLen (length (a # b # c # rest)) = 4 + EncodedLen (length rest)"
    by (simp add: EncodedLen_def numeral_3_eq_3 [symmetric] add.commute)
      (metis add.commute add_mult_distrib div_add_self1 mod_add_self1 mult_1 zero_neq_numeral)
  with 4 show ?case by simp
qed (simp_all add: EncodedLen_def)

lemma sextet_bounds:
  fixes a b c :: nat
  assumes "a < 256" and "b < 256" and "c < 256"
  shows "a div 4 < 64" and "a mod 4 * 16 < 64" and "a mod 4 * 16 + b div 16 < 64"
    and "b mod 16 * 4 < 64" and "b mod 16 * 4 + c div 64 < 64" and "c mod 64 < 64"
proof -
  have "a mod 4 < 4" "b mod 16 < 16" "b div 16 < 16" "c div 64 < 4" using assms by auto
  then show "a mod 4 * 16 < 64" and "a mod 4 * 16 + b div 16 < 64" and "b mod 16 * 4 < 64"
    and "b mod 16 * 4 + c div 64 < 64" by linarith+
qed (use assms in auto)

lemma sextet_join:
  fixes a b c :: nat
  assumes "a < 256" and "b < 256" and "c < 256"
  shows "(a mod 4 * 16 + b div 16) div 16 = a mod 4" and "(a mod 4 * 16 + b div 16) mod 16 = b div 16"
    and "(b mod 16 * 4 + c div 64) div 4 = b mod 16" and "(b mod 16 * 4 + c div 64) mod 4 = c div 64"
proof -
  have "b div 16 < 16" "c div 64 < 4" using assms by auto
  then show "(a mod 4 * 16 + b div 16) div 16 = a mod 4" "(a mod 4 * 16 + b div 16) mod 16 = b div 16"
    "(b mod 16 * 4 + c div 64) div 4 = b mod 16" "(b mod 16 * 4 + c div 64) mod 4 = c div 64"
    by simp_all
qed

lemma b64_roundtrip:
  assumes "\<And>b. b \<in> set bs \<Longrightarrow> b < 256"
  shows "\<exists>vs. all_values (b64_encode bs) = Some vs \<and> b64_groups vs = Some bs"
  using assms
proof (induction bs rule: b64_encode.induct)
  case (2 a)
  then have "a < 256" by simp
  from sextet_bounds [OF this this this] show ?case by (simp add: b64_value_char)
next
  case (3 a b)
  then have ab: "a < 256" "b < 256" by auto
  from sextet_bounds [OF ab ab(2)] sextet_join [OF ab ab(2)] show ?case by (simp add: b64_value_char)
next
  case (4 a b c rest)
  then obtain vs where vs: "all_values (b64_encode rest) = Some vs" "b64_groups vs = Some rest"
    by auto
  have "a < 256" "b < 256" "c < 256" using 4(2) by auto
  from sextet_bounds [OF this] sextet_join [OF this] show ?case
    by (simp add: b64_value_char vs)
qed simp

lemma bytes_lt: "b \<in> set (bytes s) \<Longrightarrow> b < 256"
  by (auto simp: bytes_def)

lemma bytes_EncodeToString: "bytes (EncodeToString s) = b64_encode (bytes s)"
  unfolding EncodeToString_def by (rule bytes_of_bytes) (drule b64_encode_props, simp)

lemma length_EncodeToString: "length (EncodeToString s) = EncodedLen (length s)"
  by (simp add: EncodeToString_def of_bytes_def length_b64_encode bytes_def)

lemma DecodeString_EncodeToString: "DecodeString (EncodeToString s) = Some s"
proof -
  have "filter (\<lambda>c. c \<noteq> 10 \<and> c \<noteq> 13) (b64_encode (bytes s)) = b64_encode (bytes s)"
    by (auto simp: filter_id_conv dest: b64_encode_props)
  moreover obtain vs where "all_values (b64_encode (bytes s)) = Some vs"
    and "b64_groups vs = Some (bytes s)"
    using b64_roundtrip [of "bytes s"] bytes_lt by blast
  ultimately show ?thesis by (simp add: DecodeString_def bytes_EncodeToString)
qed

subsection \<open>Escaping\<close>

definition escape_byte :: "nat \<Rightarrow> string" where
  "escape_byte b =
     (if b = 38 then ''&amp;'' else if b = 39 then ''&#39;'' else if b = 60 then ''&lt;''
      else if b = 62 then ''&gt;'' else if b = 34 then ''&#34;'' else [char_of b])"

definition EscapeString :: "string \<Rightarrow> string" where
  "EscapeString s = concat (map escape_byte (bytes s))"

lemma EscapeString_utf8:
  assumes "list_all (\<lambda>c. valid_rune c \<and> 0x80 \<le> c) cs"
  shows "EscapeString (utf8 cs) = utf8 cs"
proof -
  have v: "list_all valid_rune cs" using assms by (simp add: list_all_iff)
  have "escape_byte b = [char_of b]" if "b \<in> set (concat (map encode_rune cs))" for b
  proof -
    have "0x80 \<le> b" using that assms encode_rune_bounds(2) by (auto simp: list_all_iff)
    then show ?thesis by (simp add: escape_byte_def)
  qed
  moreover have "concat (map escape_byte bs) = map char_of bs" if "\<And>b. b \<in> set bs \<Longrightarrow> escape_byte b = [char_of b]" for bs
    using that by (induction bs) auto
  ultimately have "concat (map escape_byte (concat (map encode_rune cs))) = map char_of (concat (map encode_rune cs))" by blast
  then show ?thesis unfolding EscapeString_def bytes_utf8 [OF v] by (simp add: utf8_def of_bytes_def)
qed

definition hex_digit :: "nat \<Rightarrow> nat" where
  "hex_digit v = (if v < 10 then 48 + v else 55 + v)"

definition path_plain :: "nat \<Rightarrow> bool" where
  "path_plain b \<longleftrightarrow> (97 \<le> b \<and> b \<le> 122) \<or> (65 \<le> b \<and> b \<le> 90) \<or> (48 \<le> b \<and> b \<le> 57)
     \<or> b \<in> set [45, 95, 46, 126, 36, 38, 43, 58, 61, 64]"

definition PathEscape :: "string \<Rightarrow> string" where
  "PathEscape s =
     concat (map (\<lambda>b. if path_plain b then [char_of b]
       else of_bytes [37, hex_digit (b div 16), hex_digit (b mod 16)]) (bytes s))"

lemma EscapeString_safe:
  "set (bytes (EscapeString s)) \<inter> {34, 39, 60, 62} = {}"
proof -
  have "set (bytes (escape_byte b)) \<inter> {34, 39, 60, 62} = {}" if "b < 256" for b
    using that by (auto simp: escape_byte_def bytes_def)
  then show ?thesis using bytes_lt
    unfolding EscapeString_def by (fastforce simp: bytes_def map_concat)
qed

lemma path_plain_bytes:
  "b < 256 \<Longrightarrow>
     set (bytes (if path_plain b then [char_of b]
       else of_bytes [37, hex_digit (b div 16), hex_digit (b mod 16)])) \<inter> {47, 63, 35} = {}"
  by (auto simp: path_plain_def bytes_def of_bytes_def hex_digit_def split: if_splits)

lemma PathEscape_safe: "set (bytes (PathEscape s)) \<inter> {47, 63, 35} = {}"
  unfolding PathEscape_def using path_plain_bytes bytes_lt
  by (auto simp: bytes_def map_concat)

end
