(* ===== verification/Tokens.thy ===== *)
theory Tokens
  imports Validation Go_Encoding
begin

text \<open>
  \<^verbatim>\<open>internal/identity/token.go\<close>: typed random tokens of which the database only keeps a
  digest.  \<open>sha256\<close> is \<^verbatim>\<open>crypto/sha256.Sum256\<close> and the random bytes are those of
  \<^verbatim>\<open>crypto/rand\<close>; byte slices are strings.
\<close>

definition tokenEntropyBytes :: nat where
  "tokenEntropyBytes = 32"

definition Digest :: "(string \<Rightarrow> string) \<Rightarrow> string \<Rightarrow> string" where
  "Digest sha256 raw = sha256 raw"

definition NewToken :: "(string \<Rightarrow> string) \<Rightarrow> string \<Rightarrow> string \<Rightarrow> string \<times> string" where
  "NewToken sha256 random_bytes pre =
     (let raw = pre @ EncodeToString random_bytes in (raw, Digest sha256 raw))"

definition TokenDigest :: "(string \<Rightarrow> string) \<Rightarrow> string \<Rightarrow> string \<Rightarrow> goerr + string" where
  "TokenDigest sha256 raw pre =
     (if length raw \<noteq> length pre + EncodedLen tokenEntropyBytes \<or> \<not> HasPrefix raw pre
      then Inl (Sentinel ErrUnauthorized)
      else case DecodeString (drop (length pre) raw) of
        None \<Rightarrow> Inl (Sentinel ErrUnauthorized)
      | Some decoded \<Rightarrow>
          if length decoded \<noteq> tokenEntropyBytes then Inl (Sentinel ErrUnauthorized)
          else Inr (Digest sha256 raw))"

record Principal =
  Subject :: string
  SessionID :: string

lemma TokenDigest_ok:
  "TokenDigest sha raw pre = Inr h \<Longrightarrow>
     h = sha raw \<and> HasPrefix raw pre \<and> length raw = length pre + EncodedLen tokenEntropyBytes"
  by (auto simp: TokenDigest_def Digest_def split: if_splits option.splits)

lemma TokenDigest_err: "TokenDigest sha raw pre = Inl e \<Longrightarrow> e = Sentinel ErrUnauthorized"
  by (auto simp: TokenDigest_def split: if_splits option.splits)

lemma TokenDigest_NewToken:
  "length rb = tokenEntropyBytes \<Longrightarrow>
     TokenDigest sha (fst (NewToken sha rb pre)) pre = Inr (snd (NewToken sha rb pre))"
  by (simp add: TokenDigest_def NewToken_def Let_def HasPrefix_def length_EncodeToString
      DecodeString_EncodeToString)

end
