(* ===== verification/Account_Model.thy ===== *)
theory Account_Model
  imports World Tokens
begin

text \<open>
  The domain of \<^verbatim>\<open>internal/modules/account\<close>: enumerations (string types with named constants),
  errors, records, the service's options and its dependencies.  \<^verbatim>\<open>Passwords\<close> and
  \<^verbatim>\<open>Federation\<close> are interfaces; an implementation is a record of functions that take the
  number of the call, so that it may answer differently each time and fail.
\<close>

subsection \<open>enums.go\<close>

definition UserPending :: string where
  "UserPending = ''pending''"

definition UserActive :: string where
  "UserActive = ''active''"

definition UserDisabled :: string where
  "UserDisabled = ''disabled''"

definition UserStatus_Valid :: "string \<Rightarrow> bool" where
  "UserStatus_Valid v \<longleftrightarrow> v \<in> {UserPending, UserActive, UserDisabled}"

definition RoleUser :: string where
  "RoleUser = ''user''"

definition RoleAdmin :: string where
  "RoleAdmin = ''admin''"

definition UserRole_Valid :: "string \<Rightarrow> bool" where
  "UserRole_Valid v \<longleftrightarrow> v \<in> {RoleUser, RoleAdmin}"

definition MethodPassword :: string where
  "MethodPassword = ''password''"

definition MethodOAuth :: string where
  "MethodOAuth = ''oauth''"

definition AuthMethod_Valid :: "string \<Rightarrow> bool" where
  "AuthMethod_Valid v \<longleftrightarrow> v \<in> {MethodPassword, MethodOAuth}"

definition FlowLogin :: string where
  "FlowLogin = ''login''"

definition FlowRegister :: string where
  "FlowRegister = ''register''"

definition FlowReauthenticate :: string where
  "FlowReauthenticate = ''reauthenticate''"

definition FlowLinkIdentity :: string where
  "FlowLinkIdentity = ''link_identity''"

definition FlowPurpose_Valid :: "string \<Rightarrow> bool" where
  "FlowPurpose_Valid v \<longleftrightarrow> v \<in> {FlowLogin, FlowRegister, FlowReauthenticate, FlowLinkIdentity}"

definition FlowPending :: string where
  "FlowPending = ''pending''"

definition FlowProcessing :: string where
  "FlowProcessing = ''processing''"

definition FlowVerified :: string where
  "FlowVerified = ''verified''"

definition FlowAuthorized :: string where
  "FlowAuthorized = ''authorized''"

definition FlowClaimed :: string where
  "FlowClaimed = ''claimed''"

definition FlowConsumed :: string where
  "FlowConsumed = ''consumed''"

definition FlowFailed :: string where
  "FlowFailed = ''failed''"

definition FlowStatus_Valid :: "string \<Rightarrow> bool" where
  "FlowStatus_Valid v \<longleftrightarrow> v \<in> {FlowPending, FlowProcessing, FlowVerified, FlowAuthorized, FlowClaimed, FlowConsumed, FlowFailed}"

definition VerifyRegister :: string where
  "VerifyRegister = ''register''"

definition VerifyResetPassword :: string where
  "VerifyResetPassword = ''reset_password''"

definition VerifyChangeEmail :: string where
  "VerifyChangeEmail = ''change_email''"

definition VerificationPurpose_Valid :: "string \<Rightarrow> bool" where
  "VerificationPurpose_Valid v \<longleftrightarrow> v \<in> {VerifyRegister, VerifyResetPassword, VerifyChangeEmail}"

definition OperationLinkAccount :: string where
  "OperationLinkAccount = ''link_account''"

definition OperationUnlinkAccount :: string where
  "OperationUnlinkAccount = ''unlink_account''"

definition OperationSetPassword :: string where
  "OperationSetPassword = ''set_password''"

definition OperationChangeEmail :: string where
  "OperationChangeEmail = ''change_email''"

definition Operation_Valid :: "string \<Rightarrow> bool" where
  "Operation_Valid v \<longleftrightarrow> v \<in> {OperationLinkAccount, OperationUnlinkAccount, OperationSetPassword, OperationChangeEmail}"

definition ResultSession :: string where
  "ResultSession = ''session''"

definition ResultRedirect :: string where
  "ResultRedirect = ''redirect''"

definition ResultReauthenticated :: string where
  "ResultReauthenticated = ''reauthenticated''"

definition ResultLinkPending :: string where
  "ResultLinkPending = ''link_pending''"

definition AuthResult_Valid :: "string \<Rightarrow> bool" where
  "AuthResult_Valid v \<longleftrightarrow> v \<in> {ResultSession, ResultRedirect, ResultReauthenticated, ResultLinkPending}"

definition AuditSuccess :: string where
  "AuditSuccess = ''success''"

definition AuditFailure :: string where
  "AuditFailure = ''failure''"

definition AuditDenied :: string where
  "AuditDenied = ''denied''"

definition AuditOutcome_Valid :: "string \<Rightarrow> bool" where
  "AuditOutcome_Valid v \<longleftrightarrow> v \<in> {AuditSuccess, AuditFailure, AuditDenied}"

definition ActorUser :: string where
  "ActorUser = ''user''"

definition ActorSystem :: string where
  "ActorSystem = ''system''"

definition ActorAnonymous :: string where
  "ActorAnonymous = ''anonymous''"

definition AuditActorType_Valid :: "string \<Rightarrow> bool" where
  "AuditActorType_Valid v \<longleftrightarrow> v \<in> {ActorUser, ActorSystem, ActorAnonymous}"

definition Settable :: "string \<Rightarrow> bool" where
  "Settable v \<longleftrightarrow> v = UserActive \<or> v = UserDisabled"

definition PublicStart :: "string \<Rightarrow> bool" where
  "PublicStart v \<longleftrightarrow> v = FlowLogin \<or> v = FlowRegister"

definition Initial :: "string \<Rightarrow> bool" where
  "Initial v \<longleftrightarrow> v = FlowPending \<or> v = FlowAuthorized"

definition Verifiable :: "string \<Rightarrow> bool" where
  "Verifiable v \<longleftrightarrow> v = FlowVerified \<or> v = FlowAuthorized"

definition CredentialProvider :: string where
  "CredentialProvider = ''credential''"

definition LocalNamespace :: string where
  "LocalNamespace = ''local''"

definition SecurityNotificationKind :: string where
  "SecurityNotificationKind = ''security_notification''"

lemmas status_defs = UserPending_def UserActive_def UserDisabled_def
lemmas flow_status_defs = FlowPending_def FlowProcessing_def FlowVerified_def FlowAuthorized_def
  FlowClaimed_def FlowConsumed_def FlowFailed_def
lemmas flow_purpose_defs = FlowLogin_def FlowRegister_def FlowReauthenticate_def FlowLinkIdentity_def
lemmas verify_purpose_defs = VerifyRegister_def VerifyResetPassword_def VerifyChangeEmail_def
lemmas provider_defs = CredentialProvider_def LocalNamespace_def

subsection \<open>model.go and errors.go\<close>

definition ErrVerification :: app_error where
  "ErrVerification = AppError Invalid ''verification_invalid''"

definition ErrFlow :: app_error where
  "ErrFlow = AppError Invalid ''flow_invalid''"

definition ErrReauthentication :: app_error where
  "ErrReauthentication = AppError Invalid ''reauthentication_invalid''"

definition ErrInvalid :: app_error where
  "ErrInvalid = AppError Invalid (utf8 [0x8ba4, 0x8bc1, 0x53c2, 0x6570, 0x65e0, 0x6548])"

definition ErrCredentials :: app_error where
  "ErrCredentials = AppError Unauthenticated
     (utf8 [0x767b, 0x5f55, 0x51ed, 0x636e, 0x6216, 0x9a8c, 0x8bc1, 0x8bc1, 0x660e, 0x65e0, 0x6548])"

definition ErrNotFound :: app_error where
  "ErrNotFound = AppError NotFound (utf8 [0x8d44, 0x6e90, 0x4e0d, 0x5b58, 0x5728])"

definition ErrConflict :: app_error where
  "ErrConflict = AppError Conflict
     (utf8 [0x8d26, 0x53f7, 0x6216, 0x90ae, 0x7bb1, 0x5df2, 0x88ab, 0x4f7f, 0x7528])"

definition ErrLastAccount :: app_error where
  "ErrLastAccount = AppError Conflict
     (utf8 [0x5fc5, 0x987b, 0x4fdd, 0x7559, 0x5e76, 0x9a8c, 0x8bc1, 0x81f3, 0x5c11, 0x4e00, 0x4e2a, 0x53ef, 0x7528, 0x767b, 0x5f55, 0x8d26, 0x53f7])"

definition ErrForbidden :: app_error where
  "ErrForbidden = AppError Forbidden
     (utf8 [0x65e0, 0x6743, 0x6267, 0x884c, 0x6b64, 0x64cd, 0x4f5c])"

definition ErrRateLimited :: app_error where
  "ErrRateLimited = AppError RateLimited
     (utf8 [0x8bf7, 0x6c42, 0x8fc7, 0x4e8e, 0x9891, 0x7e41, 0xff0c, 0x8bf7, 0x7a0d, 0x540e, 0x518d, 0x8bd5])"

definition ErrUnavailable :: app_error where
  "ErrUnavailable = AppError Unavailable
     (utf8 [0x8ba4, 0x8bc1, 0x4f9d, 0x8d56, 0x6682, 0x4e0d, 0x53ef, 0x7528])"

definition ErrRegistrationRequired :: app_error where
  "ErrRegistrationRequired = AppError Conflict ''registration_required''"

definition SessionPrefix :: string where
  "SessionPrefix = ''tk_''"

definition FlowPrefix :: string where
  "FlowPrefix = ''flow_''"

definition ChallengePrefix :: string where
  "ChallengePrefix = ''verify_''"

record Request =
  UserID :: string
  rq_SessionID :: string
  RequestID :: string
  ClientIP :: string

record UserRecord =
  ur_ID :: string
  ur_DisplayName :: string
  ur_Email :: "string option"
  ur_EmailVerified :: bool
  ur_Status :: string
  ur_Role :: string
  ur_CreatedAt :: time

record AccountRecord =
  ar_ID :: string
  ar_Provider :: string
  ar_CreatedAt :: time
  ar_LastUsedAt :: "time option"
  ar_Enabled :: bool

record Profile =
  pf_User :: UserRecord
  pf_Accounts :: "AccountRecord list"
  pf_SessionID :: string

record SessionRecord =
  sr_ID :: string
  sr_Method :: string
  sr_AuthenticatedAt :: time
  sr_CreatedAt :: time
  sr_LastSeenAt :: time
  sr_IdleExpiresAt :: time
  sr_AbsoluteExpiresAt :: time

record SessionCredentials =
  sc_Token :: string
  sc_ID :: string
  sc_IdleExpiresAt :: time
  sc_AbsoluteExpiresAt :: time

record FlowResult =
  fr_ID :: string
  fr_Token :: string
  fr_AuthorizationURL :: string
  fr_ExpiresAt :: time

record LinkConfirmation =
  lc_FlowID :: string
  lc_Provider :: string
  lc_Name :: string

text \<open>The results with their payload; a zero payload is read back only under its own tag.\<close>

datatype CallbackResult =
    sessionCallback SessionCredentials
  | reauthenticatedCallback string
  | linkPendingCallback LinkConfirmation

datatype ReauthenticationResult =
    redirectReauthentication FlowResult
  | completedReauthentication string

fun CallbackResult_Result :: "CallbackResult \<Rightarrow> string" where
  "CallbackResult_Result (sessionCallback s) = ResultSession"
| "CallbackResult_Result (reauthenticatedCallback i) = ResultReauthenticated"
| "CallbackResult_Result (linkPendingCallback l) = ResultLinkPending"

fun ReauthenticationResult_Result :: "ReauthenticationResult \<Rightarrow> string" where
  "ReauthenticationResult_Result (redirectReauthentication f) = ResultRedirect"
| "ReauthenticationResult_Result (completedReauthentication i) = ResultReauthenticated"

record VerifiedIdentity =
  vi_Namespace :: string
  vi_Subject :: string
  vi_Name :: string

record Reauthentication =
  ra_Method :: string
  ra_Operation :: string
  ra_Password :: string
  ra_Target :: string
  ra_AccountID :: string

record Verification =
  vf_Purpose :: string
  vf_NewPassword :: string

record Options =
  IdleTTL :: time
  MaxTTL :: time
  FrontendURL :: string

record Dependencies =
  d_RequireAdmin :: "string \<Rightarrow> string \<Rightarrow> unit act"
  d_Hash :: "nat \<Rightarrow> string \<Rightarrow> goerr + string"
  d_Verify :: "nat \<Rightarrow> string \<Rightarrow> string \<Rightarrow> goerr + bool \<times> bool"
  d_Validate :: "string \<Rightarrow> bool"
  d_Enabled :: "string \<Rightarrow> bool"
  d_Version :: "string \<Rightarrow> string"
  d_Start :: "nat \<Rightarrow> string \<Rightarrow> string \<Rightarrow> string \<Rightarrow> goerr + string \<times> string"
  d_VerifyIdentity :: "nat \<Rightarrow> string \<Rightarrow> string \<Rightarrow> string \<Rightarrow> string \<Rightarrow> goerr + VerifiedIdentity"

text \<open>
  A service: the environment it runs in, its options and dependencies, and
  \<^verbatim>\<open>net/url.Parse\<close> on the frontend address, giving scheme and authority as they are printed
  back and whether a bare \<^verbatim>\<open>?\<close> is kept.
\<close>

record Service =
  sv_env :: env
  sv_options :: Options
  sv_deps :: Dependencies
  sv_parse_url :: "string \<Rightarrow> (string \<times> bool) option"

text \<open>A call of a dependency draws a number.\<close>

definition call_dep :: "(nat \<Rightarrow> goerr + 'a) \<Rightarrow> 'a act" where
  "call_dep f w = (f (w_seed w), w\<lparr>w_seed := Suc (w_seed w)\<rparr>)"

lemma call_dep_ok [ok_iff]:
  "call_dep f w = (Inr a, w') \<longleftrightarrow> f (w_seed w) = Inr a \<and> w' = w\<lparr>w_seed := Suc (w_seed w)\<rparr>"
  by (auto simp: call_dep_def)

definition disabledFederation_Start :: "nat \<Rightarrow> string \<Rightarrow> string \<Rightarrow> string \<Rightarrow> goerr + string \<times> string" where
  "disabledFederation_Start n i state verifier = Inl (Business ErrUnavailable)"

definition disabledFederation_Verify ::
  "nat \<Rightarrow> string \<Rightarrow> string \<Rightarrow> string \<Rightarrow> string \<Rightarrow> goerr + VerifiedIdentity" where
  "disabledFederation_Verify n i version code verifier = Inl (Business ErrUnavailable)"

definition account_storageErrors :: ErrorPolicy where
  "account_storageErrors = \<lparr>Resource = ''account'', PolicyNotFound = Some ErrNotFound,
     UniqueConstraints = [(''users_email_normalized_key'', ErrConflict),
       (''accounts_provider_identity_key'', ErrConflict), (''accounts_namespace_identity_key'', ErrConflict),
       (''accounts_user_credential_key'', ErrConflict)]\<rparr>"

definition proofError :: "goerr \<Rightarrow> app_error \<Rightarrow> goerr" where
  "proofError err kind =
     (if errors_is err (Business ErrCredentials) then the (Wrap (Some kind) (Some err)) else err)"

definition credentialLookupError :: "goerr \<Rightarrow> goerr" where
  "credentialLookupError err =
     (if errors_is err (Sentinel ErrNoRows) then Business ErrCredentials else err)"

text \<open>\<open>on_error g m\<close>: the error of \<open>m\<close>, passed through \<open>g\<close>.\<close>

definition on_error :: "(goerr \<Rightarrow> goerr) \<Rightarrow> 'a act \<Rightarrow> 'a act" where
  "on_error g m = attempt m (\<lambda>r. case r of Inl e \<Rightarrow> fail (g e) | Inr a \<Rightarrow> ret a)"

lemma on_error_ok [ok_iff]: "on_error g m w = (Inr a, w') \<longleftrightarrow> m w = (Inr a, w')"
  by (cases "m w") (auto simp: on_error_def attempt_def ret_def fail_def split: sum.splits)

subsection \<open>validation.go and mapping.go\<close>

definition maxEmailBytes :: nat where
  "maxEmailBytes = 254"

definition maxDisplayNameRunes :: int where
  "maxDisplayNameRunes = 100"

definition maxProviderIDRunes :: int where
  "maxProviderIDRunes = 64"

definition maxProviderSubjectBytes :: nat where
  "maxProviderSubjectBytes = 1024"

definition maxProviderNamespaceBytes :: nat where
  "maxProviderNamespaceBytes = 2048"

definition normalizeEmail :: "env \<Rightarrow> string \<Rightarrow> goerr + string" where
  "normalizeEmail cx value0 =
     (let value = TrimSpace value0
      in if length value > maxEmailBytes \<or> \<not> Email (e_parse_address cx) value
         then Inl (Business ErrInvalid) else Inr (ToLower (e_unicode_lower cx) value))"

definition text_of :: "string option \<Rightarrow> string" where
  "text_of p = (case p of None \<Rightarrow> '''' | Some s \<Rightarrow> s)"

definition userRecord :: "user_row \<Rightarrow> UserRecord" where
  "userRecord u = \<lparr>ur_ID = u_ID u, ur_DisplayName = u_DisplayName u, ur_Email = u_Email u,
     ur_EmailVerified = (u_EmailVerifiedAt u \<noteq> None), ur_Status = u_Status u, ur_Role = u_Role u,
     ur_CreatedAt = u_CreatedAt u\<rparr>"

definition accountEnabled :: "Service \<Rightarrow> account_row \<Rightarrow> bool" where
  "accountEnabled s account \<longleftrightarrow>
     a_ProviderID account = CredentialProvider \<or> d_Enabled (sv_deps s) (a_ProviderID account)"

definition accountRecords :: "Service \<Rightarrow> account_row list \<Rightarrow> AccountRecord list" where
  "accountRecords s rows =
     map (\<lambda>a. \<lparr>ar_ID = a_ID a, ar_Provider = a_ProviderID a, ar_CreatedAt = a_CreatedAt a,
               ar_LastUsedAt = a_LastUsedAt a, ar_Enabled = accountEnabled s a\<rparr>) rows"

definition sessionRecord :: "session_row \<Rightarrow> SessionRecord" where
  "sessionRecord x = \<lparr>sr_ID = s_ID x, sr_Method = s_AuthMethod x, sr_AuthenticatedAt = s_AuthenticatedAt x,
     sr_CreatedAt = s_CreatedAt x, sr_LastSeenAt = s_LastSeenAt x, sr_IdleExpiresAt = s_IdleExpiresAt x,
     sr_AbsoluteExpiresAt = s_AbsoluteExpiresAt x\<rparr>"

definition Service_ok :: "Options \<Rightarrow> bool" where
  "Service_ok o' \<longleftrightarrow> \<not> (IdleTTL o' < minute \<or> MaxTTL o' < IdleTTL o')"

end
