(* ===== verification/Account_Queries.thy ===== *)
theory Account_Queries
  imports Account_Model
begin

text \<open>
  The statements of \<^verbatim>\<open>internal/db/sqlc\<close> on users, accounts, sessions, flows, verifications,
  audit events and rate limits, with the constraints of the migration: primary keys, unique indexes
  (the partial ones over unrevoked accounts) and foreign keys.  Each statement is atomic;
  \<^verbatim>\<open>FOR UPDATE\<close> does not change what is read.
\<close>

subsection \<open>users.sql.go\<close>

definition FindUserByEmail :: "string option \<Rightarrow> user_row stmt" where
  "FindUserByEmail email now d =
     (one (find (\<lambda>u. u_EmailNormalized u \<noteq> None \<and> u_EmailNormalized u = email) (users d)), d)"

definition GetUser :: "string \<Rightarrow> user_row stmt" where
  "GetUser i now d = (one (find (\<lambda>u. u_ID u = i) (users d)), d)"

definition LockUser :: "string \<Rightarrow> user_row stmt" where
  "LockUser i now d = (one (find (\<lambda>u. u_ID u = i) (users d)), d)"

definition new_user :: "string \<Rightarrow> time \<Rightarrow> user_row" where
  "new_user i now = \<lparr>u_ID = i, u_DisplayName = '''', u_Email = None, u_EmailNormalized = None,
     u_EmailVerifiedAt = None, u_RecoveryEnabled = False, u_Status = ''pending'', u_Role = ''user'',
     u_AuthVersion = 1, u_CreatedAt = now, u_UpdatedAt = now\<rparr>"

text \<open>The conflict on the e-mail returns the existing row, unchanged.\<close>

definition CreatePendingUser :: "string \<Rightarrow> string option \<Rightarrow> string option \<Rightarrow> user_row stmt" where
  "CreatePendingUser i email normalized now d =
     (case find (\<lambda>u. u_EmailNormalized u \<noteq> None \<and> u_EmailNormalized u = normalized) (users d) of
        Some u \<Rightarrow> (Inr u, d)
      | None \<Rightarrow>
          if list_ex (\<lambda>u. u_ID u = i) (users d) then (unique_violation ''users_pkey'', d)
          else (let row = (new_user i now)\<lparr>u_Email := email, u_EmailNormalized := normalized\<rparr>
                in (Inr row, d\<lparr>users := users d @ [row]\<rparr>)))"

definition CreateFederatedUser :: "string \<Rightarrow> string \<Rightarrow> user_row stmt" where
  "CreateFederatedUser i displayName now d =
     (if list_ex (\<lambda>u. u_ID u = i) (users d) then (unique_violation ''users_pkey'', d)
      else (let row = (new_user i now)\<lparr>u_DisplayName := displayName, u_Status := ''active''\<rparr>
            in (Inr row, d\<lparr>users := users d @ [row]\<rparr>)))"

text \<open>\<^verbatim>\<open>UPDATE users ... RETURNING *\<close> on the rows that satisfy the condition.\<close>

definition update_user :: "(user_row \<Rightarrow> bool) \<Rightarrow> (user_row \<Rightarrow> user_row) \<Rightarrow> db \<Rightarrow> (goerr + user_row) \<times> db" where
  "update_user p f d = (one (map_option f (find p (users d))), d\<lparr>users := update_where p f (users d)\<rparr>)"

definition ActivateUser :: "string \<Rightarrow> user_row stmt" where
  "ActivateUser i now d =
     update_user (\<lambda>u. u_ID u = i \<and> u_Status u = ''pending'')
       (\<lambda>u. u\<lparr>u_Status := ''active'', u_EmailVerifiedAt := Some now, u_RecoveryEnabled := True,
              u_UpdatedAt := now\<rparr>) d"

definition live_session :: "time \<Rightarrow> session_row \<Rightarrow> bool" where
  "live_session now s \<longleftrightarrow> s_RevokedAt s = None \<and> s_IdleExpiresAt s > now \<and> s_AbsoluteExpiresAt s > now"

definition UpdateUserProfile :: "string \<Rightarrow> string \<Rightarrow> string \<Rightarrow> user_row stmt" where
  "UpdateUserProfile displayName i sessionID now d =
     update_user (\<lambda>u. u_ID u = i \<and> u_Status u = ''active''
         \<and> list_ex (\<lambda>s. s_ID s = sessionID \<and> s_UserID s = u_ID u \<and> live_session now s
              \<and> s_AuthVersion s = u_AuthVersion u) (user_sessions d))
       (\<lambda>u. u\<lparr>u_DisplayName := displayName, u_UpdatedAt := now\<rparr>) d"

definition UpdateUserEmail :: "string \<Rightarrow> string option \<Rightarrow> string option \<Rightarrow> user_row stmt" where
  "UpdateUserEmail i email normalized now d =
     (let p = (\<lambda>u. u_ID u = i \<and> u_Status u = ''active'')
      in if list_ex p (users d)
            \<and> list_ex (\<lambda>u. \<not> p u \<and> u_EmailNormalized u \<noteq> None \<and> u_EmailNormalized u = normalized) (users d)
         then (unique_violation ''users_email_normalized_key'', d)
         else update_user p
           (\<lambda>u. u\<lparr>u_Email := email, u_EmailNormalized := normalized, u_EmailVerifiedAt := Some now,
                  u_RecoveryEnabled := True, u_AuthVersion := u_AuthVersion u + 1, u_UpdatedAt := now\<rparr>) d)"

definition ReleasePendingEmail :: "string option \<Rightarrow> unit stmt" where
  "ReleasePendingEmail email now d =
     (Inr (), d\<lparr>users := update_where
        (\<lambda>u. u_EmailNormalized u \<noteq> None \<and> u_EmailNormalized u = email \<and> u_Status u = ''pending''
             \<and> u_EmailVerifiedAt u = None \<and> \<not> u_RecoveryEnabled u
             \<and> \<not> list_ex (\<lambda>a. a_UserID a = u_ID u) (accounts d))
        (\<lambda>u. u\<lparr>u_Email := None, u_EmailNormalized := None, u_AuthVersion := u_AuthVersion u + 1,
               u_UpdatedAt := now\<rparr>) (users d)\<rparr>)"

definition BumpUserVersion :: "string \<Rightarrow> unit stmt" where
  "BumpUserVersion i now d =
     (Inr (), d\<lparr>users := update_where (\<lambda>u. u_ID u = i)
        (\<lambda>u. u\<lparr>u_AuthVersion := u_AuthVersion u + 1, u_UpdatedAt := now\<rparr>) (users d)\<rparr>)"

definition SetUserStatus :: "string \<Rightarrow> string \<Rightarrow> user_row stmt" where
  "SetUserStatus i status now d =
     update_user (\<lambda>u. u_ID u = i)
       (\<lambda>u. u\<lparr>u_Status := status, u_AuthVersion := u_AuthVersion u + 1, u_UpdatedAt := now\<rparr>) d"

definition user_before :: "(string \<Rightarrow> string \<Rightarrow> bool) \<Rightarrow> user_row \<Rightarrow> user_row \<Rightarrow> bool" where
  "user_before collate a b \<longleftrightarrow>
     u_CreatedAt b < u_CreatedAt a \<or> (u_CreatedAt a = u_CreatedAt b \<and> collate (u_ID b) (u_ID a))"

definition ListUsers :: "(string \<Rightarrow> string \<Rightarrow> bool) \<Rightarrow> int \<Rightarrow> int \<Rightarrow> user_row list stmt" where
  "ListUsers collate lim off now d = (Inr (limit_offset lim off (order_by (user_before collate) (users d))), d)"

text \<open>A session that its user's state and version still support.\<close>

definition session_valid :: "time \<Rightarrow> db \<Rightarrow> session_row \<Rightarrow> bool" where
  "session_valid now d s \<longleftrightarrow> live_session now s
     \<and> list_ex (\<lambda>u. u_ID u = s_UserID s \<and> u_Status u = ''active'' \<and> u_AuthVersion u = s_AuthVersion s) (users d)"

definition GetSessionUser :: "string \<Rightarrow> string \<Rightarrow> user_row stmt" where
  "GetSessionUser userID sessionID now d =
     (one (find (\<lambda>u. u_ID u = userID \<and> u_Status u = ''active''
         \<and> list_ex (\<lambda>s. s_ID s = sessionID \<and> s_UserID s = u_ID u \<and> s_AuthVersion s = u_AuthVersion u
              \<and> live_session now s) (user_sessions d)) (users d)), d)"

subsection \<open>accounts.sql.go\<close>

definition GetPasswordAccount :: "string \<Rightarrow> account_row stmt" where
  "GetPasswordAccount userID now d =
     (one (find (\<lambda>a. a_UserID a = userID \<and> a_ProviderID a = ''credential'' \<and> a_RevokedAt a = None) (accounts d)), d)"

definition FindProviderAccount :: "string \<Rightarrow> string \<Rightarrow> account_row stmt" where
  "FindProviderAccount namespace subject now d =
     (one (find (\<lambda>a. a_ProviderNamespace a = namespace \<and> a_ProviderAccountID a = subject
        \<and> a_RevokedAt a = None) (accounts d)), d)"

definition GetAccount :: "string \<Rightarrow> string \<Rightarrow> account_row stmt" where
  "GetAccount i userID now d =
     (one (find (\<lambda>a. a_ID a = i \<and> a_UserID a = userID \<and> a_RevokedAt a = None) (accounts d)), d)"

definition account_before :: "(string \<Rightarrow> string \<Rightarrow> bool) \<Rightarrow> account_row \<Rightarrow> account_row \<Rightarrow> bool" where
  "account_before collate a b \<longleftrightarrow>
     a_CreatedAt a < a_CreatedAt b \<or> (a_CreatedAt a = a_CreatedAt b \<and> collate (a_ID a) (a_ID b))"

definition ListAccounts :: "(string \<Rightarrow> string \<Rightarrow> bool) \<Rightarrow> string \<Rightarrow> account_row list stmt" where
  "ListAccounts collate userID now d =
     (Inr (order_by (account_before collate)
        (filter (\<lambda>a. a_UserID a = userID \<and> a_RevokedAt a = None) (accounts d))), d)"

record CreateAccountParams =
  ca_UserID :: string
  ca_ProviderID :: string
  ca_ProviderAccountID :: string
  ca_ProviderNamespace :: string
  ca_PasswordHash :: "string option"

definition CreateAccount :: "string \<Rightarrow> CreateAccountParams \<Rightarrow> account_row stmt" where
  "CreateAccount i p now d =
     (let live = filter (\<lambda>a. a_RevokedAt a = None) (accounts d)
      in if list_ex (\<lambda>a. a_ID a = i) (accounts d) then (unique_violation ''accounts_pkey'', d)
         else if list_ex (\<lambda>a. a_ProviderID a = ca_ProviderID p \<and> a_ProviderAccountID a = ca_ProviderAccountID p) live
         then (unique_violation ''accounts_provider_identity_key'', d)
         else if list_ex (\<lambda>a. a_ProviderNamespace a = ca_ProviderNamespace p
                \<and> a_ProviderAccountID a = ca_ProviderAccountID p) live
         then (unique_violation ''accounts_namespace_identity_key'', d)
         else if ca_ProviderID p = ''credential''
                \<and> list_ex (\<lambda>a. a_UserID a = ca_UserID p \<and> a_ProviderID a = ''credential'') live
         then (unique_violation ''accounts_user_credential_key'', d)
         else if \<not> list_ex (\<lambda>u. u_ID u = ca_UserID p) (users d) then (fk_violation ''accounts_user_id_fkey'', d)
         else (let row = \<lparr>a_ID = i, a_UserID = ca_UserID p, a_ProviderID = ca_ProviderID p,
                  a_ProviderAccountID = ca_ProviderAccountID p, a_ProviderNamespace = ca_ProviderNamespace p,
                  a_PasswordHash = ca_PasswordHash p, a_Version = 1, a_CreatedAt = now, a_UpdatedAt = now,
                  a_LastUsedAt = None, a_RevokedAt = None\<rparr>
               in (Inr row, d\<lparr>accounts := accounts d @ [row]\<rparr>)))"

definition update_account ::
  "(account_row \<Rightarrow> bool) \<Rightarrow> (account_row \<Rightarrow> account_row) \<Rightarrow> db \<Rightarrow> (goerr + int) \<times> db" where
  "update_account p f d =
     (Inr (int (count_where p (accounts d))), d\<lparr>accounts := update_where p f (accounts d)\<rparr>)"

definition ChangePassword :: "string \<Rightarrow> string \<Rightarrow> string option \<Rightarrow> int stmt" where
  "ChangePassword i userID passwordHash now d =
     update_account (\<lambda>a. a_ID a = i \<and> a_UserID a = userID \<and> a_ProviderID a = ''credential'' \<and> a_RevokedAt a = None)
       (\<lambda>a. a\<lparr>a_PasswordHash := passwordHash, a_Version := a_Version a + 1, a_UpdatedAt := now\<rparr>) d"

definition UpgradePasswordHash :: "string \<Rightarrow> string \<Rightarrow> string option \<Rightarrow> string option \<Rightarrow> unit stmt" where
  "UpgradePasswordHash i userID newHash oldHash now d =
     (case update_account (\<lambda>a. a_ID a = i \<and> a_UserID a = userID \<and> oldHash \<noteq> None \<and> a_PasswordHash a = oldHash
               \<and> a_RevokedAt a = None)
             (\<lambda>a. a\<lparr>a_PasswordHash := newHash, a_UpdatedAt := now\<rparr>) d of
        (_, d') \<Rightarrow> (Inr (), d'))"

definition RevokeAccount :: "string \<Rightarrow> string \<Rightarrow> int stmt" where
  "RevokeAccount i userID now d =
     update_account (\<lambda>a. a_ID a = i \<and> a_UserID a = userID \<and> a_RevokedAt a = None)
       (\<lambda>a. a\<lparr>a_RevokedAt := Some now, a_Version := a_Version a + 1, a_UpdatedAt := now\<rparr>) d"

definition TouchAccount :: "string \<Rightarrow> string \<Rightarrow> unit stmt" where
  "TouchAccount i userID now d =
     (case update_account (\<lambda>a. a_ID a = i \<and> a_UserID a = userID) (\<lambda>a. a\<lparr>a_LastUsedAt := Some now\<rparr>) d of
        (_, d') \<Rightarrow> (Inr (), d'))"

subsection \<open>user_sessions.sql.go\<close>

record CreateSessionParams =
  cs_UserID :: string
  cs_TokenHash :: string
  cs_AuthMethod :: string
  cs_AuthSourceID :: string
  cs_AuthVersion :: int
  cs_IdleSeconds :: int
  cs_MaxSeconds :: int

definition CreateSession :: "string \<Rightarrow> CreateSessionParams \<Rightarrow> session_row stmt" where
  "CreateSession i p now d =
     (if list_ex (\<lambda>s. s_ID s = i) (user_sessions d) then (unique_violation ''user_sessions_pkey'', d)
      else if list_ex (\<lambda>s. s_TokenHash s = cs_TokenHash p) (user_sessions d)
      then (unique_violation ''user_sessions_token_hash_key'', d)
      else if \<not> list_ex (\<lambda>u. u_ID u = cs_UserID p) (users d) then (fk_violation ''user_sessions_user_id_fkey'', d)
      else (let row = \<lparr>s_ID = i, s_UserID = cs_UserID p, s_TokenHash = cs_TokenHash p,
               s_AuthMethod = cs_AuthMethod p, s_AuthSourceID = cs_AuthSourceID p, s_AuthenticatedAt = now,
               s_AuthVersion = cs_AuthVersion p, s_CreatedAt = now, s_LastSeenAt = now,
               s_IdleExpiresAt = now + cs_IdleSeconds p * second,
               s_AbsoluteExpiresAt = now + cs_MaxSeconds p * second, s_RevokedAt = None\<rparr>
            in (Inr row, d\<lparr>user_sessions := user_sessions d @ [row]\<rparr>)))"

definition FindSession :: "string \<Rightarrow> session_row stmt" where
  "FindSession tokenHash now d =
     (one (find (\<lambda>s. s_TokenHash s = tokenHash \<and> session_valid now d s) (user_sessions d)), d)"

definition GetValidSession :: "string \<Rightarrow> string \<Rightarrow> session_row stmt" where
  "GetValidSession i userID now d =
     (one (find (\<lambda>s. s_ID s = i \<and> s_UserID s = userID \<and> session_valid now d s) (user_sessions d)), d)"

definition TouchSession :: "string \<Rightarrow> string \<Rightarrow> int \<Rightarrow> int \<Rightarrow> unit stmt" where
  "TouchSession i userID idleSeconds renewalMilliseconds now d =
     (Inr (), d\<lparr>user_sessions := update_where
        (\<lambda>s. s_ID s = i \<and> s_UserID s = userID \<and> s_LastSeenAt s \<le> now - renewalMilliseconds * millisecond
             \<and> session_valid now d s)
        (\<lambda>s. s\<lparr>s_LastSeenAt := now, s_IdleExpiresAt := min (s_AbsoluteExpiresAt s) (now + idleSeconds * second)\<rparr>)
        (user_sessions d)\<rparr>)"

definition session_before :: "(string \<Rightarrow> string \<Rightarrow> bool) \<Rightarrow> session_row \<Rightarrow> session_row \<Rightarrow> bool" where
  "session_before collate a b \<longleftrightarrow>
     s_CreatedAt b < s_CreatedAt a \<or> (s_CreatedAt a = s_CreatedAt b \<and> collate (s_ID b) (s_ID a))"

definition ListSessions :: "(string \<Rightarrow> string \<Rightarrow> bool) \<Rightarrow> string \<Rightarrow> int \<Rightarrow> int \<Rightarrow> session_row list stmt" where
  "ListSessions collate userID lim off now d =
     (Inr (limit_offset lim off (order_by (session_before collate)
        (filter (\<lambda>s. s_UserID s = userID \<and> live_session now s
           \<and> list_ex (\<lambda>u. u_ID u = s_UserID s \<and> s_AuthVersion s = u_AuthVersion u) (users d))
          (user_sessions d)))), d)"

definition RevokeSession :: "string \<Rightarrow> string \<Rightarrow> int stmt" where
  "RevokeSession i userID now d =
     (let p = (\<lambda>s. s_ID s = i \<and> s_UserID s = userID)
      in (Inr (int (count_where p (user_sessions d))),
          d\<lparr>user_sessions := update_where p
             (\<lambda>s. s\<lparr>s_RevokedAt := Some (case s_RevokedAt s of None \<Rightarrow> now | Some t \<Rightarrow> t)\<rparr>) (user_sessions d)\<rparr>))"

definition RevokeUserSessions :: "string \<Rightarrow> unit stmt" where
  "RevokeUserSessions userID now d =
     (Inr (), d\<lparr>user_sessions := update_where (\<lambda>s. s_UserID s = userID \<and> s_RevokedAt s = None)
        (\<lambda>s. s\<lparr>s_RevokedAt := Some now\<rparr>) (user_sessions d)\<rparr>)"

subsection \<open>auth_flows.sql.go\<close>

record CreateFlowParams =
  cf_ID :: string
  cf_Purpose :: string
  cf_TokenHash :: "string option"
  cf_ProviderID :: string
  cf_ConfigVersion :: string
  cf_UserID :: "string option"
  cf_SessionID :: "string option"
  cf_AuthVersion :: int
  cf_AccountID :: "string option"
  cf_AccountVersion :: int
  cf_Operation :: string
  cf_Target :: string
  cf_ReauthenticationID :: "string option"
  cf_StateHash :: "string option"
  cf_ProtocolState :: "string option"
  cf_Status :: string
  cf_AuthenticatedAt :: "time option"

definition CreateFlow :: "CreateFlowParams \<Rightarrow> flow_row stmt" where
  "CreateFlow p now d =
     (if list_ex (\<lambda>f. f_ID f = cf_ID p) (auth_flows d) then (unique_violation ''auth_flows_pkey'', d)
      else if cf_TokenHash p \<noteq> None \<and> list_ex (\<lambda>f. f_TokenHash f = cf_TokenHash p) (auth_flows d)
      then (unique_violation ''auth_flows_token_hash_key'', d)
      else if cf_UserID p \<noteq> None \<and> \<not> list_ex (\<lambda>u. Some (u_ID u) = cf_UserID p) (users d)
      then (fk_violation ''auth_flows_user_id_fkey'', d)
      else if cf_SessionID p \<noteq> None \<and> \<not> list_ex (\<lambda>s. Some (s_ID s) = cf_SessionID p) (user_sessions d)
      then (fk_violation ''auth_flows_session_id_fkey'', d)
      else (let row = \<lparr>f_ID = cf_ID p, f_Purpose = cf_Purpose p, f_TokenHash = cf_TokenHash p,
               f_ProviderID = cf_ProviderID p, f_ConfigVersion = cf_ConfigVersion p, f_UserID = cf_UserID p,
               f_SessionID = cf_SessionID p, f_AuthVersion = cf_AuthVersion p, f_AccountID = cf_AccountID p,
               f_AccountVersion = cf_AccountVersion p, f_Operation = cf_Operation p, f_Target = cf_Target p,
               f_ReauthenticationID = cf_ReauthenticationID p, f_ClaimedBy = None,
               f_StateHash = cf_StateHash p, f_ProtocolState = cf_ProtocolState p, f_VerifiedNamespace = '''',
               f_VerifiedSubject = '''', f_VerifiedName = '''', f_AuthenticatedAt = cf_AuthenticatedAt p,
               f_Status = cf_Status p, f_CreatedAt = now, f_ExpiresAt = now + 5 * minute\<rparr>
            in (Inr row, d\<lparr>auth_flows := auth_flows d @ [row]\<rparr>)))"

definition FindFlow :: "string \<Rightarrow> flow_row stmt" where
  "FindFlow tokenHash now d =
     (one (find (\<lambda>f. f_TokenHash f = Some tokenHash \<and> f_ExpiresAt f > now) (auth_flows d)), d)"

definition GetFlow :: "string \<Rightarrow> flow_row stmt" where
  "GetFlow i now d = (one (find (\<lambda>f. f_ID f = i \<and> f_ExpiresAt f > now) (auth_flows d)), d)"

definition update_flow :: "(flow_row \<Rightarrow> bool) \<Rightarrow> (flow_row \<Rightarrow> flow_row) \<Rightarrow> db \<Rightarrow> (goerr + int) \<times> db" where
  "update_flow p f d =
     (Inr (int (count_where p (auth_flows d))), d\<lparr>auth_flows := update_where p f (auth_flows d)\<rparr>)"

definition ClaimFlow :: "string \<Rightarrow> int stmt" where
  "ClaimFlow i now d =
     update_flow (\<lambda>f. f_ID f = i \<and> f_Status f = ''pending'' \<and> f_ExpiresAt f > now)
       (\<lambda>f. f\<lparr>f_Status := ''processing''\<rparr>) d"

definition VerifyFlow ::
  "string \<Rightarrow> string \<Rightarrow> string \<Rightarrow> string \<Rightarrow> string \<Rightarrow> time option \<Rightarrow> int stmt" where
  "VerifyFlow i status namespace subject name authenticatedAt now d =
     update_flow (\<lambda>f. f_ID f = i \<and> f_Status f = ''processing'' \<and> f_ExpiresAt f > now)
       (\<lambda>f. f\<lparr>f_Status := status, f_VerifiedNamespace := namespace, f_VerifiedSubject := subject,
              f_VerifiedName := name, f_AuthenticatedAt := authenticatedAt, f_ProtocolState := None\<rparr>) d"

definition FinishFlow :: "string \<Rightarrow> string \<Rightarrow> int stmt" where
  "FinishFlow i status now d =
     update_flow (\<lambda>f. f_ID f = i \<and> f_Status f = status \<and> f_ExpiresAt f > now)
       (\<lambda>f. f\<lparr>f_Status := ''consumed'', f_ProtocolState := None\<rparr>) d"

definition FailFlow :: "string \<Rightarrow> unit stmt" where
  "FailFlow i now d =
     (case update_flow (\<lambda>f. f_ID f = i \<and> (f_Status f = ''pending'' \<or> f_Status f = ''processing''))
             (\<lambda>f. f\<lparr>f_Status := ''failed'', f_ProtocolState := None\<rparr>) d of
        (_, d') \<Rightarrow> (Inr (), d'))"

definition ClaimAuthorization :: "string \<Rightarrow> string option \<Rightarrow> int stmt" where
  "ClaimAuthorization i claimedBy now d =
     update_flow (\<lambda>f. f_ID f = i \<and> f_Status f = ''authorized'' \<and> f_ExpiresAt f > now)
       (\<lambda>f. f\<lparr>f_Status := ''claimed'', f_ClaimedBy := claimedBy\<rparr>) d"

subsection \<open>auth_verifications.sql.go\<close>

record CreateVerificationParams =
  cv_UserID :: string
  cv_Purpose :: string
  cv_TokenHash :: string
  cv_Email :: string
  cv_AuthVersion :: int
  cv_SessionID :: "string option"
  cv_ReauthenticationID :: "string option"
  cv_TtlSeconds :: int

definition CreateVerification :: "string \<Rightarrow> CreateVerificationParams \<Rightarrow> verification_row stmt" where
  "CreateVerification i p now d =
     (if list_ex (\<lambda>v. v_ID v = i) (auth_verifications d) then (unique_violation ''auth_verifications_pkey'', d)
      else if list_ex (\<lambda>v. v_TokenHash v = cv_TokenHash p) (auth_verifications d)
      then (unique_violation ''auth_verifications_token_hash_key'', d)
      else if \<not> list_ex (\<lambda>u. u_ID u = cv_UserID p) (users d)
      then (fk_violation ''auth_verifications_user_id_fkey'', d)
      else (let row = \<lparr>v_ID = i, v_UserID = cv_UserID p, v_Purpose = cv_Purpose p,
               v_TokenHash = cv_TokenHash p, v_Email = cv_Email p, v_AuthVersion = cv_AuthVersion p,
               v_SessionID = cv_SessionID p, v_ReauthenticationID = cv_ReauthenticationID p,
               v_CreatedAt = now, v_ExpiresAt = now + cv_TtlSeconds p * second, v_ConsumedAt = None\<rparr>
            in (Inr row, d\<lparr>auth_verifications := auth_verifications d @ [row]\<rparr>)))"

definition FindVerification :: "string \<Rightarrow> verification_row stmt" where
  "FindVerification tokenHash now d =
     (one (find (\<lambda>v. v_TokenHash v = tokenHash \<and> v_ConsumedAt v = None \<and> v_ExpiresAt v > now)
        (auth_verifications d)), d)"

definition ConsumeVerification :: "string \<Rightarrow> string \<Rightarrow> int stmt" where
  "ConsumeVerification i userID now d =
     (let p = (\<lambda>v. v_ID v = i \<and> v_UserID v = userID \<and> v_ConsumedAt v = None \<and> v_ExpiresAt v > now)
      in (Inr (int (count_where p (auth_verifications d))),
          d\<lparr>auth_verifications := update_where p (\<lambda>v. v\<lparr>v_ConsumedAt := Some now\<rparr>) (auth_verifications d)\<rparr>))"

subsection \<open>audit_events.sql.go and auth_rate_limits.sql.go\<close>

record AppendAuditParams =
  aa_Action :: string
  aa_Outcome :: string
  aa_ActorType :: string
  aa_ActorID :: "string option"
  aa_ResourceType :: string
  aa_ResourceID :: "string option"
  aa_ScopeSubject :: "string option"
  aa_SessionID :: "string option"
  aa_RequestID :: "string option"
  aa_ReasonCode :: "string option"
  aa_Metadata :: string

definition AppendAudit :: "string \<Rightarrow> AppendAuditParams \<Rightarrow> unit stmt" where
  "AppendAudit i p now d =
     (if list_ex (\<lambda>e. au_ID e = i) (audit_events d) then (unique_violation ''audit_events_pkey'', d)
      else (Inr (), d\<lparr>audit_events := audit_events d @
        [\<lparr>au_ID = i, au_OccurredAt = now, au_Action = aa_Action p, au_Outcome = aa_Outcome p,
          au_ActorType = aa_ActorType p, au_ActorID = aa_ActorID p, au_ResourceType = aa_ResourceType p,
          au_ResourceID = aa_ResourceID p, au_ScopeSubject = aa_ScopeSubject p, au_SessionID = aa_SessionID p,
          au_RequestID = aa_RequestID p, au_ReasonCode = aa_ReasonCode p, au_SchemaVersion = 1,
          au_Metadata = aa_Metadata p\<rparr>]\<rparr>))"

definition rate_hit :: "int \<Rightarrow> time \<Rightarrow> rate_row \<Rightarrow> rate_row" where
  "rate_hit windowSeconds now r =
     r\<lparr>r_Count := (if r_ExpiresAt r \<le> now then 1 else min (r_Count r + 1) 1000000),
       r_ExpiresAt := (if r_ExpiresAt r \<le> now then now + windowSeconds * second else r_ExpiresAt r)\<rparr>"

definition retry_after_seconds :: "time \<Rightarrow> rate_row \<Rightarrow> int" where
  "retry_after_seconds now r = max 1 (- ((- (r_ExpiresAt r - now)) div second))"

definition RateLimit :: "string \<Rightarrow> int \<Rightarrow> (int \<times> int) stmt" where
  "RateLimit bucketKey windowSeconds now d =
     (case find (\<lambda>r. r_BucketKey r = bucketKey) (auth_rate_limits d) of
        None \<Rightarrow>
          (let row = \<lparr>r_BucketKey = bucketKey, r_Count = 1, r_ExpiresAt = now + windowSeconds * second\<rparr>
           in (Inr (r_Count row, retry_after_seconds now row),
               d\<lparr>auth_rate_limits := auth_rate_limits d @ [row]\<rparr>))
      | Some r \<Rightarrow>
          (let row = rate_hit windowSeconds now r
           in (Inr (r_Count row, retry_after_seconds now row),
               d\<lparr>auth_rate_limits := update_where (\<lambda>x. r_BucketKey x = bucketKey)
                    (rate_hit windowSeconds now) (auth_rate_limits d)\<rparr>)))"

lemmas read_stmt_defs = FindUserByEmail_def GetUser_def LockUser_def ListUsers_def GetSessionUser_def
  GetPasswordAccount_def FindProviderAccount_def GetAccount_def ListAccounts_def FindSession_def
  GetValidSession_def ListSessions_def FindFlow_def GetFlow_def FindVerification_def

lemma reads_keep [simp]:
  "snd (FindUserByEmail e t d) = d" "snd (GetUser i t d) = d" "snd (LockUser i t d) = d"
  "snd (ListUsers cl l off t d) = d" "snd (GetSessionUser i x t d) = d" "snd (GetPasswordAccount i t d) = d"
  "snd (FindProviderAccount i x t d) = d" "snd (GetAccount i x t d) = d" "snd (ListAccounts cl i t d) = d"
  "snd (FindSession i t d) = d" "snd (GetValidSession i x t d) = d" "snd (ListSessions cl i l off t d) = d"
  "snd (FindFlow i t d) = d" "snd (GetFlow i t d) = d" "snd (FindVerification i t d) = d"
  by (simp_all add: read_stmt_defs)

subsection \<open>What an insertion does\<close>

text \<open>An insertion appends the row it returns, or fails and changes nothing.\<close>

lemma list_ex_key: "list_ex (\<lambda>r. k r = v) rows \<longleftrightarrow> v \<in> k ` set rows"
  by (auto simp: list_ex_iff)

definition created_session :: "string \<Rightarrow> CreateSessionParams \<Rightarrow> time \<Rightarrow> session_row \<Rightarrow> bool" where
  "created_session i p now row \<longleftrightarrow> s_ID row = i \<and> s_UserID row = cs_UserID p \<and> s_TokenHash row = cs_TokenHash p
     \<and> s_AuthMethod row = cs_AuthMethod p \<and> s_AuthSourceID row = cs_AuthSourceID p
     \<and> s_AuthVersion row = cs_AuthVersion p \<and> s_LastSeenAt row = now
     \<and> s_IdleExpiresAt row = now + cs_IdleSeconds p * second
     \<and> s_AbsoluteExpiresAt row = now + cs_MaxSeconds p * second \<and> s_RevokedAt row = None"

lemma CreateSession_snd:
  "snd (CreateSession i p now d) =
     (case fst (CreateSession i p now d) of Inl _ \<Rightarrow> d | Inr row \<Rightarrow> d\<lparr>user_sessions := user_sessions d @ [row]\<rparr>)"
  by (simp add: CreateSession_def Let_def unique_violation_def fk_violation_def)

lemma CreateSession_fst:
  "fst (CreateSession i p now d) = Inr row \<Longrightarrow>
     created_session i p now row \<and> i \<notin> s_ID ` set (user_sessions d)
     \<and> cs_TokenHash p \<notin> s_TokenHash ` set (user_sessions d) \<and> cs_UserID p \<in> u_ID ` set (users d)"
  by (auto simp: CreateSession_def created_session_def Let_def list_ex_key split: if_splits)

definition created_flow :: "CreateFlowParams \<Rightarrow> time \<Rightarrow> flow_row \<Rightarrow> bool" where
  "created_flow p now row \<longleftrightarrow> f_ID row = cf_ID p \<and> f_Purpose row = cf_Purpose p \<and> f_TokenHash row = cf_TokenHash p
     \<and> f_ProviderID row = cf_ProviderID p \<and> f_ConfigVersion row = cf_ConfigVersion p
     \<and> f_UserID row = cf_UserID p \<and> f_SessionID row = cf_SessionID p \<and> f_AuthVersion row = cf_AuthVersion p
     \<and> f_AccountID row = cf_AccountID p \<and> f_AccountVersion row = cf_AccountVersion p
     \<and> f_Operation row = cf_Operation p \<and> f_Target row = cf_Target p
     \<and> f_ReauthenticationID row = cf_ReauthenticationID p \<and> f_ClaimedBy row = None
     \<and> f_StateHash row = cf_StateHash p \<and> f_ProtocolState row = cf_ProtocolState p
     \<and> f_Status row = cf_Status p \<and> f_ExpiresAt row = now + 5 * minute"

lemma CreateFlow_snd:
  "snd (CreateFlow p now d) =
     (case fst (CreateFlow p now d) of Inl _ \<Rightarrow> d | Inr row \<Rightarrow> d\<lparr>auth_flows := auth_flows d @ [row]\<rparr>)"
  by (simp add: CreateFlow_def Let_def unique_violation_def fk_violation_def)

lemma CreateFlow_fst:
  "fst (CreateFlow p now d) = Inr row \<Longrightarrow>
     created_flow p now row \<and> cf_ID p \<notin> f_ID ` set (auth_flows d)
     \<and> (\<forall>h. cf_TokenHash p = Some h \<longrightarrow> Some h \<notin> f_TokenHash ` set (auth_flows d))"
  by (auto simp: CreateFlow_def created_flow_def Let_def list_ex_key split: if_splits)

lemma CreateVerification_snd:
  "snd (CreateVerification i p now d) =
     (case fst (CreateVerification i p now d) of
        Inl _ \<Rightarrow> d | Inr row \<Rightarrow> d\<lparr>auth_verifications := auth_verifications d @ [row]\<rparr>)"
  by (simp add: CreateVerification_def Let_def unique_violation_def fk_violation_def)

lemma CreateVerification_fst:
  "fst (CreateVerification i p now d) = Inr row \<Longrightarrow>
     v_ID row = i \<and> v_UserID row = cv_UserID p \<and> v_Purpose row = cv_Purpose p \<and> v_TokenHash row = cv_TokenHash p
     \<and> v_Email row = cv_Email p \<and> v_AuthVersion row = cv_AuthVersion p \<and> v_SessionID row = cv_SessionID p
     \<and> v_ReauthenticationID row = cv_ReauthenticationID p \<and> v_ConsumedAt row = None
     \<and> v_ExpiresAt row = now + cv_TtlSeconds p * second
     \<and> i \<notin> v_ID ` set (auth_verifications d) \<and> cv_TokenHash p \<notin> v_TokenHash ` set (auth_verifications d)
     \<and> cv_UserID p \<in> u_ID ` set (users d)"
  by (auto simp: CreateVerification_def Let_def list_ex_key split: if_splits)

definition created_account :: "string \<Rightarrow> CreateAccountParams \<Rightarrow> account_row \<Rightarrow> bool" where
  "created_account i p row \<longleftrightarrow> a_ID row = i \<and> a_UserID row = ca_UserID p \<and> a_ProviderID row = ca_ProviderID p
     \<and> a_ProviderAccountID row = ca_ProviderAccountID p \<and> a_ProviderNamespace row = ca_ProviderNamespace p
     \<and> a_PasswordHash row = ca_PasswordHash p \<and> a_Version row = 1 \<and> a_RevokedAt row = None"

lemma CreateAccount_snd:
  "snd (CreateAccount i p now d) =
     (case fst (CreateAccount i p now d) of Inl _ \<Rightarrow> d | Inr row \<Rightarrow> d\<lparr>accounts := accounts d @ [row]\<rparr>)"
  by (simp add: CreateAccount_def Let_def unique_violation_def fk_violation_def)

lemma CreateAccount_fst:
  "fst (CreateAccount i p now d) = Inr row \<Longrightarrow>
     created_account i p row \<and> i \<notin> a_ID ` set (accounts d) \<and> ca_UserID p \<in> u_ID ` set (users d)
     \<and> (\<forall>x \<in> set (accounts d). a_RevokedAt x = None \<longrightarrow>
          \<not> (a_ProviderID x = ca_ProviderID p \<and> a_ProviderAccountID x = ca_ProviderAccountID p)
          \<and> \<not> (a_ProviderNamespace x = ca_ProviderNamespace p \<and> a_ProviderAccountID x = ca_ProviderAccountID p)
          \<and> \<not> (ca_ProviderID p = ''credential'' \<and> a_UserID x = ca_UserID p \<and> a_ProviderID x = ''credential''))"
  by (auto simp: CreateAccount_def created_account_def Let_def list_ex_key list_ex_iff [of _ "filter p xs" for p xs] split: if_splits)

end
