(* ===== verification/Account_Store.thy ===== *)
theory Account_Store
  imports Account_Queries Mail_Outbox
begin

text \<open>
  \<^verbatim>\<open>store.go\<close> and \<^verbatim>\<open>store_flows.go\<close>: the module's writes, with their field checks, over a
  connection \<open>q\<close> (the pool or a transaction).  The audit metadata is passed as the value
  that \<^verbatim>\<open>audit\<close> marshals, so that it is one JSON object by construction.
\<close>

definition maxAuditActionRunes :: int where
  "maxAuditActionRunes = 100"

definition maxAuditMetadataBytes :: nat where
  "maxAuditMetadataBytes = push_bit 10 8"

definition maxMailKindBytes :: nat where
  "maxMailKindBytes = 64"

definition maxMailSubjectBytes :: nat where
  "maxMailSubjectBytes = 998"

definition maxMailBodyBytes :: nat where
  "maxMailBodyBytes = push_bit 10 64"

definition sha256_Size :: nat where
  "sha256_Size = 32"

definition validBytes :: "string \<Rightarrow> nat \<Rightarrow> bool" where
  "validBytes value mx \<longleftrightarrow> value \<noteq> '''' \<and> length value \<le> mx \<and> ValidString value \<and> \<not> ContainsByte value 0"

definition validEmailPair :: "env \<Rightarrow> string option \<Rightarrow> string option \<Rightarrow> bool" where
  "validEmailPair cx email normalized =
     (case (email, normalized) of
        (Some e, Some n) \<Rightarrow>
          (case normalizeEmail cx e of
             Inl _ \<Rightarrow> False
           | Inr value \<Rightarrow> value = n \<and> e = TrimSpace e)
      | _ \<Rightarrow> False)"

definition validOptionalIdentifier :: "string option list \<Rightarrow> bool" where
  "validOptionalIdentifier values \<longleftrightarrow>
     list_all (\<lambda>v. case v of None \<Rightarrow> True | Some i \<Rightarrow> Identifier i) values"

subsection \<open>Users\<close>

definition store_CreatePendingUser :: "env \<Rightarrow> conn \<Rightarrow> string option \<Rightarrow> string option \<Rightarrow> user_row act" where
  "store_CreatePendingUser cx q email normalized =
     bindA (require (validEmailPair cx email normalized) (Business ErrInvalid)) (\<lambda>_.
     bindA (NewID cx) (\<lambda>i.
     query cx q (CreatePendingUser i email normalized)))"

definition store_CreateFederatedUser :: "env \<Rightarrow> conn \<Rightarrow> string \<Rightarrow> user_row act" where
  "store_CreateFederatedUser cx q name =
     bindA (require (TextWithin name maxDisplayNameRunes) (Business ErrInvalid)) (\<lambda>_.
     bindA (NewID cx) (\<lambda>i.
     query cx q (CreateFederatedUser i name)))"

definition store_ActivateUser :: "env \<Rightarrow> conn \<Rightarrow> string \<Rightarrow> user_row act" where
  "store_ActivateUser cx q i =
     bindA (query cx q (GetUser i)) (\<lambda>u.
     bindA (require (validEmailPair cx (u_Email u) (u_EmailNormalized u)) (Business ErrInvalid)) (\<lambda>_.
     query cx q (ActivateUser i)))"

definition store_UpdateUserEmail :: "env \<Rightarrow> conn \<Rightarrow> string \<Rightarrow> string option \<Rightarrow> string option \<Rightarrow> user_row act" where
  "store_UpdateUserEmail cx q i email normalized =
     bindA (require (validEmailPair cx email normalized) (Business ErrInvalid)) (\<lambda>_.
     query cx q (UpdateUserEmail i email normalized))"

definition store_ReleasePendingEmail :: "env \<Rightarrow> conn \<Rightarrow> string \<Rightarrow> unit act" where
  "store_ReleasePendingEmail cx q email =
     bindA (require (normalizeEmail cx email = Inr email) (Business ErrInvalid)) (\<lambda>_.
     query cx q (ReleasePendingEmail (Some email)))"

definition store_UpdateUserProfile :: "env \<Rightarrow> conn \<Rightarrow> string \<Rightarrow> string \<Rightarrow> string \<Rightarrow> user_row act" where
  "store_UpdateUserProfile cx q displayName i sessionID =
     bindA (require (TextWithin displayName maxDisplayNameRunes) (Business ErrInvalid)) (\<lambda>_.
     query cx q (UpdateUserProfile displayName i sessionID))"

definition store_SetUserStatus :: "env \<Rightarrow> conn \<Rightarrow> string \<Rightarrow> string \<Rightarrow> user_row act" where
  "store_SetUserStatus cx q i status =
     bindA (require (Settable status) (Business ErrInvalid)) (\<lambda>_.
     query cx q (SetUserStatus i status))"

definition store_BumpUserVersion :: "env \<Rightarrow> conn \<Rightarrow> string \<Rightarrow> unit act" where
  "store_BumpUserVersion cx q i = query cx q (BumpUserVersion i)"

subsection \<open>Accounts\<close>

definition valid_account :: "CreateAccountParams \<Rightarrow> bool" where
  "valid_account p \<longleftrightarrow>
     Identifier (ca_UserID p) \<and> ca_ProviderID p \<noteq> '''' \<and> TextWithin (ca_ProviderID p) maxProviderIDRunes
     \<and> validBytes (ca_ProviderAccountID p) maxProviderSubjectBytes
     \<and> validBytes (ca_ProviderNamespace p) maxProviderNamespaceBytes
     \<and> (if ca_ProviderID p = CredentialProvider
        then ca_ProviderNamespace p = LocalNamespace \<and> ca_ProviderAccountID p = ca_UserID p
          \<and> (case ca_PasswordHash p of None \<Rightarrow> False | Some h \<Rightarrow> h \<noteq> '''')
        else ca_ProviderNamespace p \<noteq> LocalNamespace \<and> ca_PasswordHash p = None)"

definition store_CreateAccount :: "env \<Rightarrow> conn \<Rightarrow> CreateAccountParams \<Rightarrow> account_row act" where
  "store_CreateAccount cx q p =
     bindA (require (valid_account p) (Business ErrInvalid)) (\<lambda>_.
     bindA (NewID cx) (\<lambda>i.
     query cx q (CreateAccount i p)))"

definition store_ChangePassword :: "env \<Rightarrow> conn \<Rightarrow> string \<Rightarrow> string \<Rightarrow> string option \<Rightarrow> int act" where
  "store_ChangePassword cx q i userID passwordHash =
     bindA (require (passwordHash \<noteq> None \<and> passwordHash \<noteq> Some '''') (Business ErrInvalid)) (\<lambda>_.
     query cx q (ChangePassword i userID passwordHash))"

definition store_UpgradePasswordHash ::
  "env \<Rightarrow> conn \<Rightarrow> string \<Rightarrow> string \<Rightarrow> string option \<Rightarrow> string option \<Rightarrow> unit act" where
  "store_UpgradePasswordHash cx q i userID newHash oldHash =
     bindA (require (newHash \<noteq> None \<and> newHash \<noteq> Some '''') (Business ErrInvalid)) (\<lambda>_.
     bindA (query cx q (GetAccount i userID)) (\<lambda>a.
     bindA (require (a_ProviderID a = CredentialProvider) (Business ErrInvalid)) (\<lambda>_.
     query cx q (UpgradePasswordHash i userID newHash oldHash))))"

definition store_RevokeAccount :: "env \<Rightarrow> conn \<Rightarrow> string \<Rightarrow> string \<Rightarrow> int act" where
  "store_RevokeAccount cx q i userID = query cx q (RevokeAccount i userID)"

definition store_TouchAccount :: "env \<Rightarrow> conn \<Rightarrow> string \<Rightarrow> string \<Rightarrow> unit act" where
  "store_TouchAccount cx q i userID = query cx q (TouchAccount i userID)"

subsection \<open>Sessions\<close>

definition valid_new_session :: "CreateSessionParams \<Rightarrow> bool" where
  "valid_new_session p \<longleftrightarrow>
     Identifier (cs_UserID p) \<and> Identifier (cs_AuthSourceID p) \<and> length (cs_TokenHash p) = sha256_Size
     \<and> AuthMethod_Valid (cs_AuthMethod p) \<and> cs_AuthVersion p > 0 \<and> cs_IdleSeconds p > 0
     \<and> cs_MaxSeconds p \<ge> cs_IdleSeconds p"

definition store_CreateSession :: "env \<Rightarrow> conn \<Rightarrow> CreateSessionParams \<Rightarrow> session_row act" where
  "store_CreateSession cx q p =
     bindA (require (valid_new_session p) (Business ErrInvalid)) (\<lambda>_.
     bindA (NewID cx) (\<lambda>i.
     query cx q (CreateSession i p)))"

definition store_RevokeSession :: "env \<Rightarrow> conn \<Rightarrow> string \<Rightarrow> string \<Rightarrow> int act" where
  "store_RevokeSession cx q i userID = query cx q (RevokeSession i userID)"

definition store_RevokeUserSessions :: "env \<Rightarrow> conn \<Rightarrow> string \<Rightarrow> unit act" where
  "store_RevokeUserSessions cx q userID = query cx q (RevokeUserSessions userID)"

definition store_TouchSession :: "env \<Rightarrow> conn \<Rightarrow> string \<Rightarrow> string \<Rightarrow> int \<Rightarrow> int \<Rightarrow> unit act" where
  "store_TouchSession cx q i userID idleSeconds renewalMilliseconds =
     query cx q (TouchSession i userID idleSeconds renewalMilliseconds)"

subsection \<open>Flows and verifications\<close>

definition valid_new_flow :: "CreateFlowParams \<Rightarrow> bool" where
  "valid_new_flow p \<longleftrightarrow>
     Identifier (cf_ID p)
     \<and> validOptionalIdentifier [cf_UserID p, cf_SessionID p, cf_AccountID p, cf_ReauthenticationID p]
     \<and> FlowPurpose_Valid (cf_Purpose p) \<and> Initial (cf_Status p)
     \<and> (case cf_TokenHash p of None \<Rightarrow> True | Some h \<Rightarrow> length h = sha256_Size)
     \<and> (cf_UserID p = None) = (cf_SessionID p = None)
     \<and> (PublicStart (cf_Purpose p) \<or> cf_UserID p \<noteq> None)
     \<and> (cf_UserID p \<noteq> None \<longrightarrow> cf_AuthVersion p > 0)
     \<and> (cf_AccountID p \<noteq> None \<longrightarrow> cf_AccountVersion p > 0)"

definition store_CreateFlow :: "env \<Rightarrow> conn \<Rightarrow> CreateFlowParams \<Rightarrow> flow_row act" where
  "store_CreateFlow cx q p =
     bindA (require (valid_new_flow p) (Business ErrInvalid)) (\<lambda>_.
     query cx q (CreateFlow p))"

definition valid_new_verification :: "env \<Rightarrow> CreateVerificationParams \<Rightarrow> bool" where
  "valid_new_verification cx p \<longleftrightarrow>
     Identifier (cv_UserID p) \<and> validOptionalIdentifier [cv_SessionID p, cv_ReauthenticationID p]
     \<and> VerificationPurpose_Valid (cv_Purpose p) \<and> length (cv_TokenHash p) = sha256_Size
     \<and> cv_AuthVersion p > 0 \<and> cv_TtlSeconds p > 0
     \<and> (case normalizeEmail cx (cv_Email p) of Inl _ \<Rightarrow> False | Inr _ \<Rightarrow> True)"

definition store_CreateVerification :: "env \<Rightarrow> conn \<Rightarrow> CreateVerificationParams \<Rightarrow> verification_row act" where
  "store_CreateVerification cx q p =
     bindA (require (valid_new_verification cx p) (Business ErrInvalid)) (\<lambda>_.
     bindA (NewID cx) (\<lambda>i.
     query cx q (CreateVerification i p)))"

definition transitionResult :: "int act \<Rightarrow> unit act" where
  "transitionResult m = bindA m (\<lambda>n. require (n = 1) (Business ErrCredentials))"

definition claimPendingFlow :: "env \<Rightarrow> conn \<Rightarrow> string \<Rightarrow> unit act" where
  "claimPendingFlow cx q i = transitionResult (query cx q (ClaimFlow i))"

definition claimAuthorization :: "env \<Rightarrow> conn \<Rightarrow> string \<Rightarrow> string \<Rightarrow> unit act" where
  "claimAuthorization cx q i claim = transitionResult (query cx q (ClaimAuthorization i (Some claim)))"

definition consumeFlow :: "env \<Rightarrow> conn \<Rightarrow> string \<Rightarrow> string \<Rightarrow> unit act" where
  "consumeFlow cx q i expected =
     (if expected \<in> {FlowProcessing, FlowVerified, FlowAuthorized, FlowClaimed}
      then transitionResult (query cx q (FinishFlow i expected))
      else fail (Business ErrCredentials))"

definition verifyFlow :: "env \<Rightarrow> conn \<Rightarrow> string \<Rightarrow> string \<Rightarrow> VerifiedIdentity \<Rightarrow> unit act" where
  "verifyFlow cx q i status v =
     bindA (require (Verifiable status \<and> validBytes (vi_Namespace v) maxProviderNamespaceBytes
         \<and> vi_Namespace v \<noteq> LocalNamespace \<and> validBytes (vi_Subject v) maxProviderSubjectBytes
         \<and> TextWithin (vi_Name v) maxDisplayNameRunes) (Business ErrInvalid)) (\<lambda>_.
     bindA (time_Now cx) (\<lambda>verifiedAt.
     transitionResult (query cx q
       (VerifyFlow i status (vi_Namespace v) (vi_Subject v) (vi_Name v) (Some verifiedAt)))))"

definition consumeVerification :: "env \<Rightarrow> conn \<Rightarrow> string \<Rightarrow> string \<Rightarrow> unit act" where
  "consumeVerification cx q i user = transitionResult (query cx q (ConsumeVerification i user))"

definition store_FailFlow :: "env \<Rightarrow> conn \<Rightarrow> string \<Rightarrow> unit act" where
  "store_FailFlow cx q i = query cx q (FailFlow i)"

subsection \<open>Rate limits, audit, mail\<close>

definition store_RateLimit :: "env \<Rightarrow> conn \<Rightarrow> string \<Rightarrow> int \<Rightarrow> (int \<times> int) act" where
  "store_RateLimit cx q bucketKey windowSeconds =
     bindA (require (length bucketKey = sha256_Size \<and> windowSeconds > 0) (Business ErrInvalid)) (\<lambda>_.
     query cx q (RateLimit bucketKey windowSeconds))"

definition valid_audit :: "AppendAuditParams \<Rightarrow> bool" where
  "valid_audit p \<longleftrightarrow>
     aa_Action p \<noteq> '''' \<and> TextWithin (aa_Action p) maxAuditActionRunes \<and> AuditOutcome_Valid (aa_Outcome p)
     \<and> AuditActorType_Valid (aa_ActorType p)
     \<and> (aa_ActorType p = ActorAnonymous) = (aa_ActorID p = None)
     \<and> validOptionalIdentifier [aa_ActorID p, aa_ResourceID p, aa_ScopeSubject p, aa_SessionID p]
     \<and> length (aa_Metadata p) \<le> maxAuditMetadataBytes"

definition store_AppendAudit :: "env \<Rightarrow> conn \<Rightarrow> AppendAuditParams \<Rightarrow> unit act" where
  "store_AppendAudit cx q p =
     bindA (require (valid_audit p) (Business ErrInvalid)) (\<lambda>_.
     bindA (NewID cx) (\<lambda>i.
     query cx q (AppendAudit i p)))"

text \<open>\<^verbatim>\<open>time.Time{}\<close>, counted from the Unix epoch.\<close>

definition zero_time :: time where
  "zero_time = - 62135596800 * second"

definition valid_mail :: "EnqueueMailParams \<Rightarrow> bool" where
  "valid_mail p \<longleftrightarrow> Identifier (em_ID p) \<and> validBytes (em_Kind p) maxMailKindBytes
     \<and> validBytes (em_Subject p) maxMailSubjectBytes \<and> validBytes (em_Body p) maxMailBodyBytes
     \<and> em_ExpiresAt p \<noteq> zero_time"

definition store_EnqueueMail :: "env \<Rightarrow> conn \<Rightarrow> EnqueueMailParams \<Rightarrow> unit act" where
  "store_EnqueueMail cx q p =
     bindA (require (valid_mail p) (Business ErrInvalid)) (\<lambda>_.
     bindA (from_sum (normalizeEmail cx (em_Recipient p))) (\<lambda>_.
     query cx q (EnqueueMail p)))"

lemma transitionResult_ok [ok_iff]:
  "transitionResult m w = (Inr u, w') \<longleftrightarrow> m w = (Inr 1, w')"
  by (auto simp: transitionResult_def ok_iff)

lemmas store_defs =
  store_CreatePendingUser_def store_CreateFederatedUser_def store_ActivateUser_def store_UpdateUserEmail_def
  store_ReleasePendingEmail_def store_UpdateUserProfile_def store_SetUserStatus_def store_BumpUserVersion_def
  store_CreateAccount_def store_ChangePassword_def store_UpgradePasswordHash_def store_RevokeAccount_def
  store_TouchAccount_def store_CreateSession_def store_RevokeSession_def store_RevokeUserSessions_def
  store_TouchSession_def store_CreateFlow_def store_CreateVerification_def claimPendingFlow_def
  claimAuthorization_def consumeFlow_def verifyFlow_def consumeVerification_def store_FailFlow_def
  store_RateLimit_def store_AppendAudit_def store_EnqueueMail_def

end
