(* ===== verification/Pagination.thy ===== *)
theory Pagination
  imports App_Error
begin

text \<open>
  \<^verbatim>\<open>internal/pagination\<close> and \<^verbatim>\<open>internal/httpapi/pagination.go\<close>: parameters are
  32-bit signed integers, one row more than the page is fetched to decide \<^verbatim>\<open>HasMore\<close>.
\<close>

type_synonym int32 = "32 word"

definition DefaultLimit :: int32 where
  "DefaultLimit = 20"

definition MaxLimit :: int32 where
  "MaxLimit = 100"

definition MaxOffset :: int32 where
  "MaxOffset = 10000"

record Params =
  Limit :: int32
  Offset :: int32

record 'a Result =
  Items :: "'a list"
  HasMore :: bool
  RLimit :: int32
  ROffset :: int32

definition Params_Validate :: "Params \<Rightarrow> goerr option" where
  "Params_Validate p =
     (if sint (Limit p) < 1 \<or> sint (Limit p) > sint MaxLimit
         \<or> sint (Offset p) < 0 \<or> sint (Offset p) > sint MaxOffset
      then Some (Sentinel PaginationErrInvalid) else None)"

definition FetchLimit :: "Params \<Rightarrow> int32" where
  "FetchLimit p = Limit p + 1"

definition Result_Map :: "'a Result \<Rightarrow> ('a \<Rightarrow> 'b) \<Rightarrow> 'b Result" where
  "Result_Map r convert =
     \<lparr>Items = map convert (Items r), HasMore = HasMore r, RLimit = RLimit r, ROffset = ROffset r\<rparr>"

definition Build :: "'a list \<Rightarrow> Params \<Rightarrow> ('a \<Rightarrow> 'b) \<Rightarrow> goerr + 'b Result" where
  "Build rows params convert =
     (case Params_Validate params of
        Some e \<Rightarrow> Inl e
      | None \<Rightarrow>
          (let more = int (length rows) > sint (Limit params);
               rows' = (if more then take (nat (sint (Limit params))) rows else rows)
           in Inr (Result_Map \<lparr>Items = rows', HasMore = more, RLimit = Limit params,
                ROffset = Offset params\<rparr> convert)))"

definition PageFrom :: "'a Result \<Rightarrow> ('a \<Rightarrow> 'b) \<Rightarrow> 'b Result" where
  "PageFrom result convert =
     (let mapped = Result_Map result convert
      in \<lparr>Items = Items mapped, HasMore = HasMore mapped, RLimit = RLimit mapped, ROffset = ROffset mapped\<rparr>)"

lemma Params_Validate_None:
  "Params_Validate p = None \<longleftrightarrow>
     1 \<le> sint (Limit p) \<and> sint (Limit p) \<le> 100 \<and> 0 \<le> sint (Offset p) \<and> sint (Offset p) \<le> 10000"
  by (auto simp: Params_Validate_def MaxLimit_def MaxOffset_def)

lemma FetchLimit_sint:
  assumes "Params_Validate p = None"
  shows "sint (FetchLimit p) = sint (Limit p) + 1"
proof -
  have "1 \<le> sint (Limit p)" "sint (Limit p) \<le> 100"
    using assms by (auto simp: Params_Validate_None)
  then have "signed_take_bit 31 (sint (Limit p) + 1) = sint (Limit p) + 1"
    by (intro signed_take_bit_int_eq_self) auto
  then show ?thesis by (simp add: FetchLimit_def sint_word_ariths)
qed

lemma FetchLimit_nat:
  "Params_Validate p = None \<Longrightarrow> nat (sint (FetchLimit p)) = Suc (nat (sint (Limit p)))"
  by (simp add: FetchLimit_sint Params_Validate_None nat_add_distrib)

lemma Build_ok:
  assumes "Params_Validate p = None"
  shows "Build (limit_offset (sint (FetchLimit p)) (sint (Offset p)) rows) p convert =
    Inr \<lparr>Items = map convert (limit_offset (sint (Limit p)) (sint (Offset p)) rows),
         HasMore = (sint (Offset p) + sint (Limit p) < int (length rows)),
         RLimit = Limit p, ROffset = Offset p\<rparr>"
proof -
  define l o' where "l = nat (sint (Limit p))" and "o' = nat (sint (Offset p))"
  have s: "sint (Limit p) = int l" "sint (Offset p) = int o'" "1 \<le> l"
    using assms by (auto simp: l_def o'_def Params_Validate_None)
  have f: "nat (sint (FetchLimit p)) = Suc l" by (simp add: FetchLimit_nat assms l_def)
  have more: "(l < length (take (Suc l) (drop o' rows))) \<longleftrightarrow> o' + l < length rows" by auto
  have "take l (take (Suc l) (drop o' rows)) = take l (drop o' rows)" by (simp add: min_def)
  moreover have "\<not> o' + l < length rows \<Longrightarrow> take (Suc l) (drop o' rows) = take l (drop o' rows)"
    by simp
  ultimately show ?thesis using more
    by (simp add: Build_def assms limit_offset_def f s Result_Map_def Let_def)
qed

end
