(* ===== verification/Account_Auth.thy ===== *)
theory Account_Auth
  imports Account_Store Pagination
begin

text \<open>
  What the account operations share: \<^verbatim>\<open>rate_limit.go\<close>, \<^verbatim>\<open>audit.go\<close>,
  \<^verbatim>\<open>notifications.go\<close>, \<^verbatim>\<open>authorization.go\<close>, the one-time proofs of
  \<^verbatim>\<open>reauthentication.go\<close>, the sessions of \<^verbatim>\<open>session.go\<close> and the administrator
  check of \<^verbatim>\<open>admin_checker.go\<close>.
\<close>

subsection \<open>rate_limit.go\<close>

definition ipRequestLimit :: int where
  "ipRequestLimit = 60"

definition ipRateWindow :: time where
  "ipRateWindow = minute"

definition subjectRequestLimit :: int where
  "subjectRequestLimit = 10"

definition subjectRateWindow :: time where
  "subjectRateWindow = 15 * minute"

definition Seconds :: "time \<Rightarrow> int" where
  "Seconds d = d div second" \<comment> \<open>int64(d.Seconds()) of a non-negative duration\<close>

definition bucket_key :: "env \<Rightarrow> string \<Rightarrow> string \<Rightarrow> string" where
  "bucket_key cx category key = e_sha256 cx (category @ [CHR 0x00] @ key)"

definition limit :: "Service \<Rightarrow> string \<Rightarrow> string \<Rightarrow> int \<Rightarrow> time \<Rightarrow> unit act" where
  "limit s category key mx window =
     (let cx = sv_env s in
      attempt (store_RateLimit cx Pool (bucket_key cx category key) (Seconds window)) (\<lambda>r.
      case r of
        Inl e \<Rightarrow> fail (the (Wrap (Some ErrUnavailable) (Some e)))
      | Inr (n, retryAfter) \<Rightarrow>
          if n > mx then fail (the (WithRetryAfter (Some (Business ErrRateLimited)) (retryAfter * second)))
          else ret ()))"

definition entryLimit :: "Service \<Rightarrow> Request \<Rightarrow> string \<Rightarrow> string \<Rightarrow> unit act" where
  "entryLimit s r category key =
     bindA (limit s (category @ ''.ip'') (ClientIP r) ipRequestLimit ipRateWindow) (\<lambda>_.
     limit s (category @ ''.subject'') key subjectRequestLimit subjectRateWindow)"

subsection \<open>audit.go\<close>

text \<open>\<^verbatim>\<open>encoding/json\<close> on a string, with the HTML-safe escapes that are its default.\<close>

definition json_hex :: "nat \<Rightarrow> nat" where
  "json_hex v = (if v < 10 then 48 + v else 87 + v)"

fun json_rune :: "nat option \<Rightarrow> string" where
  "json_rune None = of_bytes [92, 117, 102, 102, 102, 100]"
| "json_rune (Some c) =
     (if c = 34 then of_bytes [92, 34] else if c = 92 then of_bytes [92, 92]
      else if c = 8 then of_bytes [92, 98] else if c = 12 then of_bytes [92, 102]
      else if c = 10 then of_bytes [92, 110] else if c = 13 then of_bytes [92, 114]
      else if c = 9 then of_bytes [92, 116]
      else if c < 32 \<or> c = 38 \<or> c = 60 \<or> c = 62
      then of_bytes [92, 117, 48, 48, json_hex (c div 16), json_hex (c mod 16)]
      else if c = 0x2028 then of_bytes [92, 117, 50, 48, 50, 56]
      else if c = 0x2029 then of_bytes [92, 117, 50, 48, 50, 57]
      else utf8 [c])"

definition json_string :: "string \<Rightarrow> string" where
  "json_string s = [CHR 0x22] @ concat (map json_rune (runes (bytes s))) @ [CHR 0x22]"

definition json_object :: "string \<Rightarrow> string \<Rightarrow> string" where
  "json_object key value = ''{'' @ json_string key @ '':'' @ json_string value @ ''}''"

datatype metadata =
    NoMetadata
  | userStatusAuditMetadata string
  | accountProviderAuditMetadata string
  | loginAuditMetadata string

fun metadata_json :: "metadata \<Rightarrow> string" where
  "metadata_json NoMetadata = ''{}''"
| "metadata_json (userStatusAuditMetadata v) = json_object ''status'' v"
| "metadata_json (accountProviderAuditMetadata v) = json_object ''provider'' v"
| "metadata_json (loginAuditMetadata v) = json_object ''method'' v"

record auditEvent =
  ev_Action :: string
  ev_Outcome :: string
  ev_ResourceType :: string
  ev_ResourceID :: string
  ev_ScopeSubject :: string
  ev_Reason :: string
  ev_Metadata :: metadata

definition optional :: "string \<Rightarrow> string option" where
  "optional v = (if v = '''' then None else Some v)"

definition audit_params :: "Request \<Rightarrow> auditEvent \<Rightarrow> AppendAuditParams" where
  "audit_params r event =
     \<lparr>aa_Action = ev_Action event, aa_Outcome = ev_Outcome event,
      aa_ActorType = (if UserID r \<noteq> '''' then ActorUser else ActorAnonymous),
      aa_ActorID = (if UserID r \<noteq> '''' then Some (UserID r) else None),
      aa_ResourceType = ev_ResourceType event, aa_ResourceID = optional (ev_ResourceID event),
      aa_ScopeSubject = optional (ev_ScopeSubject event),
      aa_SessionID = (if Identifier (rq_SessionID r) then Some (rq_SessionID r) else None),
      aa_RequestID = optional (RequestID r), aa_ReasonCode = optional (ev_Reason event),
      aa_Metadata = metadata_json (ev_Metadata event)\<rparr>"

definition audit :: "env \<Rightarrow> conn \<Rightarrow> Request \<Rightarrow> auditEvent \<Rightarrow> unit act" where
  "audit cx q r event = store_AppendAudit cx q (audit_params r event)"

definition success_event :: "string \<Rightarrow> string \<Rightarrow> string \<Rightarrow> string \<Rightarrow> metadata \<Rightarrow> auditEvent" where
  "success_event action kind target scope meta =
     \<lparr>ev_Action = action, ev_Outcome = AuditSuccess, ev_ResourceType = kind, ev_ResourceID = target,
      ev_ScopeSubject = scope, ev_Reason = '''', ev_Metadata = meta\<rparr>"

definition failure_event :: "Request \<Rightarrow> string \<Rightarrow> goerr \<Rightarrow> auditEvent" where
  "failure_event r action err =
     (let (outcome, reason) =
        if errors_is err (Business ErrForbidden) then (AuditDenied, ''permission_denied'')
        else if errors_is err (Business ErrCredentials) then (AuditFailure, ''invalid_credentials'')
        else (AuditFailure, ''operation_failed'')
      in \<lparr>ev_Action = action, ev_Outcome = outcome, ev_ResourceType = ''user'', ev_ResourceID = '''',
          ev_ScopeSubject = UserID r, ev_Reason = reason, ev_Metadata = NoMetadata\<rparr>)"

text \<open>A failure of the audit itself is only logged: the business result stays.\<close>

definition recordFailure :: "Service \<Rightarrow> Request \<Rightarrow> string \<Rightarrow> goerr \<Rightarrow> unit act" where
  "recordFailure s r action err =
     (if errors_is err (Business ErrRateLimited) then ret ()
      else attempt (audit (sv_env s) Pool r (failure_event r action err)) (\<lambda>_. ret ()))"

text \<open>\<^verbatim>\<open>defer s.recordFailureOnReturn(...)\<close> around a body.\<close>

definition recordFailureOnReturn :: "Service \<Rightarrow> Request \<Rightarrow> string \<Rightarrow> 'a act \<Rightarrow> 'a act" where
  "recordFailureOnReturn s r action body =
     attempt body (\<lambda>res. case res of
       Inl e \<Rightarrow> bindA (recordFailure s r action e) (\<lambda>_. fail e)
     | Inr a \<Rightarrow> ret a)"

lemma recordFailureOnReturn_fst: "fst (recordFailureOnReturn s r action m w) = fst (m w)"
  by (auto simp: recordFailureOnReturn_def recordFailure_def attempt_def bindA_def ret_def fail_def split: prod.split sum.split)

lemma recordFailureOnReturn_ok [ok_iff]:
  "recordFailureOnReturn s r action body w = (Inr a, w') \<longleftrightarrow> body w = (Inr a, w')"
  by (auto simp: recordFailureOnReturn_def attempt_def bindA_def ret_def fail_def
      split: prod.splits sum.splits)

subsection \<open>notifications.go\<close>

definition securityNotificationTTL :: time where
  "securityNotificationTTL = 24 * hour"

definition verificationMailSubject :: string where
  "verificationMailSubject = ''Verify your account''"

definition verificationMailBody :: "string \<Rightarrow> string" where
  "verificationMailBody link =
     ''<p>'' @ utf8 [0x8bf7, 0x5728, 0x6709, 0x6548, 0x671f, 0x5185, 0x5b8c, 0x6210, 0x8d26, 0x6237, 0x9a8c,
       0x8bc1, 0x3002, 0x8bf7, 0x52ff, 0x8f6c, 0x53d1, 0x6b64, 0x90ae, 0x4ef6, 0x3002]
     @ ''</p><p><a href='' @ [CHR 0x22] @ link @ [CHR 0x22] @ ''>''
     @ utf8 [0x9a8c, 0x8bc1, 0x8d26, 0x6237] @ ''</a></p>''"

definition securityNotificationSubject :: string where
  "securityNotificationSubject = ''Account security notification''"

definition registrationCompletedNotification :: string where
  "registrationCompletedNotification = utf8 [0x60a8, 0x7684, 0x8d26, 0x6237, 0x5df2, 0x5b8c, 0x6210, 0x6ce8,
     0x518c, 0xff0c, 0x90ae, 0x7bb1, 0x9a8c, 0x8bc1, 0x53ca, 0x5bc6, 0x7801, 0x8bbe, 0x7f6e, 0x6210, 0x529f,
     0x3002, 0x60a8, 0x73b0, 0x5728, 0x53ef, 0x4ee5, 0x767b, 0x5f55, 0x3002]"

definition passwordResetNotification :: string where
  "passwordResetNotification = utf8 [0x60a8, 0x7684, 0x8d26, 0x6237, 0x5bc6, 0x7801, 0x5df2, 0x91cd, 0x7f6e,
     0x3002, 0x5982, 0x975e, 0x672c, 0x4eba, 0x64cd, 0x4f5c, 0xff0c, 0x8bf7, 0x7acb, 0x5373, 0x8054, 0x7cfb,
     0x7ba1, 0x7406, 0x5458, 0x3002]"

definition passwordChangedNotification :: string where
  "passwordChangedNotification = utf8 [0x60a8, 0x7684, 0x8d26, 0x6237, 0x5bc6, 0x7801, 0x5df2, 0x4fee, 0x6539,
     0x3002, 0x5982, 0x975e, 0x672c, 0x4eba, 0x64cd, 0x4f5c, 0xff0c, 0x8bf7, 0x7acb, 0x5373, 0x8054, 0x7cfb,
     0x7ba1, 0x7406, 0x5458, 0x3002]"

definition emailChangedNotification :: string where
  "emailChangedNotification = utf8 [0x8d26, 0x6237, 0x8054, 0x7cfb, 0x90ae, 0x7bb1, 0x5df2, 0x4fee, 0x6539,
     0x3002, 0x5982, 0x679c, 0x4e0d, 0x662f, 0x672c, 0x4eba, 0x64cd, 0x4f5c, 0xff0c, 0x8bf7, 0x8054, 0x7cfb,
     0x7ba1, 0x7406, 0x5458, 0x3002]"

definition accountLinkedNotification :: string where
  "accountLinkedNotification = utf8 [0x65b0, 0x7684, 0x7b2c, 0x4e09, 0x65b9, 0x767b, 0x5f55, 0x8d26, 0x53f7,
     0x5df2, 0x7ed1, 0x5b9a, 0x3002]"

definition accountUnlinkedNotification :: string where
  "accountUnlinkedNotification = utf8 [0x4e00, 0x4e2a, 0x767b, 0x5f55, 0x8d26, 0x53f7, 0x5df2, 0x89e3, 0x9664,
     0x7ed1, 0x5b9a, 0xff0c, 0x8bf7, 0x4f7f, 0x7528, 0x4fdd, 0x7559, 0x7684, 0x65b9, 0x5f0f, 0x91cd, 0x65b0,
     0x767b, 0x5f55, 0x3002]"

text \<open>
  \<^verbatim>\<open>url.Values.Encode\<close> sorts the keys; printing the URL escapes the fragment once more, of
  which only the percent signs are affected.
\<close>

definition query_plain :: "nat \<Rightarrow> bool" where
  "query_plain b \<longleftrightarrow> (97 \<le> b \<and> b \<le> 122) \<or> (65 \<le> b \<and> b \<le> 90) \<or> (48 \<le> b \<and> b \<le> 57) \<or> b \<in> set [45, 95, 46, 126]"

definition QueryEscape :: "string \<Rightarrow> string" where
  "QueryEscape s =
     concat (map (\<lambda>b. if query_plain b then [char_of b] else if b = 32 then ''+''
       else of_bytes [37, hex_digit (b div 16), hex_digit (b mod 16)]) (bytes s))"

definition fragment_escape :: "string \<Rightarrow> string" where
  "fragment_escape s = concat (map (\<lambda>b. if b = 37 then ''%25'' else [char_of b]) (bytes s))"

definition verification_link :: "string \<times> bool \<Rightarrow> string \<Rightarrow> string \<Rightarrow> string" where
  "verification_link base token purpose =
     fst base @ ''/auth/verify'' @ (if snd base then ''?'' else '''') @ ''#''
     @ fragment_escape (''purpose='' @ QueryEscape purpose @ ''&token='' @ QueryEscape token)"

definition enqueueVerificationMail :: "Service \<Rightarrow> conn \<Rightarrow> verification_row \<Rightarrow> string \<Rightarrow> unit act" where
  "enqueueVerificationMail s q verification token =
     (case sv_parse_url s (FrontendURL (sv_options s)) of
        None \<Rightarrow> fail (Business ErrUnavailable)
      | Some base \<Rightarrow>
          bindA (NewID (sv_env s)) (\<lambda>i.
          store_EnqueueMail (sv_env s) q
            \<lparr>em_ID = i, em_Kind = v_Purpose verification, em_Recipient = v_Email verification,
             em_Subject = verificationMailSubject,
             em_Body = verificationMailBody (EscapeString (verification_link base token (v_Purpose verification))),
             em_ExpiresAt = v_ExpiresAt verification\<rparr>))"

definition enqueueSecurityNotification :: "env \<Rightarrow> conn \<Rightarrow> user_row \<Rightarrow> string \<Rightarrow> unit act" where
  "enqueueSecurityNotification cx q user body =
     (case (u_Email user, u_EmailVerifiedAt user) of
        (Some email, Some _) \<Rightarrow>
          bindA (NewID cx) (\<lambda>i.
          bindA (time_Now cx) (\<lambda>now.
          store_EnqueueMail cx q
            \<lparr>em_ID = i, em_Kind = SecurityNotificationKind, em_Recipient = email,
             em_Subject = securityNotificationSubject, em_Body = ''<p>'' @ EscapeString body @ ''</p>'',
             em_ExpiresAt = now + securityNotificationTTL\<rparr>))
      | _ \<Rightarrow> ret ())"

subsection \<open>authorization.go\<close>

text \<open>The current user or session is gone: the caller is no longer authenticated.\<close>

definition no_rows_unauthenticated :: "goerr \<Rightarrow> goerr" where
  "no_rows_unauthenticated e =
     (if errors_is e (Sentinel ErrNoRows) then Business apperror_ErrUnauthenticated else e)"

definition requireSubject :: "string \<Rightarrow> string \<Rightarrow> unit act" where
  "requireSubject userID sessionID =
     bindA (check_err (RequireSubject userID)) (\<lambda>_. check_err (RequireSubject sessionID))"

definition lockSelf :: "env \<Rightarrow> conn \<Rightarrow> Request \<Rightarrow> (user_row \<times> session_row) act" where
  "lockSelf cx q r =
     bindA (requireSubject (UserID r) (rq_SessionID r)) (\<lambda>_.
     bindA (on_error no_rows_unauthenticated (query cx q (LockUser (UserID r)))) (\<lambda>user.
     bindA (on_error no_rows_unauthenticated (query cx q (GetValidSession (rq_SessionID r) (UserID r)))) (\<lambda>session.
     ret (user, session))))"

definition readSelf :: "env \<Rightarrow> conn \<Rightarrow> Request \<Rightarrow> (user_row \<times> session_row) act" where
  "readSelf cx q r =
     bindA (requireSubject (UserID r) (rq_SessionID r)) (\<lambda>_.
     bindA (on_error no_rows_unauthenticated (query cx q (GetUser (UserID r)))) (\<lambda>user.
     bindA (on_error no_rows_unauthenticated (query cx q (GetValidSession (rq_SessionID r) (UserID r)))) (\<lambda>session.
     ret (user, session))))"

definition invalidate :: "env \<Rightarrow> conn \<Rightarrow> string \<Rightarrow> unit act" where
  "invalidate cx q userID =
     bindA (store_BumpUserVersion cx q userID) (\<lambda>_. store_RevokeUserSessions cx q userID)"

subsection \<open>reauthentication.go: one-time proofs\<close>

definition validateOperation :: "Service \<Rightarrow> string \<Rightarrow> string \<Rightarrow> unit act" where
  "validateOperation s operation target =
     (if operation = OperationLinkAccount then
        require (d_Enabled (sv_deps s) target) (Business ErrInvalid)
      else if operation = OperationUnlinkAccount then
        require (Identifier target) (Business ErrInvalid)
      else if operation = OperationSetPassword then
        require (target = CredentialProvider) (Business ErrInvalid)
      else if operation = OperationChangeEmail then
        require (normalizeEmail (sv_env s) target = Inr target) (Business ErrInvalid)
      else fail (Business ErrInvalid))"

definition reauth_lookup_error :: "goerr \<Rightarrow> goerr" where
  "reauth_lookup_error e = proofError (credentialLookupError e) ErrReauthentication"

definition proof_matches :: "flow_row \<Rightarrow> Request \<Rightarrow> string \<Rightarrow> string \<Rightarrow> string option \<Rightarrow> bool" where
  "proof_matches p r operation target claim \<longleftrightarrow>
     f_Purpose p = FlowReauthenticate \<and> f_AccountID p \<noteq> None
     \<and> f_UserID p = Some (UserID r) \<and> f_SessionID p = Some (rq_SessionID r)
     \<and> f_Operation p = operation \<and> f_Target p = target
     \<and> (case claim of
          None \<Rightarrow> f_Status p = FlowAuthorized
        | Some c \<Rightarrow> f_Status p = FlowClaimed \<and> f_ClaimedBy p = Some c)"

definition authorization ::
  "Service \<Rightarrow> conn \<Rightarrow> Request \<Rightarrow> string \<Rightarrow> string \<Rightarrow> string \<Rightarrow> string option \<Rightarrow> flow_row act" where
  "authorization s q r i operation target claim =
     (let cx = sv_env s; invalid = Business ErrReauthentication in
      bindA (require (Identifier i) invalid) (\<lambda>_.
      bindA (on_error (\<lambda>e. if errors_is e (Sentinel ErrNoRows) then invalid else e) (query cx q (GetFlow i))) (\<lambda>p.
      bindA (require (proof_matches p r operation target claim) invalid) (\<lambda>_.
      bindA (on_error reauth_lookup_error (query cx q (GetUser (the (f_UserID p))))) (\<lambda>user.
      bindA (require (u_Status user = UserActive \<and> u_AuthVersion user = f_AuthVersion p) invalid) (\<lambda>_.
      bindA (on_error reauth_lookup_error (query cx q (GetAccount (the (f_AccountID p)) (u_ID user)))) (\<lambda>account.
      bindA (require (a_Version account = f_AccountVersion p \<and> accountEnabled s account) invalid) (\<lambda>_.
      bindA (on_error reauth_lookup_error (query cx q (GetValidSession (the (f_SessionID p)) (u_ID user)))) (\<lambda>_.
      ret p)))))))))"

definition finishAuthorization :: "env \<Rightarrow> conn \<Rightarrow> flow_row \<Rightarrow> unit act" where
  "finishAuthorization cx q p =
     on_error (\<lambda>e. proofError e ErrReauthentication) (consumeFlow cx q (f_ID p) (f_Status p))"

subsection \<open>session.go: sessions and their renewal\<close>

definition renewal_interval :: "Options \<Rightarrow> time" where
  "renewal_interval o' = min minute (IdleTTL o' div 2)"

definition Milliseconds :: "time \<Rightarrow> int" where
  "Milliseconds d = d div millisecond"

definition unauthorized_no_rows :: "goerr \<Rightarrow> goerr" where
  "unauthorized_no_rows e = (if errors_is e (Sentinel ErrNoRows) then Sentinel ErrUnauthorized else e)"

definition AuthenticateSession :: "Service \<Rightarrow> string \<Rightarrow> (string \<times> string) act" where
  "AuthenticateSession s token =
     (let cx = sv_env s; o' = sv_options s; renewalInterval = renewal_interval o' in
      bindA (on_error (\<lambda>_. Sentinel ErrUnauthorized) (from_sum (TokenDigest (e_sha256 cx) token SessionPrefix))) (\<lambda>hash.
      bindA (on_error unauthorized_no_rows (query cx Pool (FindSession hash))) (\<lambda>session.
      bindA (time_Now cx) (\<lambda>now.
      bindA (if now - s_LastSeenAt session \<ge> renewalInterval
             then store_TouchSession cx Pool (s_ID session) (s_UserID session) (Seconds (IdleTTL o'))
                    (Milliseconds renewalInterval)
             else ret ()) (\<lambda>_.
      ret (s_UserID session, s_ID session))))))"

definition new_token :: "env \<Rightarrow> string \<Rightarrow> (string \<times> string) act" where
  "new_token cx pre = bindA (randomBytes cx) (\<lambda>rb. ret (NewToken (e_sha256 cx) rb pre))"

definition newSession ::
  "Service \<Rightarrow> conn \<Rightarrow> Request \<Rightarrow> user_row \<Rightarrow> account_row \<Rightarrow> string \<Rightarrow> SessionCredentials act" where
  "newSession s q r user account method =
     (let cx = sv_env s; o' = sv_options s in
      bindA (require (u_Status user = UserActive \<and> a_UserID account = u_ID user \<and> a_RevokedAt account = None)
        (Business ErrCredentials)) (\<lambda>_.
      bindA (new_token cx SessionPrefix) (\<lambda>(token, hash).
      bindA (store_CreateSession cx q
        \<lparr>cs_UserID = u_ID user, cs_TokenHash = hash, cs_AuthMethod = method, cs_AuthSourceID = a_ID account,
         cs_AuthVersion = u_AuthVersion user, cs_IdleSeconds = Seconds (IdleTTL o'),
         cs_MaxSeconds = Seconds (MaxTTL o')\<rparr>) (\<lambda>row.
      bindA (store_TouchAccount cx q (a_ID account) (u_ID user)) (\<lambda>_.
      bindA (audit cx q (r\<lparr>UserID := u_ID user, rq_SessionID := s_ID row\<rparr>)
        (success_event ''auth.login'' ''session'' (s_ID row) (u_ID user) (loginAuditMetadata method))) (\<lambda>_.
      ret \<lparr>sc_Token = token, sc_ID = s_ID row, sc_IdleExpiresAt = s_IdleExpiresAt row,
           sc_AbsoluteExpiresAt = s_AbsoluteExpiresAt row\<rparr>))))))"

subsection \<open>admin_checker.go\<close>

definition RequireAdmin :: "env \<Rightarrow> string \<Rightarrow> string \<Rightarrow> unit act" where
  "RequireAdmin cx userID sessionID =
     bindA (requireSubject userID sessionID) (\<lambda>_.
     bindA (on_error (\<lambda>e. if errors_is e (Sentinel ErrNoRows) then Business apperror_ErrUnauthenticated
                          else MapError e account_storageErrors)
              (query cx Pool (GetSessionUser userID sessionID))) (\<lambda>user.
     require (u_Role user = RoleAdmin) (Business ErrForbidden)))"

end
