(* ===== verification/Http_Api.thy ===== *)
theory Http_Api
  imports World Tokens Pagination
begin

text \<open>
  \<^verbatim>\<open>internal/httpapi\<close>: operations with an explicit authentication policy, the endpoints that
  wrap service calls, the bearer middleware, the translation of errors into responses, and the
  request envelope.  Routing, JSON and schema validation belong to chi and huma; an endpoint here
  starts from the decoded input.  A request context carries the principal, the request metadata
  and whether its deadline has passed by a given step.
\<close>

record RequestMeta =
  rm_ID :: string
  rm_ClientIP :: string

record ctx =
  c_principal :: "Principal option"
  c_meta :: "RequestMeta option"
  c_deadline :: "nat \<Rightarrow> bool"

definition Metadata :: "ctx \<Rightarrow> RequestMeta" where
  "Metadata c = (case c_meta c of None \<Rightarrow> \<lparr>rm_ID = '''', rm_ClientIP = ''''\<rparr> | Some m \<Rightarrow> m)"

definition WithPrincipal :: "ctx \<Rightarrow> Principal \<Rightarrow> ctx" where
  "WithPrincipal c p = c\<lparr>c_principal := Some p\<rparr>"

definition Current :: "ctx \<Rightarrow> Principal" where
  "Current c = (case c_principal c of None \<Rightarrow> \<lparr>Subject = '''', SessionID = ''''\<rparr> | Some p \<Rightarrow> p)"

definition identity_Subject :: "ctx \<Rightarrow> string" where
  "identity_Subject c = Subject (Current c)"

subsection \<open>Responses\<close>

datatype 'b body = NoBody | Body 'b | ProblemBody string "string list"

record 'b response =
  rs_status :: int
  rs_headers :: "(string \<times> string) list"
  rs_body :: "'b body"

type_synonym log_entry = "string \<times> (string \<times> string) list" \<comment> \<open>message and attributes\<close>

definition huma_error :: "int \<Rightarrow> string \<Rightarrow> 'b response" where
  "huma_error status detail = \<lparr>rs_status = status, rs_headers = [], rs_body = ProblemBody detail []\<rparr>"

definition Problem :: "int \<Rightarrow> string \<Rightarrow> 'b response" where
  "Problem status detail =
     \<lparr>rs_status = status, rs_headers = [(''Content-Type'', ''application/problem+json'')],
      rs_body = ProblemBody detail []\<rparr>"

definition sanitizeErrors :: "'b response \<Rightarrow> 'b response" where
  "sanitizeErrors r =
     (case rs_body r of
        ProblemBody detail errs \<Rightarrow>
          if errs \<noteq> [] then r\<lparr>rs_body := ProblemBody detail [''request validation failed'']\<rparr> else r
      | _ \<Rightarrow> r)"

definition logFailure :: "string \<Rightarrow> string \<Rightarrow> goerr \<Rightarrow> log_entry" where
  "logFailure stage message err = (message, (''stage'', stage) # DiagnosticAttrs (Some err))"

definition InternalError :: "bool \<Rightarrow> goerr \<Rightarrow> 'b response \<times> log_entry list" where
  "InternalError deadline err =
     (if errors_is err (Sentinel DeadlineExceeded) \<or> deadline
      then (huma_error 504 ''request deadline exceeded'',
            [logFailure ''handle_request'' ''operation failed'' (Sentinel DeadlineExceeded)])
      else (huma_error 500 ''internal server error'',
            [logFailure ''handle_request'' ''operation failed'' err]))"

text \<open>
  \<^verbatim>\<open>strconv.FormatInt(int64(math.Ceil(delay.Seconds())), 10)\<close>: the delays of the program are
  whole seconds below \<open>2 ^ 22\<close>, where the float is exact.
\<close>

fun decimal :: "nat \<Rightarrow> string" where
  "decimal n = (if n < 10 then of_bytes [48 + n] else decimal (n div 10) @ of_bytes [48 + n mod 10])"

declare decimal.simps [simp del]

definition FormatInt :: "int \<Rightarrow> string" where
  "FormatInt n = (if n < 0 then ''-'' @ decimal (nat (- n)) else decimal (nat n))"

definition ceil_seconds :: "time \<Rightarrow> int" where
  "ceil_seconds delay = - ((- delay) div second)"

text \<open>\<^verbatim>\<open>FromError\<close> on a non-nil error.\<close>

definition FromError :: "bool \<Rightarrow> goerr \<Rightarrow> 'b response \<times> log_entry list" where
  "FromError deadline err =
     (case as_business err of
        Some b \<Rightarrow>
          (case ae_kind b of
             NotFound \<Rightarrow> (huma_error 404 (ae_message b), [])
           | Conflict \<Rightarrow> (huma_error 409 (ae_message b), [])
           | Invalid \<Rightarrow> (huma_error 422 (ae_message b), [])
           | Unauthenticated \<Rightarrow> (huma_error 401 (ae_message b), [])
           | Forbidden \<Rightarrow> (huma_error 403 (ae_message b), [])
           | RateLimited \<Rightarrow>
               (case RetryAfter err of
                  (delay, True) \<Rightarrow>
                    ((huma_error 429 (ae_message b))
                       \<lparr>rs_headers := [(''Retry-After'', FormatInt (ceil_seconds delay))]\<rparr>, [])
                | (_, False) \<Rightarrow> (huma_error 429 (ae_message b), []))
           | Unavailable \<Rightarrow>
               (huma_error 503 (ae_message b),
                [logFailure ''handle_request'' ''dependency unavailable'' err])
           | OtherKind _ \<Rightarrow> InternalError deadline err)
      | None \<Rightarrow>
          (case as_status err of
             Some (status, detail, errs) \<Rightarrow>
               (\<lparr>rs_status = status, rs_headers = [], rs_body = ProblemBody detail errs\<rparr>, [])
           | None \<Rightarrow> InternalError deadline err))"

subsection \<open>Operations and their policy\<close>

text \<open>
  \<^verbatim>\<open>AuthPolicy\<close> is a string type with two constants.  \<open>op_Security\<close> is the OpenAPI security
  requirement, \<^const>\<open>None\<close> for nil.  A panic is \<^const>\<open>None\<close>.
\<close>

definition Public :: string where
  "Public = ''public''"

definition Session :: string where
  "Session = ''bearer''"

record Operation =
  op_ID :: string
  op_Method :: string
  op_Path :: string
  op_Tags :: "string list"
  op_Errors :: "int list"
  op_MaxBodyBytes :: int
  op_Security :: "(string \<times> string list) list list option"
  op_DefaultStatus :: int
  op_policy :: string

definition spec :: "string \<Rightarrow> string \<Rightarrow> string \<Rightarrow> Operation" where
  "spec i meth path = \<lparr>op_ID = i, op_Method = meth, op_Path = path, op_Tags = [], op_Errors = [],
     op_MaxBodyBytes = 0, op_Security = None, op_DefaultStatus = 0, op_policy = ''''\<rparr>"

definition contract :: "Operation \<Rightarrow> Operation option" where
  "contract o' =
     (if op_policy o' \<noteq> Public \<and> op_policy o' \<noteq> Session then None
      else if op_Security o' \<noteq> None then None
      else Some (if op_policy o' = Session then o'\<lparr>op_Security := Some [[(Session, [])]]\<rparr> else o'))"

definition NewOperation :: "string \<Rightarrow> Operation \<Rightarrow> Operation option" where
  "NewOperation policy op =
     (let operation = op\<lparr>op_policy := policy\<rparr>
      in case contract operation of None \<Rightarrow> None | Some _ \<Rightarrow> Some operation)"

definition defaultMaxRequestBodyBytes :: int where
  "defaultMaxRequestBodyBytes = push_bit 20 1"

definition ProtectedOperations :: "string \<Rightarrow> int list \<Rightarrow> Operation \<Rightarrow> Operation option" where
  "ProtectedOperations tag extraErrors sp =
     NewOperation Session (sp\<lparr>op_Tags := [tag],
       op_Errors := [400, 401, 404, 413, 422, 500, 503, 504] @ extraErrors,
       op_MaxBodyBytes := defaultMaxRequestBodyBytes\<rparr>)"

fun Join :: "string list \<Rightarrow> string \<Rightarrow> string" where
  "Join [] sep = ''''"
| "Join [x] sep = x"
| "Join (x # y # ys) sep = x @ sep @ Join (y # ys) sep"

definition MethodNotAllowed :: "(string \<Rightarrow> string \<Rightarrow> bool) \<Rightarrow> string \<Rightarrow> string \<Rightarrow> 'b response" where
  "MethodNotAllowed match rawPath urlPath =
     (let path = (if rawPath = '''' then urlPath else rawPath);
          allowed = filter (\<lambda>m. match m path)
            [''CONNECT'', ''DELETE'', ''GET'', ''HEAD'', ''OPTIONS'', ''PATCH'', ''POST'', ''PUT'', ''TRACE''];
          p = Problem 405 ''method not allowed''
      in p\<lparr>rs_headers := (''Allow'', Join allowed '', '') # rs_headers p\<rparr>)"

subsection \<open>Endpoints\<close>

text \<open>
  A handler takes the context and the decoded input; an endpoint's output is the body and the
  headers it sets.  A \<^verbatim>\<open>Route\<close> is an operation with its handler.  With no default status
  huma answers 204 when there is no body, 200 otherwise.
\<close>

type_synonym ('i, 'b) handler = "ctx \<Rightarrow> 'i \<Rightarrow> 'b act"
type_synonym 'd outcome = "(string \<times> string) list \<times> 'd body"

record ('i, 'd) endpoint =
  ep_operation :: Operation
  ep_handle :: "('i, 'd outcome) handler"

definition Policy :: "('i, 'd) endpoint \<Rightarrow> string" where
  "Policy e = op_policy (ep_operation e)"

definition Endpoint :: "Operation \<Rightarrow> ('i, 'd outcome) handler \<Rightarrow> ('i, 'd) endpoint option" where
  "Endpoint operation handle =
     (case contract operation of
        None \<Rightarrow> None
      | Some _ \<Rightarrow> Some \<lparr>ep_operation = operation, ep_handle = handle\<rparr>)"

definition MapEndpoint ::
  "Operation \<Rightarrow> ('i, 't) handler \<Rightarrow> ('t \<Rightarrow> 'd outcome) \<Rightarrow> ('i, 'd) endpoint option" where
  "MapEndpoint operation execute present =
     Endpoint operation (\<lambda>c input. bindA (execute c input) (\<lambda>value. ret (present value)))"

definition NoContentEndpoint :: "Operation \<Rightarrow> ('i, unit) handler \<Rightarrow> ('i, 'd) endpoint option" where
  "NoContentEndpoint operation execute =
     Endpoint operation (\<lambda>c input. bindA (execute c input) (\<lambda>_. ret ([], NoBody)))"

definition CreatedEndpoint ::
  "Operation \<Rightarrow> ('i, 't) handler \<Rightarrow> ('t \<Rightarrow> 'd) \<Rightarrow> ('d \<Rightarrow> string) \<Rightarrow> ('i, 'd) endpoint option" where
  "CreatedEndpoint operation execute convert location =
     MapEndpoint (operation\<lparr>op_DefaultStatus := 201\<rparr>) execute
       (\<lambda>value. let dto = convert value in ([(''Location'', location dto)], Body dto))"

definition ItemEndpoint ::
  "Operation \<Rightarrow> ('i, 't) handler \<Rightarrow> ('t \<Rightarrow> 'd) \<Rightarrow> ('i, 'd) endpoint option" where
  "ItemEndpoint operation execute convert =
     MapEndpoint (operation\<lparr>op_DefaultStatus := 200\<rparr>) execute (\<lambda>value. ([], Body (convert value)))"

definition PageEndpoint ::
  "Operation \<Rightarrow> ('i, 't Result) handler \<Rightarrow> ('t \<Rightarrow> 'd) \<Rightarrow> ('i, 'd Result) endpoint option" where
  "PageEndpoint operation execute convert =
     MapEndpoint (operation\<lparr>op_DefaultStatus := 200\<rparr>) execute
       (\<lambda>page. ([], Body (PageFrom page convert)))"

definition default_status :: "Operation \<Rightarrow> 'd body \<Rightarrow> int" where
  "default_status op b =
     (if op_DefaultStatus op \<noteq> 0 then op_DefaultStatus op
      else case b of NoBody \<Rightarrow> 204 | _ \<Rightarrow> 200)"

text \<open>What \<^verbatim>\<open>Bind\<close> registers, behind the transformer that sanitises error models.\<close>

definition Bind :: "('i, 'd) endpoint \<Rightarrow> ctx \<Rightarrow> 'i \<Rightarrow> world \<Rightarrow> 'd response \<times> world" where
  "Bind e c input w =
     (case ep_handle e c input w of
        (Inl err, w') \<Rightarrow> (sanitizeErrors (fst (FromError (c_deadline c (w_step w')) err)), w')
      | (Inr (headers, b), w') \<Rightarrow>
          (\<lparr>rs_status = default_status (ep_operation e) b, rs_headers = headers, rs_body = b\<rparr>, w'))"

subsection \<open>The bearer middleware\<close>

text \<open>
  \<^verbatim>\<open>strings.EqualFold\<close> against \<^verbatim>\<open>"Bearer"\<close>: no letter of that word has a non-ASCII
  case variant, so folding is ASCII lower-casing.
\<close>

definition bearer :: "string \<Rightarrow> string \<times> bool" where
  "bearer header =
     (let parts = Fields header
      in if length parts \<noteq> 2 \<or> lower_ascii (parts ! 0) \<noteq> ''bearer'' then ('''', False)
         else (parts ! 1, True))"

definition session_invalid :: "'d response" where
  "session_invalid =
     (huma_error 401 ''session_invalid'')\<lparr>rs_headers := [(''WWW-Authenticate'', ''Bearer'')]\<rparr>"

definition Middleware ::
  "(ctx \<Rightarrow> string \<Rightarrow> Principal act) \<Rightarrow> ctx \<Rightarrow> string
     \<Rightarrow> (ctx \<Rightarrow> world \<Rightarrow> 'd response \<times> world) \<Rightarrow> world \<Rightarrow> 'd response \<times> world" where
  "Middleware authenticate c header next' w =
     (let (raw, ok) = bearer header;
          (r, w') = (if ok then authenticate c raw w else (Inl (Sentinel ErrUnauthorized), w))
      in if (case r of Inl e \<Rightarrow> errors_is e (Sentinel DeadlineExceeded) | Inr _ \<Rightarrow> False)
            \<or> c_deadline c (w_step w')
         then (huma_error 504 ''authentication deadline exceeded'', w')
         else case r of
           Inl e \<Rightarrow>
             if \<not> errors_is e (Sentinel ErrUnauthorized)
             then (huma_error 503 ''authentication service unavailable'', w')
             else (session_invalid, w')
         | Inr p \<Rightarrow>
             if Subject p = '''' then (session_invalid, w')
             else (let (resp, w'') = next' (WithPrincipal c p) w'
                   in (resp\<lparr>rs_headers := (''Cache-Control'', ''no-store'') # rs_headers resp\<rparr>, w'')))"

text \<open>
  \<^verbatim>\<open>module(...).bind\<close>: the policy of a route decides whether the middleware stands in front;
  an unknown policy panics at start-up (\<^const>\<open>None\<close>).
\<close>

definition bind_route ::
  "(ctx \<Rightarrow> string \<Rightarrow> Principal act) \<Rightarrow> ('i, 'd) endpoint
     \<Rightarrow> (ctx \<Rightarrow> string \<Rightarrow> 'i \<Rightarrow> world \<Rightarrow> 'd response \<times> world) option" where
  "bind_route authenticate e =
     (if Policy e = Session
      then Some (\<lambda>c header input. Middleware authenticate c header (\<lambda>c'. Bind e c' input))
      else if Policy e = Public then Some (\<lambda>c header input. Bind e c input)
      else None)"

subsection \<open>The request envelope\<close>

definition first_index :: "char \<Rightarrow> string \<Rightarrow> nat option" where
  "first_index ch s =
     (if List.member s ch then Some (length (takeWhile (\<lambda>x. x \<noteq> ch) s)) else None)"

definition last_index :: "char \<Rightarrow> string \<Rightarrow> nat option" where
  "last_index ch s = map_option (\<lambda>i. length s - 1 - i) (first_index ch (rev s))"

text \<open>\<^verbatim>\<open>net.SplitHostPort\<close>; \<^const>\<open>None\<close> is its error, with which host and port are empty.\<close>

definition SplitHostPort :: "string \<Rightarrow> (string \<times> string) option" where
  "SplitHostPort hp =
     (case last_index CHR '':'' hp of
        None \<Rightarrow> None
      | Some i \<Rightarrow>
          if hd hp = CHR ''['' then
            (case first_index CHR '']'' hp of
               None \<Rightarrow> None
             | Some e \<Rightarrow>
                 if e + 1 \<noteq> i then None
                 else if CHR ''['' \<in> set (drop 1 hp) \<or> CHR '']'' \<in> set (drop (e + 1) hp) then None
                 else Some (take (e - 1) (drop 1 hp), drop (i + 1) hp))
          else if CHR '':'' \<in> set (take i hp) then None
          else if CHR ''['' \<in> set hp \<or> CHR '']'' \<in> set hp then None
          else Some (take i hp, drop (i + 1) hp))"

datatype 'd served = Served "'d response" | Panicked "'d response option" \<comment> \<open>written before\<close>

text \<open>
  \<^verbatim>\<open>Requests\<close>: a fresh request identifier, the two fixed headers, the metadata of the
  context, and recovery from a panic (a 500 unless a status had been written already).
\<close>

definition Requests ::
  "env \<Rightarrow> (nat \<Rightarrow> bool) \<Rightarrow> string \<Rightarrow> (ctx \<Rightarrow> world \<Rightarrow> 'd served \<times> world)
     \<Rightarrow> world \<Rightarrow> 'd response \<times> world" where
  "Requests cx deadline remoteAddr next' w =
     (let requestID = e_id cx (w_seed w);
          w1 = w\<lparr>w_seed := Suc (w_seed w)\<rparr>;
          ip = (case SplitHostPort remoteAddr of None \<Rightarrow> '''' | Some (host, _) \<Rightarrow> host);
          c = \<lparr>c_principal = None, c_meta = Some \<lparr>rm_ID = requestID, rm_ClientIP = ip\<rparr>,
               c_deadline = deadline\<rparr>;
          (out, w2) = next' c w1;
          resp = (case out of
                    Served r \<Rightarrow> r
                  | Panicked (Some r) \<Rightarrow> r
                  | Panicked None \<Rightarrow> Problem 500 ''internal server error'')
      in (resp\<lparr>rs_headers := [(''X-Request-ID'', requestID), (''X-Content-Type-Options'', ''nosniff'')]
                 @ rs_headers resp\<rparr>, w2))"

subsection \<open>Health\<close>

definition liveness :: "goerr option \<Rightarrow> goerr + string" where
  "liveness _ = Inr ''ok''"

definition readiness :: "goerr option \<Rightarrow> goerr + string" where
  "readiness ready =
     (case ready of
        Some _ \<Rightarrow> Inl (StatusError 503 ''service not ready'' [])
      | None \<Rightarrow> Inr ''ok'')"

definition HealthRoutes :: "Operation option list" where
  "HealthRoutes =
     [NewOperation Public ((spec ''liveness'' ''GET'' ''/health/live'')\<lparr>op_Tags := [''Health'']\<rparr>),
      NewOperation Public ((spec ''readiness'' ''GET'' ''/health/ready'')
        \<lparr>op_Tags := [''Health''], op_Errors := [503]\<rparr>)]"

subsection \<open>What the responses disclose\<close>

text \<open>
  The reason codes: a log line names one of these, and a SQLSTATE of five upper-case
  alphanumerics, whatever the error's texts are.
\<close>

definition reason_codes :: "string list" where
  "reason_codes = [''canceled'', ''deadline_exceeded'', ''database_error'', ''network_timeout'',
     ''network_error'', ''connection_closed'', ''not_found'', ''conflict'', ''invalid_input'',
     ''unauthenticated'', ''dependency_unavailable'', ''forbidden'', ''rate_limited'', ''internal_error'']"

lemma diagnostic_reason_safe:
  "fst (diagnostic_reason e) \<in> set reason_codes
   \<and> (snd (diagnostic_reason e) = '''' \<or> validSQLState (snd (diagnostic_reason e)))"
  using kind_reason_mem
  by (fastforce simp: diagnostic_reason_def reason_codes_def split: option.split)

lemma FromError_deadline:
  "as_business e = None \<Longrightarrow> as_status e = None \<Longrightarrow> errors_is e (Sentinel DeadlineExceeded) \<Longrightarrow>
     rs_status (fst (FromError dl e)) = 504"
  by (simp add: FromError_def InternalError_def huma_error_def)

lemma Fields_two: "length (Fields s) = 2 \<Longrightarrow> Fields s ! 1 \<noteq> ''''"
  using Fields_nonempty [of "Fields s ! 1" s] nth_mem [of 1 "Fields s"] by fastforce

lemma contract_Some:
  "contract o' = Some c \<longleftrightarrow>
     op_Security o' = None \<and>
     ((op_policy o' = Public \<and> c = o')
      \<or> (op_policy o' = Session \<and> c = o'\<lparr>op_Security := Some [[(Session, [])]]\<rparr>))"
  by (auto simp: contract_def Public_def Session_def)

lemma Endpoint_policy:
  "Endpoint op h = Some e \<Longrightarrow> ep_operation e = op \<and> ep_handle e = h \<and> Policy e \<in> {Public, Session}"
  by (auto simp: Endpoint_def Policy_def contract_Some split: option.splits)

definition disclosed :: "goerr \<Rightarrow> string \<Rightarrow> bool" where
  "disclosed e detail \<longleftrightarrow> detail \<in> {''request deadline exceeded'', ''internal server error''}
     \<or> (\<exists>b. as_business e = Some b \<and> detail = ae_message b)
     \<or> (\<exists>status errs. as_status e = Some (status, detail, errs))"

definition safe_log :: "log_entry \<Rightarrow> bool" where
  "safe_log l \<longleftrightarrow> fst l \<in> {''operation failed'', ''dependency unavailable''}
     \<and> (\<forall>(k, v) \<in> set (snd l). (k, v) = (''stage'', ''handle_request'')
          \<or> (k = ''reason_code'' \<and> v \<in> set reason_codes) \<or> (k = ''sqlstate'' \<and> validSQLState v))"

lemma safe_logFailure:
  "m \<in> {''operation failed'', ''dependency unavailable''} \<Longrightarrow> safe_log (logFailure ''handle_request'' m e)"
  using diagnostic_reason_safe [of e]
  by (cases "diagnostic_reason e") (auto simp: safe_log_def logFailure_def DiagnosticAttrs_def)

text \<open>
  C40.  What a client and a log learn from a failed call: the response carries the public message
  of a classified business error, the text of an error the HTTP layer itself declared, or one of two
  fixed messages; field errors are replaced by one generic entry; every log attribute is the stage,
  a fixed reason code, or a well-formed SQLSTATE.  No other text of the error escapes.
\<close>

theorem errors_disclose_nothing_else:
  fixes r :: "'d response \<times> log_entry list"
  assumes "r = FromError dl e"
  shows "(\<exists>detail errs. rs_body (sanitizeErrors (fst r)) = ProblemBody detail errs
      \<and> disclosed e detail \<and> errs \<in> {[], [''request validation failed'']})
   \<and> (\<forall>l \<in> set (snd r). safe_log l)"
proof -
  let ?i = "InternalError dl e :: 'd response \<times> log_entry list"
  have i: "fst ?i = huma_error 504 ''request deadline exceeded''
      \<or> fst ?i = huma_error 500 ''internal server error''"
    by (auto simp: InternalError_def)
  have l: "\<forall>l \<in> set (snd ?i). safe_log l"
    by (auto simp: InternalError_def intro: safe_logFailure)
  show ?thesis
  proof (cases "as_business e")
    case None
    show ?thesis
    proof (cases "as_status e")
      case None
      then show ?thesis using i l \<open>as_business e = None\<close>
        by (auto simp: assms FromError_def sanitizeErrors_def huma_error_def disclosed_def)
    next
      case (Some t)
      then show ?thesis using \<open>as_business e = None\<close>
        by (cases t) (auto simp: assms FromError_def sanitizeErrors_def disclosed_def)
    qed
  next
    case (Some b)
    then show ?thesis using i l
      by (cases "ae_kind b"; cases "RetryAfter e")
        (auto simp: assms FromError_def sanitizeErrors_def huma_error_def disclosed_def
          intro: safe_logFailure split: bool.split)
  qed
qed

theorem errors_disclose_nothing_else_witness:
  "list_all safe_log (snd (FromError False (Plain ''password=hunter2'') :: unit response \<times> log_entry list))"
  unfolding list_all_iff using errors_disclose_nothing_else [OF refl] by blast

text \<open>
  Classification: each kind of business error has its own status, unclassified errors are
  500, or 504 once the deadline has passed; a rate-limit error carries its delay rounded up to whole
  seconds, at least one.
\<close>

theorem error_status:
  fixes r :: "'d response \<times> log_entry list"
  assumes "as_business e = Some b" and "r = FromError dl e"
  shows "rs_status (fst r) =
       (case ae_kind b of NotFound \<Rightarrow> 404 | Conflict \<Rightarrow> 409 | Invalid \<Rightarrow> 422 | Unauthenticated \<Rightarrow> 401
        | Forbidden \<Rightarrow> 403 | RateLimited \<Rightarrow> 429 | Unavailable \<Rightarrow> 503
        | OtherKind k \<Rightarrow> if errors_is e (Sentinel DeadlineExceeded) \<or> dl then 504 else 500)
     \<and> (ae_kind b = RateLimited \<longrightarrow>
          (\<forall>c d. e = RetryError c d \<longrightarrow> second \<le> d \<longrightarrow>
             rs_headers (fst r) = [(''Retry-After'', FormatInt (ceil_seconds d))]
             \<and> 1 \<le> ceil_seconds d \<and> (ceil_seconds d - 1) * second < d \<and> d \<le> ceil_seconds d * second))"
proof -
  note b = assms(1)
  have c: "1 \<le> ceil_seconds d \<and> (ceil_seconds d - 1) * second < d \<and> d \<le> ceil_seconds d * second"
    if "second \<le> d" for d
  proof -
    have "ceil_seconds d * second = d + (- d) mod second"
      using div_mult_mod_eq [of "- d" second] unfolding ceil_seconds_def mult_minus_left by linarith
    moreover have "0 \<le> (- d) mod second" "(- d) mod second < second" by simp_all
    ultimately have q: "(ceil_seconds d - 1) * second < d" "d \<le> ceil_seconds d * second"
      by (simp_all add: left_diff_distrib)
    have "0 < ceil_seconds d" using q(2) that second_pos by (smt (verit) mult_nonneg_nonneg mult_nonpos_nonneg)
    with q show ?thesis by simp
  qed
  show ?thesis using b c
    by (cases "ae_kind b"; cases "RetryAfter e")
      (auto simp: assms(2) FromError_def huma_error_def InternalError_def RetryAfter_def split: bool.split)
qed

theorem error_status_witness:
  "let e = RetryError (Business (AppError RateLimited ''slow down'')) (90 * second)
   in rs_status (fst (FromError False e :: unit response \<times> log_entry list)) = 429 \<and> 1 \<le> ceil_seconds (90 * second)"
proof -
  let ?e = "RetryError (Business (AppError RateLimited ''slow down'')) (90 * second)"
  have b: "as_business ?e = Some (AppError RateLimited ''slow down'')" by simp
  have "second \<le> 90 * second" using second_pos by linarith
  with error_status [OF b refl, where ?'d = unit and dl = False] show ?thesis by (simp add: Let_def)
qed

text \<open>
  The service behind a bearer route runs only for an authenticated subject: if the header does
  not parse, or the authenticator does not return a principal with a subject, the answer is 401, 503
  or 504 and the world is the one the authenticator left; otherwise the handler sees exactly the
  principal that was returned.
\<close>

theorem bearer_route_guarded:
  assumes "Policy e = Session" and "bind_route authenticate e = Some run"
  shows "(\<exists>raw p w1. bearer header = (raw, True) \<and> authenticate c raw w = (Inr p, w1) \<and> Subject p \<noteq> ''''
      \<and> \<not> c_deadline c (w_step w1)
      \<and> snd (run c header input w) = snd (Bind e (WithPrincipal c p) input w1)
      \<and> identity_Subject (WithPrincipal c p) = Subject p)
    \<or> (rs_status (fst (run c header input w)) \<in> {401, 503, 504}
       \<and> snd (run c header input w) \<in> {w, snd (authenticate c (fst (bearer header)) w)})"
proof -
  have run: "run = (\<lambda>c header input. Middleware authenticate c header (\<lambda>c'. Bind e c' input))"
    using assms by (simp add: bind_route_def)
  obtain raw ok where h: "bearer header = (raw, ok)" by force
  obtain r w1 where a: "(if ok then authenticate c raw w else (Inl (Sentinel ErrUnauthorized), w)) = (r, w1)" by force
  obtain resp w2 where n: "Bind e (WithPrincipal c (projr r)) input w1 = (resp, w2)" by force
  show ?thesis
  proof (cases "\<exists>p. r = Inr p \<and> Subject p \<noteq> '''' \<and> \<not> c_deadline c (w_step w1)")
    case True
    then obtain p where p: "r = Inr p" "Subject p \<noteq> ''''" "\<not> c_deadline c (w_step w1)" by blast
    then have "ok" "authenticate c raw w = (Inr p, w1)" using a by (auto split: if_splits)
    with h p n show ?thesis
      by (intro disjI1 exI [of _ raw] exI [of _ p] exI [of _ w1])
        (simp add: run Middleware_def identity_Subject_def Current_def WithPrincipal_def)
  next
    case False
    have w1: "w1 \<in> {w, snd (authenticate c (fst (bearer header)) w)}" using a h by (auto split: if_splits)
    have "rs_status (fst (run c header input w)) \<in> {401, 503, 504} \<and> snd (run c header input w) = w1"
      using False h a by (cases r) (auto simp: run Middleware_def session_invalid_def huma_error_def)
    with w1 show ?thesis by blast
  qed
qed

theorem bearer_route_guarded_witness:
  "let e = \<lparr>ep_operation = (spec ''get'' ''GET'' ''/x'')\<lparr>op_policy := Session\<rparr>,
            ep_handle = (\<lambda>c (i :: unit). ret ([], Body (identity_Subject c)))\<rparr>;
       c = \<lparr>c_principal = None, c_meta = None, c_deadline = (\<lambda>_. False)\<rparr>
   in \<exists>run. bind_route (\<lambda>c raw. fail (Sentinel ErrUnauthorized)) e = Some run
        \<and> rs_status (fst (run c ''Bearer'' () (start empty_db))) \<in> {401, 503, 504}"
proof -
  let ?e = "\<lparr>ep_operation = (spec ''get'' ''GET'' ''/x'')\<lparr>op_policy := Session\<rparr>,
            ep_handle = (\<lambda>c (i :: unit). ret ([], Body (identity_Subject c)))\<rparr>"
  let ?c = "\<lparr>c_principal = None, c_meta = None, c_deadline = (\<lambda>_. False)\<rparr>"
  let ?a = "\<lambda>(c :: ctx) (raw :: string). fail (Sentinel ErrUnauthorized) :: Principal act"
  have p: "Policy ?e = Session" by (simp add: Policy_def)
  obtain run where r: "bind_route ?a ?e = Some run" using p by (simp add: bind_route_def)
  from bearer_route_guarded [OF p r, where header = "''Bearer''" and c = ?c and w = "start empty_db" and input = "()"]
  have "rs_status (fst (run ?c ''Bearer'' () (start empty_db))) \<in> {401, 503, 504}" by (simp add: fail_def)
  with r show ?thesis by auto
qed

end
