(* ===== verification/Federation.thy ===== *)
theory Federation
  imports Account_Auth Http_Api
begin

text \<open>
  \<^verbatim>\<open>internal/platform/federation\<close>: the registry of trusted identity providers and the proof of
  an external identity.  \<^verbatim>\<open>golang.org/x/oauth2\<close>, the HTTP exchange, \<^verbatim>\<open>net/url.Parse\<close> and the
  decoding of the provider's JSON are the parameter record \<open>oauth\<close>; a function that goes over the
  network takes the number of the call.  \<open>cerr n\<close> is \<^verbatim>\<open>ctx.Err()\<close> at the call's \<open>n\<close>-th look
  at its context.
\<close>

subsection \<open>Data\<close>

definition ProtocolGitHub :: string where
  "ProtocolGitHub = ''github''"

definition Protocol_Valid :: "string \<Rightarrow> bool" where
  "Protocol_Valid p \<longleftrightarrow> p = ProtocolGitHub"

definition maxAuthorizationCodeBytes :: nat where
  "maxAuthorizationCodeBytes = push_bit 10 8"

definition maxUserResponseBytes :: nat where
  "maxUserResponseBytes = push_bit 20 1"

definition githubIdentityNamespace :: string where
  "githubIdentityNamespace = ''https://api.github.com''"

definition githubUserEndpoint :: string where
  "githubUserEndpoint = githubIdentityNamespace @ ''/user''"

record fed_Config =
  fc_ID :: string
  fc_Protocol :: string
  fc_ClientID :: string
  fc_ClientSecret :: string
  fc_ClientSecretFile :: string
  fc_RedirectURI :: string

record Verified =
  vd_Namespace :: string
  vd_Subject :: string
  vd_Name :: string

record githubUserResponse =
  gu_ID :: "64 word"
  gu_Login :: string

record provider =
  pr_config :: fed_Config
  pr_version :: string

type_synonym registry = "string \<Rightarrow> provider option"

record oauth2_Config =
  oa_ClientID :: string
  oa_ClientSecret :: string
  oa_RedirectURL :: string
  oa_AuthURL :: string
  oa_TokenURL :: string
  oa_Scopes :: "string list"

text \<open>
  A failed exchange: an \<^verbatim>\<open>oauth2.RetrieveError\<close> with the status of its response (if any) and its
  error code, or any other error.
\<close>

datatype exchange_failure = RetrieveError "int option" string goerr | OtherFailure goerr

fun failure_error :: "exchange_failure \<Rightarrow> goerr" where
  "failure_error (RetrieveError status code e) = e"
| "failure_error (OtherFailure e) = e"

record url =
  url_Scheme :: string
  url_Host :: string
  url_User :: bool \<comment> \<open>not nil\<close>
  url_Fragment :: string

record oauth =
  o_parse_url :: "string \<Rightarrow> url option"
  o_AuthCodeURL :: "oauth2_Config \<Rightarrow> string \<Rightarrow> string \<Rightarrow> string" \<comment> \<open>state, verifier\<close>
  o_Exchange :: "nat \<Rightarrow> oauth2_Config \<Rightarrow> string \<Rightarrow> string \<Rightarrow> exchange_failure + string" \<comment> \<open>code, verifier; access token\<close>
  o_Do :: "nat \<Rightarrow> string \<Rightarrow> (string \<times> string) list \<Rightarrow> goerr + int \<times> string" \<comment> \<open>GET: status and body\<close>
  o_Decode :: "string \<Rightarrow> goerr + githubUserResponse"

subsection \<open>The registry\<close>

definition lower_letter :: "char \<Rightarrow> bool" where
  "lower_letter ch \<longleftrightarrow> (let b = (of_char ch :: nat) in 97 \<le> b \<and> b \<le> 122)"

definition id_char :: "char \<Rightarrow> bool" where
  "id_char ch \<longleftrightarrow> (let b = (of_char ch :: nat) in (97 \<le> b \<and> b \<le> 122) \<or> (48 \<le> b \<and> b \<le> 57) \<or> b = 95 \<or> b = 45)"

text \<open>The regular expression \<^verbatim>\<open>^[a-z][a-z0-9_-]{0,63}$\<close>.\<close>

definition validID :: "string \<Rightarrow> bool" where
  "validID s \<longleftrightarrow> s \<noteq> [] \<and> lower_letter (hd s) \<and> length (tl s) \<le> 63 \<and> list_all id_char (tl s)"

definition validURL :: "oauth \<Rightarrow> string \<Rightarrow> bool" where
  "validURL ox raw =
     (case o_parse_url ox raw of
        None \<Rightarrow> False
      | Some u \<Rightarrow> url_Host u \<noteq> '''' \<and> \<not> url_User u \<and> url_Fragment u = '''' \<and> url_Scheme u = ''https'')"

definition json_fields :: "(string \<times> string) list \<Rightarrow> string" where
  "json_fields fs = ''{'' @ Join (map (\<lambda>(k, v). json_string k @ '':'' @ json_string v) fs) '','' @ ''}''"

definition marshal_config :: "fed_Config \<Rightarrow> string" where
  "marshal_config c = json_fields [(''id'', fc_ID c), (''protocol'', fc_Protocol c), (''client_id'', fc_ClientID c),
     (''client_secret_file'', fc_ClientSecretFile c), (''redirect_uri'', fc_RedirectURI c)]"

definition hex_EncodeToString :: "string \<Rightarrow> string" where
  "hex_EncodeToString s = of_bytes (concat (map (\<lambda>b. [json_hex (b div 16), json_hex (b mod 16)]) (bytes s)))"

definition config_valid :: "oauth \<Rightarrow> registry \<Rightarrow> fed_Config \<Rightarrow> bool" where
  "config_valid ox r c \<longleftrightarrow> \<not> (\<not> validID (fc_ID c) \<or> fc_ID c = ''credential'' \<or> fc_ID c = ''callback'' \<or> r (fc_ID c) \<noteq> None
     \<or> fc_ClientID c = '''' \<or> fc_ClientSecret c = '''' \<or> \<not> validURL ox (fc_RedirectURI c))"

definition config_version :: "(string \<Rightarrow> string) \<Rightarrow> fed_Config \<Rightarrow> string" where
  "config_version sha256 c = hex_EncodeToString (sha256 (marshal_config c @ fc_ClientSecret c))"

fun New_loop :: "oauth \<Rightarrow> (string \<Rightarrow> string) \<Rightarrow> fed_Config list \<Rightarrow> registry \<Rightarrow> goerr + registry" where
  "New_loop ox sha256 [] r = Inr r"
| "New_loop ox sha256 (c # cs) r =
     (if \<not> config_valid ox r c then Inl (Plain (utf8 [0x63d0, 0x4f9b, 0x5546, 0x914d, 0x7f6e, 0x65e0, 0x6548]))
      else if \<not> Protocol_Valid (fc_Protocol c) then Inl (Plain (utf8 [0x63d0, 0x4f9b, 0x5546, 0x534f, 0x8bae, 0x65e0, 0x6548]))
      else New_loop ox sha256 cs (r(fc_ID c \<mapsto> \<lparr>pr_config = c, pr_version = config_version sha256 c\<rparr>)))"

definition federation_New :: "oauth \<Rightarrow> (string \<Rightarrow> string) \<Rightarrow> fed_Config list \<Rightarrow> goerr + registry" where
  "federation_New ox sha256 configs = New_loop ox sha256 configs Map.empty"

definition Enabled :: "registry \<Rightarrow> string \<Rightarrow> bool" where
  "Enabled r i \<longleftrightarrow> r i \<noteq> None"

definition Version :: "registry \<Rightarrow> string \<Rightarrow> string" where
  "Version r i = (case r i of Some p \<Rightarrow> pr_version p | None \<Rightarrow> '''')"

definition configuration :: "registry \<Rightarrow> string \<Rightarrow> goerr + provider \<times> oauth2_Config" where
  "configuration r i =
     (case r i of
        None \<Rightarrow> Inl (Sentinel FederationErrProof)
      | Some p \<Rightarrow> Inr (p, \<lparr>oa_ClientID = fc_ClientID (pr_config p), oa_ClientSecret = fc_ClientSecret (pr_config p),
          oa_RedirectURL = fc_RedirectURI (pr_config p), oa_AuthURL = ''https://github.com/login/oauth/authorize'',
          oa_TokenURL = ''https://github.com/login/oauth/access_token'', oa_Scopes = [''read:user'']\<rparr>))"

subsection \<open>Start and Verify\<close>

definition registry_Start ::
  "oauth \<Rightarrow> registry \<Rightarrow> (nat \<Rightarrow> goerr option) \<Rightarrow> string \<Rightarrow> string \<Rightarrow> string \<Rightarrow> goerr + string \<times> string" where
  "registry_Start ox r cerr i state verifier =
     (case cerr 0 of
        Some e \<Rightarrow> Inl e
      | None \<Rightarrow>
          (case configuration r i of
             Inl e \<Rightarrow> Inl e
           | Inr (p, c) \<Rightarrow> Inr (o_AuthCodeURL ox c state verifier, pr_version p)))"

text \<open>\<^verbatim>\<open>unavailableCause\<close> unwraps to the sentinel and the cause.\<close>

definition unavailableCause :: "goerr \<Rightarrow> goerr" where
  "unavailableCause cause = Wrapped '''' [Sentinel FederationErrUnavailable, cause]"

definition dependencyError :: "goerr option \<Rightarrow> goerr \<Rightarrow> goerr" where
  "dependencyError ctxErr err = (case ctxErr of Some e \<Rightarrow> e | None \<Rightarrow> unavailableCause err)"

definition exchangeError :: "goerr option \<Rightarrow> exchange_failure \<Rightarrow> goerr" where
  "exchangeError ctxErr err =
     (case ctxErr of
        Some e \<Rightarrow> e
      | None \<Rightarrow>
          (case err of
             RetrieveError status code e \<Rightarrow>
               if (case status of Some n \<Rightarrow> n \<ge> 500 \<or> n = 429 | None \<Rightarrow> False) then dependencyError ctxErr e
               else if code \<in> {''invalid_grant'', ''bad_verification_code'', ''access_denied''}
               then Sentinel FederationErrProof
               else dependencyError ctxErr e
           | OtherFailure e \<Rightarrow> dependencyError ctxErr e))"

definition user_headers :: "string \<Rightarrow> (string \<times> string) list" where
  "user_headers token = [(''Authorization'', ''Bearer '' @ token), (''Accept'', ''application/vnd.github+json'')]"

text \<open>The endpoint is a constant well-formed address, for which \<^verbatim>\<open>http.NewRequestWithContext\<close> does not fail.\<close>

definition github_user ::
  "oauth \<Rightarrow> nat \<Rightarrow> (nat \<Rightarrow> goerr option) \<Rightarrow> string \<Rightarrow> goerr + Verified" where
  "github_user ox n cerr token =
     (case o_Do ox n githubUserEndpoint (user_headers token) of
        Inl e \<Rightarrow> Inl (dependencyError (cerr 1) e)
      | Inr (status, body) \<Rightarrow>
          if status = 401 then Inl (Sentinel FederationErrProof)
          else if status \<noteq> 200 then Inl (Sentinel FederationErrUnavailable)
          else case o_Decode ox (take maxUserResponseBytes body) of
            Inl e \<Rightarrow> Inl (dependencyError (cerr 2) e)
          | Inr user \<Rightarrow>
              if sint (gu_ID user) \<le> 0 then Inl (Sentinel FederationErrUnavailable)
              else Inr \<lparr>vd_Namespace = githubIdentityNamespace, vd_Subject = FormatInt (sint (gu_ID user)),
                vd_Name = gu_Login user\<rparr>)"

definition registry_Verify ::
  "oauth \<Rightarrow> registry \<Rightarrow> nat \<Rightarrow> (nat \<Rightarrow> goerr option) \<Rightarrow> string \<Rightarrow> string \<Rightarrow> string \<Rightarrow> string \<Rightarrow> goerr + Verified" where
  "registry_Verify ox r n cerr i version code verifier =
     (case configuration r i of
        Inl e \<Rightarrow> Inl e
      | Inr (p, c) \<Rightarrow>
          if pr_version p \<noteq> version \<or> code = '''' \<or> length code > maxAuthorizationCodeBytes
          then Inl (Sentinel FederationErrProof)
          else case o_Exchange ox n c code verifier of
            Inl failure \<Rightarrow> Inl (exchangeError (cerr 0) failure)
          | Inr token \<Rightarrow> github_user ox n cerr token)"

subsection \<open>Facts about the registry\<close>

lemma New_loop_iff:
  "New_loop ox h cs r = Inr r' \<longleftrightarrow>
     distinct (map fc_ID cs) \<and> (\<forall>c \<in> set cs. config_valid ox r c \<and> Protocol_Valid (fc_Protocol c))
     \<and> r' = r ++ map_of (map (\<lambda>c. (fc_ID c, \<lparr>pr_config = c, pr_version = config_version h c\<rparr>)) cs)"
proof (induction cs arbitrary: r)
  case (Cons c cs)
  let ?p = "\<lambda>c. \<lparr>pr_config = c, pr_version = config_version h c\<rparr>"
  let ?m = "map_of (map (\<lambda>c. (fc_ID c, ?p c)) cs)"
  obtain u where u: "u = r(fc_ID c \<mapsto> ?p c)" by blast
  have v: "config_valid ox u c' \<longleftrightarrow> config_valid ox r c' \<and> fc_ID c' \<noteq> fc_ID c" for c'
    by (auto simp: u config_valid_def)
  have m: "u ++ ?m = r ++ map_of (map (\<lambda>c. (fc_ID c, ?p c)) (c # cs))" if "fc_ID c \<notin> fc_ID ` set cs"
    using that by (simp add: u map_add_upd_left dom_map_of_conv_image_fst image_image)
  have "New_loop ox h (c # cs) r = Inr r' \<longleftrightarrow>
      config_valid ox r c \<and> Protocol_Valid (fc_Protocol c) \<and> New_loop ox h cs u = Inr r'"
    by (simp add: u)
  also have "\<dots> \<longleftrightarrow> config_valid ox r c \<and> Protocol_Valid (fc_Protocol c) \<and> fc_ID c \<notin> fc_ID ` set cs \<and> distinct (map fc_ID cs)
      \<and> (\<forall>c \<in> set cs. config_valid ox r c \<and> Protocol_Valid (fc_Protocol c)) \<and> r' = u ++ ?m"
    unfolding Cons.IH v by (auto simp: image_iff)
  finally have e: "New_loop ox h (c # cs) r = Inr r' \<longleftrightarrow> config_valid ox r c \<and> Protocol_Valid (fc_Protocol c)
      \<and> fc_ID c \<notin> fc_ID ` set cs \<and> distinct (map fc_ID cs)
      \<and> (\<forall>c \<in> set cs. config_valid ox r c \<and> Protocol_Valid (fc_Protocol c)) \<and> r' = u ++ ?m" .
  obtain w where w: "w = map_of (map (\<lambda>c. (fc_ID c, ?p c)) (c # cs))" by blast
  show ?case unfolding e w [symmetric] using m [folded w] by auto
qed auto

lemma New_provider:
  assumes "federation_New ox h configs = Inr r"
  shows "r i = Some p \<longleftrightarrow> (\<exists>c \<in> set configs. fc_ID c = i \<and> p = \<lparr>pr_config = c, pr_version = config_version h c\<rparr>)"
proof -
  let ?l = "map (\<lambda>c. (fc_ID c, \<lparr>pr_config = c, pr_version = config_version h c\<rparr>)) configs"
  have "r = map_of ?l" and "distinct (map fst ?l)"
    using assms by (simp_all add: federation_New_def New_loop_iff comp_def)
  then have "r i = Some p \<longleftrightarrow> (i, p) \<in> set ?l" by simp
  then show ?thesis by auto
qed

text \<open>
  C33.  The registry accepts a list of providers exactly when their names are well formed, distinct
  and not reserved, their clients complete, their callbacks plain \<^verbatim>\<open>https\<close> addresses and their
  protocol known; it then knows exactly these providers, each with the version of its own
  configuration.
\<close>

theorem registry_exact:
  "((\<exists>r. federation_New ox h configs = Inr r) \<longleftrightarrow>
     distinct (map fc_ID configs) \<and> (\<forall>c \<in> set configs. config_valid ox Map.empty c \<and> Protocol_Valid (fc_Protocol c)))
   \<and> (\<forall>r. federation_New ox h configs = Inr r \<longrightarrow>
     (\<forall>i. Enabled r i \<longleftrightarrow> (\<exists>c \<in> set configs. fc_ID c = i))
     \<and> (\<forall>c \<in> set configs. Version r (fc_ID c) = config_version h c)
     \<and> \<not> Enabled r ''credential'' \<and> \<not> Enabled r ''callback'')"
proof (intro conjI allI impI)
  show "(\<exists>r. federation_New ox h configs = Inr r) \<longleftrightarrow>
     distinct (map fc_ID configs) \<and> (\<forall>c \<in> set configs. config_valid ox Map.empty c \<and> Protocol_Valid (fc_Protocol c))"
    by (auto simp: federation_New_def New_loop_iff)
next
  fix r i assume r: "federation_New ox h configs = Inr r"
  have e: "Enabled r i \<longleftrightarrow> (\<exists>c \<in> set configs. fc_ID c = i)" for i
    using New_provider [OF r, of i] by (auto simp: Enabled_def)
  then show "Enabled r i \<longleftrightarrow> (\<exists>c \<in> set configs. fc_ID c = i)" .
  have "r (fc_ID c) = Some \<lparr>pr_config = c, pr_version = config_version h c\<rparr>" if "c \<in> set configs" for c
    using New_provider [OF r] that by blast
  then show "\<forall>c \<in> set configs. Version r (fc_ID c) = config_version h c" by (simp add: Version_def)
  have "\<forall>c \<in> set configs. fc_ID c \<noteq> ''credential'' \<and> fc_ID c \<noteq> ''callback''"
    using r by (auto simp: federation_New_def New_loop_iff config_valid_def)
  then show "\<not> Enabled r ''credential''" "\<not> Enabled r ''callback''" using e by blast+
qed

subsection \<open>Decimal numbers\<close>

definition decimal_value :: "string \<Rightarrow> nat" where
  "decimal_value s = foldl (\<lambda>n b. 10 * n + (b - 48)) 0 (bytes s)"

lemma bytes_digit: "d < 10 \<Longrightarrow> bytes (of_bytes [48 + d]) = [48 + d]"
  by (intro bytes_of_bytes) simp

lemma bytes_append: "bytes (s @ t) = bytes s @ bytes t"
  by (simp add: bytes_def)

lemma decimal_value_decimal [simp]: "decimal_value (decimal n) = n"
proof (induction n rule: decimal.induct)
  case (1 n)
  have "n mod 10 < 10" by simp
  with 1 show ?case
    by (cases "n < 10") (simp_all add: decimal.simps [of n] decimal_value_def bytes_digit bytes_append del: of_bytes_def)
qed

lemma decimal_inj [simp]: "decimal m = decimal n \<longleftrightarrow> m = n"
  by (metis decimal_value_decimal)

lemma decimal_nonempty [simp]: "decimal n \<noteq> []"
  by (simp add: decimal.simps [of n] of_bytes_def)

lemma length_decimal: "n < 10 ^ Suc k \<Longrightarrow> length (decimal n) \<le> Suc k"
proof (induction k arbitrary: n)
  case 0
  then show ?case by (simp add: decimal.simps [of n] of_bytes_def)
next
  case (Suc k)
  then show ?case using Suc.IH [of "n div 10"] by (simp add: decimal.simps [of n] of_bytes_def)
qed

lemma sint_decimal: "nat (sint (x :: 64 word)) < 10 ^ 19"
  using sint_lt [of x] by simp

lemma FormatInt_sint:
  assumes "0 < sint (x :: 64 word)"
  shows "FormatInt (sint x) \<noteq> ''''" and "length (FormatInt (sint x)) \<le> 19"
    and "0 < sint (y :: 64 word) \<Longrightarrow> FormatInt (sint x) = FormatInt (sint y) \<Longrightarrow> x = y"
proof -
  show "FormatInt (sint x) \<noteq> ''''" using assms by (simp add: FormatInt_def)
  show "length (FormatInt (sint x)) \<le> 19" using assms length_decimal [of "nat (sint x)" 18] sint_decimal [of x]
    by (simp add: FormatInt_def)
  assume "0 < sint y" "FormatInt (sint x) = FormatInt (sint y)"
  then have "sint x = sint y" using assms by (simp add: FormatInt_def)
  then show "x = y" by (simp add: signed_word_eqI)
qed

subsection \<open>Proofs of identity\<close>

definition client_of :: "fed_Config \<Rightarrow> oauth2_Config" where
  "client_of c = \<lparr>oa_ClientID = fc_ClientID c, oa_ClientSecret = fc_ClientSecret c, oa_RedirectURL = fc_RedirectURI c,
     oa_AuthURL = ''https://github.com/login/oauth/authorize'', oa_TokenURL = ''https://github.com/login/oauth/access_token'',
     oa_Scopes = [''read:user'']\<rparr>"

lemma configuration_ok:
  assumes "federation_New ox h configs = Inr r"
  shows "configuration r i = Inr (p, oc) \<longleftrightarrow>
    (\<exists>c \<in> set configs. fc_ID c = i \<and> p = \<lparr>pr_config = c, pr_version = config_version h c\<rparr> \<and> oc = client_of c)"
proof -
  have "configuration r i = Inr (p, oc) \<longleftrightarrow> r i = Some p \<and> oc = client_of (pr_config p)"
    by (auto simp: configuration_def client_of_def split: option.splits)
  then show ?thesis unfolding New_provider [OF assms] by auto
qed

text \<open>
  C32.  An identity is proved only by a configured provider under the configuration the flow started
  with: the bounded code and the verifier were exchanged with the client of exactly that provider,
  the token obtained was answered with status 200 by the user endpoint, and the identity is the
  fixed namespace with the user's positive number in decimal, which no other user number shares.
\<close>

theorem identity_proved:
  assumes "federation_New ox h configs = Inr r" and "registry_Verify ox r n cerr i version code verifier = Inr v"
  shows "\<exists>c token body user. c \<in> set configs \<and> fc_ID c = i \<and> version = config_version h c
    \<and> code \<noteq> '''' \<and> length code \<le> maxAuthorizationCodeBytes
    \<and> o_Exchange ox n (client_of c) code verifier = Inr token
    \<and> o_Do ox n githubUserEndpoint (user_headers token) = Inr (200, body)
    \<and> o_Decode ox (take maxUserResponseBytes body) = Inr user \<and> 0 < sint (gu_ID user)
    \<and> v = \<lparr>vd_Namespace = githubIdentityNamespace, vd_Subject = FormatInt (sint (gu_ID user)), vd_Name = gu_Login user\<rparr>
    \<and> length (vd_Subject v) \<le> 19
    \<and> (\<forall>other :: 64 word. 0 < sint other \<longrightarrow> FormatInt (sint other) = vd_Subject v \<longrightarrow> other = gu_ID user)"
proof -
  obtain p oc where "configuration r i = Inr (p, oc)"
    using assms(2) by (auto simp: registry_Verify_def split: sum.splits)
  then obtain c where c: "c \<in> set configs" "fc_ID c = i" "p = \<lparr>pr_config = c, pr_version = config_version h c\<rparr>" "oc = client_of c"
    using configuration_ok [OF assms(1)] by blast
  then have conf: "configuration r i = Inr (\<lparr>pr_config = c, pr_version = config_version h c\<rparr>, client_of c)"
    using configuration_ok [OF assms(1)] by blast
  obtain token where t: "o_Exchange ox n (client_of c) code verifier = Inr token" "version = config_version h c" "code \<noteq> ''''"
      "length code \<le> maxAuthorizationCodeBytes" and g: "github_user ox n cerr token = Inr v"
    using assms(2) by (auto simp: registry_Verify_def conf split: sum.splits if_splits)
  obtain body user where b: "o_Do ox n githubUserEndpoint (user_headers token) = Inr (200, body)"
      "o_Decode ox (take maxUserResponseBytes body) = Inr user" "0 < sint (gu_ID user)"
      "v = \<lparr>vd_Namespace = githubIdentityNamespace, vd_Subject = FormatInt (sint (gu_ID user)), vd_Name = gu_Login user\<rparr>"
    using g by (auto simp: github_user_def split: sum.splits if_splits)
  show ?thesis using c(1,2) t b FormatInt_sint [OF b(3)]
    by (intro exI [of _ c] exI [of _ token] exI [of _ body] exI [of _ user]) (simp; metis FormatInt_sint(3))
qed

text \<open>
  Failures of a provider are classified: a call that fails reports an invalid proof, an
  unavailable provider, or what its own context says, and nothing else.  The libraries behind the calls
  know nothing of the program: their errors wrap no error of its own.
\<close>

definition foreign :: "goerr \<Rightarrow> bool" where
  "foreign e \<longleftrightarrow> (\<forall>x \<in> set (chain e). x \<noteq> Sentinel FederationErrProof \<and> (\<forall>b. x \<noteq> Business b))"

fun failure_cause :: "exchange_failure \<Rightarrow> goerr" where
  "failure_cause (RetrieveError status code e) = e"
| "failure_cause (OtherFailure e) = e"

definition oauth_law :: "oauth \<Rightarrow> bool" where
  "oauth_law ox \<longleftrightarrow>
     (\<forall>n c code verifier f. o_Exchange ox n c code verifier = Inl f \<longrightarrow> foreign (failure_cause f))
     \<and> (\<forall>n address headers e. o_Do ox n address headers = Inl e \<longrightarrow> foreign e)
     \<and> (\<forall>body e. o_Decode ox body = Inl e \<longrightarrow> foreign e)"

definition provider_failure :: "(nat \<Rightarrow> goerr option) \<Rightarrow> goerr \<Rightarrow> bool" where
  "provider_failure cerr e \<longleftrightarrow> e = Sentinel FederationErrProof \<or> e = Sentinel FederationErrUnavailable
     \<or> (\<exists>cause. foreign cause \<and> e = unavailableCause cause) \<or> (\<exists>k \<le> 2. cerr k = Some e)"

lemma provider_failure_sentinel [simp]:
  "provider_failure cerr (Sentinel FederationErrProof)" "provider_failure cerr (Sentinel FederationErrUnavailable)"
  by (simp_all add: provider_failure_def)

lemma context_failure: "cerr 0 = Some e \<Longrightarrow> provider_failure cerr e"
  unfolding provider_failure_def by (metis zero_le)

lemma dependencyError_failure: "k \<le> 2 \<Longrightarrow> foreign e \<Longrightarrow> provider_failure cerr (dependencyError (cerr k) e)"
  by (auto simp: dependencyError_def provider_failure_def split: option.split)

lemma exchangeError_failure: "foreign (failure_cause f) \<Longrightarrow> provider_failure cerr (exchangeError (cerr 0) f)"
proof (cases "cerr 0")
  case None
  moreover assume "foreign (failure_cause f)"
  ultimately show ?thesis using dependencyError_failure [of 0 _ cerr]
    by (cases f) (simp_all add: exchangeError_def)
next
  case (Some e)
  then show ?thesis using context_failure by (simp add: exchangeError_def)
qed

lemma github_user_failure:
  assumes "oauth_law ox" and "github_user ox n cerr token = Inl e"
  shows "provider_failure cerr e"
proof (cases "o_Do ox n githubUserEndpoint (user_headers token)")
  case (Inl e1)
  then have "foreign e1" using assms(1) unfolding oauth_law_def by blast
  then show ?thesis using dependencyError_failure [of 1 e1 cerr] assms(2) Inl by (simp add: github_user_def)
next
  case (Inr answer)
  obtain status body where a: "answer = (status, body)" by force
  show ?thesis
  proof (cases "o_Decode ox (take maxUserResponseBytes body)")
    case (Inl e1)
    then have "foreign e1" using assms(1) unfolding oauth_law_def by blast
    then show ?thesis using dependencyError_failure [of 2 e1 cerr] assms(2) Inl Inr by (auto simp: github_user_def a split: if_splits)
  qed (use assms(2) Inr in \<open>auto simp: github_user_def a split: if_splits\<close>)
qed

lemma configuration_failure: "configuration r i = Inl e \<Longrightarrow> provider_failure cerr e"
  by (auto simp: configuration_def split: option.splits)

lemma Verify_failure:
  assumes "oauth_law ox" and "registry_Verify ox r n cerr i version code verifier = Inl e"
  shows "provider_failure cerr e"
proof (cases "configuration r i")
  case (Inl e1)
  then show ?thesis using configuration_failure [OF Inl] assms(2) by (simp add: registry_Verify_def)
next
  case (Inr pc)
  obtain p c where pc: "pc = (p, c)" by force
  show ?thesis
  proof (cases "o_Exchange ox n c code verifier")
    case (Inl f)
    then have "foreign (failure_cause f)" using assms(1) unfolding oauth_law_def by blast
    then show ?thesis using exchangeError_failure [of f cerr] assms(2) Inl Inr by (auto simp: registry_Verify_def pc split: if_splits)
  next
    case (Inr token)
    then show ?thesis using github_user_failure [OF assms(1)] assms(2) \<open>configuration r i = Inr pc\<close>
      by (auto simp: registry_Verify_def pc split: if_splits)
  qed
qed

text \<open>A flow of a provider that is configured can only fail to start because its call has ended.\<close>

lemma Start_failure: "Enabled r i \<Longrightarrow> registry_Start ox r cerr i state verifier = Inl e \<Longrightarrow> cerr 0 = Some e"
  by (auto simp: registry_Start_def configuration_def Enabled_def split: option.splits)

subsection \<open>An example\<close>

definition example_provider :: fed_Config where
  "example_provider = \<lparr>fc_ID = ''github'', fc_Protocol = ''github'', fc_ClientID = ''client'', fc_ClientSecret = ''secret'',
     fc_ClientSecretFile = ''/run/secret'', fc_RedirectURI = ''https://web/callback''\<rparr>"

definition example_oauth :: oauth where
  "example_oauth = \<lparr>
     o_parse_url = (\<lambda>raw. Some \<lparr>url_Scheme = if raw = ''db'' then ''postgres'' else ''https'', url_Host = ''web'',
       url_User = False, url_Fragment = ''''\<rparr>),
     o_AuthCodeURL = (\<lambda>c state verifier. ''https://github.com/login/oauth/authorize?state='' @ state),
     o_Exchange = (\<lambda>n c code verifier. if code = ''good'' then Inr ''token''
       else Inl (RetrieveError (Some 400) ''bad_verification_code'' (Plain ''rejected''))),
     o_Do = (\<lambda>n address headers. Inr (200, ''{}'')),
     o_Decode = (\<lambda>body. Inr \<lparr>gu_ID = 42, gu_Login = ''octocat''\<rparr>)\<rparr>"

lemma example_registry:
  "\<exists>r. federation_New example_oauth h [example_provider] = Inr r \<and> configuration r ''github''
     = Inr (\<lparr>pr_config = example_provider, pr_version = config_version h example_provider\<rparr>, client_of example_provider)"
  by (simp add: federation_New_def config_valid_def validID_def lower_letter_def id_char_def validURL_def Protocol_Valid_def
      ProtocolGitHub_def configuration_def client_of_def example_provider_def example_oauth_def Let_def)

lemma example_identity:
  assumes "federation_New example_oauth h [example_provider] = Inr r"
  shows "registry_Verify example_oauth r 0 (\<lambda>_. None) ''github'' (config_version h example_provider) ''good'' ''verifier''
     = Inr \<lparr>vd_Namespace = githubIdentityNamespace, vd_Subject = FormatInt 42, vd_Name = ''octocat''\<rparr>"
proof -
  obtain r' where "federation_New example_oauth h [example_provider] = Inr r'" "configuration r' ''github''
     = Inr (\<lparr>pr_config = example_provider, pr_version = config_version h example_provider\<rparr>, client_of example_provider)"
    using example_registry by blast
  then show ?thesis using assms
    by (simp add: registry_Verify_def github_user_def example_oauth_def maxAuthorizationCodeBytes_def push_bit_eq_mult)
qed

theorem registry_exact_witness:
  "\<exists>r. federation_New example_oauth (e_sha256 quiet) [example_provider] = Inr r \<and> Enabled r ''github'' \<and> \<not> Enabled r ''callback''"
proof -
  obtain r where "federation_New example_oauth (e_sha256 quiet) [example_provider] = Inr r" using example_registry by blast
  with registry_exact [of example_oauth "e_sha256 quiet" "[example_provider]"] show ?thesis by (auto simp: example_provider_def)
qed

theorem identity_proved_witness:
  "\<exists>r v. federation_New example_oauth (e_sha256 quiet) [example_provider] = Inr r
     \<and> registry_Verify example_oauth r 0 (\<lambda>_. None) ''github'' (config_version (e_sha256 quiet) example_provider) ''good'' ''verifier'' = Inr v
     \<and> length (vd_Subject v) \<le> 19"
proof -
  obtain r where r: "federation_New example_oauth (e_sha256 quiet) [example_provider] = Inr r" using example_registry by blast
  show ?thesis using identity_proved [OF r example_identity [OF r]] r example_identity [OF r] by blast
qed

end
