(* ===== verification/App_Config.thy ===== *)
theory App_Config
  imports Federation
begin

text \<open>
  Configuration: \<^verbatim>\<open>platform/configenv\<close> (reading the environment and hiding values in
  errors) and the rules of \<^verbatim>\<open>app/appfx/config.go\<close>, \<^verbatim>\<open>app/api/config.go\<close> and
  \<^verbatim>\<open>app/worker/config.go\<close>.  The library \<^verbatim>\<open>caarlos0/env\<close> is the pair of the fields it finds in
  the structure and its \<open>decode\<close> of the collected values; \<open>parse_url\<close> is \<^verbatim>\<open>net/url.Parse\<close>.
\<close>

subsection \<open>configenv\<close>

record FieldParams =
  fp_Key :: string
  fp_HasDefaultValue :: bool
  fp_DefaultValue :: string

text \<open>The library's errors; a \<open>ParseError\<close> quotes the raw value in its text.\<close>

datatype env_error =
    AggregateError "env_error list"
  | ParseError (pe_Name: string) (pe_text: string)
  | VarIsNotSetError (vn_Key: string) (vn_text: string)
  | EmptyVarError (ev_Key: string) (ev_text: string)
  | OtherEnvError string

definition msg_empty :: string where
  "msg_empty = utf8 [0x20, 0x4e0d, 0x80fd, 0x4e3a, 0x7a7a]"

fun sanitize :: "env_error \<Rightarrow> goerr option" where
  "sanitize (AggregateError es) = errors_Join (map sanitize es)"
| "sanitize (ParseError name t) = Some (Plain (name @ utf8 [0x20, 0x683c, 0x5f0f, 0x65e0, 0x6548]))"
| "sanitize (VarIsNotSetError key t) = Some (Plain (key @ utf8 [0x20, 0x672a, 0x8bbe, 0x7f6e]))"
| "sanitize (EmptyVarError key t) = Some (Plain (key @ msg_empty))"
| "sanitize (OtherEnvError t) = Some (Plain (utf8 [0x73af, 0x5883, 0x914d, 0x7f6e, 0x89e3, 0x6790, 0x5931, 0x8d25]))"

fun collect :: "(string \<Rightarrow> string option) \<Rightarrow> FieldParams list \<Rightarrow> (string \<Rightarrow> string option) \<Rightarrow> goerr + (string \<Rightarrow> string option)" where
  "collect lookup [] values = Inr values"
| "collect lookup (f # fs) values =
     (case lookup (fp_Key f) of
        None \<Rightarrow> collect lookup fs values
      | Some value \<Rightarrow>
          if value = '''' \<and> fp_HasDefaultValue f \<and> fp_DefaultValue f \<noteq> '''' then Inl (Plain (fp_Key f @ msg_empty))
          else collect lookup fs (values(fp_Key f \<mapsto> value)))"

definition configenv_Parse ::
  "FieldParams list option \<Rightarrow> ((string \<Rightarrow> string option) \<Rightarrow> env_error option \<times> 'c) \<Rightarrow> (string \<Rightarrow> string option) option \<Rightarrow> goerr + 'c" where
  "configenv_Parse params decode lookup =
     (case lookup of
        None \<Rightarrow> Inl (Plain (utf8 [0x73af, 0x5883, 0x53d8, 0x91cf, 0x8bfb, 0x53d6, 0x51fd, 0x6570, 0x4e0d, 0x80fd, 0x4e3a, 0x7a7a]))
      | Some l \<Rightarrow>
          (case params of
             None \<Rightarrow> Inl (Plain (utf8 [0x914d, 0x7f6e, 0x7ed3, 0x6784, 0x5b9a, 0x4e49, 0x65e0, 0x6548]))
           | Some fs \<Rightarrow>
               (case collect l fs Map.empty of
                  Inl e \<Rightarrow> Inl e
                | Inr values \<Rightarrow>
                    (case decode values of
                       (None, c) \<Rightarrow> Inr c
                     | (Some e, c) \<Rightarrow> (case sanitize e of Some e' \<Rightarrow> Inl e' | None \<Rightarrow> Inr c)))))"

subsection \<open>appfx\<close>

record appfx_Config =
  ac_DatabaseURL :: string
  ac_DBMaxConns :: int32
  ac_OTelEnabled :: bool
  ac_OTelServiceName :: string
  ac_ShutdownTimeout :: time

definition ValidateDatabaseURL :: "(string \<Rightarrow> url option) \<Rightarrow> string \<Rightarrow> goerr option" where
  "ValidateDatabaseURL parse_url raw =
     (if (case parse_url raw of
            None \<Rightarrow> True
          | Some u \<Rightarrow> url_Host u = '''' \<or> (url_Scheme u \<noteq> ''postgres'' \<and> url_Scheme u \<noteq> ''postgresql''))
      then Some (Plain (''DATABASE_URL '' @ utf8 [0x5fc5, 0x987b, 0x4e3a] @ '' PostgreSQL URL'')) else None)"

definition appfx_Validate :: "(string \<Rightarrow> url option) \<Rightarrow> appfx_Config \<Rightarrow> goerr option" where
  "appfx_Validate parse_url c =
     (case ValidateDatabaseURL parse_url (ac_DatabaseURL c) of
        Some e \<Rightarrow> Some e
      | None \<Rightarrow>
          if sint (ac_DBMaxConns c) < 1
          then Some (Plain (''DB_MAX_CONNS '' @ utf8 [0x5fc5, 0x987b, 0x4e3a, 0x6b63, 0x6574, 0x6570]))
          else if ac_ShutdownTimeout c \<le> 0
          then Some (Plain (''SHUTDOWN_TIMEOUT '' @ utf8 [0x5fc5, 0x987b, 0x4e3a, 0x6b63, 0x65f6, 0x957f]))
          else if ac_OTelEnabled c \<and> TrimSpace (ac_OTelServiceName c) = ''''
          then Some (Plain (utf8 [0x542f, 0x7528, 0x9065, 0x6d4b, 0x65f6, 0x5fc5, 0x987b, 0x663e, 0x5f0f, 0x8bbe, 0x7f6e,
            0x975e, 0x7a7a, 0x7684] @ '' OTEL_SERVICE_NAME''))
          else None)"

subsection \<open>The API process\<close>

record api_Config =
  Environment :: string
  HTTPAddr :: string
  DatabaseURL :: string
  DBMaxConns :: int32
  RequestTimeout :: time
  ShutdownTimeout :: time
  DocsEnabled :: bool
  AuthProvidersFile :: string
  AuthSessionIdleTTL :: time
  AuthSessionMaxTTL :: time
  cfg_FrontendURL :: string
  OTelEnabled :: bool
  OTelServiceName :: string

definition api_infrastructure :: "api_Config \<Rightarrow> appfx_Config" where
  "api_infrastructure c = \<lparr>ac_DatabaseURL = DatabaseURL c, ac_DBMaxConns = DBMaxConns c, ac_OTelEnabled = OTelEnabled c,
     ac_OTelServiceName = OTelServiceName c, ac_ShutdownTimeout = ShutdownTimeout c\<rparr>"

fun positive_durations :: "(string \<times> time) list \<Rightarrow> goerr option" where
  "positive_durations [] = None"
| "positive_durations ((key, value) # es) =
     (if value \<le> 0 then Some (Plain (key @ utf8 [0x20, 0x5fc5, 0x987b, 0x4e3a, 0x6b63, 0x65f6, 0x957f]))
      else positive_durations es)"

definition api_Validate :: "(string \<Rightarrow> url option) \<Rightarrow> api_Config \<Rightarrow> goerr option" where
  "api_Validate parse_url c =
     (if Environment c \<noteq> ''production'' \<and> Environment c \<noteq> ''development'' \<and> Environment c \<noteq> ''test''
      then Some (Plain ''APP_ENV must be production, development or test'')
      else if SplitHostPort (HTTPAddr c) = None then Some (Plain ''HTTP_ADDR must be host:port'')
      else case appfx_Validate parse_url (api_infrastructure c) of
        Some e \<Rightarrow> Some e
      | None \<Rightarrow>
          (case positive_durations [(''REQUEST_TIMEOUT'', RequestTimeout c), (''AUTH_SESSION_IDLE_TTL'', AuthSessionIdleTTL c),
              (''AUTH_SESSION_MAX_TTL'', AuthSessionMaxTTL c)] of
             Some e \<Rightarrow> Some e
           | None \<Rightarrow>
               if cfg_FrontendURL c = '''' then Some (Plain (utf8 [0x9700, 0x8981, 0x524d, 0x7aef, 0x5730, 0x5740]))
               else if AuthSessionIdleTTL c < minute \<or> AuthSessionMaxTTL c < AuthSessionIdleTTL c
               then Some (Plain (utf8 [0x4f1a, 0x8bdd, 0x671f, 0x9650, 0x914d, 0x7f6e, 0x65e0, 0x6548]))
               else if (case parse_url (cfg_FrontendURL c) of
                          None \<Rightarrow> True
                        | Some u \<Rightarrow> url_Host u = '''' \<or> (url_Scheme u \<noteq> ''http'' \<and> url_Scheme u \<noteq> ''https''))
               then Some (Plain (''FRONTEND_URL '' @ utf8 [0x5fc5, 0x987b, 0x4e3a] @ '' HTTP(S) URL''))
               else None))"

text \<open>\<^verbatim>\<open>Parse\<close> returns the configuration together with the error of its validation; callers use it only without one.\<close>

definition api_Parse ::
  "(string \<Rightarrow> url option) \<Rightarrow> FieldParams list option \<Rightarrow> ((string \<Rightarrow> string option) \<Rightarrow> env_error option \<times> api_Config)
     \<Rightarrow> (string \<Rightarrow> string option) option \<Rightarrow> goerr + api_Config" where
  "api_Parse parse_url params decode lookup =
     (case configenv_Parse params decode lookup of
        Inl e \<Rightarrow> Inl e
      | Inr c \<Rightarrow> (case api_Validate parse_url c of Some e \<Rightarrow> Inl e | None \<Rightarrow> Inr c))"

subsection \<open>The worker process\<close>

record worker_Config =
  wk_DatabaseURL :: string
  wk_DBMaxConns :: int32
  wk_MailPollInterval :: time
  wk_ShutdownTimeout :: time
  wk_OTelEnabled :: bool
  wk_OTelServiceName :: string

definition worker_infrastructure :: "worker_Config \<Rightarrow> appfx_Config" where
  "worker_infrastructure c = \<lparr>ac_DatabaseURL = wk_DatabaseURL c, ac_DBMaxConns = wk_DBMaxConns c,
     ac_OTelEnabled = wk_OTelEnabled c, ac_OTelServiceName = wk_OTelServiceName c, ac_ShutdownTimeout = wk_ShutdownTimeout c\<rparr>"

definition worker_Validate :: "(string \<Rightarrow> url option) \<Rightarrow> worker_Config \<Rightarrow> goerr option" where
  "worker_Validate parse_url c =
     (case appfx_Validate parse_url (worker_infrastructure c) of
        Some e \<Rightarrow> Some e
      | None \<Rightarrow>
          if wk_MailPollInterval c \<le> 0
          then Some (Plain (''MAIL_POLL_INTERVAL '' @ utf8 [0x5fc5, 0x987b, 0x4e3a, 0x6b63, 0x65f6, 0x957f])) else None)"

definition worker_Parse ::
  "(string \<Rightarrow> url option) \<Rightarrow> FieldParams list option \<Rightarrow> ((string \<Rightarrow> string option) \<Rightarrow> env_error option \<times> worker_Config)
     \<Rightarrow> (string \<Rightarrow> string option) option \<Rightarrow> goerr + worker_Config" where
  "worker_Parse parse_url params decode lookup =
     (case configenv_Parse params decode lookup of
        Inl e \<Rightarrow> Inl e
      | Inr c \<Rightarrow> (case worker_Validate parse_url c of Some e \<Rightarrow> Inl e | None \<Rightarrow> Inr c))"

end
