(* ===== verification/Account_Ops.thy ===== *)
theory Account_Ops
  imports Account_Auth Pagination
begin

text \<open>
  The operations of the account service on sessions, registration, challenges, passwords, e-mail
  addresses, profiles and administration: \<^verbatim>\<open>session.go\<close>, \<^verbatim>\<open>registration.go\<close>,
  \<^verbatim>\<open>challenges.go\<close>, \<^verbatim>\<open>password.go\<close>, \<^verbatim>\<open>email.go\<close>, \<^verbatim>\<open>profile.go\<close> and
  \<^verbatim>\<open>admin.go\<close>.
\<close>

text \<open>A lookup whose missing row is not an error; other errors pass through \<open>g\<close>.\<close>

definition lookup_opt :: "(goerr \<Rightarrow> goerr) \<Rightarrow> 'a act \<Rightarrow> 'a option act" where
  "lookup_opt g m =
     attempt m (\<lambda>r. case r of
       Inr a \<Rightarrow> ret (Some a)
     | Inl e \<Rightarrow> if errors_is e (Sentinel ErrNoRows) then ret None else fail (g e))"

definition storage_error :: "goerr \<Rightarrow> goerr" where
  "storage_error e = MapError e account_storageErrors"

definition in_tx :: "Service \<Rightarrow> (conn \<Rightarrow> 'a act) \<Rightarrow> 'a act" where
  "in_tx s body = WithTransaction (sv_env s) account_storageErrors body"

subsection \<open>session.go\<close>

definition login_tx ::
  "Service \<Rightarrow> Request \<Rightarrow> user_row \<Rightarrow> account_row \<Rightarrow> string \<Rightarrow> conn \<Rightarrow> SessionCredentials act" where
  "login_tx s r user account newPasswordHash q =
     (let cx = sv_env s in
      bindA (query cx q (LockUser (u_ID user))) (\<lambda>currentUser.
      bindA (on_error credentialLookupError (query cx q (GetAccount (a_ID account) (u_ID user)))) (\<lambda>currentAccount.
      bindA (require (u_AuthVersion currentUser = u_AuthVersion user \<and> a_Version currentAccount = a_Version account
          \<and> u_Status currentUser = UserActive) (Business ErrCredentials)) (\<lambda>_.
      bindA (if newPasswordHash \<noteq> ''''
             then store_UpgradePasswordHash cx q (a_ID account) (u_ID user) (Some newPasswordHash) (a_PasswordHash account)
             else ret ()) (\<lambda>_.
      newSession s q r currentUser currentAccount MethodPassword)))))"

definition Login :: "Service \<Rightarrow> Request \<Rightarrow> string \<Rightarrow> string \<Rightarrow> SessionCredentials act" where
  "Login s r email0 password =
     (let cx = sv_env s; deps = sv_deps s in
      recordFailureOnReturn s r ''auth.login'' (
      bindA (on_error (\<lambda>_. Business ErrCredentials) (from_sum (normalizeEmail cx email0))) (\<lambda>email.
      bindA (entryLimit s r ''login'' email) (\<lambda>_.
      bindA (lookup_opt storage_error (query cx Pool (FindUserByEmail (Some email)))) (\<lambda>found.
      bindA (lookup_opt storage_error (query cx Pool
        (GetPasswordAccount (case found of None \<Rightarrow> '''' | Some u \<Rightarrow> u_ID u)))) (\<lambda>foundAccount.
      bindA (call_dep (\<lambda>n. d_Verify deps n
        (case foundAccount of None \<Rightarrow> '''' | Some a \<Rightarrow> text_of (a_PasswordHash a)) password)) (\<lambda>(valid, upgrade).
      case (found, foundAccount) of
        (Some user, Some account) \<Rightarrow>
          bindA (require (valid \<and> u_Status user = UserActive \<and> u_EmailVerifiedAt user \<noteq> None)
            (Business ErrCredentials)) (\<lambda>_.
          bindA (if upgrade then call_dep (\<lambda>n. d_Hash deps n password) else ret '''') (\<lambda>newPasswordHash.
          in_tx s (login_tx s r user account newPasswordHash)))
      | _ \<Rightarrow> fail (Business ErrCredentials))))))))"

definition Sessions :: "Service \<Rightarrow> Request \<Rightarrow> Params \<Rightarrow> SessionRecord Result act" where
  "Sessions s r p =
     (let cx = sv_env s in
      bindA (require (Params_Validate p = None) (Business ErrInvalid)) (\<lambda>_.
      bindA (on_error storage_error (readSelf cx Pool r)) (\<lambda>(user, _).
      bindA (on_error storage_error (query cx Pool
        (ListSessions (e_collate cx) (u_ID user) (sint (FetchLimit p)) (sint (Offset p))))) (\<lambda>rows.
      from_sum (Build rows p sessionRecord)))))"

definition Service_RevokeSession :: "Service \<Rightarrow> Request \<Rightarrow> string \<Rightarrow> bool \<Rightarrow> unit act" where
  "Service_RevokeSession s r i all =
     (let cx = sv_env s in
      bindA (require (all \<or> Identifier i) (Business ErrInvalid)) (\<lambda>_.
      in_tx s (\<lambda>q.
      bindA (lockSelf cx q r) (\<lambda>(user, _).
      bindA (if all then invalidate cx q (u_ID user)
             else bindA (store_RevokeSession cx q i (u_ID user)) (\<lambda>n.
                  require (n \<noteq> 0) (Business ErrNotFound))) (\<lambda>_.
      audit cx q r (success_event ''session.revoke'' (if all then ''user'' else ''session'')
        (if all then u_ID user else i) (u_ID user) NoMetadata))))))"

subsection \<open>challenges.go: creation\<close>

definition registrationChallengeTTL :: time where
  "registrationChallengeTTL = 24 * hour"

definition passwordResetChallengeTTL :: time where
  "passwordResetChallengeTTL = 15 * minute"

definition emailChangeChallengeTTL :: time where
  "emailChangeChallengeTTL = 5 * minute"

definition createChallenge ::
  "Service \<Rightarrow> conn \<Rightarrow> user_row \<Rightarrow> string \<Rightarrow> string \<Rightarrow> time \<Rightarrow> string option \<Rightarrow> string option \<Rightarrow> verification_row act" where
  "createChallenge s q user purpose email ttl session reauth =
     (let cx = sv_env s in
      bindA (new_token cx ChallengePrefix) (\<lambda>(token, hash).
      bindA (store_CreateVerification cx q
        \<lparr>cv_UserID = u_ID user, cv_Purpose = purpose, cv_TokenHash = hash, cv_Email = email,
         cv_AuthVersion = u_AuthVersion user, cv_SessionID = session, cv_ReauthenticationID = reauth,
         cv_TtlSeconds = Seconds ttl\<rparr>) (\<lambda>verification.
      bindA (enqueueVerificationMail s q verification token) (\<lambda>_.
      ret verification))))"

subsection \<open>registration.go\<close>

definition Register :: "Service \<Rightarrow> Request \<Rightarrow> string \<Rightarrow> unit act" where
  "Register s r email0 =
     (let cx = sv_env s in
      bindA (from_sum (normalizeEmail cx email0)) (\<lambda>email.
      bindA (require (FrontendURL (sv_options s) \<noteq> '''') (Business ErrUnavailable)) (\<lambda>_.
      bindA (entryLimit s r ''register'' email) (\<lambda>_.
      in_tx s (\<lambda>q.
      bindA (store_CreatePendingUser cx q (Some email) (Some email)) (\<lambda>user.
      if u_Status user \<noteq> UserPending then ret ()
      else bindA (createChallenge s q user VerifyRegister email registrationChallengeTTL None None) (\<lambda>_. ret ())))))))"

definition ForgotPassword :: "Service \<Rightarrow> Request \<Rightarrow> string \<Rightarrow> unit act" where
  "ForgotPassword s r email0 =
     (let cx = sv_env s in
      bindA (from_sum (normalizeEmail cx email0)) (\<lambda>email.
      bindA (require (FrontendURL (sv_options s) \<noteq> '''') (Business ErrUnavailable)) (\<lambda>_.
      bindA (entryLimit s r ''forgot'' email) (\<lambda>_.
      in_tx s (\<lambda>q.
      bindA (lookup_opt (\<lambda>e. e) (query cx q (FindUserByEmail (Some email)))) (\<lambda>found.
      case found of
        None \<Rightarrow> ret ()
      | Some user \<Rightarrow>
          if u_Status user \<noteq> UserActive \<or> \<not> u_RecoveryEnabled user \<or> u_EmailVerifiedAt user = None then ret ()
          else bindA (lookup_opt (\<lambda>e. e) (query cx q (GetPasswordAccount (u_ID user)))) (\<lambda>account.
            if account = None then ret ()
            else bindA (createChallenge s q user VerifyResetPassword (text_of (u_EmailNormalized user))
                   passwordResetChallengeTTL None None) (\<lambda>_. ret ()))))))))"

definition completeRegistration ::
  "Service \<Rightarrow> conn \<Rightarrow> user_row \<Rightarrow> verification_row \<Rightarrow> string \<Rightarrow> user_row act" where
  "completeRegistration s q user verification passwordHash =
     (let cx = sv_env s in
      bindA (require (u_Status user = UserPending \<and> text_of (u_EmailNormalized user) = v_Email verification)
        (Business ErrCredentials)) (\<lambda>_.
      bindA (store_CreateAccount cx q
        \<lparr>ca_UserID = u_ID user, ca_ProviderID = CredentialProvider, ca_ProviderAccountID = u_ID user,
         ca_ProviderNamespace = LocalNamespace, ca_PasswordHash = Some passwordHash\<rparr>) (\<lambda>_.
      store_ActivateUser cx q (u_ID user))))"

definition completePasswordReset ::
  "Service \<Rightarrow> conn \<Rightarrow> user_row \<Rightarrow> verification_row \<Rightarrow> string \<Rightarrow> unit act" where
  "completePasswordReset s q user verification passwordHash =
     (let cx = sv_env s in
      bindA (require (u_Status user = UserActive \<and> u_RecoveryEnabled user \<and> u_EmailVerifiedAt user \<noteq> None
          \<and> text_of (u_EmailNormalized user) = v_Email verification) (Business ErrCredentials)) (\<lambda>_.
      bindA (on_error credentialLookupError (query cx q (GetPasswordAccount (u_ID user)))) (\<lambda>passwordAccount.
      bindA (store_ChangePassword cx q (a_ID passwordAccount) (u_ID user) (Some passwordHash)) (\<lambda>_.
      invalidate cx q (u_ID user)))))"

subsection \<open>email.go\<close>

definition ChangeEmail :: "Service \<Rightarrow> Request \<Rightarrow> string \<Rightarrow> string \<Rightarrow> unit act" where
  "ChangeEmail s r email0 reauthID =
     (let cx = sv_env s in
      recordFailureOnReturn s r ''user.email_change'' (
      bindA (from_sum (normalizeEmail cx email0)) (\<lambda>email.
      bindA (require (FrontendURL (sv_options s) \<noteq> '''') (Business ErrUnavailable)) (\<lambda>_.
      bindA (entryLimit s r ''email'' (UserID r)) (\<lambda>_.
      in_tx s (\<lambda>q.
      bindA (readSelf cx q r) (\<lambda>(user, session).
      bindA (authorization s q r reauthID OperationChangeEmail email None) (\<lambda>_.
      bindA (createChallenge s q user VerifyChangeEmail email emailChangeChallengeTTL (Some (s_ID session))
        (Some reauthID)) (\<lambda>verification.
      on_error (\<lambda>e. proofError e ErrReauthentication) (claimAuthorization cx q reauthID (v_ID verification)))))))))))"

definition completeEmailChange :: "Service \<Rightarrow> conn \<Rightarrow> user_row \<Rightarrow> verification_row \<Rightarrow> unit act" where
  "completeEmailChange s q user verification =
     (let cx = sv_env s in
      case (v_SessionID verification, v_ReauthenticationID verification) of
        (Some sessionID, Some reauthenticationID) \<Rightarrow>
          (let req = \<lparr>UserID = u_ID user, rq_SessionID = sessionID, RequestID = '''', ClientIP = ''''\<rparr> in
           bindA (on_error credentialLookupError (query cx q (GetValidSession sessionID (u_ID user)))) (\<lambda>_.
           bindA (authorization s q req reauthenticationID OperationChangeEmail (v_Email verification)
             (Some (v_ID verification))) (\<lambda>p.
           bindA (finishAuthorization cx q p) (\<lambda>_.
           bindA (store_ReleasePendingEmail cx q (v_Email verification)) (\<lambda>_.
           bindA (store_UpdateUserEmail cx q (u_ID user) (Some (v_Email verification)) (Some (v_Email verification))) (\<lambda>_.
           bindA (store_RevokeUserSessions cx q (u_ID user)) (\<lambda>_.
           enqueueSecurityNotification cx q user emailChangedNotification)))))))
      | _ \<Rightarrow> fail (Business ErrCredentials))"

subsection \<open>challenges.go: consumption\<close>

text \<open>
  The closure of the transaction assigns \<^verbatim>\<open>r.UserID\<close>, which the deferred failure record
  reads: \<open>set_var\<close>/\<open>get_var\<close> are that captured variable, which a rollback does not undo.
\<close>

definition set_var :: "string \<Rightarrow> unit act" where
  "set_var v w = (Inr (), w\<lparr>w_var := v\<rparr>)"

definition get_var :: "string act" where
  "get_var w = (Inr (w_var w), w)"

lemma var_ok [ok_iff]:
  "set_var v w = (Inr u, w') \<longleftrightarrow> w' = w\<lparr>w_var := v\<rparr>"
  "get_var w = (Inr x, w') \<longleftrightarrow> x = w_var w \<and> w' = w"
  by (auto simp: set_var_def get_var_def)

definition challenge_password :: "Service \<Rightarrow> Verification \<Rightarrow> string act" where
  "challenge_password s input =
     (if vf_Purpose input = VerifyRegister \<or> vf_Purpose input = VerifyResetPassword then
        bindA (require (d_Validate (sv_deps s) (vf_NewPassword input)) (Business ErrInvalid)) (\<lambda>_.
        call_dep (\<lambda>n. d_Hash (sv_deps s) n (vf_NewPassword input)))
      else if vf_Purpose input = VerifyChangeEmail then
        bindA (require (vf_NewPassword input = '''') (Business ErrInvalid)) (\<lambda>_. ret '''')
      else fail (Business ErrInvalid))"

definition complete_challenge ::
  "Service \<Rightarrow> conn \<Rightarrow> string \<Rightarrow> user_row \<Rightarrow> verification_row \<Rightarrow> string \<Rightarrow> (user_row \<times> string) act" where
  "complete_challenge s q purpose user verification passwordHash =
     (if purpose = VerifyRegister then
        bindA (completeRegistration s q user verification passwordHash) (\<lambda>u.
        ret (u, registrationCompletedNotification))
      else if purpose = VerifyResetPassword then
        bindA (completePasswordReset s q user verification passwordHash) (\<lambda>_.
        ret (user, passwordResetNotification))
      else if purpose = VerifyChangeEmail then
        bindA (completeEmailChange s q user verification) (\<lambda>_. ret (user, ''''))
      else fail (Business ErrInvalid))"

definition verify_tx ::
  "Service \<Rightarrow> Request \<Rightarrow> Verification \<Rightarrow> verification_row \<Rightarrow> string \<Rightarrow> conn \<Rightarrow> unit act" where
  "verify_tx s r input verification passwordHash q =
     (let cx = sv_env s in
      bindA (query cx q (LockUser (v_UserID verification))) (\<lambda>locked.
      bindA (require (u_AuthVersion locked = v_AuthVersion verification \<and> u_Status locked \<noteq> UserDisabled)
        (Business ErrCredentials)) (\<lambda>_.
      bindA (complete_challenge s q (vf_Purpose input) locked verification passwordHash) (\<lambda>(user, notification).
      bindA (consumeVerification cx q (v_ID verification) (u_ID user)) (\<lambda>_.
      bindA (if notification \<noteq> '''' then enqueueSecurityNotification cx q user notification else ret ()) (\<lambda>_.
      bindA (set_var (u_ID user)) (\<lambda>_.
      audit cx q (r\<lparr>UserID := u_ID user\<rparr>)
        (success_event (''auth.'' @ vf_Purpose input) ''user'' (u_ID user) (u_ID user) NoMetadata))))))))"

definition verify_body :: "Service \<Rightarrow> Request \<Rightarrow> string \<Rightarrow> Verification \<Rightarrow> unit act" where
  "verify_body s r token input =
     (let cx = sv_env s in
      bindA (limit s ''verify.ip'' (ClientIP r) ipRequestLimit ipRateWindow) (\<lambda>_.
      bindA (on_error (\<lambda>_. Business ErrCredentials) (from_sum (TokenDigest (e_sha256 cx) token ChallengePrefix))) (\<lambda>hash.
      bindA (on_error credentialLookupError (query cx Pool (FindVerification hash))) (\<lambda>verification.
      bindA (require (v_Purpose verification = vf_Purpose input) (Business ErrCredentials)) (\<lambda>_.
      bindA (challenge_password s input) (\<lambda>passwordHash.
      in_tx s (verify_tx s r input verification passwordHash)))))))"

definition VerifyChallenge :: "Service \<Rightarrow> Request \<Rightarrow> string \<Rightarrow> Verification \<Rightarrow> unit act" where
  "VerifyChallenge s r token input =
     bindA (set_var (UserID r)) (\<lambda>_.
     attempt (verify_body s r token input) (\<lambda>res. case res of
       Inl e \<Rightarrow>
         bindA get_var (\<lambda>userID.
         bindA (recordFailure s (r\<lparr>UserID := userID\<rparr>) ''auth.verify'' (proofError e ErrVerification)) (\<lambda>_.
         fail (proofError e ErrVerification)))
     | Inr a \<Rightarrow> ret a))"

subsection \<open>password.go\<close>

definition maxLoginAccounts :: nat where
  "maxLoginAccounts = 10"

text \<open>With a password: the account must be the one whose password was checked.\<close>

definition replace_password :: "Service \<Rightarrow> conn \<Rightarrow> user_row \<Rightarrow> account_row \<Rightarrow> string \<Rightarrow> unit act" where
  "replace_password s q user passwordAccount passwordHash =
     (let cx = sv_env s in
      bindA (on_error reauth_lookup_error (query cx q (GetPasswordAccount (u_ID user)))) (\<lambda>currentAccount.
      bindA (require (a_ID currentAccount = a_ID passwordAccount \<and> a_Version currentAccount = a_Version passwordAccount)
        (Business ErrReauthentication)) (\<lambda>_.
      bindA (store_ChangePassword cx q (a_ID passwordAccount) (u_ID user) (Some passwordHash)) (\<lambda>_. ret ()))))"

text \<open>Without one: a proof authorizes the first password of a user with a verified address.\<close>

definition add_password :: "Service \<Rightarrow> conn \<Rightarrow> Request \<Rightarrow> user_row \<Rightarrow> string \<Rightarrow> string \<Rightarrow> unit act" where
  "add_password s q r user reauthID passwordHash =
     (let cx = sv_env s in
      bindA (lookup_opt (\<lambda>e. e) (query cx q (GetPasswordAccount (u_ID user)))) (\<lambda>currentAccount.
      bindA (require (currentAccount = None) (Business ErrConflict)) (\<lambda>_.
      bindA (require (u_EmailVerifiedAt user \<noteq> None) (Business ErrInvalid)) (\<lambda>_.
      bindA (authorization s q r reauthID OperationSetPassword CredentialProvider None) (\<lambda>p.
      bindA (query cx q (ListAccounts (e_collate cx) (u_ID user))) (\<lambda>accounts.
      bindA (require (length accounts < maxLoginAccounts) (Business ErrConflict)) (\<lambda>_.
      bindA (store_CreateAccount cx q
        \<lparr>ca_UserID = u_ID user, ca_ProviderID = CredentialProvider, ca_ProviderAccountID = u_ID user,
         ca_ProviderNamespace = LocalNamespace, ca_PasswordHash = Some passwordHash\<rparr>) (\<lambda>_.
      finishAuthorization cx q p))))))))"

definition password_tx ::
  "Service \<Rightarrow> Request \<Rightarrow> user_row \<Rightarrow> account_row option \<Rightarrow> string \<Rightarrow> string \<Rightarrow> conn \<Rightarrow> unit act" where
  "password_tx s r userBefore passwordAccount reauthID passwordHash q =
     (let cx = sv_env s in
      bindA (lockSelf cx q r) (\<lambda>(user, _).
      bindA (require (u_AuthVersion user = u_AuthVersion userBefore) (Business ErrReauthentication)) (\<lambda>_.
      bindA (case passwordAccount of
               Some a \<Rightarrow> replace_password s q user a passwordHash
             | None \<Rightarrow> add_password s q r user reauthID passwordHash) (\<lambda>_.
      bindA (invalidate cx q (u_ID user)) (\<lambda>_.
      bindA (enqueueSecurityNotification cx q user passwordChangedNotification) (\<lambda>_.
      audit cx q r (success_event ''account.password_change'' ''user'' (u_ID user) (u_ID user) NoMetadata)))))))"

definition SetPassword :: "Service \<Rightarrow> Request \<Rightarrow> string \<Rightarrow> string \<Rightarrow> string \<Rightarrow> unit act" where
  "SetPassword s r currentPassword newPassword reauthID =
     (let cx = sv_env s; deps = sv_deps s in
      recordFailureOnReturn s r ''account.password_change'' (
      bindA (require (reauthID = '''' \<or> Identifier reauthID) (Business ErrInvalid)) (\<lambda>_.
      bindA (require (d_Validate deps newPassword) (Business ErrInvalid)) (\<lambda>_.
      bindA (entryLimit s r ''password'' (UserID r)) (\<lambda>_.
      bindA (on_error storage_error (readSelf cx Pool r)) (\<lambda>(userBefore, _).
      bindA (lookup_opt (\<lambda>e. e) (query cx Pool (GetPasswordAccount (u_ID userBefore)))) (\<lambda>passwordAccount.
      bindA (case passwordAccount of
               Some a \<Rightarrow>
                 bindA (call_dep (\<lambda>n. d_Verify deps n (text_of (a_PasswordHash a)) currentPassword)) (\<lambda>(matches, _).
                 require matches (Business ErrReauthentication))
             | None \<Rightarrow> require (currentPassword = '''' \<and> reauthID \<noteq> '''') (Business ErrInvalid)) (\<lambda>_.
      bindA (call_dep (\<lambda>n. d_Hash deps n newPassword)) (\<lambda>passwordHash.
      in_tx s (password_tx s r userBefore passwordAccount reauthID passwordHash))))))))))"

subsection \<open>profile.go\<close>

definition Me :: "Service \<Rightarrow> Request \<Rightarrow> Profile act" where
  "Me s r =
     (let cx = sv_env s in
      bindA (on_error storage_error (readSelf cx Pool r)) (\<lambda>(u, session).
      bindA (on_error storage_error (query cx Pool (ListAccounts (e_collate cx) (u_ID u)))) (\<lambda>rows.
      ret \<lparr>pf_User = userRecord u, pf_Accounts = accountRecords s rows, pf_SessionID = s_ID session\<rparr>)))"

definition UpdateProfile :: "Service \<Rightarrow> Request \<Rightarrow> string \<Rightarrow> UserRecord act" where
  "UpdateProfile s r name0 =
     (let cx = sv_env s; (name, valid) = RequiredText name0 maxDisplayNameRunes in
      bindA (require valid (Business ErrInvalid)) (\<lambda>_.
      in_tx s (\<lambda>q.
      bindA (readSelf cx q r) (\<lambda>(u, session).
      bindA (on_error no_rows_unauthenticated (store_UpdateUserProfile cx q name (u_ID u) (s_ID session))) (\<lambda>updated.
      bindA (audit cx q r (success_event ''user.update'' ''user'' (u_ID updated) (u_ID updated) NoMetadata)) (\<lambda>_.
      ret (userRecord updated)))))))"

subsection \<open>admin.go\<close>

definition Users :: "Service \<Rightarrow> Request \<Rightarrow> Params \<Rightarrow> UserRecord Result act" where
  "Users s r p =
     (let cx = sv_env s in
      recordFailureOnReturn s r ''user.list'' (
      bindA (require (Params_Validate p = None) (Business ErrInvalid)) (\<lambda>_.
      bindA (d_RequireAdmin (sv_deps s) (UserID r) (rq_SessionID r)) (\<lambda>_.
      bindA (on_error storage_error (query cx Pool
        (ListUsers (e_collate cx) (sint (FetchLimit p)) (sint (Offset p))))) (\<lambda>rows.
      from_sum (Build rows p userRecord))))))"

definition SetStatus :: "Service \<Rightarrow> Request \<Rightarrow> string \<Rightarrow> string \<Rightarrow> UserRecord act" where
  "SetStatus s r i status =
     (let cx = sv_env s in
      recordFailureOnReturn s r ''user.status_change'' (
      bindA (require (Identifier i \<and> Settable status) (Business ErrInvalid)) (\<lambda>_.
      bindA (d_RequireAdmin (sv_deps s) (UserID r) (rq_SessionID r)) (\<lambda>_.
      in_tx s (\<lambda>q.
      bindA (query cx q (GetUser i)) (\<lambda>before.
      bindA (require (u_Status before \<noteq> UserPending) (Business ErrInvalid)) (\<lambda>_.
      bindA (store_SetUserStatus cx q i status) (\<lambda>u.
      bindA (store_RevokeUserSessions cx q i) (\<lambda>_.
      bindA (audit cx q r (success_event ''user.status_change'' ''user'' i i (userStatusAuditMetadata status))) (\<lambda>_.
      ret (userRecord u)))))))))))"

definition Service_RevokeUserSessions :: "Service \<Rightarrow> Request \<Rightarrow> string \<Rightarrow> unit act" where
  "Service_RevokeUserSessions s r i =
     (let cx = sv_env s in
      recordFailureOnReturn s r ''session.revoke_all'' (
      bindA (require (Identifier i) (Business ErrInvalid)) (\<lambda>_.
      bindA (d_RequireAdmin (sv_deps s) (UserID r) (rq_SessionID r)) (\<lambda>_.
      in_tx s (\<lambda>q.
      bindA (query cx q (GetUser i)) (\<lambda>_.
      bindA (invalidate cx q i) (\<lambda>_.
      audit cx q r (success_event ''session.revoke_all'' ''user'' i i NoMetadata))))))))"

end
