(* ===== verification/Account_Federation.thy ===== *)
theory Account_Federation
  imports Account_Ops
begin

text \<open>
  Third-party accounts: \<^verbatim>\<open>oauth_start.go\<close>, \<^verbatim>\<open>reauthentication.go\<close>,
  \<^verbatim>\<open>federation.go\<close> and \<^verbatim>\<open>linked_accounts.go\<close>.
\<close>

subsection \<open>oauth_start.go\<close>

text \<open>
  \<^verbatim>\<open>protocolState\<close> as JSON.  The column is raw bytes and only ever holds what
  \<open>marshal_protocol\<close> wrote for a random verifier, so decoding is defined on that form: the one
  member, whose value needs no escapes; everything else (NULL in particular) is an error.
\<close>

definition marshal_protocol :: "string \<Rightarrow> string" where
  "marshal_protocol verifier = json_object ''Verifier'' verifier"

definition protocol_head :: string where
  "protocol_head = ''{'' @ json_string ''Verifier'' @ '':'' @ [CHR 0x22]"

definition protocol_tail :: string where
  "protocol_tail = [CHR 0x22] @ ''}''"

definition json_plain :: "nat \<Rightarrow> bool" where
  "json_plain b \<longleftrightarrow> 32 \<le> b \<and> b < 128 \<and> b \<notin> set [34, 38, 60, 62, 92]"

definition unmarshal_protocol :: "string option \<Rightarrow> string option" where
  "unmarshal_protocol doc =
     (let d = text_of doc;
          v = drop (length protocol_head) (take (length d - length protocol_tail) d)
      in if d = protocol_head @ v @ protocol_tail \<and> list_all json_plain (bytes v) then Some v else None)"

record oauthFlowStart =
  os_params :: CreateFlowParams
  os_token :: string
  os_authorizationURL :: string

definition prepareOAuthFlow :: "Service \<Rightarrow> string \<Rightarrow> oauthFlowStart act" where
  "prepareOAuthFlow s provider =
     (let cx = sv_env s; deps = sv_deps s in
      bindA (require (d_Enabled deps provider) (Business ErrInvalid)) (\<lambda>_.
      bindA (new_token cx FlowPrefix) (\<lambda>(token, tokenHash).
      bindA (new_token cx '''') (\<lambda>(state, stateHash).
      bindA (new_token cx '''') (\<lambda>(verifier, _).
      bindA (call_dep (\<lambda>n. d_Start deps n provider state verifier)) (\<lambda>(authorizationURL, version).
      bindA (NewID cx) (\<lambda>i.
      ret \<lparr>os_params = \<lparr>cf_ID = i, cf_Purpose = '''', cf_TokenHash = Some tokenHash, cf_ProviderID = provider,
             cf_ConfigVersion = version, cf_UserID = None, cf_SessionID = None, cf_AuthVersion = 0,
             cf_AccountID = None, cf_AccountVersion = 0, cf_Operation = '''', cf_Target = '''',
             cf_ReauthenticationID = None, cf_StateHash = Some stateHash,
             cf_ProtocolState = Some (marshal_protocol verifier), cf_Status = FlowPending,
             cf_AuthenticatedAt = None\<rparr>,
           os_token = token, os_authorizationURL = authorizationURL\<rparr>)))))))"

definition persist :: "env \<Rightarrow> oauthFlowStart \<Rightarrow> conn \<Rightarrow> CreateFlowParams \<Rightarrow> FlowResult act" where
  "persist cx st q params =
     bindA (store_CreateFlow cx q params) (\<lambda>row.
     ret \<lparr>fr_ID = f_ID row, fr_Token = os_token st, fr_AuthorizationURL = os_authorizationURL st,
          fr_ExpiresAt = f_ExpiresAt row\<rparr>)"

definition startLoginFlow :: "Service \<Rightarrow> string \<Rightarrow> string \<Rightarrow> FlowResult act" where
  "startLoginFlow s provider purpose =
     bindA (prepareOAuthFlow s provider) (\<lambda>st.
     in_tx s (\<lambda>q. persist (sv_env s) st q ((os_params st)\<lparr>cf_Purpose := purpose\<rparr>)))"

definition StartLogin :: "Service \<Rightarrow> Request \<Rightarrow> string \<Rightarrow> string \<Rightarrow> FlowResult act" where
  "StartLogin s r provider purpose =
     bindA (require (PublicStart purpose) (Business ErrInvalid)) (\<lambda>_.
     bindA (limit s ''oauth.ip'' (ClientIP r) ipRequestLimit ipRateWindow) (\<lambda>_.
     startLoginFlow s provider purpose))"

definition startLinkFlow :: "Service \<Rightarrow> Request \<Rightarrow> string \<Rightarrow> string \<Rightarrow> FlowResult act" where
  "startLinkFlow s r provider reauthID =
     (let cx = sv_env s in
      bindA (prepareOAuthFlow s provider) (\<lambda>st.
      in_tx s (\<lambda>q.
      bindA (readSelf cx q r) (\<lambda>(user, session).
      bindA (authorization s q r reauthID OperationLinkAccount provider None) (\<lambda>_.
      bindA (persist cx st q ((os_params st)\<lparr>cf_Purpose := FlowLinkIdentity, cf_UserID := Some (u_ID user),
        cf_SessionID := Some (s_ID session), cf_AuthVersion := u_AuthVersion user,
        cf_Operation := OperationLinkAccount, cf_Target := provider, cf_ReauthenticationID := Some reauthID\<rparr>)) (\<lambda>flow.
      bindA (on_error (\<lambda>e. proofError e ErrReauthentication) (claimAuthorization cx q reauthID (fr_ID flow))) (\<lambda>_.
      ret flow)))))))"

definition StartLink :: "Service \<Rightarrow> Request \<Rightarrow> string \<Rightarrow> string \<Rightarrow> FlowResult act" where
  "StartLink s r provider reauthID =
     bindA (entryLimit s r ''link'' (UserID r)) (\<lambda>_. startLinkFlow s r provider reauthID)"

definition startReauthenticationFlow ::
  "Service \<Rightarrow> Request \<Rightarrow> account_row \<Rightarrow> string \<Rightarrow> string \<Rightarrow> FlowResult act" where
  "startReauthenticationFlow s r account operation target =
     (let cx = sv_env s in
      bindA (prepareOAuthFlow s (a_ProviderID account)) (\<lambda>st.
      in_tx s (\<lambda>q.
      bindA (readSelf cx q r) (\<lambda>(user, session).
      bindA (on_error credentialLookupError (query cx q (GetAccount (a_ID account) (u_ID user)))) (\<lambda>current.
      bindA (require (a_Version current = a_Version account \<and> accountEnabled s current) (Business ErrCredentials)) (\<lambda>_.
      persist cx st q ((os_params st)\<lparr>cf_Purpose := FlowReauthenticate, cf_UserID := Some (u_ID user),
        cf_SessionID := Some (s_ID session), cf_AuthVersion := u_AuthVersion user,
        cf_AccountID := Some (a_ID account), cf_AccountVersion := a_Version account,
        cf_Operation := operation, cf_Target := target\<rparr>)))))))"

subsection \<open>reauthentication.go\<close>

text \<open>A password that was checked becomes an authorized proof of the current session.\<close>

definition password_proof_tx ::
  "Service \<Rightarrow> Request \<Rightarrow> Reauthentication \<Rightarrow> user_row \<Rightarrow> account_row \<Rightarrow> conn \<Rightarrow> ReauthenticationResult act" where
  "password_proof_tx s r input user account q =
     (let cx = sv_env s in
      bindA (readSelf cx q r) (\<lambda>(currentUser, session).
      bindA (on_error reauth_lookup_error (query cx q (GetAccount (a_ID account) (u_ID user)))) (\<lambda>currentAccount.
      bindA (require (a_Version currentAccount = a_Version account \<and> u_AuthVersion currentUser = u_AuthVersion user)
        (Business ErrReauthentication)) (\<lambda>_.
      bindA (time_Now cx) (\<lambda>now.
      bindA (NewID cx) (\<lambda>i.
      bindA (store_CreateFlow cx q
        \<lparr>cf_ID = i, cf_Purpose = FlowReauthenticate, cf_TokenHash = None, cf_ProviderID = '''',
         cf_ConfigVersion = '''', cf_UserID = Some (u_ID user), cf_SessionID = Some (s_ID session),
         cf_AuthVersion = u_AuthVersion user, cf_AccountID = Some (a_ID account),
         cf_AccountVersion = a_Version account, cf_Operation = ra_Operation input, cf_Target = ra_Target input,
         cf_ReauthenticationID = None, cf_StateHash = None, cf_ProtocolState = None,
         cf_Status = FlowAuthorized, cf_AuthenticatedAt = Some now\<rparr>) (\<lambda>_.
      ret (completedReauthentication i))))))))"

definition Reauthenticate :: "Service \<Rightarrow> Request \<Rightarrow> Reauthentication \<Rightarrow> ReauthenticationResult act" where
  "Reauthenticate s r input =
     (let cx = sv_env s; deps = sv_deps s;
          missing = (\<lambda>e. if errors_is e (Sentinel ErrNoRows) then Business ErrReauthentication else e) in
      recordFailureOnReturn s r ''auth.reauthenticate'' (
      bindA (validateOperation s (ra_Operation input) (ra_Target input)) (\<lambda>_.
      bindA (entryLimit s r ''reauth'' (UserID r)) (\<lambda>_.
      bindA (on_error storage_error (readSelf cx Pool r)) (\<lambda>(user, _).
      bindA (if ra_Method input = MethodPassword then
               on_error missing (query cx Pool (GetPasswordAccount (u_ID user)))
             else if ra_Method input = MethodOAuth then
               bindA (require (Identifier (ra_AccountID input)) (Business ErrInvalid)) (\<lambda>_.
               on_error missing (query cx Pool (GetAccount (ra_AccountID input) (u_ID user))))
             else fail (Business ErrInvalid)) (\<lambda>account.
      bindA (require (\<not> (ra_Operation input = OperationUnlinkAccount \<and> a_ID account = ra_Target input))
        (Business ErrLastAccount)) (\<lambda>_.
      if ra_Method input = MethodOAuth then
        bindA (require (a_ProviderID account \<noteq> CredentialProvider \<and> accountEnabled s account)
          (Business ErrInvalid)) (\<lambda>_.
        bindA (startReauthenticationFlow s r account (ra_Operation input) (ra_Target input)) (\<lambda>flow.
        ret (redirectReauthentication flow)))
      else
        bindA (call_dep (\<lambda>n. d_Verify deps n (text_of (a_PasswordHash account)) (ra_Password input))) (\<lambda>(valid, _).
        bindA (require valid (Business ErrReauthentication)) (\<lambda>_.
        in_tx s (password_proof_tx s r input user account))))))))))"

subsection \<open>federation.go\<close>

definition maxOAuthCodeBytes :: nat where
  "maxOAuthCodeBytes = push_bit 10 8"

definition maxOAuthStateBytes :: nat where
  "maxOAuthStateBytes = 128"

text \<open>The display name: dropped if it is not UTF-8, trimmed, and cut to the longest stored name.\<close>

definition clean_name :: "string \<Rightarrow> string" where
  "clean_name name =
     (let valid = (if ValidString name then name else '''')
      in utf8 (take (nat maxDisplayNameRunes)
           (map (\<lambda>r. case r of None \<Rightarrow> 0xFFFD | Some c \<Rightarrow> c) (runes (bytes (TrimSpace valid))))))"

definition completeReauthentication ::
  "Service \<Rightarrow> conn \<Rightarrow> user_row \<Rightarrow> flow_row \<Rightarrow> VerifiedIdentity \<Rightarrow> CallbackResult act" where
  "completeReauthentication s q user flow verified =
     (let cx = sv_env s in
      bindA (require (f_AccountID flow \<noteq> None) (Business ErrCredentials)) (\<lambda>_.
      bindA (on_error credentialLookupError (query cx q (GetAccount (the (f_AccountID flow)) (u_ID user)))) (\<lambda>account.
      bindA (require (a_Version account = f_AccountVersion flow \<and> a_ProviderNamespace account = vi_Namespace verified
          \<and> a_ProviderAccountID account = vi_Subject verified \<and> accountEnabled s account)
        (Business ErrCredentials)) (\<lambda>_.
      bindA (verifyFlow cx q (f_ID flow) FlowAuthorized verified) (\<lambda>_.
      ret (reauthenticatedCallback (f_ID flow)))))))"

definition completeLinkProof ::
  "Service \<Rightarrow> conn \<Rightarrow> Request \<Rightarrow> flow_row \<Rightarrow> VerifiedIdentity \<Rightarrow> CallbackResult act" where
  "completeLinkProof s q bound flow verified =
     (let cx = sv_env s in
      bindA (require (f_ReauthenticationID flow \<noteq> None) (Business ErrCredentials)) (\<lambda>_.
      bindA (authorization s q bound (the (f_ReauthenticationID flow)) OperationLinkAccount (f_ProviderID flow)
        (Some (f_ID flow))) (\<lambda>_.
      bindA (verifyFlow cx q (f_ID flow) FlowVerified verified) (\<lambda>_.
      ret (linkPendingCallback \<lparr>lc_FlowID = f_ID flow, lc_Provider = f_ProviderID flow, lc_Name = vi_Name verified\<rparr>)))))"

definition completeBoundFlow ::
  "Service \<Rightarrow> Request \<Rightarrow> flow_row \<Rightarrow> VerifiedIdentity \<Rightarrow> CallbackResult act" where
  "completeBoundFlow s r flow verified =
     (let cx = sv_env s in
      in_tx s (\<lambda>q.
      case (f_UserID flow, f_SessionID flow) of
        (Some userID, Some sessionID) \<Rightarrow>
          (let bound = \<lparr>UserID = userID, rq_SessionID = sessionID, RequestID = RequestID r, ClientIP = ''''\<rparr> in
           bindA (on_error (\<lambda>e. if errors_is e (Business apperror_ErrUnauthenticated) then Business ErrFlow else e)
             (readSelf cx q bound)) (\<lambda>(user, _).
           bindA (require (u_AuthVersion user = f_AuthVersion flow) (Business ErrCredentials)) (\<lambda>_.
           if f_Purpose flow = FlowReauthenticate then completeReauthentication s q user flow verified
           else if f_Purpose flow = FlowLinkIdentity then completeLinkProof s q bound flow verified
           else fail (Business ErrCredentials))))
      | _ \<Rightarrow> fail (Business ErrCredentials)))"

text \<open>\<open>completeLogin\<close> in two branches: an account that exists, or a registration.\<close>

definition existing_login :: "Service \<Rightarrow> conn \<Rightarrow> account_row \<Rightarrow> (user_row \<times> account_row) act" where
  "existing_login s q account =
     (let cx = sv_env s in
      bindA (query cx q (LockUser (a_UserID account))) (\<lambda>user.
      bindA (on_error credentialLookupError (query cx q (GetAccount (a_ID account) (a_UserID account)))) (\<lambda>current.
      bindA (require (a_Version current = a_Version account \<and> u_Status user = UserActive \<and> accountEnabled s current)
        (Business ErrCredentials)) (\<lambda>_.
      ret (user, current)))))"

definition register_login ::
  "Service \<Rightarrow> conn \<Rightarrow> Request \<Rightarrow> flow_row \<Rightarrow> VerifiedIdentity \<Rightarrow> (user_row \<times> account_row) act" where
  "register_login s q r flow verified =
     (let cx = sv_env s in
      bindA (store_CreateFederatedUser cx q (vi_Name verified)) (\<lambda>user.
      bindA (store_CreateAccount cx q
        \<lparr>ca_UserID = u_ID user, ca_ProviderID = f_ProviderID flow, ca_ProviderAccountID = vi_Subject verified,
         ca_ProviderNamespace = vi_Namespace verified, ca_PasswordHash = None\<rparr>) (\<lambda>account.
      bindA (audit cx q \<lparr>UserID = u_ID user, rq_SessionID = '''', RequestID = RequestID r, ClientIP = ''''\<rparr>
        (success_event ''auth.register'' ''user'' (u_ID user) (u_ID user) NoMetadata)) (\<lambda>_.
      ret (user, account)))))"

definition completeLogin :: "Service \<Rightarrow> Request \<Rightarrow> flow_row \<Rightarrow> VerifiedIdentity \<Rightarrow> CallbackResult act" where
  "completeLogin s r flow verified =
     (let cx = sv_env s in
      bindA (lookup_opt (\<lambda>e. e) (query cx Pool (FindProviderAccount (vi_Namespace verified) (vi_Subject verified)))) (\<lambda>found.
      bindA (require (found \<noteq> None \<or> f_Purpose flow = FlowRegister) (Business ErrRegistrationRequired)) (\<lambda>_.
      in_tx s (\<lambda>q.
      bindA (case found of
               Some account \<Rightarrow> existing_login s q account
             | None \<Rightarrow> register_login s q r flow verified) (\<lambda>(user, account).
      bindA (consumeFlow cx q (f_ID flow) FlowProcessing) (\<lambda>_.
      bindA (newSession s q r user account MethodOAuth) (\<lambda>session.
      ret (sessionCallback session))))))))"

definition valid_identity :: "VerifiedIdentity \<Rightarrow> bool" where
  "valid_identity v \<longleftrightarrow>
     vi_Subject v \<noteq> '''' \<and> length (vi_Subject v) \<le> maxProviderSubjectBytes
     \<and> vi_Namespace v \<noteq> '''' \<and> length (vi_Namespace v) \<le> maxProviderNamespaceBytes"

text \<open>From the claimed flow to the result.\<close>

definition process_flow :: "Service \<Rightarrow> Request \<Rightarrow> flow_row \<Rightarrow> string \<Rightarrow> CallbackResult act" where
  "process_flow s r flow code =
     (case unmarshal_protocol (f_ProtocolState flow) of
        None \<Rightarrow> fail (Business ErrCredentials)
      | Some verifier \<Rightarrow>
          bindA (call_dep (\<lambda>n. d_VerifyIdentity (sv_deps s) n (f_ProviderID flow) (f_ConfigVersion flow) code verifier)) (\<lambda>v.
          bindA (require (valid_identity v) (Business ErrCredentials)) (\<lambda>_.
          let verified = v\<lparr>vi_Name := clean_name (vi_Name v)\<rparr>
          in if f_Purpose flow = FlowLogin \<or> f_Purpose flow = FlowRegister then completeLogin s r flow verified
             else if f_Purpose flow = FlowReauthenticate \<or> f_Purpose flow = FlowLinkIdentity
             then completeBoundFlow s r flow verified
             else fail (Business ErrCredentials))))"

text \<open>The deferred clean-up: a flow that was claimed and not completed is failed.\<close>

definition or_fail_flow :: "env \<Rightarrow> string \<Rightarrow> 'a act \<Rightarrow> 'a act" where
  "or_fail_flow cx i m =
     attempt m (\<lambda>res. case res of
       Inl e \<Rightarrow> attempt (store_FailFlow cx Pool i) (\<lambda>_. fail e)
     | Inr a \<Rightarrow> ret a)"

lemma or_fail_flow_ok [ok_iff]: "or_fail_flow cx i m w = (Inr a, w') \<longleftrightarrow> m w = (Inr a, w')"
  by (auto simp: or_fail_flow_def attempt_def ret_def fail_def split: prod.splits sum.splits)

definition callback_body :: "Service \<Rightarrow> Request \<Rightarrow> string \<Rightarrow> string \<Rightarrow> string \<Rightarrow> CallbackResult act" where
  "callback_body s r token code state =
     (let cx = sv_env s in
      bindA (limit s ''callback.ip'' (ClientIP r) ipRequestLimit ipRateWindow) (\<lambda>_.
      bindA (on_error (\<lambda>_. Business ErrCredentials) (from_sum (TokenDigest (e_sha256 cx) token FlowPrefix))) (\<lambda>hash.
      bindA (on_error credentialLookupError (query cx Pool (FindFlow hash))) (\<lambda>flow.
      bindA (require (f_Status flow = FlowPending \<and> code \<noteq> '''' \<and> length code \<le> maxOAuthCodeBytes
          \<and> length state \<le> maxOAuthStateBytes) (Business ErrCredentials)) (\<lambda>_.
      bindA (require (Digest (e_sha256 cx) state = text_of (f_StateHash flow)) (Business ErrCredentials)) (\<lambda>_.
      bindA (require (d_Version (sv_deps s) (f_ProviderID flow) = f_ConfigVersion flow) (Business ErrCredentials)) (\<lambda>_.
      bindA (claimPendingFlow cx Pool (f_ID flow)) (\<lambda>_.
      or_fail_flow cx (f_ID flow) (process_flow s r flow code)))))))))"

definition Callback :: "Service \<Rightarrow> Request \<Rightarrow> string \<Rightarrow> string \<Rightarrow> string \<Rightarrow> CallbackResult act" where
  "Callback s r token code state =
     recordFailureOnReturn s r ''auth.oauth_callback''
       (on_error (\<lambda>e. proofError e ErrFlow) (callback_body s r token code state))"

subsection \<open>linked_accounts.go\<close>

definition link_matches :: "flow_row \<Rightarrow> user_row \<Rightarrow> session_row \<Rightarrow> bool" where
  "link_matches flow user session \<longleftrightarrow>
     f_Purpose flow = FlowLinkIdentity \<and> f_ReauthenticationID flow \<noteq> None
     \<and> f_UserID flow = Some (u_ID user) \<and> f_SessionID flow = Some (s_ID session)
     \<and> f_AuthVersion flow = u_AuthVersion user"

text \<open>The account of the verified identity: the user's own one, or a new one.\<close>

definition link_account :: "Service \<Rightarrow> conn \<Rightarrow> user_row \<Rightarrow> flow_row \<Rightarrow> account_row act" where
  "link_account s q user flow =
     (let cx = sv_env s in
      bindA (lookup_opt (\<lambda>e. e) (query cx q (FindProviderAccount (f_VerifiedNamespace flow) (f_VerifiedSubject flow)))) (\<lambda>found.
      case found of
        Some account \<Rightarrow> bindA (require (a_UserID account = u_ID user) (Business ErrConflict)) (\<lambda>_. ret account)
      | None \<Rightarrow>
          bindA (query cx q (ListAccounts (e_collate cx) (u_ID user))) (\<lambda>rows.
          bindA (require (length rows < maxLoginAccounts) (Business ErrConflict)) (\<lambda>_.
          store_CreateAccount cx q
            \<lparr>ca_UserID = u_ID user, ca_ProviderID = f_ProviderID flow, ca_ProviderAccountID = f_VerifiedSubject flow,
             ca_ProviderNamespace = f_VerifiedNamespace flow, ca_PasswordHash = None\<rparr>))))"

definition confirm_tx :: "Service \<Rightarrow> Request \<Rightarrow> string \<Rightarrow> conn \<Rightarrow> unit act" where
  "confirm_tx s r flowID q =
     (let cx = sv_env s in
      bindA (lockSelf cx q r) (\<lambda>(user, session).
      bindA (on_error credentialLookupError (query cx q (GetFlow flowID))) (\<lambda>flow.
      bindA (require (link_matches flow user session) (Business ErrCredentials)) (\<lambda>_.
      if f_Status flow = FlowConsumed then
        bindA (on_error credentialLookupError
          (query cx q (FindProviderAccount (f_VerifiedNamespace flow) (f_VerifiedSubject flow)))) (\<lambda>account.
        require (a_UserID account = u_ID user) (Business ErrCredentials))
      else
        bindA (require (f_Status flow = FlowVerified
            \<and> d_Version (sv_deps s) (f_ProviderID flow) = f_ConfigVersion flow) (Business ErrCredentials)) (\<lambda>_.
        bindA (authorization s q r (the (f_ReauthenticationID flow)) OperationLinkAccount (f_ProviderID flow)
          (Some (f_ID flow))) (\<lambda>p.
        bindA (link_account s q user flow) (\<lambda>account.
        bindA (finishAuthorization cx q p) (\<lambda>_.
        bindA (finishAuthorization cx q flow) (\<lambda>_.
        bindA (enqueueSecurityNotification cx q user accountLinkedNotification) (\<lambda>_.
        audit cx q r (success_event ''account.link'' ''account'' (a_ID account) (u_ID user)
          (accountProviderAuditMetadata (f_ProviderID flow)))))))))))))"

definition ConfirmLink :: "Service \<Rightarrow> Request \<Rightarrow> string \<Rightarrow> unit act" where
  "ConfirmLink s r flowID =
     recordFailureOnReturn s r ''account.link'' (on_error (\<lambda>e. proofError e ErrFlow) (
     bindA (require (Identifier flowID) (Business ErrFlow)) (\<lambda>_.
     in_tx s (confirm_tx s r flowID))))"

definition unlink_tx :: "Service \<Rightarrow> Request \<Rightarrow> string \<Rightarrow> string \<Rightarrow> conn \<Rightarrow> unit act" where
  "unlink_tx s r i reauthID q =
     (let cx = sv_env s in
      bindA (lockSelf cx q r) (\<lambda>(user, _).
      bindA (query cx q (GetAccount i (u_ID user))) (\<lambda>account.
      bindA (authorization s q r reauthID OperationUnlinkAccount i None) (\<lambda>p.
      bindA (require (f_AccountID p \<noteq> None \<and> f_AccountID p \<noteq> Some i) (Business ErrLastAccount)) (\<lambda>_.
      bindA (query cx q (ListAccounts (e_collate cx) (u_ID user))) (\<lambda>rows.
      bindA (require (count_where (\<lambda>row. a_ID row \<noteq> i \<and> accountEnabled s row) rows \<noteq> 0) (Business ErrLastAccount)) (\<lambda>_.
      bindA (store_RevokeAccount cx q i (u_ID user)) (\<lambda>_.
      bindA (finishAuthorization cx q p) (\<lambda>_.
      bindA (invalidate cx q (u_ID user)) (\<lambda>_.
      bindA (enqueueSecurityNotification cx q user accountUnlinkedNotification) (\<lambda>_.
      audit cx q r (success_event ''account.unlink'' ''account'' i (u_ID user)
        (accountProviderAuditMetadata (a_ProviderID account))))))))))))))"

definition Unlink :: "Service \<Rightarrow> Request \<Rightarrow> string \<Rightarrow> string \<Rightarrow> unit act" where
  "Unlink s r i reauthID =
     recordFailureOnReturn s r ''account.unlink'' (
     bindA (require (Identifier i) (Business ErrInvalid)) (\<lambda>_.
     in_tx s (unlink_tx s r i reauthID)))"

end
