(* ===== verification/Account_Http.thy ===== *)
theory Account_Http
  imports Account_Federation Http_Api
begin

text \<open>
  The HTTP surface of the account module: \<^verbatim>\<open>dto.go\<close>, \<^verbatim>\<open>admin_dto.go\<close>, \<^verbatim>\<open>http.go\<close> and
  \<^verbatim>\<open>admin_http.go\<close>.  The request types carry the constraints of their schema tags as predicates
  (huma checks them before a handler runs; JSON schema counts a string's length in runes); a handler
  starts from the decoded input.  The DTOs \<^verbatim>\<open>User\<close>, \<^verbatim>\<open>Account\<close> and \<^verbatim>\<open>Session\<close> have the fields
  of the records they are converted from, and the conversion is the identity on them.
\<close>

subsection \<open>dto.go: responses\<close>

record SessionCreateResponse =
  sn_Token :: string
  sn_TokenType :: string
  sn_SessionID :: string
  sn_IdleExpiresAt :: time
  sn_AbsoluteExpiresAt :: time

record AuthFlowResponse =
  fw_FlowID :: string
  fw_Token :: string
  fw_AuthorizationURL :: string
  fw_ExpiresAt :: time

record AuthCallbackResponse =
  cb_Result :: string
  cb_Session :: "SessionCreateResponse option"
  cb_ReauthenticationID :: "string option"
  cb_FlowID :: "string option"
  cb_Provider :: "string option"
  cb_Name :: "string option"

record UserReauthenticateResponse =
  re_Result :: string
  re_ReauthenticationID :: "string option"
  re_Flow :: "AuthFlowResponse option"

definition sessionDTO :: "SessionCredentials \<Rightarrow> SessionCreateResponse" where
  "sessionDTO s = \<lparr>sn_Token = sc_Token s, sn_TokenType = ''Bearer'', sn_SessionID = sc_ID s,
     sn_IdleExpiresAt = sc_IdleExpiresAt s, sn_AbsoluteExpiresAt = sc_AbsoluteExpiresAt s\<rparr>"

definition flowDTO :: "FlowResult \<Rightarrow> AuthFlowResponse" where
  "flowDTO f = \<lparr>fw_FlowID = fr_ID f, fw_Token = fr_Token f, fw_AuthorizationURL = fr_AuthorizationURL f,
     fw_ExpiresAt = fr_ExpiresAt f\<rparr>"

definition profileDTO :: "Profile \<Rightarrow> Profile" where
  "profileDTO p = \<lparr>pf_User = pf_User p, pf_Accounts = map (\<lambda>a. a) (pf_Accounts p), pf_SessionID = pf_SessionID p\<rparr>"

definition userDTO :: "UserRecord \<Rightarrow> UserRecord" where
  "userDTO value = value"

definition sessionRecordDTO :: "SessionRecord \<Rightarrow> SessionRecord" where
  "sessionRecordDTO value = value"

definition no_store_header :: "string \<times> string" where
  "no_store_header = (''Cache-Control'', ''no-store'')"

definition sessionOutput :: "SessionCredentials \<Rightarrow> SessionCreateResponse outcome" where
  "sessionOutput value = ([no_store_header], Body (sessionDTO value))"

definition flowOutput :: "FlowResult \<Rightarrow> AuthFlowResponse outcome" where
  "flowOutput value = ([no_store_header], Body (flowDTO value))"

definition errInvalidAuthenticationResult :: goerr where
  "errInvalidAuthenticationResult =
     Plain (utf8 [0x8ba4, 0x8bc1, 0x7ed3, 0x679c, 0x72b6, 0x6001, 0x65e0, 0x6548])"

text \<open>
  The results have exactly the tags that their constructors give, so the \<^verbatim>\<open>default\<close> branches
  (the zero value, which only accompanies an error) have no counterpart.
\<close>

definition empty_callback :: "string \<Rightarrow> AuthCallbackResponse" where
  "empty_callback result = \<lparr>cb_Result = result, cb_Session = None, cb_ReauthenticationID = None,
     cb_FlowID = None, cb_Provider = None, cb_Name = None\<rparr>"

fun callbackOutput :: "CallbackResult \<Rightarrow> goerr + AuthCallbackResponse outcome" where
  "callbackOutput (sessionCallback s) =
     (if sc_ID s = '''' \<or> sc_Token s = '''' \<or> sc_IdleExpiresAt s = zero_time \<or> sc_AbsoluteExpiresAt s = zero_time
      then Inl errInvalidAuthenticationResult
      else Inr ([no_store_header], Body ((empty_callback ResultSession)\<lparr>cb_Session := Some (sessionDTO s)\<rparr>)))"
| "callbackOutput (reauthenticatedCallback i) =
     (if i = '''' then Inl errInvalidAuthenticationResult
      else Inr ([no_store_header], Body ((empty_callback ResultReauthenticated)\<lparr>cb_ReauthenticationID := Some i\<rparr>)))"
| "callbackOutput (linkPendingCallback l) =
     (if lc_FlowID l = '''' \<or> lc_Provider l = '''' then Inl errInvalidAuthenticationResult
      else Inr ([no_store_header], Body ((empty_callback ResultLinkPending)
        \<lparr>cb_FlowID := Some (lc_FlowID l), cb_Provider := Some (lc_Provider l), cb_Name := Some (lc_Name l)\<rparr>)))"

fun reauthenticateOutput :: "ReauthenticationResult \<Rightarrow> goerr + UserReauthenticateResponse outcome" where
  "reauthenticateOutput (redirectReauthentication f) =
     (if fr_ID f = '''' \<or> fr_Token f = '''' \<or> fr_AuthorizationURL f = '''' \<or> fr_ExpiresAt f = zero_time
      then Inl errInvalidAuthenticationResult
      else Inr ([no_store_header], Body \<lparr>re_Result = ResultRedirect, re_ReauthenticationID = None,
        re_Flow = Some (flowDTO f)\<rparr>))"
| "reauthenticateOutput (completedReauthentication i) =
     (if i = '''' then Inl errInvalidAuthenticationResult
      else Inr ([no_store_header], Body \<lparr>re_Result = ResultReauthenticated, re_ReauthenticationID = Some i,
        re_Flow = None\<rparr>))"

subsection \<open>dto.go: requests and their schema constraints\<close>

definition runes_within :: "nat \<Rightarrow> nat \<Rightarrow> string \<Rightarrow> bool" where
  "runes_within lo hi s \<longleftrightarrow> lo \<le> RuneCountInString s \<and> RuneCountInString s \<le> hi"

record UserRegisterRequest =
  rg_Email :: string

record UserLoginRequest =
  lg_Email :: string
  lg_Password :: string

record AuthOAuthCallbackRequest =
  oc_Token :: string
  oc_Code :: string
  oc_State :: string

record UserVerifyRequest =
  vr_Token :: string
  vr_Purpose :: string
  vr_NewPassword :: string

record UserReauthenticateRequest =
  rr_Method :: string
  rr_Password :: string
  rr_AccountID :: string
  rr_Operation :: string
  rr_Target :: string

record AccountLinkRequest =
  lk_Provider :: string
  lk_ReauthenticationID :: string

record UserPasswordSetRequest =
  ps_NewPassword :: string
  ps_CurrentPassword :: string
  ps_ReauthenticationID :: "string option"

record UserEmailChangeRequest =
  ec_Email :: string
  ec_ReauthenticationID :: string

text \<open>\<^verbatim>\<open>format:"email"\<close> is huma's check, the parameter \<open>fmt\<close>.\<close>

definition register_schema :: "(string \<Rightarrow> bool) \<Rightarrow> UserRegisterRequest \<Rightarrow> bool" where
  "register_schema fmt b \<longleftrightarrow> fmt (rg_Email b) \<and> runes_within 0 254 (rg_Email b)"

definition login_schema :: "(string \<Rightarrow> bool) \<Rightarrow> UserLoginRequest \<Rightarrow> bool" where
  "login_schema fmt b \<longleftrightarrow> fmt (lg_Email b) \<and> runes_within 0 254 (lg_Email b) \<and> runes_within 1 128 (lg_Password b)"

definition callback_schema :: "AuthOAuthCallbackRequest \<Rightarrow> bool" where
  "callback_schema b \<longleftrightarrow> runes_within 1 128 (oc_Token b) \<and> runes_within 1 8192 (oc_Code b) \<and> runes_within 1 128 (oc_State b)"

text \<open>
  \<^verbatim>\<open>UserRegistrationVerifyRequest\<close>, \<^verbatim>\<open>UserPasswordResetVerifyRequest\<close> and
  \<^verbatim>\<open>UserEmailVerifyRequest\<close> are the alternatives of \<^verbatim>\<open>UserVerifyRequest\<close>; the last has no
  password.
\<close>

definition registration_verify_schema :: "UserVerifyRequest \<Rightarrow> bool" where
  "registration_verify_schema b \<longleftrightarrow>
     runes_within 1 128 (vr_Token b) \<and> vr_Purpose b = ''register'' \<and> runes_within 15 128 (vr_NewPassword b)"

definition reset_verify_schema :: "UserVerifyRequest \<Rightarrow> bool" where
  "reset_verify_schema b \<longleftrightarrow>
     runes_within 1 128 (vr_Token b) \<and> vr_Purpose b = ''reset_password'' \<and> runes_within 15 128 (vr_NewPassword b)"

definition email_verify_schema :: "UserVerifyRequest \<Rightarrow> bool" where
  "email_verify_schema b \<longleftrightarrow> runes_within 1 128 (vr_Token b) \<and> vr_Purpose b = ''change_email'' \<and> vr_NewPassword b = ''''"

definition one_of :: "('b \<Rightarrow> bool) list \<Rightarrow> 'b \<Rightarrow> bool" where
  "one_of ps b \<longleftrightarrow> length (filter (\<lambda>p. p b) ps) = 1"

definition verify_schema :: "UserVerifyRequest \<Rightarrow> bool" where
  "verify_schema = one_of [registration_verify_schema, reset_verify_schema, email_verify_schema]"

definition operation_enum :: "string list" where
  "operation_enum = [''link_account'', ''unlink_account'', ''set_password'', ''change_email'']"

definition password_reauthenticate_schema :: "UserReauthenticateRequest \<Rightarrow> bool" where
  "password_reauthenticate_schema b \<longleftrightarrow> rr_Method b = ''password'' \<and> runes_within 1 128 (rr_Password b)
     \<and> rr_AccountID b = '''' \<and> rr_Operation b \<in> set operation_enum \<and> runes_within 1 255 (rr_Target b)"

definition oauth_reauthenticate_schema :: "UserReauthenticateRequest \<Rightarrow> bool" where
  "oauth_reauthenticate_schema b \<longleftrightarrow> rr_Method b = ''oauth'' \<and> runes_within 1 255 (rr_AccountID b)
     \<and> rr_Password b = '''' \<and> rr_Operation b \<in> set operation_enum \<and> runes_within 1 255 (rr_Target b)"

definition reauthenticate_schema :: "UserReauthenticateRequest \<Rightarrow> bool" where
  "reauthenticate_schema = one_of [password_reauthenticate_schema, oauth_reauthenticate_schema]"

definition link_schema :: "AccountLinkRequest \<Rightarrow> bool" where
  "link_schema b \<longleftrightarrow> runes_within 1 64 (lk_Provider b) \<and> runes_within 1 255 (lk_ReauthenticationID b)"

definition password_schema :: "UserPasswordSetRequest \<Rightarrow> bool" where
  "password_schema b \<longleftrightarrow> runes_within 15 128 (ps_NewPassword b) \<and> runes_within 0 128 (ps_CurrentPassword b)
     \<and> (case ps_ReauthenticationID b of None \<Rightarrow> True | Some i \<Rightarrow> runes_within 1 255 i)"

definition email_schema :: "(string \<Rightarrow> bool) \<Rightarrow> UserEmailChangeRequest \<Rightarrow> bool" where
  "email_schema fmt b \<longleftrightarrow> fmt (ec_Email b) \<and> runes_within 0 254 (ec_Email b) \<and> runes_within 1 255 (ec_ReauthenticationID b)"

text \<open>The inputs with a path parameter are pairs: the parameter, then the body.\<close>

definition start_schema :: "string \<times> string \<Rightarrow> bool" where
  "start_schema i \<longleftrightarrow> runes_within 0 64 (fst i) \<and> snd i \<in> {''login'', ''register''}"

definition update_schema :: "string \<Rightarrow> bool" where
  "update_schema name \<longleftrightarrow> runes_within 1 100 name"

definition confirm_schema :: "string \<Rightarrow> bool" where
  "confirm_schema flowID \<longleftrightarrow> runes_within 1 255 flowID"

definition id_schema :: "string \<Rightarrow> bool" where
  "id_schema i \<longleftrightarrow> runes_within 1 255 i"

definition unlink_schema :: "string \<times> string \<Rightarrow> bool" where
  "unlink_schema i \<longleftrightarrow> runes_within 1 255 (fst i) \<and> runes_within 1 255 (snd i)"

definition status_schema :: "string \<times> string \<Rightarrow> bool" where
  "status_schema i \<longleftrightarrow> runes_within 1 255 (fst i) \<and> snd i \<in> {''active'', ''disabled''}"

subsection \<open>http.go: operations\<close>

definition maxRequestBodyBytes :: int where
  "maxRequestBodyBytes = push_bit 10 16"

text \<open>The appended middleware is \<open>no_store\<close>, which stands in front of the authentication.\<close>

definition operation :: "string \<Rightarrow> Operation \<Rightarrow> Operation option" where
  "operation policy sp =
     NewOperation policy (sp\<lparr>op_Errors := [400, 401, 403, 404, 409, 413, 422, 429, 500, 503, 504],
       op_MaxBodyBytes := maxRequestBodyBytes\<rparr>)"

definition no_store ::
  "(ctx \<Rightarrow> string \<Rightarrow> 'i \<Rightarrow> world \<Rightarrow> 'd response \<times> world) \<Rightarrow> ctx \<Rightarrow> string \<Rightarrow> 'i \<Rightarrow> world \<Rightarrow> 'd response \<times> world" where
  "no_store next' c header input w =
     (let (resp, w') = next' c header input w
      in (resp\<lparr>rs_headers := no_store_header # rs_headers resp\<rparr>, w'))"

definition request :: "ctx \<Rightarrow> Request" where
  "request c = (let p = Current c; m = Metadata c
     in \<lparr>UserID = Subject p, rq_SessionID = SessionID p, RequestID = rm_ID m, ClientIP = rm_ClientIP m\<rparr>)"

definition tagged :: "string \<Rightarrow> string \<Rightarrow> string \<Rightarrow> string \<Rightarrow> Operation" where
  "tagged i meth path tag = (spec i meth path)\<lparr>op_Tags := [tag]\<rparr>"

definition accepted :: "Operation \<Rightarrow> Operation" where
  "accepted sp = sp\<lparr>op_DefaultStatus := 202\<rparr>"

definition authenticationRoutes :: "Operation option list" where
  "authenticationRoutes =
     [operation Public (accepted (tagged ''register-user'' ''POST'' ''/v1/auth/register'' ''Authentication'')),
      operation Public (tagged ''login-user'' ''POST'' ''/v1/auth/login'' ''Authentication''),
      operation Public (tagged ''start-oauth'' ''POST'' ''/v1/auth/oauth/{provider}'' ''Authentication''),
      operation Public (tagged ''oauth-callback'' ''POST'' ''/v1/auth/oauth/callback'' ''Authentication''),
      operation Public (accepted (tagged ''forgot-password'' ''POST'' ''/v1/auth/password/forgot'' ''Authentication'')),
      operation Public (tagged ''verify-user'' ''POST'' ''/v1/auth/verify'' ''Authentication'')]"

definition profileRoutes :: "Operation option list" where
  "profileRoutes =
     [operation Session (tagged ''get-me'' ''GET'' ''/v1/me'' ''Profile''),
      operation Session (tagged ''update-me'' ''PATCH'' ''/v1/me'' ''Profile'')]"

definition securityRoutes :: "Operation option list" where
  "securityRoutes =
     [operation Session (tagged ''reauthenticate-user'' ''POST'' ''/v1/me/reauthenticate'' ''Account Security''),
      operation Session (tagged ''set-password'' ''PUT'' ''/v1/me/password'' ''Account Security''),
      operation Session (accepted (tagged ''change-email'' ''POST'' ''/v1/me/email'' ''Account Security''))]"

definition linkedAccountRoutes :: "Operation option list" where
  "linkedAccountRoutes =
     [operation Session (tagged ''link-account'' ''POST'' ''/v1/me/accounts/link'' ''Linked Accounts''),
      operation Session (tagged ''confirm-account-link'' ''POST'' ''/v1/me/accounts/link/confirm'' ''Linked Accounts''),
      operation Session (tagged ''unlink-account'' ''POST'' ''/v1/me/accounts/{id}/unlink'' ''Linked Accounts'')]"

definition sessionRoutes :: "Operation option list" where
  "sessionRoutes =
     [operation Session (tagged ''list-sessions'' ''GET'' ''/v1/me/sessions'' ''Sessions''),
      operation Session (tagged ''revoke-session'' ''DELETE'' ''/v1/me/sessions/{id}'' ''Sessions''),
      operation Session (tagged ''revoke-my-sessions'' ''DELETE'' ''/v1/me/sessions'' ''Sessions'')]"

definition Routes :: "Operation option list" where
  "Routes = concat [authenticationRoutes, profileRoutes, securityRoutes, linkedAccountRoutes, sessionRoutes]"

definition AdminRoutes :: "Operation option list" where
  "AdminRoutes =
     [operation Session (tagged ''list-users'' ''GET'' ''/v1/admin/users'' ''User Administration''),
      operation Session (tagged ''set-user-status'' ''PATCH'' ''/v1/admin/users/{id}/status'' ''User Administration''),
      operation Session (tagged ''revoke-user-sessions'' ''DELETE'' ''/v1/admin/users/{id}/sessions'' ''User Administration'')]"

subsection \<open>http.go: handlers\<close>

definition registerUser :: "Service \<Rightarrow> (UserRegisterRequest, unit) handler" where
  "registerUser s c input = Register s (request c) (rg_Email input)"

definition loginUser :: "Service \<Rightarrow> (UserLoginRequest, SessionCredentials) handler" where
  "loginUser s c input = Login s (request c) (lg_Email input) (lg_Password input)"

definition startOAuth :: "Service \<Rightarrow> (string \<times> string, FlowResult) handler" where
  "startOAuth s c input = StartLogin s (request c) (fst input) (snd input)"

definition oauthCallback :: "Service \<Rightarrow> (AuthOAuthCallbackRequest, AuthCallbackResponse outcome) handler" where
  "oauthCallback s c input =
     bindA (Callback s (request c) (oc_Token input) (oc_Code input) (oc_State input)) (\<lambda>result.
     from_sum (callbackOutput result))"

definition forgotPassword :: "Service \<Rightarrow> (UserRegisterRequest, unit) handler" where
  "forgotPassword s c input = ForgotPassword s (request c) (rg_Email input)"

definition verifyUser :: "Service \<Rightarrow> (UserVerifyRequest, unit) handler" where
  "verifyUser s c input =
     VerifyChallenge s (request c) (vr_Token input) \<lparr>vf_Purpose = vr_Purpose input, vf_NewPassword = vr_NewPassword input\<rparr>"

definition getProfile :: "Service \<Rightarrow> (unit, Profile) handler" where
  "getProfile s c input = Me s (request c)"

definition updateProfile :: "Service \<Rightarrow> (string, UserRecord) handler" where
  "updateProfile s c input = UpdateProfile s (request c) input"

definition reauthenticateUser :: "Service \<Rightarrow> (UserReauthenticateRequest, UserReauthenticateResponse outcome) handler" where
  "reauthenticateUser s c input =
     bindA (Reauthenticate s (request c)
       \<lparr>ra_Method = rr_Method input, ra_Operation = rr_Operation input, ra_Password = rr_Password input,
        ra_Target = rr_Target input, ra_AccountID = rr_AccountID input\<rparr>) (\<lambda>result.
     from_sum (reauthenticateOutput result))"

definition setPassword :: "Service \<Rightarrow> (UserPasswordSetRequest, unit) handler" where
  "setPassword s c input =
     SetPassword s (request c) (ps_CurrentPassword input) (ps_NewPassword input)
       (case ps_ReauthenticationID input of None \<Rightarrow> '''' | Some i \<Rightarrow> i)"

definition changeEmail :: "Service \<Rightarrow> (UserEmailChangeRequest, unit) handler" where
  "changeEmail s c input = ChangeEmail s (request c) (ec_Email input) (ec_ReauthenticationID input)"

definition startAccountLink :: "Service \<Rightarrow> (AccountLinkRequest, FlowResult) handler" where
  "startAccountLink s c input = StartLink s (request c) (lk_Provider input) (lk_ReauthenticationID input)"

definition confirmAccountLink :: "Service \<Rightarrow> (string, unit) handler" where
  "confirmAccountLink s c flowID = ConfirmLink s (request c) flowID"

definition unlinkAccount :: "Service \<Rightarrow> (string \<times> string, unit) handler" where
  "unlinkAccount s c input = Unlink s (request c) (fst input) (snd input)"

definition listSessions :: "Service \<Rightarrow> (Params, SessionRecord Result) handler" where
  "listSessions s c input = Sessions s (request c) input"

definition revokeSession :: "Service \<Rightarrow> (string, unit) handler" where
  "revokeSession s c i = Service_RevokeSession s (request c) i False"

definition revokeMySessions :: "Service \<Rightarrow> (unit, unit) handler" where
  "revokeMySessions s c input = Service_RevokeSession s (request c) '''' True"

definition listUsers :: "Service \<Rightarrow> (Params, UserRecord Result) handler" where
  "listUsers s c input = Users s (request c) input"

definition setUserStatus :: "Service \<Rightarrow> (string \<times> string, UserRecord) handler" where
  "setUserStatus s c input = SetStatus s (request c) (fst input) (snd input)"

definition revokeUserSessions :: "Service \<Rightarrow> (string, unit) handler" where
  "revokeUserSessions s c i = Service_RevokeUserSessions s (request c) i"

subsection \<open>The endpoints\<close>

definition register_route :: "Service \<Rightarrow> (UserRegisterRequest, unit) endpoint option" where
  "register_route s = Option.bind (authenticationRoutes ! 0) (\<lambda>op. NoContentEndpoint op (registerUser s))"

definition login_route :: "Service \<Rightarrow> (UserLoginRequest, SessionCreateResponse) endpoint option" where
  "login_route s = Option.bind (authenticationRoutes ! 1) (\<lambda>op. MapEndpoint op (loginUser s) sessionOutput)"

definition start_oauth_route :: "Service \<Rightarrow> (string \<times> string, AuthFlowResponse) endpoint option" where
  "start_oauth_route s = Option.bind (authenticationRoutes ! 2) (\<lambda>op. MapEndpoint op (startOAuth s) flowOutput)"

definition oauth_callback_route :: "Service \<Rightarrow> (AuthOAuthCallbackRequest, AuthCallbackResponse) endpoint option" where
  "oauth_callback_route s = Option.bind (authenticationRoutes ! 3) (\<lambda>op. Endpoint op (oauthCallback s))"

definition forgot_password_route :: "Service \<Rightarrow> (UserRegisterRequest, unit) endpoint option" where
  "forgot_password_route s = Option.bind (authenticationRoutes ! 4) (\<lambda>op. NoContentEndpoint op (forgotPassword s))"

definition verify_user_route :: "Service \<Rightarrow> (UserVerifyRequest, unit) endpoint option" where
  "verify_user_route s = Option.bind (authenticationRoutes ! 5) (\<lambda>op. NoContentEndpoint op (verifyUser s))"

definition get_me_route :: "Service \<Rightarrow> (unit, Profile) endpoint option" where
  "get_me_route s = Option.bind (profileRoutes ! 0) (\<lambda>op. ItemEndpoint op (getProfile s) profileDTO)"

definition update_me_route :: "Service \<Rightarrow> (string, UserRecord) endpoint option" where
  "update_me_route s = Option.bind (profileRoutes ! 1) (\<lambda>op. ItemEndpoint op (updateProfile s) userDTO)"

definition reauthenticate_route :: "Service \<Rightarrow> (UserReauthenticateRequest, UserReauthenticateResponse) endpoint option" where
  "reauthenticate_route s = Option.bind (securityRoutes ! 0) (\<lambda>op. Endpoint op (reauthenticateUser s))"

definition set_password_route :: "Service \<Rightarrow> (UserPasswordSetRequest, unit) endpoint option" where
  "set_password_route s = Option.bind (securityRoutes ! 1) (\<lambda>op. NoContentEndpoint op (setPassword s))"

definition change_email_route :: "Service \<Rightarrow> (UserEmailChangeRequest, unit) endpoint option" where
  "change_email_route s = Option.bind (securityRoutes ! 2) (\<lambda>op. NoContentEndpoint op (changeEmail s))"

definition link_account_route :: "Service \<Rightarrow> (AccountLinkRequest, AuthFlowResponse) endpoint option" where
  "link_account_route s = Option.bind (linkedAccountRoutes ! 0) (\<lambda>op. MapEndpoint op (startAccountLink s) flowOutput)"

definition confirm_link_route :: "Service \<Rightarrow> (string, unit) endpoint option" where
  "confirm_link_route s = Option.bind (linkedAccountRoutes ! 1) (\<lambda>op. NoContentEndpoint op (confirmAccountLink s))"

definition unlink_account_route :: "Service \<Rightarrow> (string \<times> string, unit) endpoint option" where
  "unlink_account_route s = Option.bind (linkedAccountRoutes ! 2) (\<lambda>op. NoContentEndpoint op (unlinkAccount s))"

definition list_sessions_route :: "Service \<Rightarrow> (Params, SessionRecord Result) endpoint option" where
  "list_sessions_route s = Option.bind (sessionRoutes ! 0) (\<lambda>op. PageEndpoint op (listSessions s) sessionRecordDTO)"

definition revoke_session_route :: "Service \<Rightarrow> (string, unit) endpoint option" where
  "revoke_session_route s = Option.bind (sessionRoutes ! 1) (\<lambda>op. NoContentEndpoint op (revokeSession s))"

definition revoke_my_sessions_route :: "Service \<Rightarrow> (unit, unit) endpoint option" where
  "revoke_my_sessions_route s = Option.bind (sessionRoutes ! 2) (\<lambda>op. NoContentEndpoint op (revokeMySessions s))"

definition list_users_route :: "Service \<Rightarrow> (Params, UserRecord Result) endpoint option" where
  "list_users_route s = Option.bind (AdminRoutes ! 0) (\<lambda>op. PageEndpoint op (listUsers s) userDTO)"

definition set_user_status_route :: "Service \<Rightarrow> (string \<times> string, UserRecord) endpoint option" where
  "set_user_status_route s = Option.bind (AdminRoutes ! 1) (\<lambda>op. ItemEndpoint op (setUserStatus s) userDTO)"

definition revoke_user_sessions_route :: "Service \<Rightarrow> (string, unit) endpoint option" where
  "revoke_user_sessions_route s = Option.bind (AdminRoutes ! 2) (\<lambda>op. NoContentEndpoint op (revokeUserSessions s))"

lemmas route_defs =
  register_route_def login_route_def start_oauth_route_def oauth_callback_route_def forgot_password_route_def
  verify_user_route_def get_me_route_def update_me_route_def reauthenticate_route_def set_password_route_def
  change_email_route_def link_account_route_def confirm_link_route_def unlink_account_route_def
  list_sessions_route_def revoke_session_route_def revoke_my_sessions_route_def list_users_route_def
  set_user_status_route_def revoke_user_sessions_route_def

text \<open>A request on a route of the module, as the router hands it over with its \<^verbatim>\<open>Authorization\<close> header.\<close>

definition serve ::
  "(ctx \<Rightarrow> string \<Rightarrow> Principal act) \<Rightarrow> ('i, 'd) endpoint option \<Rightarrow> ctx \<Rightarrow> string \<Rightarrow> 'i \<Rightarrow> world \<Rightarrow> ('d response \<times> world) option" where
  "serve authenticate route c header input w =
     Option.bind route (\<lambda>e. map_option (\<lambda>run. no_store run c header input w) (bind_route authenticate e))"

end
