(* ===== verification/Password.thy ===== *)
theory Password
  imports Validation
begin

text \<open>
  \<^verbatim>\<open>internal/platform/password\<close>: password policy, hashing and verification behind a bounded
  number of slots.  The package \<^verbatim>\<open>argon2id\<close> is the parameter record \<open>argon2\<close>; what the
  code relies on of it is \<open>argon2_law\<close>.  A call sees its context only through \<^verbatim>\<open>ctx.Err()\<close>
  at its successive checks and through the branch its \<^verbatim>\<open>select\<close> takes, the record \<open>call\<close>.
  The slots are shared by all goroutines: \<open>hash_step\<close> interleaves them.
\<close>

subsection \<open>Constants and policy\<close>

definition memory :: "32 word" where "memory = 19 * 1024"
definition iterations :: "32 word" where "iterations = 2"
definition parallelism :: "8 word" where "parallelism = 1"
definition saltBytes :: "32 word" where "saltBytes = 16"
definition keyBytes :: "32 word" where "keyBytes = 32"
definition minPasswordRunes :: nat where "minPasswordRunes = 15"
definition maxPasswordRunes :: nat where "maxPasswordRunes = 128"
definition maxPasswordBytes :: nat where "maxPasswordBytes = 512"
definition maxEncodedHashBytes :: nat where "maxEncodedHashBytes = 256"
definition minHashMemoryKiB :: "32 word" where "minHashMemoryKiB = 8"
definition maxHashMemoryKiB :: "32 word" where "maxHashMemoryKiB = 64 * 1024"
definition maxHashIterations :: "32 word" where "maxHashIterations = 4"
definition minHashSaltBytes :: "32 word" where "minHashSaltBytes = 16"
definition maxHashSaltBytes :: "32 word" where "maxHashSaltBytes = 32"

definition Validate :: "string \<Rightarrow> bool" where
  "Validate value = (let n = RuneCountInString value
     in ValidString value \<and> n \<ge> minPasswordRunes \<and> n \<le> maxPasswordRunes \<and> length value \<le> maxPasswordBytes)"

record Params =
  p_Memory :: "32 word"
  p_Iterations :: "32 word"
  p_Parallelism :: "8 word"
  p_SaltLength :: "32 word"
  p_KeyLength :: "32 word"

definition hash_params :: Params where
  "hash_params = \<lparr>p_Memory = memory, p_Iterations = iterations, p_Parallelism = parallelism,
     p_SaltLength = saltBytes, p_KeyLength = keyBytes\<rparr>"

text \<open>The nil pointer that a failed decoding returns is the error branch of \<open>a_DecodeHash\<close>.\<close>

definition allowedParams :: "Params \<Rightarrow> bool" where
  "allowedParams p \<longleftrightarrow> p_Memory p \<ge> minHashMemoryKiB \<and> p_Memory p \<le> maxHashMemoryKiB
     \<and> p_Iterations p \<ge> 1 \<and> p_Iterations p \<le> maxHashIterations \<and> p_Parallelism p = parallelism
     \<and> p_SaltLength p \<ge> minHashSaltBytes \<and> p_SaltLength p \<le> maxHashSaltBytes \<and> p_KeyLength p = keyBytes"

subsection \<open>Hashing\<close>

record argon2 =
  a_CreateHash :: "nat \<Rightarrow> string \<Rightarrow> Params \<Rightarrow> goerr + string" \<comment> \<open>the number stands for the random salt\<close>
  a_DecodeHash :: "string \<Rightarrow> goerr + Params"
  a_Compare :: "string \<Rightarrow> string \<Rightarrow> goerr + bool" \<comment> \<open>value, hash\<close>

datatype selected = Slot | Done goerr

record call =
  cl_err :: "nat \<Rightarrow> goerr option"
  cl_select :: selected
  cl_salt :: nat

record Hasher =
  h_slots :: nat \<comment> \<open>the capacity of the channel\<close>
  h_dummy :: string

text \<open>\<open>acquire\<close> makes the checks \<open>i\<close> and \<open>i + 1\<close>.\<close>

definition acquire :: "call \<Rightarrow> nat \<Rightarrow> goerr + unit" where
  "acquire c i =
     (case cl_err c i of
        Some e \<Rightarrow> Inl e
      | None \<Rightarrow>
          (case cl_select c of
             Done e \<Rightarrow> Inl e
           | Slot \<Rightarrow> (case cl_err c (i + 1) of Some e \<Rightarrow> Inl e | None \<Rightarrow> Inr ())))"

definition Hash :: "argon2 \<Rightarrow> call \<Rightarrow> string \<Rightarrow> goerr + string" where
  "Hash A c value =
     (if length value > maxPasswordBytes then Inl (Plain (utf8 [0x5bc6, 0x7801, 0x957f, 0x5ea6, 0x8d85, 0x51fa, 0x4e0a, 0x9650]))
      else case acquire c 0 of
        Inl e \<Rightarrow> Inl e
      | Inr _ \<Rightarrow>
          (case a_CreateHash A (cl_salt c) value hash_params of
             Inl e \<Rightarrow> Inl (Wrapped (utf8 [0x5bc6, 0x7801, 0x54c8, 0x5e0c, 0x751f, 0x6210, 0x5931, 0x8d25, 0x3a, 0x20, 0x25, 0x77]) [e])
           | Inr hash \<Rightarrow> (case cl_err c 2 of Some e \<Rightarrow> Inl e | None \<Rightarrow> Inr hash)))"

definition background :: "nat \<Rightarrow> call" where
  "background salt = \<lparr>cl_err = (\<lambda>_. None), cl_select = Slot, cl_salt = salt\<rparr>"

definition dummy_password :: string where
  "dummy_password = ''dummy password used only for timing''"

definition password_New :: "argon2 \<Rightarrow> nat \<Rightarrow> int \<Rightarrow> goerr + Hasher" where
  "password_New A salt concurrency =
     (let concurrency = (if concurrency < 1 then 1 else concurrency)
      in case Hash A (background salt) dummy_password of
           Inl e \<Rightarrow> Inl e
         | Inr dummy \<Rightarrow> Inr \<lparr>h_slots = nat concurrency, h_dummy = dummy\<rparr>)"

text \<open>The parameters of a stored hash that may be computed, and the hash that is.\<close>

definition accepted_params :: "argon2 \<Rightarrow> string \<Rightarrow> Params option" where
  "accepted_params A hash =
     (if length hash \<le> maxEncodedHashBytes
      then (case a_DecodeHash A hash of
              Inl _ \<Rightarrow> None
            | Inr params \<Rightarrow> if allowedParams params then Some params else None)
      else None)"

definition compared_hash :: "argon2 \<Rightarrow> Hasher \<Rightarrow> string \<Rightarrow> string" where
  "compared_hash A h hash = (case accepted_params A hash of Some _ \<Rightarrow> hash | None \<Rightarrow> h_dummy h)"

text \<open>\<^verbatim>\<open>Verify\<close> with the hashes that it has argon2id compute on the way.\<close>

definition verify_run :: "argon2 \<Rightarrow> Hasher \<Rightarrow> call \<Rightarrow> string \<Rightarrow> string \<Rightarrow> (goerr + bool \<times> bool) \<times> string list" where
  "verify_run A h c hash value =
     (case cl_err c 0 of
        Some e \<Rightarrow> (Inl e, [])
      | None \<Rightarrow>
          if length value > maxPasswordBytes then (Inr (False, False), [])
          else case acquire c 1 of
            Inl e \<Rightarrow> (Inl e, [])
          | Inr _ \<Rightarrow>
              (let computed = compared_hash A h hash
               in (case a_Compare A value computed of
                     Inl _ \<Rightarrow> Inl (Plain (utf8 [0x5bc6, 0x7801, 0x54c8, 0x5e0c, 0x9a8c, 0x8bc1, 0x5931, 0x8d25]))
                   | Inr matched \<Rightarrow>
                       (case cl_err c 3 of
                          Some e \<Rightarrow> Inl e
                        | None \<Rightarrow>
                            (case accepted_params A hash of
                               None \<Rightarrow> Inr (False, False)
                             | Some params \<Rightarrow>
                                 Inr (matched, matched \<and> (p_Memory params < memory \<or> p_Iterations params < iterations)))),
                   [computed])))"

definition Verify :: "argon2 \<Rightarrow> Hasher \<Rightarrow> call \<Rightarrow> string \<Rightarrow> string \<Rightarrow> goerr + bool \<times> bool" where
  "Verify A h c hash value = fst (verify_run A h c hash value)"

subsection \<open>The slots\<close>

text \<open>
  A goroutine inside \<^verbatim>\<open>Hash\<close> or \<^verbatim>\<open>Verify\<close>: before the first check of \<^verbatim>\<open>acquire\<close>, in
  its \<^verbatim>\<open>select\<close>, between the send and the second check, computing, and gone.  Its flag says
  whether its context is done, which may happen at any time.  Sending needs room in the channel and
  receiving needs an element.
\<close>

datatype pc = Entering | Selecting | Taken | Computing | Left

type_synonym hstate = "nat \<times> (pc \<times> bool) list"

inductive hash_step :: "nat \<Rightarrow> hstate \<Rightarrow> hstate \<Rightarrow> bool" for cap :: nat where
  cancel: "i < length ts \<Longrightarrow> ts ! i = (p, False) \<Longrightarrow> hash_step cap (used, ts) (used, ts[i := (p, True)])"
| enter: "i < length ts \<Longrightarrow> ts ! i = (Entering, False) \<Longrightarrow> hash_step cap (used, ts) (used, ts[i := (Selecting, False)])"
| refuse: "i < length ts \<Longrightarrow> ts ! i = (Entering, True) \<Longrightarrow> hash_step cap (used, ts) (used, ts[i := (Left, True)])"
| take: "i < length ts \<Longrightarrow> ts ! i = (Selecting, c) \<Longrightarrow> used < cap \<Longrightarrow> hash_step cap (used, ts) (used + 1, ts[i := (Taken, c)])"
| give_up: "i < length ts \<Longrightarrow> ts ! i = (Selecting, True) \<Longrightarrow> hash_step cap (used, ts) (used, ts[i := (Left, True)])"
| abandon: "i < length ts \<Longrightarrow> ts ! i = (Taken, True) \<Longrightarrow> 0 < used \<Longrightarrow> hash_step cap (used, ts) (used - 1, ts[i := (Left, True)])"
| compute: "i < length ts \<Longrightarrow> ts ! i = (Taken, False) \<Longrightarrow> hash_step cap (used, ts) (used, ts[i := (Computing, False)])"
| finish: "i < length ts \<Longrightarrow> ts ! i = (Computing, c) \<Longrightarrow> 0 < used \<Longrightarrow> hash_step cap (used, ts) (used - 1, ts[i := (Left, c)])"

inductive_cases hash_stepE: "hash_step cap s s'"

definition holds :: "pc \<times> bool \<Rightarrow> bool" where
  "holds t \<longleftrightarrow> fst t \<in> {Taken, Computing}"

fun rank :: "pc \<times> bool \<Rightarrow> nat" where
  "rank (p, c) = (case p of Entering \<Rightarrow> 4 | Selecting \<Rightarrow> 3 | Taken \<Rightarrow> 2 | Computing \<Rightarrow> 1 | Left \<Rightarrow> 0) + (if c then 0 else 1)"

definition budget :: "hstate \<Rightarrow> nat" where
  "budget s = sum_list (map rank (snd s))"

definition slots_ok :: "nat \<Rightarrow> hstate \<Rightarrow> bool" where
  "slots_ok cap s \<longleftrightarrow> fst s = length (filter holds (snd s)) \<and> fst s \<le> cap"

definition idle_hasher :: "nat \<Rightarrow> hstate" where
  "idle_hasher n = (0, replicate n (Entering, False))"

subsection \<open>Facts about the slots\<close>

lemma sum_list_replaced:
  fixes f :: "'a \<Rightarrow> nat"
  assumes "i < length xs"
  shows "sum_list (map f (xs[i := x])) + f (xs ! i) = sum_list (map f xs) + f x"
  using assms
proof (induction xs arbitrary: i)
  case (Cons a xs)
  then show ?case by (cases i) auto
qed simp

lemma length_filter_sum: "length (filter P xs) = sum_list (map (\<lambda>x. if P x then 1 else 0) xs)"
  by (induction xs) auto

lemma holders_replaced:
  assumes "i < length xs"
  shows "length (filter P (xs[i := x])) + (if P (xs ! i) then 1 else 0) = length (filter P xs) + (if P x then 1 else 0)"
  unfolding length_filter_sum using sum_list_replaced [OF assms] .

lemma slots_move:
  assumes "slots_ok cap (used, ts)" and "i < length ts" and "ts ! i = t"
    and "used' + (if holds t then 1 else 0) = used + (if holds t' then 1 else 0)" and "used' \<le> cap" and "rank t' < rank t"
  shows "slots_ok cap (used', ts[i := t']) \<and> budget (used', ts[i := t']) < budget (used, ts)"
  using assms holders_replaced [OF assms(2), of holds t'] sum_list_replaced [OF assms(2), of rank t']
  by (auto simp: slots_ok_def budget_def split: if_splits)

lemma slots_ok_step:
  assumes "hash_step cap s s'" and "slots_ok cap s"
  shows "slots_ok cap s' \<and> budget s' < budget s"
proof -
  have le: "slots_ok cap (used, ts) \<Longrightarrow> used \<le> cap" for used ts by (simp add: slots_ok_def)
  from assms(1) show ?thesis
  proof cases
    case (cancel i ts p used)
    then show ?thesis using slots_move [of cap used ts i "(p, False)" "used" "(p, True)"] assms(2) le [of used ts] by (simp add: holds_def)
  next
    case (enter i ts used)
    then show ?thesis using slots_move [of cap used ts i "(Entering, False)" "used" "(Selecting, False)"] assms(2) le [of used ts] by (simp add: holds_def)
  next
    case (refuse i ts used)
    then show ?thesis using slots_move [of cap used ts i "(Entering, True)" "used" "(Left, True)"] assms(2) le [of used ts] by (simp add: holds_def)
  next
    case (take i ts c used)
    then show ?thesis using slots_move [of cap used ts i "(Selecting, c)" "used + 1" "(Taken, c)"] assms(2) le [of used ts] by (simp add: holds_def)
  next
    case (give_up i ts used)
    then show ?thesis using slots_move [of cap used ts i "(Selecting, True)" "used" "(Left, True)"] assms(2) le [of used ts] by (simp add: holds_def)
  next
    case (abandon i ts used)
    then show ?thesis using slots_move [of cap used ts i "(Taken, True)" "used - 1" "(Left, True)"] assms(2) le [of used ts] by (simp add: holds_def)
  next
    case (compute i ts used)
    then show ?thesis using slots_move [of cap used ts i "(Taken, False)" "used" "(Computing, False)"] assms(2) le [of used ts] by (simp add: holds_def)
  next
    case (finish i ts c used)
    then show ?thesis using slots_move [of cap used ts i "(Computing, c)" "used - 1" "(Left, c)"] assms(2) le [of used ts] by (simp add: holds_def)
  qed
qed

text \<open>A goroutine that has not left can move, or waits for a slot that another one holds.\<close>

lemma slots_live:
  assumes "slots_ok cap (used, ts)" and "0 < cap" and "t \<in> set ts" and "fst t \<noteq> Left"
  shows "\<exists>s'. hash_step cap (used, ts) s'"
proof -
  have held: "\<exists>s'. hash_step cap (used, ts) s'" if h: "t \<in> set ts" "holds t" for t
  proof -
    obtain i where i: "i < length ts" "ts ! i = t" using h(1) by (auto simp: in_set_conv_nth)
    have "0 < used" using assms(1) h by (auto simp: slots_ok_def filter_empty_conv)
    then show ?thesis using h(2) i abandon [of i ts used cap] compute [of i ts cap used] finish [of i ts _ used cap]
      by (cases t) (auto simp: holds_def; metis (full_types))
  qed
  obtain i where i: "i < length ts" "ts ! i = t" using assms(3) by (auto simp: in_set_conv_nth)
  obtain p c where t: "t = (p, c)" by force
  show ?thesis
  proof (cases p)
    case Entering
    then show ?thesis using i t enter [of i ts cap used] refuse [of i ts cap used] by (cases c) auto
  next
    case Selecting
    show ?thesis
    proof (cases "used < cap")
      case True
      then show ?thesis using i t Selecting take [of i ts c used cap] by auto
    next
      case False
      then have "filter holds ts \<noteq> []" using assms(1,2) by (auto simp: slots_ok_def)
      then show ?thesis using held by (auto simp: filter_empty_conv)
    qed
  qed (use held assms(3,4) t in \<open>auto simp: holds_def\<close>)
qed

lemma hash_run:
  assumes "(hash_step cap ^^ k) s s'" and "slots_ok cap s"
  shows "slots_ok cap s' \<and> budget s' + k \<le> budget s"
  using assms
proof (induction k arbitrary: s')
  case (Suc k)
  then obtain s1 where s1: "(hash_step cap ^^ k) s s1" "hash_step cap s1 s'" by auto
  then show ?case using Suc.IH [OF s1(1) Suc.prems(2)] slots_ok_step [OF s1(2)] by auto
qed simp

lemma idle_hasher_ok: "slots_ok cap (idle_hasher n)" "budget (idle_hasher n) = 5 * n"
  by (simp_all add: slots_ok_def idle_hasher_def holds_def budget_def sum_list_replicate)

text \<open>
  C35.  The slots of the hasher, for any number of concurrent calls whose contexts end at any time:
  the number of taken slots is the number of calls that hold one and never exceeds the capacity
  (so at most that many hashes are computed at once); no slot is leaked and no receive blocks, so
  as long as a call has not returned some call can move; and every schedule is finite.
\<close>

theorem hash_slots:
  assumes "password_New A salt concurrency = Inr h" and "(hash_step (h_slots h) ^^ k) (idle_hasher n) (used, ts)"
  shows "used = length (filter holds ts) \<and> length (filter (\<lambda>t. fst t = Computing) ts) \<le> used
    \<and> used \<le> h_slots h \<and> int (h_slots h) = max 1 concurrency
    \<and> ((\<forall>t \<in> set ts. fst t = Left) \<or> (\<exists>s'. hash_step (h_slots h) (used, ts) s')) \<and> k \<le> 5 * n"
proof (intro conjI)
  have cap: "int (h_slots h) = max 1 concurrency" using assms(1) by (auto simp: password_New_def Let_def split: sum.splits)
  then show "int (h_slots h) = max 1 concurrency" .
  have run: "slots_ok (h_slots h) (used, ts) \<and> budget (used, ts) + k \<le> 5 * n"
    using hash_run [OF assms(2)] idle_hasher_ok by simp
  then show u: "used = length (filter holds ts)" "used \<le> h_slots h" "k \<le> 5 * n" by (simp_all add: slots_ok_def)
  have "length (filter (\<lambda>t. fst t = Computing) ts) = length (filter (\<lambda>t. fst t = Computing) (filter holds ts))"
    by (simp add: holds_def conj_commute cong: conj_cong)
  also have "\<dots> \<le> length (filter holds ts)" by (rule length_filter_le)
  finally show "length (filter (\<lambda>t. fst t = Computing) ts) \<le> used" using u by simp
  show "(\<forall>t \<in> set ts. fst t = Left) \<or> (\<exists>s'. hash_step (h_slots h) (used, ts) s')"
    using slots_live run cap by fastforce
qed

subsection \<open>Policy and verification\<close>

lemma decode_rune_width: "snd (decode_rune bs) \<le> 4"
  by (induction bs rule: decode_rune.induct) (auto simp: Let_def split: list.split)

lemma length_le_runes: "length bs \<le> 4 * length (runes bs)"
proof (induction bs rule: runes.induct)
  case (2 b bs)
  obtain r n where d: "decode_rune (b # bs) = (r, n)" by force
  have "length (drop (n - 1) bs) \<le> 4 * length (runes (drop (n - 1) bs))" using 2 [OF d [symmetric]] .
  moreover have "n \<le> 4" using decode_rune_width [of "b # bs"] d by simp
  ultimately show ?case using d by simp
qed simp

text \<open>A rune takes at most four bytes, so the bound in bytes excludes nothing.\<close>

lemma Validate_iff: "Validate v \<longleftrightarrow> ValidString v \<and> 15 \<le> RuneCountInString v \<and> RuneCountInString v \<le> 128"
  using length_le_runes [of "bytes v"]
  by (auto simp: Validate_def Let_def minPasswordRunes_def maxPasswordRunes_def maxPasswordBytes_def
      RuneCountInString_def bytes_def)

definition argon2_law :: "argon2 \<Rightarrow> bool" where
  "argon2_law A \<longleftrightarrow> (\<forall>n v h. a_CreateHash A n v hash_params = Inr h \<longrightarrow>
     length h \<le> maxEncodedHashBytes \<and> a_DecodeHash A h = Inr hash_params \<and> (\<forall>v'. a_Compare A v' h = Inr (v' = v)))"

definition undisturbed :: "call \<Rightarrow> bool" where
  "undisturbed c \<longleftrightarrow> list_all (\<lambda>i. cl_err c i = None) [0, 1, 2, 3] \<and> cl_select c = Slot"

lemma undisturbed_acquire: "undisturbed c \<Longrightarrow> i < 3 \<Longrightarrow> acquire c i = Inr ()"
  by (auto simp: undisturbed_def acquire_def less_Suc_eq numeral_eq_Suc)

lemma allowed_hash_params: "allowedParams hash_params"
  by (simp add: allowedParams_def hash_params_def memory_def iterations_def parallelism_def saltBytes_def keyBytes_def
      minHashMemoryKiB_def maxHashMemoryKiB_def maxHashIterations_def minHashSaltBytes_def maxHashSaltBytes_def)

lemma Hash_created:
  assumes "Hash A c v = Inr h" and "argon2_law A"
  shows "length v \<le> maxPasswordBytes" and "accepted_params A h = Some hash_params" and "a_Compare A v' h = Inr (v' = v)"
    and "a_DecodeHash A h = Inr hash_params"
  using assms allowed_hash_params
  by (auto simp: Hash_def argon2_law_def accepted_params_def split: if_splits sum.splits option.splits)

text \<open>
  C36.  Hashing and verification agree: a hash that \<^verbatim>\<open>Hash\<close> produced is matched by exactly the
  password it was made from, and needs no upgrade.
\<close>

theorem password_roundtrip:
  assumes "argon2_law A" and "Hash A c v = Inr hash" and "undisturbed c'"
  shows "Verify A h c' hash v' = Inr (v' = v, False)"
proof -
  have c: "cl_err c' 0 = None" "cl_err c' 3 = None" "acquire c' 1 = Inr ()"
    using assms(3) undisturbed_acquire by (simp_all add: undisturbed_def)
  show ?thesis using Hash_created [OF assms(2,1)] c
    by (simp add: Verify_def verify_run_def Let_def compared_hash_def hash_params_def) (auto simp: not_le)
qed

lemma verify_run_computed:
  "snd (verify_run A h c hash value) =
     (if cl_err c 0 = None \<and> length value \<le> maxPasswordBytes \<and> acquire c 1 = Inr () then [compared_hash A h hash] else [])"
  by (auto simp: verify_run_def Let_def split: option.splits sum.splits)

text \<open>
  C37.  Verification of an arbitrary stored value.  Whatever is stored, argon2id is asked to compute at
  most one hash, only for a password of bounded length, and only one whose parameters are within the
  limits of the service; exactly one when nothing ends the call, so an unacceptable or missing stored
  value costs what any other does; and no other computation has a part in the result.  A value that is
  not an acceptable hash never matches, a match means that the password matches the stored hash itself,
  and an upgrade is asked for exactly when a matched hash is weaker than what \<^verbatim>\<open>Hash\<close> makes today.
\<close>

theorem verify_sound:
  assumes "argon2_law A" and "password_New A salt concurrency = Inr h"
  shows "(\<forall>x \<in> set (snd (verify_run A h c hash value)).
            length value \<le> maxPasswordBytes \<and> (\<exists>p. a_DecodeHash A x = Inr p \<and> allowedParams p))
    \<and> length (snd (verify_run A h c hash value)) \<le> 1
    \<and> (undisturbed c \<and> length value \<le> maxPasswordBytes \<longrightarrow> length (snd (verify_run A h c hash value)) = 1)
    \<and> (\<forall>cmp. (\<forall>x \<in> set (snd (verify_run A h c hash value)). cmp value x = a_Compare A value x) \<longrightarrow>
         verify_run (A\<lparr>a_Compare := cmp\<rparr>) h c hash value = verify_run A h c hash value)
    \<and> (\<forall>matched upgrade. Verify A h c hash value = Inr (matched, upgrade) \<longrightarrow>
         (matched \<longrightarrow> a_Compare A value hash = Inr True)
         \<and> (upgrade \<longleftrightarrow> matched \<and> (\<exists>p. accepted_params A hash = Some p \<and> (p_Memory p < memory \<or> p_Iterations p < iterations)))
         \<and> (accepted_params A hash = None \<longrightarrow> \<not> matched))"
proof -
  obtain salt' where "Hash A (background salt') dummy_password = Inr (h_dummy h)"
    using assms(2) by (auto simp: password_New_def Let_def split: sum.splits)
  note dummy = Hash_created [OF this assms(1)]
  have "\<exists>p. a_DecodeHash A (compared_hash A h hash) = Inr p \<and> allowedParams p"
    using dummy allowed_hash_params
    by (auto simp: compared_hash_def accepted_params_def split: if_splits sum.splits option.splits)
  then have "\<forall>x \<in> set (snd (verify_run A h c hash value)).
      length value \<le> maxPasswordBytes \<and> (\<exists>p. a_DecodeHash A x = Inr p \<and> allowedParams p)"
    by (simp add: verify_run_computed)
  moreover have "undisturbed c \<and> length value \<le> maxPasswordBytes \<Longrightarrow> length (snd (verify_run A h c hash value)) = 1"
    using undisturbed_acquire [of c 1] by (simp add: verify_run_computed undisturbed_def)
  moreover have "verify_run (A\<lparr>a_Compare := cmp\<rparr>) h c hash value = verify_run A h c hash value"
    if "\<forall>x \<in> set (snd (verify_run A h c hash value)). cmp value x = a_Compare A value x" for cmp
  proof -
    have same: "compared_hash (A\<lparr>a_Compare := cmp\<rparr>) h hash = compared_hash A h hash"
        "accepted_params (A\<lparr>a_Compare := cmp\<rparr>) hash = accepted_params A hash"
      by (simp_all add: compared_hash_def accepted_params_def)
    show ?thesis using that unfolding verify_run_computed
      by (auto simp: verify_run_def Let_def same split: option.split sum.split)
  qed
  moreover have "Verify A h c hash value = Inr (matched, upgrade) \<Longrightarrow>
      (matched \<longrightarrow> a_Compare A value hash = Inr True)
      \<and> (upgrade \<longleftrightarrow> matched \<and> (\<exists>p. accepted_params A hash = Some p \<and> (p_Memory p < memory \<or> p_Iterations p < iterations)))
      \<and> (accepted_params A hash = None \<longrightarrow> \<not> matched)" for matched upgrade
    by (auto simp: Verify_def verify_run_def Let_def compared_hash_def split: option.splits sum.splits if_splits)
  moreover have "length (snd (verify_run A h c hash value)) \<le> 1" by (simp add: verify_run_computed)
  ultimately show ?thesis by (intro conjI allI impI) blast+
qed

text \<open>A stand-in for the package, for the examples: the hash shows the password.\<close>

definition plain_argon2 :: argon2 where
  "plain_argon2 = \<lparr>
     a_CreateHash = (\<lambda>n v p. if length v \<le> 200 \<and> p = hash_params then Inr (''$'' @ v) else Inl (Plain ''refused'')),
     a_DecodeHash = (\<lambda>h. if h \<noteq> [] \<and> hd h = CHR ''$'' then Inr hash_params else Inl (Plain ''malformed'')),
     a_Compare = (\<lambda>v h. Inr (h = ''$'' @ v))\<rparr>"

lemma plain_argon2_law: "argon2_law plain_argon2"
  by (auto simp: argon2_law_def plain_argon2_def maxEncodedHashBytes_def)

lemma plain_hasher: "password_New plain_argon2 0 4 = Inr \<lparr>h_slots = 4, h_dummy = ''$'' @ dummy_password\<rparr>"
  by (simp add: password_New_def Hash_def background_def acquire_def plain_argon2_def dummy_password_def maxPasswordBytes_def)

theorem hash_slots_witness:
  "\<exists>h. password_New plain_argon2 0 4 = Inr h \<and> 0 = length (filter holds (snd (idle_hasher 9)))
     \<and> (\<exists>s'. hash_step (h_slots h) (idle_hasher 9) s')"
proof -
  let ?h = "\<lparr>h_slots = 4, h_dummy = ''$'' @ dummy_password\<rparr>"
  have "(hash_step (h_slots ?h) ^^ 0) (idle_hasher 9) (0, replicate 9 (Entering, False))" by (simp add: idle_hasher_def)
  from hash_slots [OF plain_hasher this] plain_hasher show ?thesis by (auto simp: idle_hasher_def)
qed

theorem password_roundtrip_witness:
  "Verify plain_argon2 \<lparr>h_slots = 4, h_dummy = ''''\<rparr> (background 1) ''$correct horse'' ''correct horse'' = Inr (True, False)"
proof -
  have h: "Hash plain_argon2 (background 0) ''correct horse'' = Inr ''$correct horse''"
    by (simp add: Hash_def background_def acquire_def plain_argon2_def maxPasswordBytes_def)
  have u: "undisturbed (background 1)" by (simp add: undisturbed_def background_def)
  show ?thesis using password_roundtrip [OF plain_argon2_law h u] by simp
qed

theorem verify_sound_witness:
  "\<exists>p x. snd (verify_run plain_argon2 \<lparr>h_slots = 4, h_dummy = ''$'' @ dummy_password\<rparr> (background 1) ''junk'' ''correct horse'') = [x]
     \<and> a_DecodeHash plain_argon2 x = Inr p \<and> allowedParams p
     \<and> Verify plain_argon2 \<lparr>h_slots = 4, h_dummy = ''$'' @ dummy_password\<rparr> (background 1) ''junk'' ''correct horse'' = Inr (False, False)"
proof -
  let ?run = "verify_run plain_argon2 \<lparr>h_slots = 4, h_dummy = ''$'' @ dummy_password\<rparr> (background 1) ''junk'' ''correct horse''"
  have u: "undisturbed (background 1)" by (simp add: undisturbed_def background_def)
  have "length ''correct horse'' \<le> maxPasswordBytes" by (simp add: maxPasswordBytes_def)
  then have one: "length (snd ?run) = 1"
    and ok: "\<forall>x \<in> set (snd ?run). \<exists>p. a_DecodeHash plain_argon2 x = Inr p \<and> allowedParams p"
    using verify_sound [OF plain_argon2_law plain_hasher, of "background 1" "''junk''" "''correct horse''"] u by blast+
  obtain x where "snd ?run = [x]" using one by (cases "snd ?run") auto
  moreover have "fst ?run = Inr (False, False)"
    by (simp add: verify_run_def background_def acquire_def plain_argon2_def maxPasswordBytes_def accepted_params_def Let_def)
  ultimately show ?thesis using ok by (auto simp: Verify_def)
qed

end
