(* ===== verification/Owned_Table.thy ===== *)
theory Owned_Table
  imports World
begin

text \<open>
  The contract of a table whose rows belong to an owner (\<^verbatim>\<open>projects\<close> and
  \<^verbatim>\<open>tasks\<close>), as the two resource services use it, and what follows from it alone.
\<close>

subsection \<open>The interface of an owner-scoped table\<close>

text \<open>
  What the services rely on: reads and deletes are scoped by identifier and owner, and a write
  scoped to one owner leaves the rows of every other owner alone.
\<close>

definition owned :: "('r \<Rightarrow> string) \<Rightarrow> string \<Rightarrow> 'r list \<Rightarrow> 'r list" where
  "owned own o' rows = filter (\<lambda>r. own r = o') rows"

locale owned_table =
  fixes rows :: "db \<Rightarrow> 'r list"
    and oid :: "'r \<Rightarrow> string"
    and own :: "'r \<Rightarrow> string"
    and get :: "string \<Rightarrow> string \<Rightarrow> 'r stmt"
    and del :: "string \<Rightarrow> string \<Rightarrow> int stmt"
    and ins :: "string \<Rightarrow> string \<Rightarrow> 'c \<Rightarrow> 'r stmt"
    and upd :: "string \<Rightarrow> string \<Rightarrow> 'c \<Rightarrow> 'r stmt"
  assumes get_spec: "get i o' t d = (one (find (\<lambda>r. oid r = i \<and> own r = o') (rows d)), d)"
    and del_rows: "rows (snd (del i o' t d)) = filter (\<lambda>r. \<not> (oid r = i \<and> own r = o')) (rows d)"
    and ins_ok: "fst (ins i o' c t d) = Inr r \<Longrightarrow>
      oid r = i \<and> own r = o' \<and> rows (snd (ins i o' c t d)) = rows d @ [r]
      \<and> (\<forall>x \<in> set (rows d). oid x \<noteq> i)"
    and ins_err: "fst (ins i o' c t d) = Inl e \<Longrightarrow> rows (snd (ins i o' c t d)) = rows d"
    and upd_rows: "\<exists>f. (\<forall>r. oid (f r) = oid r \<and> own (f r) = own r)
      \<and> rows (snd (upd i o' c t d)) \<in>
          {rows d, update_where (\<lambda>r. oid r = i \<and> own r = o') f (rows d)}"
begin

lemma get_owner: "fst (get i o' t d) = Inr r \<Longrightarrow> own r = o' \<and> oid r = i \<and> r \<in> set (rows d)"
  by (auto simp: get_spec dest: find_Some_ex)

lemma get_foreign:
  assumes "\<And>r. r \<in> set (rows d) \<Longrightarrow> oid r = i \<Longrightarrow> own r \<noteq> o'"
  shows "fst (get i o' t d) = Inl (Sentinel ErrNoRows)"
  using assms by (auto simp: get_spec find_None_all)

lemma get_after_del: "fst (get i o' t (snd (del i o' t' d))) = Inl (Sentinel ErrNoRows)"
  by (simp add: get_spec del_rows find_None_all)

lemma get_after_ins:
  assumes "fst (ins i o' c t d) = Inr r"
  shows "fst (get i o' t' (snd (ins i o' c t d))) = Inr r"
proof -
  note s = ins_ok [OF assms]
  then have "find (\<lambda>r. oid r = i \<and> own r = o') (rows d) = None" by (auto simp: find_None_all)
  then have "find (\<lambda>r. oid r = i \<and> own r = o') (rows d @ [r]) = Some r"
    using s by (simp add: find_append)
  with s show ?thesis by (simp add: get_spec)
qed

lemma del_other: "o' \<noteq> q \<Longrightarrow> owned own q (rows (snd (del i o' t d))) = owned own q (rows d)"
  by (auto simp: owned_def del_rows intro: filter_cong)

lemma ins_other: "o' \<noteq> q \<Longrightarrow> owned own q (rows (snd (ins i o' c t d))) = owned own q (rows d)"
  by (cases "fst (ins i o' c t d)") (auto simp: owned_def ins_err dest: ins_ok)

lemma upd_other:
  assumes "o' \<noteq> q"
  shows "owned own q (rows (snd (upd i o' c t d))) = owned own q (rows d)"
proof -
  obtain f where f: "\<And>r. own (f r) = own r"
    and rs: "rows (snd (upd i o' c t d)) \<in> {rows d, update_where (\<lambda>r. oid r = i \<and> own r = o') f (rows d)}"
    using upd_rows [of i o' c t d] by blast
  have "filter (\<lambda>r. own r = q) (update_where (\<lambda>r. oid r = i \<and> own r = o') f (rows d))
      = filter (\<lambda>r. own r = q) (rows d)"
    using assms f by (intro filter_update_where_other) auto
  with rs show ?thesis by (auto simp: owned_def)
qed

lemma get_of_owned: "fst (get i q t d) = one (find (\<lambda>r. oid r = i) (owned own q (rows d)))"
proof -
  have "find (\<lambda>r. oid r = i \<and> own r = q) xs = find (\<lambda>r. oid r = i) (filter (\<lambda>r. own r = q) xs)" for xs
    by (induction xs) auto
  then show ?thesis by (simp add: get_spec owned_def)
qed

lemma distinct_ids_ins:
  "distinct (map oid (rows d)) \<Longrightarrow> distinct (map oid (rows (snd (ins i o' c t d))))"
  by (cases "fst (ins i o' c t d)") (simp add: ins_err, use ins_ok in fastforce)

end

text \<open>The result of a statement on the pool, apart from the new world.\<close>

lemma query_pool_fst:
  "fst (query cx Pool f w) =
     (case e_fault cx (w_step w) of
        None \<Rightarrow> fst (f (e_clock cx (w_step w)) (seen cx w))
      | Some (Fault e b) \<Rightarrow> Inl e)"
  by (auto simp: query_def seen_def Let_def split: option.split fault.split)

lemma query_pool_fst_cong:
  assumes "w_step w1 = w_step w2" and "\<And>t. fst (f t (seen cx w1)) = fst (f t (seen cx w2))"
  shows "fst (query cx Pool f w1) = fst (query cx Pool f w2)"
  using assms by (simp add: query_pool_fst split: option.split fault.split)

lemma bindA_fst_cong:
  assumes "fst (m w1) = fst (m w2)"
    and "\<And>a. fst (m w1) = Inr a \<Longrightarrow> fst (f a (snd (m w1))) = fst (f a (snd (m w2)))"
  shows "fst (bindA m f w1) = fst (bindA m f w2)"
  using assms by (cases "m w1"; cases "m w2") (auto simp: bindA_def split: sum.split)

lemma map_err_fst_cong: "fst (m w1) = fst (m w2) \<Longrightarrow> fst (map_err p m w1) = fst (map_err p m w2)"
  by (cases "m w1"; cases "m w2") (auto simp: map_err_def attempt_def ret_def fail_def split: sum.split)

lemma bindA_pure [simp]:
  "bindA (require b e) f w = (if b then f () w else (Inl e, w))"
  "bindA (check_err er) f w = (case er of None \<Rightarrow> f () w | Some x \<Rightarrow> (Inl x, w))"
  "bindA (from_sum s) g w = (case s of Inl x \<Rightarrow> (Inl x, w) | Inr a \<Rightarrow> g a w)"
  by (auto simp: bindA_def require_def check_err_def from_sum_def ret_def fail_def
      split: option.split sum.split)

lemma fst_pure [simp]:
  "fst (ret a w) = Inr a" "fst (fail e w') = Inl e" "fst (from_sum s w'') = s"
  by (auto simp: ret_def fail_def from_sum_def split: sum.split)

end
