(* ===== verification/Project.thy ===== *)
theory Project
  imports Owned_Table Http_Api
begin

text \<open>
  \<^verbatim>\<open>internal/modules/project\<close> with the statements of \<^verbatim>\<open>internal/db/sqlc/projects.sql.go\<close>:
  projects are private to their owner and named uniquely per owner.
\<close>

subsection \<open>internal/db/sqlc/projects.sql.go\<close>

definition CreateProject :: "string \<Rightarrow> string \<Rightarrow> string \<times> string \<Rightarrow> project_row stmt" where
  "CreateProject i owner nd now d =
     (if list_ex (\<lambda>r. p_ID r = i) (projects d) then (unique_violation ''projects_pkey'', d)
      else if list_ex (\<lambda>r. p_OwnerID r = owner \<and> p_Name r = fst nd) (projects d)
      then (unique_violation ''projects_owner_name_key'', d)
      else (let row = \<lparr>p_ID = i, p_OwnerID = owner, p_Name = fst nd, p_Description = snd nd,
                       p_CreatedAt = now, p_UpdatedAt = now\<rparr>
            in (Inr row, d\<lparr>projects := projects d @ [row]\<rparr>)))"

definition GetProject :: "string \<Rightarrow> string \<Rightarrow> project_row stmt" where
  "GetProject i owner now d =
     (one (find (\<lambda>r. p_ID r = i \<and> p_OwnerID r = owner) (projects d)), d)"

definition project_before :: "(string \<Rightarrow> string \<Rightarrow> bool) \<Rightarrow> project_row \<Rightarrow> project_row \<Rightarrow> bool" where
  "project_before collate a b \<longleftrightarrow>
     p_CreatedAt b < p_CreatedAt a \<or> (p_CreatedAt a = p_CreatedAt b \<and> collate (p_ID b) (p_ID a))"

definition ListProjects :: "(string \<Rightarrow> string \<Rightarrow> bool) \<Rightarrow> string \<Rightarrow> int \<Rightarrow> int \<Rightarrow> project_row list stmt" where
  "ListProjects collate owner lim off now d =
     (Inr (limit_offset lim off
        (order_by (project_before collate) (filter (\<lambda>r. p_OwnerID r = owner) (projects d)))), d)"

definition UpdateProject :: "string \<Rightarrow> string \<Rightarrow> string \<times> string \<Rightarrow> project_row stmt" where
  "UpdateProject i owner nd now d =
     (let hit = (\<lambda>r. p_ID r = i \<and> p_OwnerID r = owner);
          f = (\<lambda>r. r\<lparr>p_Name := fst nd, p_Description := snd nd, p_UpdatedAt := now\<rparr>)
      in case find hit (projects d) of
           None \<Rightarrow> (Inl (Sentinel ErrNoRows), d)
         | Some r \<Rightarrow>
             if list_ex (\<lambda>x. p_ID x \<noteq> i \<and> p_OwnerID x = owner \<and> p_Name x = fst nd) (projects d)
             then (unique_violation ''projects_owner_name_key'', d)
             else (Inr (f r), d\<lparr>projects := update_where hit f (projects d)\<rparr>))"

definition DeleteProject :: "string \<Rightarrow> string \<Rightarrow> int stmt" where
  "DeleteProject i owner now d =
     (let hit = (\<lambda>r. p_ID r = i \<and> p_OwnerID r = owner)
      in (Inr (int (count_where hit (projects d))),
          d\<lparr>projects := filter (\<lambda>r. \<not> hit r) (projects d)\<rparr>))"

lemma CreateProject_ok:
  "fst (CreateProject i o' nd t d) = Inr r \<longleftrightarrow>
     (\<forall>x \<in> set (projects d). p_ID x \<noteq> i \<and> \<not> (p_OwnerID x = o' \<and> p_Name x = fst nd))
     \<and> r = \<lparr>p_ID = i, p_OwnerID = o', p_Name = fst nd, p_Description = snd nd,
            p_CreatedAt = t, p_UpdatedAt = t\<rparr>"
  by (auto simp: CreateProject_def Let_def list_ex_iff)

lemma CreateProject_db:
  "snd (CreateProject i o' nd t d) =
     (case fst (CreateProject i o' nd t d) of Inl e \<Rightarrow> d | Inr r \<Rightarrow> d\<lparr>projects := projects d @ [r]\<rparr>)"
  by (auto simp: CreateProject_def Let_def unique_violation_def)

interpretation pt: owned_table projects p_ID p_OwnerID GetProject DeleteProject CreateProject UpdateProject
proof unfold_locales
  fix i o' c t d r
  assume "fst (CreateProject i o' c t d) = Inr r"
  then show "p_ID r = i \<and> p_OwnerID r = o' \<and> projects (snd (CreateProject i o' c t d)) = projects d @ [r]
      \<and> (\<forall>x \<in> set (projects d). p_ID x \<noteq> i)"
    using CreateProject_db [of i o' c t d] CreateProject_ok [of i o' c t d r] by simp
next
  fix i o' c t d e
  assume "fst (CreateProject i o' c t d) = Inl e"
  then show "projects (snd (CreateProject i o' c t d)) = projects d"
    using CreateProject_db [of i o' c t d] by simp
next
  fix i o' c t d
  show "\<exists>f. (\<forall>r. p_ID (f r) = p_ID r \<and> p_OwnerID (f r) = p_OwnerID r) \<and>
      projects (snd (UpdateProject i o' c t d))
        \<in> {projects d, update_where (\<lambda>r. p_ID r = i \<and> p_OwnerID r = o') f (projects d)}"
    by (rule exI [where x = "\<lambda>r. r\<lparr>p_Name := fst c, p_Description := snd c, p_UpdatedAt := t\<rparr>"])
      (auto simp: UpdateProject_def Let_def split: option.split)
qed (simp_all add: GetProject_def DeleteProject_def Let_def)

subsection \<open>The service\<close>

definition project_ErrNotFound :: app_error where
  "project_ErrNotFound = AppError NotFound ''project not found''"

definition project_ErrConflict :: app_error where
  "project_ErrConflict = AppError Conflict ''a project with this name already exists''"

definition project_ErrInvalid :: app_error where
  "project_ErrInvalid = AppError Invalid ''invalid project input''"

record project_Record =
  pr_ID :: string
  pr_Name :: string
  pr_Description :: string
  pr_CreatedAt :: time
  pr_UpdatedAt :: time

definition project_maxNameRunes :: int where
  "project_maxNameRunes = 100"

definition project_maxDescriptionRunes :: int where
  "project_maxDescriptionRunes = 2000"

definition project_storageErrors :: ErrorPolicy where
  "project_storageErrors = \<lparr>Resource = ''project'', PolicyNotFound = Some project_ErrNotFound,
     UniqueConstraints = [(''projects_owner_name_key'', project_ErrConflict)]\<rparr>"

definition project_fromRow :: "project_row \<Rightarrow> project_Record" where
  "project_fromRow row = \<lparr>pr_ID = p_ID row, pr_Name = p_Name row, pr_Description = p_Description row,
     pr_CreatedAt = p_CreatedAt row, pr_UpdatedAt = p_UpdatedAt row\<rparr>"

definition project_validate :: "string \<Rightarrow> string \<Rightarrow> goerr + string" where
  "project_validate name description =
     (case RequiredText name project_maxNameRunes of
        (name', valid) \<Rightarrow>
          if \<not> valid \<or> \<not> TextWithin description project_maxDescriptionRunes
          then Inl (Business project_ErrInvalid) else Inr name')"

definition project_Create :: "env \<Rightarrow> string \<Rightarrow> string \<Rightarrow> string \<Rightarrow> project_Record act" where
  "project_Create cx owner name description =
     bindA (check_err (RequireSubject owner)) (\<lambda>_.
     bindA (from_sum (project_validate name description)) (\<lambda>name'.
     bindA (NewID cx) (\<lambda>i.
     bindA (map_err project_storageErrors
       (query cx Pool (CreateProject i owner (name', description)))) (\<lambda>row.
     ret (project_fromRow row)))))"

definition project_Get :: "env \<Rightarrow> string \<Rightarrow> string \<Rightarrow> project_Record act" where
  "project_Get cx owner i =
     bindA (check_err (RequireSubject owner)) (\<lambda>_.
     bindA (require (Identifier i) (Business project_ErrInvalid)) (\<lambda>_.
     bindA (map_err project_storageErrors (query cx Pool (GetProject i owner))) (\<lambda>row.
     ret (project_fromRow row))))"

definition project_List :: "env \<Rightarrow> string \<Rightarrow> Params \<Rightarrow> project_Record Result act" where
  "project_List cx owner params =
     bindA (check_err (RequireSubject owner)) (\<lambda>_.
     bindA (require (Params_Validate params = None) (Business project_ErrInvalid)) (\<lambda>_.
     bindA (map_err project_storageErrors
       (query cx Pool (ListProjects (e_collate cx) owner (sint (FetchLimit params)) (sint (Offset params)))))
       (\<lambda>rows.
     from_sum (Build rows params project_fromRow))))"

definition project_Update ::
  "env \<Rightarrow> string \<Rightarrow> string \<Rightarrow> string \<Rightarrow> string \<Rightarrow> project_Record act" where
  "project_Update cx owner i name description =
     bindA (check_err (RequireSubject owner)) (\<lambda>_.
     bindA (require (Identifier i) (Business project_ErrInvalid)) (\<lambda>_.
     bindA (from_sum (project_validate name description)) (\<lambda>name'.
     bindA (map_err project_storageErrors
       (query cx Pool (UpdateProject i owner (name', description)))) (\<lambda>row.
     ret (project_fromRow row)))))"

definition project_Delete :: "env \<Rightarrow> string \<Rightarrow> string \<Rightarrow> unit act" where
  "project_Delete cx owner i =
     bindA (check_err (RequireSubject owner)) (\<lambda>_.
     bindA (require (Identifier i) (Business project_ErrInvalid)) (\<lambda>_.
     bindA (map_err project_storageErrors (query cx Pool (DeleteProject i owner))) (\<lambda>count.
     if count = 0 then fail (Business project_ErrNotFound) else ret ())))"

lemmas project_service_defs =
  project_Create_def project_Get_def project_List_def project_Update_def project_Delete_def

subsection \<open>HTTP\<close>

text \<open>
  The DTO \<^verbatim>\<open>Project\<close> has the fields of \<^verbatim>\<open>Record\<close>, and the conversion is the identity
  on them.  The request DTOs are pairs of name and description.
\<close>

record ProjectCreateRequest =
  pq_Name :: string
  pq_Description :: string

definition project_toDTO :: "project_Record \<Rightarrow> project_Record" where
  "project_toDTO item = item"

definition projectLocation :: "project_Record \<Rightarrow> string" where
  "projectLocation item = ''/v1/projects/'' @ PathEscape (pr_ID item)"

definition createProject :: "env \<Rightarrow> (ProjectCreateRequest, project_Record) handler" where
  "createProject cx c body = project_Create cx (identity_Subject c) (pq_Name body) (pq_Description body)"

definition getProject :: "env \<Rightarrow> (string, project_Record) handler" where
  "getProject cx c i = project_Get cx (identity_Subject c) i"

definition listProjects :: "env \<Rightarrow> (Params, project_Record Result) handler" where
  "listProjects cx c page = project_List cx (identity_Subject c) page"

definition updateProject :: "env \<Rightarrow> (string \<times> ProjectCreateRequest, project_Record) handler" where
  "updateProject cx c input =
     project_Update cx (identity_Subject c) (fst input) (pq_Name (snd input)) (pq_Description (snd input))"

definition deleteProject :: "env \<Rightarrow> (string, unit) handler" where
  "deleteProject cx c i = project_Delete cx (identity_Subject c) i"

definition project_op :: "Operation \<Rightarrow> Operation option" where
  "project_op = ProtectedOperations ''Projects'' [409]"

definition project_operations :: "Operation option list" where
  "project_operations =
     [project_op (spec ''create-project'' ''POST'' ''/v1/projects''),
      project_op (spec ''get-project'' ''GET'' ''/v1/projects/{id}''),
      project_op (spec ''list-projects'' ''GET'' ''/v1/projects''),
      project_op (spec ''update-project'' ''PUT'' ''/v1/projects/{id}''),
      project_op (spec ''delete-project'' ''DELETE'' ''/v1/projects/{id}'')]"

definition create_project_route :: "env \<Rightarrow> (ProjectCreateRequest, project_Record) endpoint option" where
  "create_project_route cx =
     Option.bind (project_operations ! 0)
       (\<lambda>op. CreatedEndpoint op (createProject cx) project_toDTO projectLocation)"

definition get_project_route :: "env \<Rightarrow> (string, project_Record) endpoint option" where
  "get_project_route cx =
     Option.bind (project_operations ! 1) (\<lambda>op. ItemEndpoint op (getProject cx) project_toDTO)"

definition list_project_route :: "env \<Rightarrow> (Params, project_Record Result) endpoint option" where
  "list_project_route cx =
     Option.bind (project_operations ! 2) (\<lambda>op. PageEndpoint op (listProjects cx) project_toDTO)"

definition update_project_route ::
  "env \<Rightarrow> (string \<times> ProjectCreateRequest, project_Record) endpoint option" where
  "update_project_route cx =
     Option.bind (project_operations ! 3) (\<lambda>op. ItemEndpoint op (updateProject cx) project_toDTO)"

definition delete_project_route :: "env \<Rightarrow> (string, unit) endpoint option" where
  "delete_project_route cx =
     Option.bind (project_operations ! 4) (\<lambda>op. NoContentEndpoint op (deleteProject cx))"

subsection \<open>Invariants of the table\<close>

text \<open>
  The primary key, the unique index \<^verbatim>\<open>projects_owner_name_key\<close> and what the service adds to
  the schema: every stored name is trimmed, non-empty and within bounds.
\<close>

definition project_text_ok :: "string \<times> string \<Rightarrow> bool" where
  "project_text_ok nd \<longleftrightarrow> RequiredText (fst nd) project_maxNameRunes = (fst nd, True)
     \<and> TextWithin (snd nd) project_maxDescriptionRunes"

definition projects_ok :: "db \<Rightarrow> bool" where
  "projects_ok d \<longleftrightarrow> distinct (map p_ID (projects d))
     \<and> distinct (map (\<lambda>r. (p_OwnerID r, p_Name r)) (projects d))
     \<and> (\<forall>r \<in> set (projects d). project_text_ok (p_Name r, p_Description r))"

lemma project_validate_ok:
  "project_validate name description = Inr name' \<longleftrightarrow>
     RequiredText name project_maxNameRunes = (name', True) \<and> TextWithin description project_maxDescriptionRunes"
  by (auto simp: project_validate_def split: prod.splits)

lemma project_validate_text:
  "project_validate name description = Inr name' \<Longrightarrow> project_text_ok (name', description)"
  using RequiredText_idem [of name project_maxNameRunes]
  by (simp add: project_validate_ok project_text_ok_def)

lemma CreateProject_keeps:
  assumes "project_text_ok nd"
  shows "stmt_guarantees (keeps projects_ok) (CreateProject i o' nd)"
  unfolding stmt_guarantees_def keeps_def
proof (intro allI impI)
  fix t d
  assume ok: "projects_ok d"
  show "projects_ok (snd (CreateProject i o' nd t d))"
  proof (cases "fst (CreateProject i o' nd t d)")
    case (Inl e)
    then show ?thesis using ok CreateProject_db [of i o' nd t d] by simp
  next
    case (Inr r)
    then have "snd (CreateProject i o' nd t d) = d\<lparr>projects := projects d @ [r]\<rparr>"
      using CreateProject_db [of i o' nd t d] by simp
    moreover have "(\<forall>x \<in> set (projects d). p_ID x \<noteq> i \<and> \<not> (p_OwnerID x = o' \<and> p_Name x = fst nd))"
      and "r = \<lparr>p_ID = i, p_OwnerID = o', p_Name = fst nd, p_Description = snd nd,
            p_CreatedAt = t, p_UpdatedAt = t\<rparr>"
      using Inr by (simp_all add: CreateProject_ok)
    ultimately show ?thesis using ok assms by (force simp: projects_ok_def)
  qed
qed

lemma UpdateProject_db:
  "snd (UpdateProject i o' nd t d) =
     (case fst (UpdateProject i o' nd t d) of
        Inl e \<Rightarrow> d
      | Inr r \<Rightarrow> d\<lparr>projects := update_where (\<lambda>r. p_ID r = i \<and> p_OwnerID r = o')
          (\<lambda>r. r\<lparr>p_Name := fst nd, p_Description := snd nd, p_UpdatedAt := t\<rparr>) (projects d)\<rparr>)"
  by (auto simp: UpdateProject_def Let_def unique_violation_def split: option.split)

lemma UpdateProject_ok:
  "fst (UpdateProject i o' nd t d) = Inr r \<longleftrightarrow>
     (\<exists>r0. find (\<lambda>r. p_ID r = i \<and> p_OwnerID r = o') (projects d) = Some r0
       \<and> r = r0\<lparr>p_Name := fst nd, p_Description := snd nd, p_UpdatedAt := t\<rparr>)
     \<and> (\<forall>x \<in> set (projects d). p_ID x \<noteq> i \<longrightarrow> p_OwnerID x = o' \<longrightarrow> p_Name x \<noteq> fst nd)"
  by (auto simp: UpdateProject_def Let_def list_ex_iff split: option.split)

lemma UpdateProject_keeps:
  assumes "project_text_ok nd"
  shows "stmt_guarantees (keeps projects_ok) (UpdateProject i o' nd)"
proof (rule stmt_keeps)
  fix t d
  assume ok: "projects_ok d"
  let ?hit = "\<lambda>r. p_ID r = i \<and> p_OwnerID r = o'"
  let ?f = "\<lambda>r. r\<lparr>p_Name := fst nd, p_Description := snd nd, p_UpdatedAt := t\<rparr>"
  show "projects_ok (snd (UpdateProject i o' nd t d))"
  proof (cases "fst (UpdateProject i o' nd t d)")
    case (Inl e)
    then show ?thesis using ok UpdateProject_db [of i o' nd t d] by simp
  next
    case (Inr r)
    then have db: "snd (UpdateProject i o' nd t d) = d\<lparr>projects := update_where ?hit ?f (projects d)\<rparr>"
      using UpdateProject_db [of i o' nd t d] by simp
    have free: "p_ID x \<noteq> i \<longrightarrow> p_OwnerID x = o' \<longrightarrow> p_Name x \<noteq> fst nd" if "x \<in> set (projects d)" for x
      using Inr that by (simp add: UpdateProject_ok)
    have "distinct (map (\<lambda>r. (p_OwnerID r, p_Name r)) (update_where ?hit ?f (projects d)))"
      using ok free
      by (intro distinct_update_where [where key = p_ID and i = i and c = "(o', fst nd)"])
        (auto simp: projects_ok_def)
    with ok assms db show ?thesis by (auto simp: projects_ok_def map_update_where set_update_where)
  qed
qed

lemma DeleteProject_keeps: "stmt_guarantees (keeps projects_ok) (DeleteProject i o')"
  by (rule stmt_keeps) (auto simp: projects_ok_def DeleteProject_def Let_def distinct_map_filter)

lemma project_reads_keep:
  "snd (GetProject i o' t d) = d" "snd (ListProjects cl o' l off t' d') = d'"
  by (simp_all add: GetProject_def ListProjects_def)

text \<open>
  Whatever the five service operations are called with, whatever fails or is committed in
  between, they keep the table's invariants: identifiers unique, names unique per owner, stored
  names trimmed, non-empty, valid UTF-8 and within 100 runes, descriptions within 2000.
\<close>

theorem project_invariant:
  assumes "rely (keeps projects_ok) cx"
  shows "guarantees (keeps projects_ok) (project_Create cx owner name description)
    \<and> guarantees (keeps projects_ok) (project_Get cx owner i)
    \<and> guarantees (keeps projects_ok) (project_List cx owner params)
    \<and> guarantees (keeps projects_ok) (project_Update cx owner i name description)
    \<and> guarantees (keeps projects_ok) (project_Delete cx owner i)"
  using assms unfolding project_service_defs
  by (auto intro!: kp.g_intros CreateProject_keeps UpdateProject_keeps DeleteProject_keeps
      intro: project_validate_text stmt_keeps simp: ok_iff project_reads_keep)

theorem project_invariant_witness:
  "rely (keeps projects_ok) quiet \<and> projects_ok empty_db
   \<and> projects_ok (w_db (snd (project_Create quiet ''alice'' '' plan '' ''first'' (start empty_db))))"
proof -
  have r: "rely (keeps projects_ok) quiet" by (rule quiet_rely) (rule kp.R_refl)
  have e: "projects_ok empty_db" by (simp add: projects_ok_def empty_db_def)
  have "guarantees (keeps projects_ok) (project_Create quiet ''alice'' '' plan '' ''first'')"
    using project_invariant [OF r] by blast
  then have "keeps projects_ok (w_db (start empty_db))
      (w_db (snd (project_Create quiet ''alice'' '' plan '' ''first'' (start empty_db))))"
    by (simp only: guarantees_def)
  with r e show ?thesis by (simp add: keeps_def start_def)
qed

text \<open>
  C21.  What \<open>Create\<close> reports is what \<open>Get\<close> returns to the same owner: the trimmed
  name, the description as given, both times equal to the database clock, a fresh identifier.
\<close>

theorem project_create_get:
  assumes "project_Create cx owner name description w = (Inr rec, w')"
    and "e_fault cx (w_step w') = None" and "e_other cx (w_step w') (w_db w') = w_db w'"
    and "Identifier (pr_ID rec)"
  shows "fst (project_Get cx owner (pr_ID rec) w') = Inr rec
    \<and> pr_Name rec = TrimSpace name \<and> pr_Description rec = description
    \<and> pr_CreatedAt rec = e_clock cx (w_step w) \<and> pr_UpdatedAt rec = pr_CreatedAt rec
    \<and> pr_ID rec \<notin> p_ID ` set (projects (seen cx w))"
proof -
  let ?t = "e_clock cx (w_step w)" and ?d = "seen cx w" and ?i = "e_id cx (w_seed w)"
  obtain name' row where v: "project_validate name description = Inr name'"
    and c: "fst (CreateProject ?i owner (name', description) ?t ?d) = Inr row"
    and o': "Identifier owner" and rec: "rec = project_fromRow row"
    and w': "w_db w' = snd (CreateProject ?i owner (name', description) ?t ?d)"
    using assms(1) by (auto simp: project_Create_def ok_iff seen_def split: option.splits sum.splits)
  have row: "row = \<lparr>p_ID = ?i, p_OwnerID = owner, p_Name = name', p_Description = description,
      p_CreatedAt = ?t, p_UpdatedAt = ?t\<rparr>" "\<forall>x \<in> set (projects ?d). p_ID x \<noteq> ?i"
    using c by (simp_all add: CreateProject_ok)
  have "fst (GetProject ?i owner (e_clock cx (w_step w')) (w_db w')) = Inr row"
    using pt.get_after_ins [OF c] w' by simp
  then have "fst (project_Get cx owner (pr_ID rec) w') = Inr rec"
    using assms o' rec row(1)
    by (simp add: project_Get_def project_fromRow_def bindA_def map_err_def attempt_def query_def Let_def
        require_def check_err_def ret_def fail_def split: option.split)
  moreover have "name' = TrimSpace name" using v by (simp add: project_validate_ok RequiredText_def Let_def)
  ultimately show ?thesis using rec row by (auto simp: project_fromRow_def)
qed

theorem project_create_get_witness:
  "case project_Create quiet ''alice'' ''plan'' ''first'' (start empty_db) of
     (Inr rec, w') \<Rightarrow> pr_Name rec = ''plan'' \<and> fst (project_Get quiet ''alice'' (pr_ID rec) w') = Inr rec
   | (Inl _, _) \<Rightarrow> False"
proof -
  let ?row = "\<lparr>p_ID = ''id-'', p_OwnerID = ''alice'', p_Name = ''plan'', p_Description = ''first'',
      p_CreatedAt = 0, p_UpdatedAt = 0\<rparr>"
  let ?w = "\<lparr>w_db = empty_db\<lparr>projects := [?row]\<rparr>, w_step = 1, w_seed = 1, w_var = ''''\<rparr>"
  have c: "project_Create quiet ''alice'' ''plan'' ''first'' (start empty_db)
      = (Inr (project_fromRow ?row), ?w)"
    by (simp add: project_Create_def run_defs text_eval project_validate_def
        project_maxNameRunes_def project_maxDescriptionRunes_def CreateProject_def empty_db_def)
  have i: "Identifier (pr_ID (project_fromRow ?row))" by (simp add: project_fromRow_def text_eval)
  have n: "TrimSpace ''plan'' = ''plan''" by (simp add: text_eval)
  show ?thesis using project_create_get [OF c _ _ i] by (simp add: c n)
qed

text \<open>
  C19.  Owners are isolated: no operation run for one owner changes a project of another, whatever
  its arguments and whatever fails.
\<close>

theorem project_owner_isolation:
  assumes "owner \<noteq> other" and "rely (same (\<lambda>d. owned p_OwnerID other (projects d))) cx"
  shows "guarantees (same (\<lambda>d. owned p_OwnerID other (projects d))) (project_Create cx owner name description)
    \<and> guarantees (same (\<lambda>d. owned p_OwnerID other (projects d))) (project_Update cx owner i name description)
    \<and> guarantees (same (\<lambda>d. owned p_OwnerID other (projects d))) (project_Delete cx owner i)"
  using assms unfolding project_service_defs
  by (auto intro!: sm.g_intros stmt_same simp: pt.ins_other pt.upd_other pt.del_other)

theorem project_owner_isolation_witness:
  "''mallory'' \<noteq> ''alice''
   \<and> rely (same (\<lambda>d. owned p_OwnerID ''alice'' (projects d))) quiet
   \<and> guarantees (same (\<lambda>d. owned p_OwnerID ''alice'' (projects d))) (project_Delete quiet ''mallory'' ''id-'')"
proof -
  have r: "rely (same (\<lambda>d. owned p_OwnerID ''alice'' (projects d))) quiet"
    by (rule quiet_rely) (rule sm.R_refl)
  have n: "''mallory'' \<noteq> ''alice''" by simp
  from n r project_owner_isolation [OF n r] show ?thesis by blast
qed

lemma find_owned:
  "find (\<lambda>r. p_ID r = i \<and> p_OwnerID r = o') rows = find (\<lambda>r. p_ID r = i) (owned p_OwnerID o' rows)"
  unfolding owned_def by (induction rows) auto

lemma project_stmts_owned:
  assumes "owned p_OwnerID o' (projects d1) = owned p_OwnerID o' (projects d2)"
  shows "fst (GetProject i o' t d1) = fst (GetProject i o' t d2)"
    and "fst (ListProjects cl o' l off t d1) = fst (ListProjects cl o' l off t d2)"
    and "fst (UpdateProject i o' nd t d1) = fst (UpdateProject i o' nd t d2)"
    and "fst (DeleteProject i o' t d1) = fst (DeleteProject i o' t d2)"
proof -
  have f: "find (\<lambda>r. p_ID r = i \<and> p_OwnerID r = o') (projects d1)
      = find (\<lambda>r. p_ID r = i \<and> p_OwnerID r = o') (projects d2)"
    using assms by (simp add: find_owned)
  have flt: "filter (\<lambda>r. p_OwnerID r = o' \<and> P r) (projects d1) = filter (\<lambda>r. p_OwnerID r = o' \<and> P r) (projects d2)" for P
    using assms unfolding owned_def by (metis filter_filter conj_commute)
  have ex: "list_ex (\<lambda>r. P r \<and> p_OwnerID r = o' \<and> Q r) (projects d1) = list_ex (\<lambda>r. P r \<and> p_OwnerID r = o' \<and> Q r) (projects d2)" for P Q
    using arg_cong [OF flt [of "\<lambda>r. P r \<and> Q r"], of "\<lambda>xs. xs = []"]
    by (auto simp: filter_empty_conv list_ex_iff)
  show "fst (GetProject i o' t d1) = fst (GetProject i o' t d2)" using f by (simp add: GetProject_def)
  show "fst (ListProjects cl o' l off t d1) = fst (ListProjects cl o' l off t d2)"
    using assms by (simp add: ListProjects_def owned_def)
  show "fst (UpdateProject i o' nd t d1) = fst (UpdateProject i o' nd t d2)"
    by (simp add: UpdateProject_def Let_def f ex split: option.split)
  show "fst (DeleteProject i o' t d1) = fst (DeleteProject i o' t d2)"
    using flt [of "\<lambda>r. p_ID r = i"] by (simp add: DeleteProject_def Let_def count_where_def conj_commute)
qed

text \<open>
  C20.  Nor can an owner observe another's projects: the answers of \<open>Get\<close>, \<open>List\<close>,
  \<open>Update\<close> and \<open>Delete\<close> are functions of the owner's own rows.  In particular a
  foreign identifier is answered exactly as an unknown one.
\<close>

theorem project_noninterference:
  assumes "w_step w1 = w_step w2"
    and "owned p_OwnerID owner (projects (seen cx w1)) = owned p_OwnerID owner (projects (seen cx w2))"
  shows "fst (project_Get cx owner i w1) = fst (project_Get cx owner i w2)
    \<and> fst (project_List cx owner params w1) = fst (project_List cx owner params w2)
    \<and> fst (project_Update cx owner i name description w1) = fst (project_Update cx owner i name description w2)
    \<and> fst (project_Delete cx owner i w1) = fst (project_Delete cx owner i w2)"
  using assms(1) project_stmts_owned [OF assms(2)] unfolding project_service_defs
  by (auto intro!: bindA_fst_cong map_err_fst_cong query_pool_fst_cong split: option.split sum.split)

theorem project_noninterference_witness:
  "let row = \<lparr>p_ID = ''p1'', p_OwnerID = ''bob'', p_Name = ''secret'', p_Description = '''',
              p_CreatedAt = 0, p_UpdatedAt = 0\<rparr>;
       w1 = start (empty_db\<lparr>projects := [row]\<rparr>); w2 = start empty_db
   in owned p_OwnerID ''alice'' (projects (seen quiet w1)) = owned p_OwnerID ''alice'' (projects (seen quiet w2))
      \<and> fst (project_Get quiet ''alice'' ''p1'' w1) = fst (project_Get quiet ''alice'' ''p1'' w2)
      \<and> fst (project_Delete quiet ''alice'' ''p1'' w1) = fst (project_Delete quiet ''alice'' ''p1'' w2)"
proof -
  let ?row = "\<lparr>p_ID = ''p1'', p_OwnerID = ''bob'', p_Name = ''secret'', p_Description = '''',
              p_CreatedAt = 0, p_UpdatedAt = 0\<rparr>"
  let ?w1 = "start (empty_db\<lparr>projects := [?row]\<rparr>)" and ?w2 = "start empty_db"
  have s: "w_step ?w1 = w_step ?w2" by (simp add: start_def)
  have o': "owned p_OwnerID ''alice'' (projects (seen quiet ?w1)) = owned p_OwnerID ''alice'' (projects (seen quiet ?w2))"
    by (simp add: owned_def seen_def start_def empty_db_def)
  show ?thesis using o' project_noninterference [OF s o', of "''p1''"] unfolding Let_def by blast
qed

text \<open>
  C38.  \<open>List\<close> returns exactly the page asked for: the owner's rows, newest first, from the
  offset on, at most the limit; \<open>HasMore\<close> tells whether a row follows.  The one row fetched
  beyond the page never overflows the 32-bit limit and is never shown.
\<close>

theorem project_list_page:
  assumes "project_List cx owner params w = (Inr page, w')"
    and "linear_collation (e_collate cx)"
  shows "\<exists>all. mset all = mset (owned p_OwnerID owner (projects (seen cx w)))
      \<and> sorted_wrt (project_before (e_collate cx)) all
      \<and> Items page = map project_fromRow (take (nat (sint (Limit params))) (drop (nat (sint (Offset params))) all))
      \<and> (HasMore page \<longleftrightarrow> sint (Offset params) + sint (Limit params) < int (length all))
      \<and> length (Items page) \<le> 100"
proof -
  let ?rows = "owned p_OwnerID owner (projects (seen cx w))"
  let ?all = "order_by (project_before (e_collate cx)) ?rows"
  have v: "Params_Validate params = None"
    and b: "Build (limit_offset (sint (FetchLimit params)) (sint (Offset params)) ?all) params project_fromRow = Inr page"
    using assms(1)
    by (auto simp: project_List_def ok_iff ListProjects_def seen_def owned_def split: option.splits if_splits)
  have "sorted_wrt (project_before (e_collate cx)) ?all"
    by (rule sorted_newest_first [OF assms(2)]) (rule project_before_def)
  then show ?thesis
    using b v Build_ok [OF v, of ?all project_fromRow]
    by (intro exI [of _ ?all]) (auto simp: limit_offset_def Params_Validate_None min_le_iff_disj)
qed

theorem project_list_page_witness:
  "let r = (\<lambda>i t. \<lparr>p_ID = i, p_OwnerID = ''alice'', p_Name = i, p_Description = '''', p_CreatedAt = t, p_UpdatedAt = t\<rparr>);
       params = \<lparr>Limit = 1, Offset = 0\<rparr>;
       out = project_List quiet ''alice'' params (start (empty_db\<lparr>projects := [r ''a'' 1, r ''b'' 2]\<rparr>))
   in fst out = Inr \<lparr>Items = [project_fromRow (r ''b'' 2)], HasMore = True, RLimit = 1, ROffset = 0\<rparr>
      \<and> length (Items (projr (fst out))) \<le> 100"
proof -
  let ?r = "\<lambda>i t. \<lparr>p_ID = i, p_OwnerID = ''alice'', p_Name = i, p_Description = '''', p_CreatedAt = t, p_UpdatedAt = t\<rparr>"
  let ?out = "project_List quiet ''alice'' \<lparr>Limit = 1, Offset = 0\<rparr> (start (empty_db\<lparr>projects := [?r ''a'' 1, ?r ''b'' 2]\<rparr>))"
  let ?page = "\<lparr>Items = [project_fromRow (?r ''b'' 2)], HasMore = True, RLimit = 1, ROffset = 0\<rparr>"
  have "?out = (Inr ?page, snd ?out)"
    by (simp add: project_List_def run_defs text_eval Params_Validate_def MaxLimit_def MaxOffset_def FetchLimit_def
        ListProjects_def order_by_def project_before_def limit_offset_def Build_def Result_Map_def empty_db_def
        project_fromRow_def numeral_2_eq_2)
  moreover have "length (Items ?page) \<le> 100"
    using project_list_page [OF calculation linear_collation_quiet] by simp
  ultimately show ?thesis by (metis (no_types, lifting) fst_conv sum.sel(2))
qed

end
