(* ===== verification/Task.thy ===== *)
theory Task
  imports Owned_Table Http_Api
begin

text \<open>
  \<^verbatim>\<open>internal/modules/task\<close> with the statements of \<^verbatim>\<open>internal/db/sqlc/tasks.sql.go\<close>:
  tasks are private to their owner, carry one of three states and are listed with an optional
  filter on it.
\<close>

definition Todo :: string where
  "Todo = ''todo''"

definition InProgress :: string where
  "InProgress = ''in_progress''"

definition Done :: string where
  "Done = ''done''"

definition Status_Valid :: "string \<Rightarrow> bool" where
  "Status_Valid s \<longleftrightarrow> s = Todo \<or> s = InProgress \<or> s = Done"

record Details =
  d_Title :: string
  d_Description :: string
  d_Status :: string

record task_Record =
  tr_ID :: string
  tr_Title :: string
  tr_Description :: string
  tr_Status :: string
  tr_CreatedAt :: time
  tr_UpdatedAt :: time

subsection \<open>internal/db/sqlc/tasks.sql.go\<close>

definition CreateTask :: "string \<Rightarrow> string \<Rightarrow> Details \<Rightarrow> task_row stmt" where
  "CreateTask i owner arg now d =
     (if list_ex (\<lambda>r. t_ID r = i) (tasks d) then (unique_violation ''tasks_pkey'', d)
      else (let row = \<lparr>t_ID = i, t_OwnerID = owner, t_Title = d_Title arg, t_Description = d_Description arg,
                       t_Status = d_Status arg, t_CreatedAt = now, t_UpdatedAt = now\<rparr>
            in (Inr row, d\<lparr>tasks := tasks d @ [row]\<rparr>)))"

definition GetTask :: "string \<Rightarrow> string \<Rightarrow> task_row stmt" where
  "GetTask i owner now d = (one (find (\<lambda>r. t_ID r = i \<and> t_OwnerID r = owner) (tasks d)), d)"

definition task_before :: "(string \<Rightarrow> string \<Rightarrow> bool) \<Rightarrow> task_row \<Rightarrow> task_row \<Rightarrow> bool" where
  "task_before collate a b \<longleftrightarrow>
     t_CreatedAt b < t_CreatedAt a \<or> (t_CreatedAt a = t_CreatedAt b \<and> collate (t_ID b) (t_ID a))"

definition ListTasks ::
  "(string \<Rightarrow> string \<Rightarrow> bool) \<Rightarrow> string \<Rightarrow> string \<Rightarrow> int \<Rightarrow> int \<Rightarrow> task_row list stmt" where
  "ListTasks collate owner statusFilter lim off now d =
     (Inr (limit_offset lim off
        (order_by (task_before collate)
          (filter (\<lambda>r. t_OwnerID r = owner \<and> (statusFilter = '''' \<or> t_Status r = statusFilter)) (tasks d)))), d)"

definition UpdateTask :: "string \<Rightarrow> string \<Rightarrow> Details \<Rightarrow> task_row stmt" where
  "UpdateTask i owner arg now d =
     (let hit = (\<lambda>r. t_ID r = i \<and> t_OwnerID r = owner);
          f = (\<lambda>r. r\<lparr>t_Title := d_Title arg, t_Description := d_Description arg,
                     t_Status := d_Status arg, t_UpdatedAt := now\<rparr>)
      in (one (map_option f (find hit (tasks d))), d\<lparr>tasks := update_where hit f (tasks d)\<rparr>))"

definition DeleteTask :: "string \<Rightarrow> string \<Rightarrow> int stmt" where
  "DeleteTask i owner now d =
     (let hit = (\<lambda>r. t_ID r = i \<and> t_OwnerID r = owner)
      in (Inr (int (count_where hit (tasks d))), d\<lparr>tasks := filter (\<lambda>r. \<not> hit r) (tasks d)\<rparr>))"

lemma CreateTask_ok:
  "fst (CreateTask i o' arg t d) = Inr r \<longleftrightarrow>
     (\<forall>x \<in> set (tasks d). t_ID x \<noteq> i)
     \<and> r = \<lparr>t_ID = i, t_OwnerID = o', t_Title = d_Title arg, t_Description = d_Description arg,
            t_Status = d_Status arg, t_CreatedAt = t, t_UpdatedAt = t\<rparr>"
  by (auto simp: CreateTask_def Let_def list_ex_iff)

lemma CreateTask_db:
  "snd (CreateTask i o' arg t d) =
     (case fst (CreateTask i o' arg t d) of Inl e \<Rightarrow> d | Inr r \<Rightarrow> d\<lparr>tasks := tasks d @ [r]\<rparr>)"
  by (auto simp: CreateTask_def Let_def unique_violation_def)

interpretation tt: owned_table tasks t_ID t_OwnerID GetTask DeleteTask CreateTask UpdateTask
proof unfold_locales
  fix i o' c t d r
  assume "fst (CreateTask i o' c t d) = Inr r"
  then show "t_ID r = i \<and> t_OwnerID r = o' \<and> tasks (snd (CreateTask i o' c t d)) = tasks d @ [r]
      \<and> (\<forall>x \<in> set (tasks d). t_ID x \<noteq> i)"
    using CreateTask_db [of i o' c t d] CreateTask_ok [of i o' c t d r] by simp
next
  fix i o' c t d e
  assume "fst (CreateTask i o' c t d) = Inl e"
  then show "tasks (snd (CreateTask i o' c t d)) = tasks d"
    using CreateTask_db [of i o' c t d] by simp
next
  fix i o' c t d
  show "\<exists>f. (\<forall>r. t_ID (f r) = t_ID r \<and> t_OwnerID (f r) = t_OwnerID r) \<and>
      tasks (snd (UpdateTask i o' c t d))
        \<in> {tasks d, update_where (\<lambda>r. t_ID r = i \<and> t_OwnerID r = o') f (tasks d)}"
    by (rule exI [where x = "\<lambda>r. r\<lparr>t_Title := d_Title c, t_Description := d_Description c,
        t_Status := d_Status c, t_UpdatedAt := t\<rparr>"]) (simp add: UpdateTask_def Let_def)
qed (simp_all add: GetTask_def DeleteTask_def Let_def)

subsection \<open>The service\<close>

definition task_ErrNotFound :: app_error where
  "task_ErrNotFound = AppError NotFound ''task not found''"

definition task_ErrInvalid :: app_error where
  "task_ErrInvalid = AppError Invalid ''invalid task input''"

definition maxTitleRunes :: int where
  "maxTitleRunes = 200"

definition task_maxDescriptionRunes :: int where
  "task_maxDescriptionRunes = 2000"

definition task_storageErrors :: ErrorPolicy where
  "task_storageErrors = \<lparr>Resource = ''task'', PolicyNotFound = Some task_ErrNotFound, UniqueConstraints = []\<rparr>"

definition task_fromRow :: "task_row \<Rightarrow> task_Record" where
  "task_fromRow row = \<lparr>tr_ID = t_ID row, tr_Title = t_Title row, tr_Description = t_Description row,
     tr_Status = t_Status row, tr_CreatedAt = t_CreatedAt row, tr_UpdatedAt = t_UpdatedAt row\<rparr>"

definition task_validate :: "Details \<Rightarrow> goerr + Details" where
  "task_validate input =
     (case RequiredText (d_Title input) maxTitleRunes of
        (title, valid) \<Rightarrow>
          if \<not> valid \<or> \<not> TextWithin (d_Description input) task_maxDescriptionRunes
             \<or> \<not> Status_Valid (d_Status input)
          then Inl (Business task_ErrInvalid) else Inr (input\<lparr>d_Title := title\<rparr>))"

definition task_Create :: "env \<Rightarrow> string \<Rightarrow> Details \<Rightarrow> task_Record act" where
  "task_Create cx owner input0 =
     bindA (check_err (RequireSubject owner)) (\<lambda>_.
     let input1 = (if d_Status input0 = '''' then input0\<lparr>d_Status := Todo\<rparr> else input0) in
     bindA (from_sum (task_validate input1)) (\<lambda>input.
     bindA (NewID cx) (\<lambda>i.
     bindA (map_err task_storageErrors (query cx Pool (CreateTask i owner input))) (\<lambda>row.
     ret (task_fromRow row)))))"

definition task_Get :: "env \<Rightarrow> string \<Rightarrow> string \<Rightarrow> task_Record act" where
  "task_Get cx owner i =
     bindA (check_err (RequireSubject owner)) (\<lambda>_.
     bindA (require (Identifier i) (Business task_ErrInvalid)) (\<lambda>_.
     bindA (map_err task_storageErrors (query cx Pool (GetTask i owner))) (\<lambda>row.
     ret (task_fromRow row))))"

definition task_List :: "env \<Rightarrow> string \<Rightarrow> string \<Rightarrow> Params \<Rightarrow> task_Record Result act" where
  "task_List cx owner status params =
     bindA (check_err (RequireSubject owner)) (\<lambda>_.
     bindA (require (\<not> ((status \<noteq> '''' \<and> \<not> Status_Valid status) \<or> Params_Validate params \<noteq> None))
       (Business task_ErrInvalid)) (\<lambda>_.
     bindA (map_err task_storageErrors
       (query cx Pool (ListTasks (e_collate cx) owner status (sint (FetchLimit params)) (sint (Offset params)))))
       (\<lambda>rows.
     from_sum (Build rows params task_fromRow))))"

definition task_Update :: "env \<Rightarrow> string \<Rightarrow> string \<Rightarrow> Details \<Rightarrow> task_Record act" where
  "task_Update cx owner i input0 =
     bindA (check_err (RequireSubject owner)) (\<lambda>_.
     bindA (require (Identifier i) (Business task_ErrInvalid)) (\<lambda>_.
     bindA (from_sum (task_validate input0)) (\<lambda>input.
     bindA (map_err task_storageErrors (query cx Pool (UpdateTask i owner input))) (\<lambda>row.
     ret (task_fromRow row)))))"

definition task_Delete :: "env \<Rightarrow> string \<Rightarrow> string \<Rightarrow> unit act" where
  "task_Delete cx owner i =
     bindA (check_err (RequireSubject owner)) (\<lambda>_.
     bindA (require (Identifier i) (Business task_ErrInvalid)) (\<lambda>_.
     bindA (map_err task_storageErrors (query cx Pool (DeleteTask i owner))) (\<lambda>count.
     if count = 0 then fail (Business task_ErrNotFound) else ret ())))"

lemmas task_service_defs = task_Create_def task_Get_def task_List_def task_Update_def task_Delete_def

subsection \<open>HTTP\<close>

definition task_toDTO :: "task_Record \<Rightarrow> task_Record" where
  "task_toDTO item = item"

definition taskLocation :: "task_Record \<Rightarrow> string" where
  "taskLocation item = ''/v1/tasks/'' @ PathEscape (tr_ID item)"

definition createTask :: "env \<Rightarrow> (Details, task_Record) handler" where
  "createTask cx c body = task_Create cx (identity_Subject c) body"

definition getTask :: "env \<Rightarrow> (string, task_Record) handler" where
  "getTask cx c i = task_Get cx (identity_Subject c) i"

definition listTasks :: "env \<Rightarrow> (string \<times> Params, task_Record Result) handler" where
  "listTasks cx c input = task_List cx (identity_Subject c) (fst input) (snd input)"

definition updateTask :: "env \<Rightarrow> (string \<times> Details, task_Record) handler" where
  "updateTask cx c input = task_Update cx (identity_Subject c) (fst input) (snd input)"

definition deleteTask :: "env \<Rightarrow> (string, unit) handler" where
  "deleteTask cx c i = task_Delete cx (identity_Subject c) i"

definition task_op :: "Operation \<Rightarrow> Operation option" where
  "task_op = ProtectedOperations ''Tasks'' []"

definition task_operations :: "Operation option list" where
  "task_operations =
     [task_op (spec ''create-task'' ''POST'' ''/v1/tasks''),
      task_op (spec ''get-task'' ''GET'' ''/v1/tasks/{id}''),
      task_op (spec ''list-tasks'' ''GET'' ''/v1/tasks''),
      task_op (spec ''update-task'' ''PUT'' ''/v1/tasks/{id}''),
      task_op (spec ''delete-task'' ''DELETE'' ''/v1/tasks/{id}'')]"

definition create_task_route :: "env \<Rightarrow> (Details, task_Record) endpoint option" where
  "create_task_route cx =
     Option.bind (task_operations ! 0) (\<lambda>op. CreatedEndpoint op (createTask cx) task_toDTO taskLocation)"

definition get_task_route :: "env \<Rightarrow> (string, task_Record) endpoint option" where
  "get_task_route cx =
     Option.bind (task_operations ! 1) (\<lambda>op. ItemEndpoint op (getTask cx) task_toDTO)"

definition list_task_route :: "env \<Rightarrow> (string \<times> Params, task_Record Result) endpoint option" where
  "list_task_route cx =
     Option.bind (task_operations ! 2) (\<lambda>op. PageEndpoint op (listTasks cx) task_toDTO)"

definition update_task_route :: "env \<Rightarrow> (string \<times> Details, task_Record) endpoint option" where
  "update_task_route cx =
     Option.bind (task_operations ! 3) (\<lambda>op. ItemEndpoint op (updateTask cx) task_toDTO)"

definition delete_task_route :: "env \<Rightarrow> (string, unit) endpoint option" where
  "delete_task_route cx =
     Option.bind (task_operations ! 4) (\<lambda>op. NoContentEndpoint op (deleteTask cx))"

subsection \<open>Correctness\<close>

definition task_text_ok :: "Details \<Rightarrow> bool" where
  "task_text_ok x \<longleftrightarrow> RequiredText (d_Title x) maxTitleRunes = (d_Title x, True)
     \<and> TextWithin (d_Description x) task_maxDescriptionRunes \<and> Status_Valid (d_Status x)"

definition task_details :: "task_row \<Rightarrow> Details" where
  "task_details r = \<lparr>d_Title = t_Title r, d_Description = t_Description r, d_Status = t_Status r\<rparr>"

definition tasks_ok :: "db \<Rightarrow> bool" where
  "tasks_ok d \<longleftrightarrow> distinct (map t_ID (tasks d)) \<and> (\<forall>r \<in> set (tasks d). task_text_ok (task_details r))"

lemma task_validate_ok:
  "task_validate x = Inr y \<longleftrightarrow> (\<exists>title. RequiredText (d_Title x) maxTitleRunes = (title, True)
     \<and> TextWithin (d_Description x) task_maxDescriptionRunes \<and> Status_Valid (d_Status x)
     \<and> y = x\<lparr>d_Title := title\<rparr>)"
  by (auto simp: task_validate_def split: prod.splits)

lemma task_validate_text: "task_validate x = Inr y \<Longrightarrow> task_text_ok y"
  using RequiredText_idem [of "d_Title x" maxTitleRunes] by (auto simp: task_validate_ok task_text_ok_def)

lemma CreateTask_keeps:
  assumes "task_text_ok x"
  shows "stmt_guarantees (keeps tasks_ok) (CreateTask i o' x)"
proof (rule stmt_keeps)
  fix t d
  assume ok: "tasks_ok d"
  show "tasks_ok (snd (CreateTask i o' x t d))"
  proof (cases "fst (CreateTask i o' x t d)")
    case (Inl e)
    then show ?thesis using ok CreateTask_db [of i o' x t d] by simp
  next
    case (Inr r)
    then have db: "snd (CreateTask i o' x t d) = d\<lparr>tasks := tasks d @ [r]\<rparr>"
      and r: "task_details r = x" "t_ID r = i" and free: "\<forall>y \<in> set (tasks d). t_ID y \<noteq> i"
      using CreateTask_db [of i o' x t d] CreateTask_ok [of i o' x t d r] by (simp_all add: task_details_def)
    then show ?thesis using ok assms by (auto simp: tasks_ok_def)
  qed
qed

lemma UpdateTask_keeps:
  assumes "task_text_ok x"
  shows "stmt_guarantees (keeps tasks_ok) (UpdateTask i o' x)"
proof (rule stmt_keeps)
  fix t d
  assume "tasks_ok d"
  moreover have "task_details (r\<lparr>t_Title := d_Title x, t_Description := d_Description x,
      t_Status := d_Status x, t_UpdatedAt := t\<rparr>) = x" for r
    by (simp add: task_details_def)
  ultimately show "tasks_ok (snd (UpdateTask i o' x t d))" using assms
    by (auto simp: tasks_ok_def UpdateTask_def Let_def map_update_where set_update_where)
qed

lemma DeleteTask_keeps: "stmt_guarantees (keeps tasks_ok) (DeleteTask i o')"
  by (rule stmt_keeps) (auto simp: tasks_ok_def DeleteTask_def Let_def distinct_map_filter)

lemma task_reads_keep:
  "snd (GetTask i o' t d) = d" "snd (ListTasks cl o' s l off t' d') = d'"
  by (simp_all add: GetTask_def ListTasks_def)

text \<open>
  Every stored task has a unique identifier, a trimmed non-empty title of at most 200 runes, a
  description of at most 2000, and one of the three states; the five service operations keep this
  under every failure and interleaving.
\<close>

theorem task_invariant:
  assumes "rely (keeps tasks_ok) cx"
  shows "guarantees (keeps tasks_ok) (task_Create cx owner input)
    \<and> guarantees (keeps tasks_ok) (task_Get cx owner i)
    \<and> guarantees (keeps tasks_ok) (task_List cx owner status params)
    \<and> guarantees (keeps tasks_ok) (task_Update cx owner i input)
    \<and> guarantees (keeps tasks_ok) (task_Delete cx owner i)"
  using assms unfolding task_service_defs
  by (auto intro!: kp.g_intros CreateTask_keeps UpdateTask_keeps DeleteTask_keeps
      intro: task_validate_text stmt_keeps simp: ok_iff task_reads_keep Let_def)

theorem task_invariant_witness:
  "rely (keeps tasks_ok) quiet \<and> tasks_ok empty_db
   \<and> tasks_ok (w_db (snd (task_Create quiet ''alice''
        \<lparr>d_Title = ''write'', d_Description = '''', d_Status = ''''\<rparr> (start empty_db))))"
proof -
  have r: "rely (keeps tasks_ok) quiet" by (rule quiet_rely) (rule kp.R_refl)
  have e: "tasks_ok empty_db" by (simp add: tasks_ok_def empty_db_def)
  let ?in = "\<lparr>d_Title = ''write'', d_Description = '''', d_Status = ''''\<rparr>"
  have "guarantees (keeps tasks_ok) (task_Create quiet ''alice'' ?in)" using task_invariant [OF r] by blast
  then have "keeps tasks_ok (w_db (start empty_db)) (w_db (snd (task_Create quiet ''alice'' ?in (start empty_db))))"
    by (simp only: guarantees_def)
  with r e show ?thesis by (simp add: keeps_def start_def)
qed

text \<open>
  Replacing a task: after a successful \<open>Update\<close> the owner's \<open>Get\<close> returns the
  reported record, which has the new text and state, the database clock as its update time, and
  the identifier and creation time it had before.
\<close>

theorem task_update_get:
  assumes "task_Update cx owner i input w = (Inr rec, w')"
    and "e_fault cx (w_step w') = None" and "e_other cx (w_step w') (w_db w') = w_db w'"
  shows "fst (task_Get cx owner i w') = Inr rec
    \<and> tr_ID rec = i \<and> tr_Title rec = TrimSpace (d_Title input) \<and> tr_Description rec = d_Description input
    \<and> tr_Status rec = d_Status input \<and> tr_UpdatedAt rec = e_clock cx (w_step w)
    \<and> (\<exists>r \<in> set (owned t_OwnerID owner (tasks (seen cx w))). t_ID r = i \<and> tr_CreatedAt rec = t_CreatedAt r)"
proof -
  let ?t = "e_clock cx (w_step w)" and ?d = "seen cx w"
  let ?hit = "\<lambda>r. t_ID r = i \<and> t_OwnerID r = owner"
  obtain x row where v: "task_validate input = Inr x" and o': "Identifier owner" "Identifier i"
    and u: "fst (UpdateTask i owner x ?t ?d) = Inr row" and rec: "rec = task_fromRow row"
    and w': "w_db w' = snd (UpdateTask i owner x ?t ?d)"
    using assms(1) by (auto simp: task_Update_def ok_iff seen_def split: option.splits sum.splits if_splits)
  let ?f = "\<lambda>r. r\<lparr>t_Title := d_Title x, t_Description := d_Description x, t_Status := d_Status x, t_UpdatedAt := ?t\<rparr>"
  obtain r0 where f0: "find ?hit (tasks ?d) = Some r0" and row: "row = ?f r0"
    using u by (auto simp: UpdateTask_def Let_def)
  have hit0: "r0 \<in> set (tasks ?d)" "?hit r0" using find_Some_ex [OF f0] by auto
  have "fst (GetTask i owner t' (w_db w')) = Inr row" for t'
    using f0 row w' by (simp add: GetTask_def UpdateTask_def Let_def find_update_where)
  then have "fst (task_Get cx owner i w') = Inr rec"
    using assms(2,3) o' rec
    by (simp add: task_Get_def run_defs split: option.split)
  moreover have "x = input\<lparr>d_Title := TrimSpace (d_Title input)\<rparr>"
    using v by (auto simp: task_validate_ok RequiredText_def Let_def)
  ultimately show ?thesis using rec row hit0 by (auto simp: task_fromRow_def owned_def)
qed

theorem task_update_get_witness:
  "let row = \<lparr>t_ID = ''t1'', t_OwnerID = ''alice'', t_Title = ''old'', t_Description = '''', t_Status = ''todo'',
              t_CreatedAt = -5, t_UpdatedAt = -5\<rparr>;
       out = task_Update quiet ''alice'' ''t1'' \<lparr>d_Title = ''new'', d_Description = ''x'', d_Status = ''done''\<rparr>
               (start (empty_db\<lparr>tasks := [row]\<rparr>))
   in fst out = Inr \<lparr>tr_ID = ''t1'', tr_Title = ''new'', tr_Description = ''x'', tr_Status = ''done'',
                     tr_CreatedAt = -5, tr_UpdatedAt = 0\<rparr>
      \<and> fst (task_Get quiet ''alice'' ''t1'' (snd out)) = fst out"
proof -
  let ?row = "\<lparr>t_ID = ''t1'', t_OwnerID = ''alice'', t_Title = ''old'', t_Description = '''', t_Status = ''todo'',
              t_CreatedAt = -5, t_UpdatedAt = -5\<rparr>"
  let ?out = "task_Update quiet ''alice'' ''t1'' \<lparr>d_Title = ''new'', d_Description = ''x'', d_Status = ''done''\<rparr>
               (start (empty_db\<lparr>tasks := [?row]\<rparr>))"
  let ?rec = "\<lparr>tr_ID = ''t1'', tr_Title = ''new'', tr_Description = ''x'', tr_Status = ''done'',
                     tr_CreatedAt = -5, tr_UpdatedAt = 0\<rparr>"
  have u: "?out = (Inr ?rec, snd ?out)"
    by (simp add: task_Update_def run_defs text_eval task_validate_def maxTitleRunes_def
        task_maxDescriptionRunes_def Status_Valid_def Todo_def InProgress_def Done_def UpdateTask_def
        empty_db_def task_fromRow_def)
  have "fst (task_Get quiet ''alice'' ''t1'' (snd ?out)) = Inr ?rec"
    using task_update_get [OF u] by simp
  with u show ?thesis by (metis (no_types, lifting) fst_conv)
qed

text \<open>
  \<open>List\<close> with a state filter returns exactly the requested slice of the owner's tasks in
  that state (of all the owner's tasks without one), newest first.
\<close>

theorem task_list_page:
  assumes "task_List cx owner status params w = (Inr page, w')"
    and "linear_collation (e_collate cx)"
  shows "\<exists>all. mset all = filter_mset (\<lambda>r. status = '''' \<or> t_Status r = status)
        (mset (owned t_OwnerID owner (tasks (seen cx w))))
      \<and> sorted_wrt (task_before (e_collate cx)) all
      \<and> Items page = map task_fromRow (take (nat (sint (Limit params))) (drop (nat (sint (Offset params))) all))
      \<and> (HasMore page \<longleftrightarrow> sint (Offset params) + sint (Limit params) < int (length all))"
proof -
  let ?rows = "filter (\<lambda>r. t_OwnerID r = owner \<and> (status = '''' \<or> t_Status r = status)) (tasks (seen cx w))"
  let ?all = "order_by (task_before (e_collate cx)) ?rows"
  have v: "Params_Validate params = None"
    and b: "Build (limit_offset (sint (FetchLimit params)) (sint (Offset params)) ?all) params task_fromRow = Inr page"
    using assms(1)
    by (auto simp: task_List_def ok_iff ListTasks_def seen_def split: option.splits if_splits)
  have s: "sorted_wrt (task_before (e_collate cx)) ?all"
    by (rule sorted_newest_first [OF assms(2)]) (rule task_before_def)
  have m: "mset ?all = filter_mset (\<lambda>r. status = '''' \<or> t_Status r = status) (mset (owned t_OwnerID owner (tasks (seen cx w))))"
    by (simp add: owned_def conj_commute flip: mset_filter)
  show ?thesis
    using s m b v Build_ok [OF v, of ?all task_fromRow]
    by (intro exI [of _ ?all]) (auto simp: limit_offset_def)
qed

theorem task_list_page_witness:
  "let r = (\<lambda>i s t. \<lparr>t_ID = i, t_OwnerID = ''alice'', t_Title = i, t_Description = '''', t_Status = s,
                    t_CreatedAt = t, t_UpdatedAt = t\<rparr>);
       out = task_List quiet ''alice'' ''done'' \<lparr>Limit = 5, Offset = 0\<rparr>
               (start (empty_db\<lparr>tasks := [r ''a'' ''done'' 1, r ''b'' ''todo'' 2, r ''c'' ''done'' 3]\<rparr>))
   in fst out = Inr \<lparr>Items = [task_fromRow (r ''c'' ''done'' 3), task_fromRow (r ''a'' ''done'' 1)],
                     HasMore = False, RLimit = 5, ROffset = 0\<rparr>
      \<and> (\<exists>all. sorted_wrt (task_before (e_collate quiet)) all
            \<and> Items (projr (fst out)) = map task_fromRow (take 5 all))"
proof -
  let ?ps = "\<lparr>Limit = 5, Offset = 0\<rparr> :: Params"
  let ?r = "\<lambda>i s t. \<lparr>t_ID = i, t_OwnerID = ''alice'', t_Title = i, t_Description = '''', t_Status = s,
                    t_CreatedAt = t, t_UpdatedAt = t\<rparr>"
  let ?out = "task_List quiet ''alice'' ''done'' \<lparr>Limit = 5, Offset = 0\<rparr>
               (start (empty_db\<lparr>tasks := [?r ''a'' ''done'' 1, ?r ''b'' ''todo'' 2, ?r ''c'' ''done'' 3]\<rparr>))"
  let ?page = "\<lparr>Items = [task_fromRow (?r ''c'' ''done'' 3), task_fromRow (?r ''a'' ''done'' 1)],
                     HasMore = False, RLimit = 5, ROffset = 0\<rparr>"
  have o': "?out = (Inr ?page, snd ?out)"
    by (simp add: task_List_def run_defs text_eval Params_Validate_def MaxLimit_def MaxOffset_def FetchLimit_def
        ListTasks_def order_by_def task_before_def limit_offset_def Build_def Result_Map_def empty_db_def
        task_fromRow_def Status_Valid_def Todo_def InProgress_def Done_def)
  have "\<exists>all. sorted_wrt (task_before (e_collate quiet)) all
      \<and> Items ?page = map task_fromRow (take (nat (sint (Limit ?ps))) (drop (nat (sint (Offset ?ps))) all))"
    using task_list_page [OF o' linear_collation_quiet] by blast
  moreover have "fst ?out = Inr ?page" using o' by (metis fst_conv)
  ultimately show ?thesis by (simp add: Let_def)
qed

end
