(* ===== verification/Account_Laws.thy ===== *)
theory Account_Laws
  imports Account_Federation
begin

text \<open>
  The account service as a client of its statements.  \<open>account_call\<close> is the service's interface,
  one constructor per exported operation, and \<open>run_call\<close> runs one, keeping only whether it
  failed.  The locale states what a relation has to satisfy on each writing statement (with the
  arguments the store lets through); inside it, every operation keeps the relation, whatever fails
  and whatever the other sessions commit in between, as long as they keep it too.
\<close>

datatype account_call =
    AuthenticateSession_call string
  | Login_call Request string string
  | Sessions_call Request Params
  | RevokeSession_call Request string bool
  | Register_call Request string
  | ForgotPassword_call Request string
  | VerifyChallenge_call Request string Verification
  | SetPassword_call Request string string string
  | ChangeEmail_call Request string string
  | Me_call Request
  | UpdateProfile_call Request string
  | Reauthenticate_call Request Reauthentication
  | StartLogin_call Request string string
  | StartLink_call Request string string
  | Callback_call Request string string string
  | ConfirmLink_call Request string
  | Unlink_call Request string string
  | Users_call Request Params
  | SetStatus_call Request string string
  | RevokeUserSessions_call Request string

definition discard :: "'a act \<Rightarrow> unit act" where
  "discard m = bindA m (\<lambda>_. ret ())"

fun run_call :: "Service \<Rightarrow> account_call \<Rightarrow> unit act" where
  "run_call s (AuthenticateSession_call token) = discard (AuthenticateSession s token)"
| "run_call s (Login_call r email password) = discard (Login s r email password)"
| "run_call s (Sessions_call r p) = discard (Sessions s r p)"
| "run_call s (RevokeSession_call r i all) = Service_RevokeSession s r i all"
| "run_call s (Register_call r email) = Register s r email"
| "run_call s (ForgotPassword_call r email) = ForgotPassword s r email"
| "run_call s (VerifyChallenge_call r token input) = VerifyChallenge s r token input"
| "run_call s (SetPassword_call r current new reauth) = SetPassword s r current new reauth"
| "run_call s (ChangeEmail_call r email reauth) = ChangeEmail s r email reauth"
| "run_call s (Me_call r) = discard (Me s r)"
| "run_call s (UpdateProfile_call r name) = discard (UpdateProfile s r name)"
| "run_call s (Reauthenticate_call r input) = discard (Reauthenticate s r input)"
| "run_call s (StartLogin_call r provider purpose) = discard (StartLogin s r provider purpose)"
| "run_call s (StartLink_call r provider reauth) = discard (StartLink s r provider reauth)"
| "run_call s (Callback_call r token code state) = discard (Callback s r token code state)"
| "run_call s (ConfirmLink_call r flowID) = ConfirmLink s r flowID"
| "run_call s (Unlink_call r i reauth) = Unlink s r i reauth"
| "run_call s (Users_call r p) = discard (Users s r p)"
| "run_call s (SetStatus_call r i status) = discard (SetStatus s r i status)"
| "run_call s (RevokeUserSessions_call r i) = Service_RevokeUserSessions s r i"

locale account_guarantee = db_preorder R for R :: "db \<Rightarrow> db \<Rightarrow> bool" +
  assumes w_CreatePendingUser: "normalized \<noteq> None \<Longrightarrow> stmt_guarantees R (CreatePendingUser i email normalized)"
    and w_CreateFederatedUser: "stmt_guarantees R (CreateFederatedUser i name)"
    and w_ActivateUser: "stmt_guarantees R (ActivateUser i)"
    and w_UpdateUserProfile: "stmt_guarantees R (UpdateUserProfile name i sid)"
    and w_UpdateUserEmail: "normalized \<noteq> None \<Longrightarrow> stmt_guarantees R (UpdateUserEmail i email normalized)"
    and w_ReleasePendingEmail: "stmt_guarantees R (ReleasePendingEmail email)"
    and w_BumpUserVersion: "stmt_guarantees R (BumpUserVersion i)"
    and w_SetUserStatus: "Settable status \<Longrightarrow> stmt_guarantees R (SetUserStatus i status)"
    and w_CreateAccount: "valid_account ca \<Longrightarrow> stmt_guarantees R (CreateAccount i ca)"
    and w_ChangePassword: "h \<noteq> None \<Longrightarrow> h \<noteq> Some '''' \<Longrightarrow> stmt_guarantees R (ChangePassword i u h)"
    and w_UpgradePasswordHash: "h \<noteq> None \<Longrightarrow> h \<noteq> Some '''' \<Longrightarrow> stmt_guarantees R (UpgradePasswordHash i u h old)"
    and w_RevokeAccount: "stmt_guarantees R (RevokeAccount i u)"
    and w_TouchAccount: "stmt_guarantees R (TouchAccount i u)"
    and w_CreateSession: "valid_new_session cs \<Longrightarrow> stmt_guarantees R (CreateSession i cs)"
    and w_TouchSession: "stmt_guarantees R (TouchSession i u idle renewal)"
    and w_RevokeSession: "stmt_guarantees R (RevokeSession i u)"
    and w_RevokeUserSessions: "stmt_guarantees R (RevokeUserSessions u)"
    and w_CreateFlow: "valid_new_flow cf \<Longrightarrow> stmt_guarantees R (CreateFlow cf)"
    and w_ClaimFlow: "stmt_guarantees R (ClaimFlow i)"
    and w_VerifyFlow: "Verifiable status \<Longrightarrow> stmt_guarantees R (VerifyFlow i status ns sub name at)"
    and w_FinishFlow: "expected \<in> {FlowProcessing, FlowVerified, FlowAuthorized, FlowClaimed} \<Longrightarrow>
          stmt_guarantees R (FinishFlow i expected)"
    and w_FailFlow: "stmt_guarantees R (FailFlow i)"
    and w_ClaimAuthorization: "claim \<noteq> None \<Longrightarrow> stmt_guarantees R (ClaimAuthorization i claim)"
    and w_CreateVerification: "valid_new_verification cx cv \<Longrightarrow> stmt_guarantees R (CreateVerification i cv)"
    and w_ConsumeVerification: "stmt_guarantees R (ConsumeVerification i u)"
    and w_AppendAudit: "valid_audit aa \<Longrightarrow> stmt_guarantees R (AppendAudit i aa)"
    and w_RateLimit: "secs > 0 \<Longrightarrow> stmt_guarantees R (RateLimit key secs)"
    and w_EnqueueMail: "stmt_guarantees R (EnqueueMail em)"
begin

lemmas writes = w_CreatePendingUser w_CreateFederatedUser w_ActivateUser w_UpdateUserProfile w_UpdateUserEmail
   w_ReleasePendingEmail w_BumpUserVersion w_SetUserStatus w_CreateAccount w_ChangePassword
   w_UpgradePasswordHash w_RevokeAccount w_TouchAccount w_CreateSession w_TouchSession w_RevokeSession
   w_RevokeUserSessions w_CreateFlow w_ClaimFlow w_VerifyFlow w_FinishFlow w_FailFlow w_ClaimAuthorization
   w_CreateVerification w_ConsumeVerification w_AppendAudit w_RateLimit w_EnqueueMail


lemma read_R: "(\<And>t d. snd (f t d) = d) \<Longrightarrow> stmt_guarantees R f"
  by (simp add: stmt_guarantees_def R_refl)

lemma g_read: "rely R cx \<Longrightarrow> (\<And>t d. snd (f t d) = d) \<Longrightarrow> guarantees R (query cx q f)"
  by (intro g_query read_R)

lemma g_on_error: "guarantees R m \<Longrightarrow> guarantees R (on_error g m)"
  unfolding on_error_def by (intro g_attempt) (auto intro: g_ret g_fail split: sum.split)

lemma g_lookup_opt: "guarantees R m \<Longrightarrow> guarantees R (lookup_opt g m)"
  unfolding lookup_opt_def by (intro g_attempt) (auto intro: g_ret g_fail split: sum.split)

lemma g_call_dep: "guarantees R (call_dep f)"
  by (simp add: guarantees_def call_dep_def R_refl)

lemma g_vars: "guarantees R (set_var v)" "guarantees R get_var"
  by (simp_all add: guarantees_def set_var_def get_var_def R_refl)

lemma g_discard: "guarantees R m \<Longrightarrow> guarantees R (discard m)"
  unfolding discard_def by (intro g_bindA g_ret)

lemma g_transitionResult: "guarantees R m \<Longrightarrow> guarantees R (transitionResult m)"
  unfolding transitionResult_def by (intro g_bindA g_require)

lemma g_in_tx: "rely R (sv_env s) \<Longrightarrow> (\<And>q. guarantees R (fn q)) \<Longrightarrow> guarantees R (in_tx s fn)"
  unfolding in_tx_def by (intro g_WithTransaction)

text \<open>A step of a chain whose continuation does not depend on a check.\<close>

lemma g_seq: "guarantees R m \<Longrightarrow> (\<And>a. guarantees R (f a)) \<Longrightarrow> guarantees R (bindA m f)"
  by (intro g_bindA)

lemma g_guard: "(b \<Longrightarrow> guarantees R (f ())) \<Longrightarrow> guarantees R (bindA (require b e) f)"
  by (intro g_bindA g_require) (auto simp: ok_iff)

lemma g_pair: "(\<And>a b. guarantees R (f a b)) \<Longrightarrow> guarantees R (case p of (a, b) \<Rightarrow> f a b)"
  by (cases p) simp

lemma g_if: "(b \<Longrightarrow> guarantees R m) \<Longrightarrow> (\<not> b \<Longrightarrow> guarantees R m') \<Longrightarrow> guarantees R (if b then m else m')"
  by simp

lemma g_option: "guarantees R m \<Longrightarrow> (\<And>x. guarantees R (f x)) \<Longrightarrow> guarantees R (case y of None \<Rightarrow> m | Some x \<Rightarrow> f x)"
  by (cases y) simp_all

lemmas g_steps = g_ret g_fail g_require g_check_err g_from_sum g_NewID g_randomBytes g_time_Now
  g_call_dep g_vars g_guard g_seq g_on_error g_lookup_opt g_transitionResult g_pair g_if g_option g_discard

lemma g_store:
  assumes "rely R cx"
  shows "guarantees R (store_CreatePendingUser cx q email normalized)"
    and "guarantees R (store_CreateFederatedUser cx q name)"
    and "guarantees R (store_ActivateUser cx q i)"
    and "guarantees R (store_UpdateUserEmail cx q i email normalized)"
    and "guarantees R (store_ReleasePendingEmail cx q e)"
    and "guarantees R (store_UpdateUserProfile cx q name i sid)"
    and "guarantees R (store_SetUserStatus cx q i status)"
    and "guarantees R (store_BumpUserVersion cx q i)"
    and "guarantees R (store_CreateAccount cx q ca)"
    and "guarantees R (store_ChangePassword cx q i u h)"
    and "guarantees R (store_UpgradePasswordHash cx q i u h old)"
    and "guarantees R (store_RevokeAccount cx q i u)"
    and "guarantees R (store_TouchAccount cx q i u)"
    and "guarantees R (store_CreateSession cx q cs)"
    and "guarantees R (store_RevokeSession cx q i u)"
    and "guarantees R (store_RevokeUserSessions cx q u)"
    and "guarantees R (store_TouchSession cx q i u idle renewal)"
    and "guarantees R (store_CreateFlow cx q cf)"
    and "guarantees R (store_CreateVerification cx q cv)"
    and "guarantees R (claimPendingFlow cx q i)"
    and "guarantees R (claimAuthorization cx q i claim)"
    and "guarantees R (consumeFlow cx q i expected)"
    and "guarantees R (verifyFlow cx q i status v)"
    and "guarantees R (consumeVerification cx q i u)"
    and "guarantees R (store_FailFlow cx q i)"
    and "guarantees R (store_RateLimit cx q key secs)"
    and "guarantees R (store_AppendAudit cx q aa)"
    and "guarantees R (store_EnqueueMail cx q em)"
  unfolding store_defs
  by (rule g_steps g_read [OF assms] g_query [OF assms] reads_keep w_CreateFederatedUser w_ActivateUser
      w_UpdateUserProfile w_ReleasePendingEmail w_BumpUserVersion w_RevokeAccount w_TouchAccount w_TouchSession
      w_RevokeSession w_RevokeUserSessions w_ClaimFlow w_FailFlow w_ConsumeVerification w_EnqueueMail
      | (rule w_CreatePendingUser w_UpdateUserEmail w_SetUserStatus w_CreateAccount w_ChangePassword
      w_UpgradePasswordHash w_CreateSession w_CreateFlow w_VerifyFlow w_FinishFlow w_ClaimAuthorization
      w_CreateVerification w_AppendAudit w_RateLimit; auto simp: validEmailPair_def split: option.splits; fail))+

text \<open>The shared parts of the operations.\<close>

lemma g_audit: "rely R cx \<Longrightarrow> guarantees R (audit cx q r event)"
  unfolding audit_def by (rule g_store)

lemma g_recordFailure: "rely R (sv_env s) \<Longrightarrow> guarantees R (recordFailure s r action e)"
  unfolding recordFailure_def by (intro g_if g_ret g_attempt g_audit)

lemma g_recordFailureOnReturn:
  "rely R (sv_env s) \<Longrightarrow> guarantees R body \<Longrightarrow> guarantees R (recordFailureOnReturn s r action body)"
  unfolding recordFailureOnReturn_def
  by (intro g_attempt) (auto intro: g_seq g_recordFailure g_ret g_fail split: sum.split)

lemma g_limit: "rely R (sv_env s) \<Longrightarrow> guarantees R (limit s c k mx window)"
  unfolding limit_def Let_def
  by (intro g_attempt g_store) (auto intro: g_ret g_fail split: sum.split)

lemma g_shared:
  assumes "rely R (sv_env s)"
  shows "guarantees R (entryLimit s r c k)"
    and "guarantees R (enqueueVerificationMail s q v token)"
    and "guarantees R (enqueueSecurityNotification (sv_env s) q user body)"
    and "guarantees R (lockSelf (sv_env s) q r)"
    and "guarantees R (readSelf (sv_env s) q r)"
    and "guarantees R (invalidate (sv_env s) q i)"
    and "guarantees R (validateOperation s operation target)"
    and "guarantees R (authorization s q r i operation target claim)"
    and "guarantees R (finishAuthorization (sv_env s) q flow)"
    and "guarantees R (new_token (sv_env s) pre)"
  unfolding entryLimit_def enqueueVerificationMail_def enqueueSecurityNotification_def lockSelf_def readSelf_def
    requireSubject_def invalidate_def validateOperation_def authorization_def finishAuthorization_def
    new_token_def Let_def
  by (rule g_steps g_limit [OF assms] g_store [OF assms] g_read [OF assms] reads_keep)+

lemma g_newSession: "rely R (sv_env s) \<Longrightarrow> guarantees R (newSession s q r user account method)"
  unfolding newSession_def Let_def by (rule g_steps g_store g_shared g_audit | assumption)+

lemma g_createChallenge:
  "rely R (sv_env s) \<Longrightarrow> guarantees R (createChallenge s q user purpose email ttl session reauth)"
  unfolding createChallenge_def Let_def by (rule g_steps g_store g_shared | assumption)+

lemmas g_parts = g_steps g_in_tx g_shared g_limit g_newSession g_createChallenge g_audit g_recordFailureOnReturn
  g_store

text \<open>The operations.\<close>

lemma g_AuthenticateSession: "rely R (sv_env s) \<Longrightarrow> guarantees R (AuthenticateSession s token)"
  unfolding AuthenticateSession_def Let_def by (rule g_parts g_read reads_keep | assumption)+

lemma g_Login: "rely R (sv_env s) \<Longrightarrow> guarantees R (Login s r email password)"
  unfolding Login_def login_tx_def Let_def by (rule g_parts g_read reads_keep | assumption)+

lemma g_sessions:
  assumes "rely R (sv_env s)"
  shows "guarantees R (Sessions s r p)" "guarantees R (Service_RevokeSession s r i all)"
    "guarantees R (Me s r)" "guarantees R (UpdateProfile s r name)"
  unfolding Sessions_def Service_RevokeSession_def Me_def UpdateProfile_def Let_def
  by (rule g_parts g_read reads_keep assms)+

lemma g_registration:
  assumes "rely R (sv_env s)"
  shows "guarantees R (Register s r email)" "guarantees R (ForgotPassword s r email)"
  unfolding Register_def ForgotPassword_def Let_def
  by (rule g_parts g_read reads_keep assms)+

lemma g_completions:
  assumes "rely R (sv_env s)"
  shows "guarantees R (completeRegistration s q user v h)" "guarantees R (completePasswordReset s q user v h)"
    "guarantees R (completeEmailChange s q user v)"
  unfolding completeRegistration_def completePasswordReset_def completeEmailChange_def Let_def
  by (rule g_parts g_read reads_keep assms)+

lemma g_verify_tx: "rely R (sv_env s) \<Longrightarrow> guarantees R (verify_tx s r input v h q)"
  unfolding verify_tx_def complete_challenge_def Let_def
  by (rule g_parts g_completions g_read reads_keep | assumption)+

lemma g_VerifyChallenge:
  assumes "rely R (sv_env s)"
  shows "guarantees R (VerifyChallenge s r token input)"
proof -
  have "guarantees R (verify_body s r token input)"
    unfolding verify_body_def challenge_password_def Let_def
    by (rule g_parts g_verify_tx g_read reads_keep assms)+
  then show ?thesis unfolding VerifyChallenge_def
    by (intro g_seq g_vars g_attempt)
      (auto intro!: g_seq g_vars g_recordFailure g_fail g_ret assms split: sum.split)
qed

lemma g_SetPassword: "rely R (sv_env s) \<Longrightarrow> guarantees R (SetPassword s r current new reauth)"
  unfolding SetPassword_def password_tx_def replace_password_def add_password_def Let_def
  by (rule g_parts g_read reads_keep | assumption)+

lemma g_ChangeEmail: "rely R (sv_env s) \<Longrightarrow> guarantees R (ChangeEmail s r email reauth)"
  unfolding ChangeEmail_def Let_def by (rule g_parts g_read reads_keep | assumption)+

text \<open>The administrator check is a dependency: it has to keep the relation itself.\<close>

lemma g_admin:
  assumes "rely R (sv_env s)" and "\<And>u i. guarantees R (d_RequireAdmin (sv_deps s) u i)"
  shows "guarantees R (Users s r p)" "guarantees R (SetStatus s r i status)"
    "guarantees R (Service_RevokeUserSessions s r i)"
  unfolding Users_def SetStatus_def Service_RevokeUserSessions_def Let_def
  by (rule assms g_parts g_read reads_keep)+

lemma g_RequireAdmin: "rely R cx \<Longrightarrow> guarantees R (RequireAdmin cx u i)"
  unfolding RequireAdmin_def requireSubject_def by (rule g_steps g_read reads_keep | assumption)+

lemma g_prepareOAuthFlow: "rely R (sv_env s) \<Longrightarrow> guarantees R (prepareOAuthFlow s provider)"
  unfolding prepareOAuthFlow_def Let_def by (rule g_parts | assumption)+

lemma g_oauth_start:
  assumes "rely R (sv_env s)"
  shows "guarantees R (StartLogin s r provider purpose)" "guarantees R (StartLink s r provider reauth)"
    "guarantees R (startReauthenticationFlow s r account operation target)"
  unfolding StartLogin_def startLoginFlow_def StartLink_def startLinkFlow_def startReauthenticationFlow_def
    persist_def Let_def
  by (rule g_parts g_prepareOAuthFlow g_read reads_keep assms)+

lemma g_Reauthenticate: "rely R (sv_env s) \<Longrightarrow> guarantees R (Reauthenticate s r input)"
  unfolding Reauthenticate_def password_proof_tx_def Let_def
  by (rule g_parts g_oauth_start g_read reads_keep | assumption)+

lemma g_completeLogin: "rely R (sv_env s) \<Longrightarrow> guarantees R (completeLogin s r flow v)"
  unfolding completeLogin_def existing_login_def register_login_def Let_def
  by (rule g_parts g_read reads_keep | assumption)+

lemma g_completeBoundFlow: "rely R (sv_env s) \<Longrightarrow> guarantees R (completeBoundFlow s r flow v)"
  unfolding completeBoundFlow_def completeReauthentication_def completeLinkProof_def Let_def
  by (rule g_parts g_read reads_keep | assumption)+

lemma g_Callback:
  assumes "rely R (sv_env s)"
  shows "guarantees R (Callback s r token code state)"
proof -
  have "guarantees R (process_flow s r flow code)" for flow
    unfolding process_flow_def Let_def
    by (rule g_parts g_completeLogin g_completeBoundFlow assms)+
  then have "guarantees R (or_fail_flow (sv_env s) (f_ID flow) (process_flow s r flow code))" for flow
    unfolding or_fail_flow_def
    by (intro g_attempt) (auto intro!: g_attempt g_store assms g_fail g_ret split: sum.split)
  then show ?thesis unfolding Callback_def callback_body_def Let_def
    by (intro g_recordFailureOnReturn g_on_error g_seq g_limit g_from_sum g_read g_require g_store assms) simp
qed

lemma g_linked_accounts:
  assumes "rely R (sv_env s)"
  shows "guarantees R (ConfirmLink s r flowID)" "guarantees R (Unlink s r i reauth)"
  unfolding ConfirmLink_def confirm_tx_def link_account_def Unlink_def unlink_tx_def Let_def
  by (rule g_parts g_read reads_keep assms)+

lemma g_run_call:
  assumes "rely R (sv_env s)" and "\<And>u i. guarantees R (d_RequireAdmin (sv_deps s) u i)"
  shows "guarantees R (run_call s c)"
  by (cases c) (simp_all add: g_discard g_AuthenticateSession g_Login g_sessions g_registration g_VerifyChallenge
      g_SetPassword g_ChangeEmail g_Reauthenticate g_oauth_start g_Callback g_linked_accounts g_admin assms)

end

end
