(* ===== verification/Account_Evolution.thy ===== *)
theory Account_Evolution
  imports Account_Laws
begin

text \<open>
  How the account tables change over time: rows are never deleted; identities, owners, token
  digests and deadlines never change; versions never decrease, and while an authentication version stays the same, so do the status and
  the address of a user that was activated; a revocation, a consumption and an
  audit event are final; a flow's status only moves forward.
\<close>

definition user_le :: "user_row \<Rightarrow> user_row \<Rightarrow> bool" where
  "user_le u v \<longleftrightarrow> u_ID v = u_ID u \<and> u_Role v = u_Role u \<and> u_CreatedAt v = u_CreatedAt u
     \<and> u_AuthVersion u \<le> u_AuthVersion v \<and> (u_Status v = UserPending \<longrightarrow> u_Status u = UserPending)
     \<and> (u_AuthVersion v = u_AuthVersion u \<and> u_Status u \<noteq> UserPending \<longrightarrow>
          u_Status v = u_Status u \<and> u_Email v = u_Email u \<and> u_EmailNormalized v = u_EmailNormalized u
          \<and> u_EmailVerifiedAt v = u_EmailVerifiedAt u)"

definition account_le :: "account_row \<Rightarrow> account_row \<Rightarrow> bool" where
  "account_le a b \<longleftrightarrow> a_ID b = a_ID a \<and> a_UserID b = a_UserID a \<and> a_ProviderID b = a_ProviderID a
     \<and> a_ProviderAccountID b = a_ProviderAccountID a \<and> a_ProviderNamespace b = a_ProviderNamespace a
     \<and> a_Version a \<le> a_Version b \<and> (a_Version b = a_Version a \<longrightarrow> a_RevokedAt b = a_RevokedAt a)
     \<and> (a_RevokedAt a \<noteq> None \<longrightarrow> a_RevokedAt b = a_RevokedAt a)"

definition session_le :: "session_row \<Rightarrow> session_row \<Rightarrow> bool" where
  "session_le s t \<longleftrightarrow> s_ID t = s_ID s \<and> s_UserID t = s_UserID s \<and> s_TokenHash t = s_TokenHash s
     \<and> s_AuthVersion t = s_AuthVersion s \<and> s_AbsoluteExpiresAt t = s_AbsoluteExpiresAt s
     \<and> (s_RevokedAt s \<noteq> None \<longrightarrow> s_RevokedAt t = s_RevokedAt s)"

text \<open>The statuses that can follow a status.\<close>

definition flow_leads :: "string \<Rightarrow> string list" where
  "flow_leads st =
     (if st = FlowPending then [FlowProcessing, FlowVerified, FlowAuthorized, FlowClaimed, FlowConsumed, FlowFailed]
      else if st = FlowProcessing then [FlowVerified, FlowAuthorized, FlowClaimed, FlowConsumed, FlowFailed]
      else if st = FlowVerified then [FlowConsumed]
      else if st = FlowAuthorized then [FlowClaimed, FlowConsumed]
      else if st = FlowClaimed then [FlowConsumed]
      else [])"

definition flow_le :: "flow_row \<Rightarrow> flow_row \<Rightarrow> bool" where
  "flow_le f g \<longleftrightarrow> f_ID g = f_ID f \<and> f_Purpose g = f_Purpose f \<and> f_TokenHash g = f_TokenHash f
     \<and> f_UserID g = f_UserID f \<and> f_SessionID g = f_SessionID f \<and> f_AuthVersion g = f_AuthVersion f
     \<and> f_AccountID g = f_AccountID f \<and> f_AccountVersion g = f_AccountVersion f
     \<and> f_Operation g = f_Operation f \<and> f_Target g = f_Target f \<and> f_StateHash g = f_StateHash f
     \<and> f_ExpiresAt g = f_ExpiresAt f
     \<and> (f_Status g = f_Status f \<or> f_Status g \<in> set (flow_leads (f_Status f)))"

definition verification_le :: "verification_row \<Rightarrow> verification_row \<Rightarrow> bool" where
  "verification_le v w \<longleftrightarrow> w\<lparr>v_ConsumedAt := None\<rparr> = v\<lparr>v_ConsumedAt := None\<rparr>
     \<and> (v_ConsumedAt v \<noteq> None \<longrightarrow> v_ConsumedAt w = v_ConsumedAt v)"

definition account_evolves :: "db \<Rightarrow> db \<Rightarrow> bool" where
  "account_evolves d d' \<longleftrightarrow>
     grows user_le (users d) (users d') \<and> grows account_le (accounts d) (accounts d')
     \<and> grows session_le (user_sessions d) (user_sessions d') \<and> grows flow_le (auth_flows d) (auth_flows d')
     \<and> grows verification_le (auth_verifications d) (auth_verifications d')
     \<and> prefix (audit_events d) (audit_events d')"

lemma le_refl [simp]:
  "user_le u u" "account_le a a" "session_le s s" "flow_le f f" "verification_le v v"
  by (simp_all add: user_le_def account_le_def session_le_def flow_le_def verification_le_def)

lemma flow_leads_trans:
  "b \<in> set (flow_leads a) \<Longrightarrow> c \<in> set (flow_leads b) \<Longrightarrow> c \<in> set (flow_leads a)"
  by (auto simp: flow_leads_def flow_status_defs split: if_splits)

lemma user_le_trans: "user_le u v \<Longrightarrow> user_le v w \<Longrightarrow> user_le u w"
proof -
  assume l: "user_le u v" "user_le v w"
  have "u_AuthVersion u \<le> u_AuthVersion v" "u_AuthVersion v \<le> u_AuthVersion w" using l by (simp_all add: user_le_def)
  moreover from this have "u_AuthVersion w = u_AuthVersion u \<Longrightarrow> u_AuthVersion v = u_AuthVersion u" by linarith
  ultimately show ?thesis using l unfolding user_le_def by (metis order_trans)
qed

lemma account_le_trans: "account_le a b \<Longrightarrow> account_le b c \<Longrightarrow> account_le a c"
proof -
  assume l: "account_le a b" "account_le b c"
  have "a_Version a \<le> a_Version b" "a_Version b \<le> a_Version c" using l by (simp_all add: account_le_def)
  moreover from this have "a_Version c = a_Version a \<Longrightarrow> a_Version b = a_Version a" by linarith
  ultimately show ?thesis using l unfolding account_le_def by (metis order_trans)
qed

lemma le_trans_rows:
  "session_le s t \<Longrightarrow> session_le t x \<Longrightarrow> session_le s x"
  "flow_le f g \<Longrightarrow> flow_le g h \<Longrightarrow> flow_le f h"
  "verification_le p q \<Longrightarrow> verification_le q r \<Longrightarrow> verification_le p r"
  by (auto simp: session_le_def flow_le_def verification_le_def dest: flow_leads_trans)

lemma account_evolves_refl: "account_evolves d d"
  by (simp add: account_evolves_def grows_refl)

lemma account_evolves_trans: "account_evolves a b \<Longrightarrow> account_evolves b c \<Longrightarrow> account_evolves a c"
  unfolding account_evolves_def
  by (meson grows_trans user_le_trans account_le_trans le_trans_rows prefix_order.trans)

lemma evolve_table:
  "grows user_le (users d) us \<Longrightarrow> account_evolves d (d\<lparr>users := us\<rparr>)"
  "grows account_le (accounts d) as \<Longrightarrow> account_evolves d (d\<lparr>accounts := as\<rparr>)"
  "grows session_le (user_sessions d) ss \<Longrightarrow> account_evolves d (d\<lparr>user_sessions := ss\<rparr>)"
  "grows flow_le (auth_flows d) fs \<Longrightarrow> account_evolves d (d\<lparr>auth_flows := fs\<rparr>)"
  "grows verification_le (auth_verifications d) vs \<Longrightarrow> account_evolves d (d\<lparr>auth_verifications := vs\<rparr>)"
  "account_evolves d (d\<lparr>audit_events := audit_events d @ [x]\<rparr>)"
  "account_evolves d (d\<lparr>auth_rate_limits := rs\<rparr>)"
  "account_evolves d (d\<lparr>mail_outbox := ms\<rparr>)"
  by (simp_all add: account_evolves_def grows_refl)

lemmas grow_rows = grows_append grows_update_where

lemma users_evolve:
  "stmt_guarantees account_evolves (CreatePendingUser i email normalized)"
  "stmt_guarantees account_evolves (CreateFederatedUser i name)"
  "stmt_guarantees account_evolves (ActivateUser i)"
  "stmt_guarantees account_evolves (UpdateUserProfile name i sid)"
  "stmt_guarantees account_evolves (UpdateUserEmail i email normalized)"
  "stmt_guarantees account_evolves (ReleasePendingEmail email)"
  "stmt_guarantees account_evolves (BumpUserVersion i)"
  "Settable status \<Longrightarrow> stmt_guarantees account_evolves (SetUserStatus i status)"
  by (auto simp: stmt_guarantees_def CreatePendingUser_def CreateFederatedUser_def ActivateUser_def
      UpdateUserProfile_def UpdateUserEmail_def ReleasePendingEmail_def BumpUserVersion_def SetUserStatus_def
      update_user_def user_le_def Settable_def status_defs Let_def
      intro!: evolve_table grow_rows account_evolves_refl split: option.split)

lemma accounts_evolve:
  "stmt_guarantees account_evolves (CreateAccount i ca)"
  "stmt_guarantees account_evolves (ChangePassword i u h)"
  "stmt_guarantees account_evolves (UpgradePasswordHash i u h old)"
  "stmt_guarantees account_evolves (RevokeAccount i u)"
  "stmt_guarantees account_evolves (TouchAccount i u)"
  by (auto simp: stmt_guarantees_def CreateAccount_def ChangePassword_def UpgradePasswordHash_def RevokeAccount_def
      TouchAccount_def update_account_def account_le_def Let_def
      intro!: evolve_table grow_rows account_evolves_refl)

lemma sessions_evolve:
  "stmt_guarantees account_evolves (CreateSession i cs)"
  "stmt_guarantees account_evolves (TouchSession i u idle renewal)"
  "stmt_guarantees account_evolves (RevokeSession i u)"
  "stmt_guarantees account_evolves (RevokeUserSessions u)"
  by (auto simp: stmt_guarantees_def CreateSession_def TouchSession_def RevokeSession_def RevokeUserSessions_def
      session_le_def Let_def intro!: evolve_table grow_rows account_evolves_refl)

lemma flows_evolve:
  "stmt_guarantees account_evolves (CreateFlow cf)"
  "stmt_guarantees account_evolves (ClaimFlow i)"
  "Verifiable status \<Longrightarrow> stmt_guarantees account_evolves (VerifyFlow i status ns sub name at)"
  "expected \<in> {FlowProcessing, FlowVerified, FlowAuthorized, FlowClaimed} \<Longrightarrow>
     stmt_guarantees account_evolves (FinishFlow i expected)"
  "stmt_guarantees account_evolves (FailFlow i)"
  "stmt_guarantees account_evolves (ClaimAuthorization i claim)"
  by (auto simp: stmt_guarantees_def CreateFlow_def ClaimFlow_def VerifyFlow_def FinishFlow_def FailFlow_def
      ClaimAuthorization_def update_flow_def flow_le_def flow_leads_def flow_status_defs Verifiable_def Let_def
      intro!: evolve_table grow_rows account_evolves_refl)

lemma others_evolve:
  "stmt_guarantees account_evolves (CreateVerification i cv)"
  "stmt_guarantees account_evolves (ConsumeVerification i u)"
  "stmt_guarantees account_evolves (AppendAudit i aa)"
  "stmt_guarantees account_evolves (RateLimit key secs)"
  "stmt_guarantees account_evolves (EnqueueMail em)"
  by (auto simp: stmt_guarantees_def CreateVerification_def ConsumeVerification_def AppendAudit_def RateLimit_def
      EnqueueMail_def verification_le_def Let_def
      intro!: evolve_table grow_rows account_evolves_refl split: option.split)

interpretation ae: account_guarantee account_evolves
  by unfold_locales
    (rule account_evolves_refl users_evolve accounts_evolve sessions_evolve flows_evolve others_evolve
      | erule account_evolves_trans users_evolve flows_evolve | assumption)+

end
