(* ===== verification/Account_Invariant.thy ===== *)
theory Account_Invariant
  imports Account_Evolution
begin

text \<open>
  What holds of the account tables at every moment: unique identifiers, e-mail addresses, token
  digests and live accounts; references to existing users; well-formed rows.
\<close>

definition user_row_ok :: "user_row \<Rightarrow> bool" where
  "user_row_ok u \<longleftrightarrow> UserStatus_Valid (u_Status u) \<and> UserRole_Valid (u_Role u) \<and> 1 \<le> u_AuthVersion u
     \<and> (u_RecoveryEnabled u \<longrightarrow> u_EmailVerifiedAt u \<noteq> None)"

definition users_ok :: "user_row list \<Rightarrow> bool" where
  "users_ok us \<longleftrightarrow> distinct (map u_ID us) \<and> (\<forall>e. count_where (\<lambda>u. u_EmailNormalized u = Some e) us \<le> 1)
     \<and> (\<forall>u \<in> set us. user_row_ok u)"

text \<open>A credential account carries a password hash, any other account an external identity.\<close>

definition account_row_ok :: "account_row \<Rightarrow> bool" where
  "account_row_ok a \<longleftrightarrow> 1 \<le> a_Version a
     \<and> (a_ProviderID a = CredentialProvider \<longrightarrow> a_ProviderNamespace a = LocalNamespace
          \<and> a_ProviderAccountID a = a_UserID a \<and> a_PasswordHash a \<noteq> None \<and> a_PasswordHash a \<noteq> Some '''')
     \<and> (a_ProviderID a \<noteq> CredentialProvider \<longrightarrow> a_ProviderNamespace a \<noteq> LocalNamespace \<and> a_PasswordHash a = None)"

definition live_accounts_ok :: "account_row list \<Rightarrow> bool" where
  "live_accounts_ok as \<longleftrightarrow> distinct (map a_ID as)
     \<and> (\<forall>p i. count_where (\<lambda>a. a_RevokedAt a = None \<and> a_ProviderID a = p \<and> a_ProviderAccountID a = i) as \<le> 1)
     \<and> (\<forall>n i. count_where (\<lambda>a. a_RevokedAt a = None \<and> a_ProviderNamespace a = n \<and> a_ProviderAccountID a = i) as \<le> 1)
     \<and> (\<forall>u. count_where (\<lambda>a. a_RevokedAt a = None \<and> a_UserID a = u \<and> a_ProviderID a = CredentialProvider) as \<le> 1)
     \<and> (\<forall>a \<in> set as. account_row_ok a)"

definition sessions_ok :: "session_row list \<Rightarrow> bool" where
  "sessions_ok ss \<longleftrightarrow> distinct (map s_ID ss) \<and> distinct (map s_TokenHash ss)
     \<and> (\<forall>s \<in> set ss. s_IdleExpiresAt s \<le> s_AbsoluteExpiresAt s \<and> length (s_TokenHash s) = sha256_Size
          \<and> 0 < s_AuthVersion s)"

text \<open>A finished flow keeps no protocol material; a claimed one names its claimant.\<close>

definition flow_row_ok :: "flow_row \<Rightarrow> bool" where
  "flow_row_ok f \<longleftrightarrow> FlowStatus_Valid (f_Status f) \<and> FlowPurpose_Valid (f_Purpose f)
     \<and> (f_Status f \<in> {FlowConsumed, FlowFailed} \<longrightarrow> f_ProtocolState f = None)
     \<and> (f_Status f = FlowClaimed \<longrightarrow> f_ClaimedBy f \<noteq> None)"

definition flows_ok :: "flow_row list \<Rightarrow> bool" where
  "flows_ok fs \<longleftrightarrow> distinct (map f_ID fs) \<and> (\<forall>h. count_where (\<lambda>f. f_TokenHash f = Some h) fs \<le> 1)
     \<and> (\<forall>f \<in> set fs. flow_row_ok f)"

definition verifications_ok :: "verification_row list \<Rightarrow> bool" where
  "verifications_ok vs \<longleftrightarrow> distinct (map v_ID vs) \<and> distinct (map v_TokenHash vs)
     \<and> (\<forall>v \<in> set vs. VerificationPurpose_Valid (v_Purpose v) \<and> length (v_TokenHash v) = sha256_Size)"

definition audit_ok :: "audit_row list \<Rightarrow> bool" where
  "audit_ok es \<longleftrightarrow> distinct (map au_ID es)
     \<and> (\<forall>e \<in> set es. AuditOutcome_Valid (au_Outcome e) \<and> AuditActorType_Valid (au_ActorType e)
          \<and> (au_ActorType e = ActorAnonymous) = (au_ActorID e = None))"

definition rates_ok :: "rate_row list \<Rightarrow> bool" where
  "rates_ok rs \<longleftrightarrow> distinct (map r_BucketKey rs) \<and> (\<forall>r \<in> set rs. 1 \<le> r_Count r \<and> r_Count r \<le> 1000000)"

definition references_ok :: "db \<Rightarrow> bool" where
  "references_ok d \<longleftrightarrow>
     a_UserID ` set (accounts d) \<union> s_UserID ` set (user_sessions d) \<union> v_UserID ` set (auth_verifications d)
       \<subseteq> u_ID ` set (users d)"

definition accounts_ok :: "db \<Rightarrow> bool" where
  "accounts_ok d \<longleftrightarrow> users_ok (users d) \<and> live_accounts_ok (accounts d) \<and> sessions_ok (user_sessions d)
     \<and> flows_ok (auth_flows d) \<and> verifications_ok (auth_verifications d) \<and> audit_ok (audit_events d)
     \<and> rates_ok (auth_rate_limits d) \<and> mail_ok d \<and> references_ok d"

lemma accounts_ok_table:
  assumes "accounts_ok d"
  shows "users_ok us \<Longrightarrow> u_ID ` set (users d) \<subseteq> u_ID ` set us \<Longrightarrow> accounts_ok (d\<lparr>users := us\<rparr>)"
    and "live_accounts_ok as \<Longrightarrow> a_UserID ` set as \<subseteq> u_ID ` set (users d) \<Longrightarrow> accounts_ok (d\<lparr>accounts := as\<rparr>)"
    and "sessions_ok ss \<Longrightarrow> s_UserID ` set ss \<subseteq> u_ID ` set (users d) \<Longrightarrow> accounts_ok (d\<lparr>user_sessions := ss\<rparr>)"
    and "flows_ok fs \<Longrightarrow> accounts_ok (d\<lparr>auth_flows := fs\<rparr>)"
    and "verifications_ok vs \<Longrightarrow> v_UserID ` set vs \<subseteq> u_ID ` set (users d) \<Longrightarrow> accounts_ok (d\<lparr>auth_verifications := vs\<rparr>)"
    and "audit_ok es \<Longrightarrow> accounts_ok (d\<lparr>audit_events := es\<rparr>)"
    and "rates_ok rs \<Longrightarrow> accounts_ok (d\<lparr>auth_rate_limits := rs\<rparr>)"
  using assms
  by (simp_all add: accounts_ok_def references_ok_def mail_ok_def) (meson order_trans)

lemma accounts_ok_tables:
  "accounts_ok d \<Longrightarrow> users_ok (users d)" "accounts_ok d \<Longrightarrow> live_accounts_ok (accounts d)"
  "accounts_ok d \<Longrightarrow> sessions_ok (user_sessions d)" "accounts_ok d \<Longrightarrow> flows_ok (auth_flows d)"
  "accounts_ok d \<Longrightarrow> verifications_ok (auth_verifications d)" "accounts_ok d \<Longrightarrow> audit_ok (audit_events d)"
  "accounts_ok d \<Longrightarrow> rates_ok (auth_rate_limits d)" "accounts_ok d \<Longrightarrow> mail_ok d" "accounts_ok d \<Longrightarrow> references_ok d"
  by (simp_all add: accounts_ok_def)

subsection \<open>Users\<close>

lemma users_ok_append:
  assumes "users_ok us" and "u_ID u \<notin> u_ID ` set us" and "user_row_ok u"
    and "\<And>e x. u_EmailNormalized u = Some e \<Longrightarrow> x \<in> set us \<Longrightarrow> u_EmailNormalized x \<noteq> Some e"
  shows "users_ok (us @ [u])"
proof -
  have "count_where (\<lambda>u. u_EmailNormalized u = Some e) (us @ [u]) \<le> 1" for e
  proof (cases "u_EmailNormalized u = Some e")
    case True
    then have "count_where (\<lambda>u. u_EmailNormalized u = Some e) us = 0" using assms(4) by simp
    with True show ?thesis by simp
  next
    case False
    with assms(1) show ?thesis by (simp add: users_ok_def)
  qed
  with assms(1-3) show ?thesis by (auto simp: users_ok_def)
qed

lemma users_ok_update:
  assumes "users_ok us" and "\<And>u. u_ID (f u) = u_ID u"
    and "\<And>u. u \<in> set us \<Longrightarrow> p u \<Longrightarrow> user_row_ok u \<Longrightarrow> user_row_ok (f u)"
    and "\<And>u e. p u \<Longrightarrow> u_EmailNormalized (f u) = Some e \<Longrightarrow> u_EmailNormalized u = Some e"
  shows "users_ok (update_where p f us)"
proof -
  have "count_where (\<lambda>u. u_EmailNormalized u = Some e) (update_where p f us) \<le> 1" for e
  proof -
    have "count_where (\<lambda>u. u_EmailNormalized u = Some e) (update_where p f us)
        \<le> count_where (\<lambda>u. u_EmailNormalized u = Some e) us"
      using assms(4) by (intro count_update_where_le) blast
    also have "\<dots> \<le> 1" using assms(1) by (simp add: users_ok_def)
    finally show ?thesis .
  qed
  with assms(1-3) show ?thesis by (auto simp: users_ok_def map_update_where set_update_where)
qed

lemma ids_update [simp]: "(\<And>u. k (f u) = k u) \<Longrightarrow> k ` set (update_where p f us) = k ` set us"
  by (metis list.set_map map_update_where)

text \<open>A new address: no other user has it, and only one row is changed.\<close>

lemma users_ok_email:
  assumes "users_ok us" and "\<And>u. u_ID (f u) = u_ID u" and "\<And>u. p u \<Longrightarrow> u_ID u = i"
    and "\<And>u. user_row_ok u \<Longrightarrow> user_row_ok (f u)" and "\<And>u. u_EmailNormalized (f u) = Some e"
    and "\<And>u. u \<in> set us \<Longrightarrow> \<not> p u \<Longrightarrow> u_EmailNormalized u \<noteq> Some e"
  shows "users_ok (update_where p f us)"
proof -
  have one: "count_where p us \<le> 1"
    using count_where_distinct_le_1 [of u_ID us p i] assms(1,3) by (simp add: users_ok_def)
  have "count_where (\<lambda>u. u_EmailNormalized u = Some x) (update_where p f us) \<le> 1" for x
  proof (cases "x = e")
    case True
    then have "count_where (\<lambda>u. u_EmailNormalized u = Some x) (update_where p f us) \<le> count_where p us"
      using assms(6) by (intro count_update_where_hit) blast
    with one show ?thesis by linarith
  next
    case False
    then have "count_where (\<lambda>u. u_EmailNormalized u = Some x) (update_where p f us)
        \<le> count_where (\<lambda>u. u_EmailNormalized u = Some x) us"
      using assms(5) by (intro count_update_where_le) simp
    also have "\<dots> \<le> 1" using assms(1) by (simp add: users_ok_def)
    finally show ?thesis .
  qed
  with assms(1,2,4) show ?thesis by (auto simp: users_ok_def map_update_where set_update_where)
qed

lemmas user_row_simps = user_row_ok_def UserStatus_Valid_def UserRole_Valid_def status_defs RoleUser_def RoleAdmin_def

lemma CreatePendingUser_keeps: "normalized \<noteq> None \<Longrightarrow> stmt_guarantees (keeps accounts_ok) (CreatePendingUser i email normalized)"
  by (rule stmt_keeps)
    (auto simp: CreatePendingUser_def new_user_def Let_def find_None_all list_ex_iff user_row_simps
      intro!: accounts_ok_table users_ok_append accounts_ok_tables split: option.split)

lemma CreateFederatedUser_keeps: "stmt_guarantees (keeps accounts_ok) (CreateFederatedUser i name)"
  by (rule stmt_keeps)
    (auto simp: CreateFederatedUser_def new_user_def Let_def list_ex_iff user_row_simps
      intro!: accounts_ok_table users_ok_append accounts_ok_tables)

lemma UpdateUserEmail_keeps:
  assumes "normalized \<noteq> None"
  shows "stmt_guarantees (keeps accounts_ok) (UpdateUserEmail i email normalized)"
proof (rule stmt_keeps)
  fix t d
  assume ok: "accounts_ok d"
  obtain e where e: "normalized = Some e" using assms by blast
  let ?p = "\<lambda>u. u_ID u = i \<and> u_Status u = ''active''"
  let ?f = "\<lambda>u. u\<lparr>u_Email := email, u_EmailNormalized := normalized, u_EmailVerifiedAt := Some t,
     u_RecoveryEnabled := True, u_AuthVersion := u_AuthVersion u + 1, u_UpdatedAt := t\<rparr>"
  show "accounts_ok (snd (UpdateUserEmail i email normalized t d))"
  proof (cases "list_ex ?p (users d) \<longrightarrow> \<not> list_ex (\<lambda>u. \<not> ?p u \<and> u_EmailNormalized u = Some e) (users d)")
    case True
    then have "users_ok (update_where ?p ?f (users d))"
    proof (cases "list_ex ?p (users d)")
      case True
      with \<open>_ \<longrightarrow> _\<close> show ?thesis
        by (intro users_ok_email [where i = i and e = e] accounts_ok_tables ok)
          (auto simp: e list_ex_iff user_row_simps)
    next
      case False
      then have "update_where ?p ?f (users d) = users d"
        by (intro update_where_none) (auto simp: list_ex_iff)
      then show ?thesis using ok by (simp add: accounts_ok_tables)
    qed
    then have "accounts_ok (d\<lparr>users := update_where ?p ?f (users d)\<rparr>)"
      by (intro accounts_ok_table ok) simp_all
    with True ok show ?thesis by (auto simp: UpdateUserEmail_def update_user_def Let_def e list_ex_iff)
  qed (auto simp: UpdateUserEmail_def Let_def e ok list_ex_iff)
qed

lemma users_keep:
  "stmt_guarantees (keeps accounts_ok) (ActivateUser i)"
  "stmt_guarantees (keeps accounts_ok) (UpdateUserProfile name i sid)"
  "stmt_guarantees (keeps accounts_ok) (ReleasePendingEmail em)"
  "stmt_guarantees (keeps accounts_ok) (BumpUserVersion i)"
  "Settable status \<Longrightarrow> stmt_guarantees (keeps accounts_ok) (SetUserStatus i status)"
  by (rule stmt_keeps;
      auto simp: ActivateUser_def UpdateUserProfile_def ReleasePendingEmail_def BumpUserVersion_def SetUserStatus_def
      update_user_def Settable_def user_row_simps intro!: accounts_ok_table users_ok_update accounts_ok_tables)+

subsection \<open>Accounts\<close>

lemma references_accounts: "accounts_ok d \<Longrightarrow> a_UserID ` set (accounts d) \<subseteq> u_ID ` set (users d)"
  and references_sessions: "accounts_ok d \<Longrightarrow> s_UserID ` set (user_sessions d) \<subseteq> u_ID ` set (users d)"
  and references_verifications: "accounts_ok d \<Longrightarrow> v_UserID ` set (auth_verifications d) \<subseteq> u_ID ` set (users d)"
  by (simp_all add: accounts_ok_def references_ok_def)

lemma count_keep:
  assumes "count_where q rows \<le> Suc 0" and "\<And>r. r \<in> set rows \<Longrightarrow> p r \<Longrightarrow> q (f r) \<Longrightarrow> q r"
  shows "count_where q (update_where p f rows) \<le> Suc 0"
  using assms(1) count_update_where_le [of rows p q f, OF assms(2)] by linarith

lemma count_add: "(q x \<Longrightarrow> \<forall>r \<in> set rows. \<not> q r) \<Longrightarrow> count_where q rows \<le> Suc 0 \<Longrightarrow> count_where q (rows @ [x]) \<le> Suc 0"
  by (auto simp flip: count_where_0)

lemma live_accounts_ok_update:
  assumes "live_accounts_ok as" and "\<And>a. a_ID (f a) = a_ID a" "\<And>a. a_UserID (f a) = a_UserID a"
    "\<And>a. a_ProviderID (f a) = a_ProviderID a" "\<And>a. a_ProviderAccountID (f a) = a_ProviderAccountID a"
    "\<And>a. a_ProviderNamespace (f a) = a_ProviderNamespace a"
    and "\<And>a. p a \<Longrightarrow> a_RevokedAt (f a) = None \<Longrightarrow> a_RevokedAt a = None"
    and "\<And>a. p a \<Longrightarrow> account_row_ok a \<Longrightarrow> account_row_ok (f a)"
  shows "live_accounts_ok (update_where p f as)"
  using assms unfolding live_accounts_ok_def
  by (auto simp: map_update_where set_update_where intro!: count_keep)

lemma live_accounts_ok_append:
  assumes "live_accounts_ok as" and "a_ID a \<notin> a_ID ` set as" and "account_row_ok a"
    and "\<And>x. x \<in> set as \<Longrightarrow> a_RevokedAt x = None \<Longrightarrow>
       \<not> (a_ProviderID x = a_ProviderID a \<and> a_ProviderAccountID x = a_ProviderAccountID a)
       \<and> \<not> (a_ProviderNamespace x = a_ProviderNamespace a \<and> a_ProviderAccountID x = a_ProviderAccountID a)
       \<and> \<not> (a_ProviderID a = CredentialProvider \<and> a_UserID x = a_UserID a \<and> a_ProviderID x = CredentialProvider)"
  shows "live_accounts_ok (as @ [a])"
  unfolding live_accounts_ok_def One_nat_def
  by (intro conjI allI count_add; use assms in \<open>force simp: live_accounts_ok_def\<close>)

lemma CreateAccount_keeps:
  assumes "valid_account ca"
  shows "stmt_guarantees (keeps accounts_ok) (CreateAccount i ca)"
proof (rule stmt_keeps)
  fix t d
  assume ok: "accounts_ok d"
  show "accounts_ok (snd (CreateAccount i ca t d))"
  proof (cases "fst (CreateAccount i ca t d)")
    case (Inl e)
    with ok show ?thesis by (simp add: CreateAccount_snd)
  next
    case (Inr row)
    note c = CreateAccount_fst [OF Inr]
    from c assms have "account_row_ok row"
      by (auto simp: created_account_def valid_account_def account_row_ok_def split: option.splits if_splits)
    with c have "live_accounts_ok (accounts d @ [row])"
      by (intro live_accounts_ok_append accounts_ok_tables ok) (auto simp: created_account_def CredentialProvider_def)
    moreover have "a_UserID ` set (accounts d @ [row]) \<subseteq> u_ID ` set (users d)"
      using c references_accounts [OF ok] by (simp add: created_account_def)
    ultimately show ?thesis using Inr ok by (simp add: CreateAccount_snd accounts_ok_table)
  qed
qed

lemma update_account_keeps:
  assumes "accounts_ok d" and "\<And>a. a_ID (f a) = a_ID a" "\<And>a. a_UserID (f a) = a_UserID a"
    "\<And>a. a_ProviderID (f a) = a_ProviderID a" "\<And>a. a_ProviderAccountID (f a) = a_ProviderAccountID a"
    "\<And>a. a_ProviderNamespace (f a) = a_ProviderNamespace a"
    and "\<And>a. p a \<Longrightarrow> a_RevokedAt (f a) = None \<Longrightarrow> a_RevokedAt a = None"
    and "\<And>a. p a \<Longrightarrow> account_row_ok a \<Longrightarrow> account_row_ok (f a)"
  shows "accounts_ok (d\<lparr>accounts := update_where p f (accounts d)\<rparr>)"
  using live_accounts_ok_update [OF accounts_ok_tables(2) [OF assms(1)] assms(2-)] references_accounts [OF assms(1)]
  by (intro accounts_ok_table assms(1)) (simp_all add: assms(3))

lemma accounts_keep:
  "h \<noteq> None \<Longrightarrow> h \<noteq> Some '''' \<Longrightarrow> stmt_guarantees (keeps accounts_ok) (ChangePassword i u h)"
  "h \<noteq> None \<Longrightarrow> h \<noteq> Some '''' \<Longrightarrow> stmt_guarantees (keeps accounts_ok) (UpgradePasswordHash i u h old)"
  "stmt_guarantees (keeps accounts_ok) (RevokeAccount i u)"
  "stmt_guarantees (keeps accounts_ok) (TouchAccount i u)"
  by (rule stmt_keeps; simp add: ChangePassword_def UpgradePasswordHash_def RevokeAccount_def TouchAccount_def update_account_def;
      rule update_account_keeps; auto simp: account_row_ok_def provider_defs)+

subsection \<open>Sessions\<close>

lemma CreateSession_keeps:
  assumes "valid_new_session cs"
  shows "stmt_guarantees (keeps accounts_ok) (CreateSession i cs)"
proof (rule stmt_keeps)
  fix t d
  assume ok: "accounts_ok d"
  show "accounts_ok (snd (CreateSession i cs t d))"
  proof (cases "fst (CreateSession i cs t d)")
    case (Inl e)
    with ok show ?thesis by (simp add: CreateSession_snd)
  next
    case (Inr row)
    note c = CreateSession_fst [OF Inr]
    have "cs_IdleSeconds cs * second \<le> cs_MaxSeconds cs * second"
      using assms by (intro mult_right_mono) (simp_all add: valid_new_session_def order_less_imp_le)
    then have "sessions_ok (user_sessions d @ [row])"
      using accounts_ok_tables(3) [OF ok] c assms
      by (auto simp: sessions_ok_def valid_new_session_def created_session_def)
    with c Inr references_sessions [OF ok] show ?thesis
      by (simp add: CreateSession_snd accounts_ok_table ok created_session_def)
  qed
qed

lemma sessions_ok_update:
  assumes "accounts_ok d" and "\<And>s. s_ID (f s) = s_ID s" "\<And>s. s_UserID (f s) = s_UserID s"
    "\<And>s. s_TokenHash (f s) = s_TokenHash s" "\<And>s. s_AuthVersion (f s) = s_AuthVersion s"
    and "\<And>s. s_IdleExpiresAt s \<le> s_AbsoluteExpiresAt s \<Longrightarrow> s_IdleExpiresAt (f s) \<le> s_AbsoluteExpiresAt (f s)"
  shows "accounts_ok (d\<lparr>user_sessions := update_where p f (user_sessions d)\<rparr>)"
  using accounts_ok_tables(3) [OF assms(1)] references_sessions [OF assms(1)]
  by (intro accounts_ok_table assms(1))
    (auto simp: sessions_ok_def map_update_where set_update_where assms)

lemma sessions_keep:
  "stmt_guarantees (keeps accounts_ok) (TouchSession i u idle renewal)"
  "stmt_guarantees (keeps accounts_ok) (RevokeSession i u)"
  "stmt_guarantees (keeps accounts_ok) (RevokeUserSessions u)"
  by (rule stmt_keeps; simp add: TouchSession_def RevokeSession_def RevokeUserSessions_def Let_def;
      rule sessions_ok_update; simp)+

subsection \<open>Flows, verifications, audit, rate limits, mail\<close>

lemma CreateFlow_keeps:
  assumes "valid_new_flow cf"
  shows "stmt_guarantees (keeps accounts_ok) (CreateFlow cf)"
proof (rule stmt_keeps)
  fix t d
  assume ok: "accounts_ok d"
  show "accounts_ok (snd (CreateFlow cf t d))"
  proof (cases "fst (CreateFlow cf t d)")
    case (Inl e)
    with ok show ?thesis by (simp add: CreateFlow_snd)
  next
    case (Inr row)
    note c = CreateFlow_fst [OF Inr]
    have fl: "flows_ok (auth_flows d)" by (rule accounts_ok_tables(4) [OF ok])
    have "flow_row_ok row" using assms c
      by (auto simp: flow_row_ok_def valid_new_flow_def created_flow_def Initial_def FlowStatus_Valid_def flow_status_defs)
    moreover have "count_where (\<lambda>f. f_TokenHash f = Some h) (auth_flows d @ [row]) \<le> Suc 0" for h
    proof (intro count_add ballI)
      fix x
      assume "f_TokenHash row = Some h" "x \<in> set (auth_flows d)"
      with c have "Some h \<notin> f_TokenHash ` set (auth_flows d)" by (metis created_flow_def)
      with \<open>x \<in> _\<close> show "f_TokenHash x \<noteq> Some h" by (metis image_eqI)
    qed (use fl in \<open>simp add: flows_ok_def\<close>)
    ultimately have "flows_ok (auth_flows d @ [row])" using fl c by (auto simp: flows_ok_def created_flow_def)
    with Inr ok show ?thesis by (simp add: CreateFlow_snd accounts_ok_table)
  qed
qed

lemma update_flow_keeps:
  assumes "accounts_ok d" and "\<And>x. f_ID (f x) = f_ID x" "\<And>x. f_TokenHash (f x) = f_TokenHash x"
    and "\<And>x. p x \<Longrightarrow> flow_row_ok x \<Longrightarrow> flow_row_ok (f x)"
  shows "accounts_ok (d\<lparr>auth_flows := update_where p f (auth_flows d)\<rparr>)"
  using accounts_ok_tables(4) [OF assms(1)]
  by (intro accounts_ok_table assms(1))
    (auto simp: flows_ok_def map_update_where set_update_where assms intro!: count_keep)

lemma flows_keep:
  "stmt_guarantees (keeps accounts_ok) (ClaimFlow i)"
  "Verifiable status \<Longrightarrow> stmt_guarantees (keeps accounts_ok) (VerifyFlow i status ns sub name at)"
  "stmt_guarantees (keeps accounts_ok) (FinishFlow i expected)"
  "stmt_guarantees (keeps accounts_ok) (FailFlow i)"
  "claim \<noteq> None \<Longrightarrow> stmt_guarantees (keeps accounts_ok) (ClaimAuthorization i claim)"
  by (rule stmt_keeps; simp add: ClaimFlow_def VerifyFlow_def FinishFlow_def FailFlow_def ClaimAuthorization_def
      update_flow_def; rule update_flow_keeps;
      auto simp: flow_row_ok_def Verifiable_def FlowStatus_Valid_def flow_status_defs)+

lemma verifications_keep:
  "valid_new_verification cx cv \<Longrightarrow> stmt_guarantees (keeps accounts_ok) (CreateVerification i cv)"
  "stmt_guarantees (keeps accounts_ok) (ConsumeVerification i u)"
proof -
  show "stmt_guarantees (keeps accounts_ok) (CreateVerification i cv)" if v: "valid_new_verification cx cv"
  proof (rule stmt_keeps)
    fix t d
    assume ok: "accounts_ok d"
    show "accounts_ok (snd (CreateVerification i cv t d))"
    proof (cases "fst (CreateVerification i cv t d)")
      case (Inl e)
      with ok show ?thesis by (simp add: CreateVerification_snd)
    next
      case (Inr row)
      note c = CreateVerification_fst [OF Inr]
      have "verifications_ok (auth_verifications d @ [row])"
        using accounts_ok_tables(5) [OF ok] c v by (auto simp: verifications_ok_def valid_new_verification_def)
      with c Inr references_verifications [OF ok] show ?thesis
        by (simp add: CreateVerification_snd accounts_ok_table ok)
    qed
  qed
  show "stmt_guarantees (keeps accounts_ok) (ConsumeVerification i u)"
  proof (rule stmt_keeps)
    fix t d
    assume ok: "accounts_ok d"
    let ?p = "\<lambda>v. v_ID v = i \<and> v_UserID v = u \<and> v_ConsumedAt v = None \<and> v_ExpiresAt v > t"
    let ?vs = "update_where ?p (\<lambda>v. v\<lparr>v_ConsumedAt := Some t\<rparr>) (auth_verifications d)"
    have "verifications_ok ?vs"
      using accounts_ok_tables(5) [OF ok] by (auto simp: verifications_ok_def map_update_where set_update_where)
    moreover have "v_UserID ` set ?vs \<subseteq> u_ID ` set (users d)" using references_verifications [OF ok] by simp
    ultimately show "accounts_ok (snd (ConsumeVerification i u t d))"
      by (simp add: ConsumeVerification_def Let_def accounts_ok_table ok)
  qed
qed

lemma AppendAudit_keeps: "valid_audit aa \<Longrightarrow> stmt_guarantees (keeps accounts_ok) (AppendAudit i aa)"
proof (rule stmt_keeps)
  fix t d
  assume v: "valid_audit aa" and ok: "accounts_ok d"
  show "accounts_ok (snd (AppendAudit i aa t d))"
    using v accounts_ok_tables(6) [OF ok]
    by (auto simp: AppendAudit_def list_ex_iff valid_audit_def audit_ok_def ok intro!: accounts_ok_table)
qed

lemma rate_hit_ok:
  "1 \<le> r_Count r \<and> r_Count r \<le> 1000000 \<Longrightarrow> 1 \<le> r_Count (rate_hit secs t r) \<and> r_Count (rate_hit secs t r) \<le> 1000000"
  by (simp add: rate_hit_def)

lemma RateLimit_keeps: "stmt_guarantees (keeps accounts_ok) (RateLimit key secs)"
proof (rule stmt_keeps)
  fix t d
  assume ok: "accounts_ok d"
  let ?rs = "update_where (\<lambda>x. r_BucketKey x = key) (rate_hit secs t) (auth_rate_limits d)"
  have r: "rates_ok (auth_rate_limits d)" by (rule accounts_ok_tables(7) [OF ok])
  have "map r_BucketKey ?rs = map r_BucketKey (auth_rate_limits d)"
    by (intro map_update_where) (simp add: rate_hit_def)
  with r have "rates_ok ?rs" using rate_hit_ok by (auto simp: rates_ok_def set_update_where)
  with r show "accounts_ok (snd (RateLimit key secs t d))"
    by (auto simp: RateLimit_def Let_def find_None_all rates_ok_def ok intro!: accounts_ok_table split: option.split)
qed

lemma EnqueueMail_keeps_accounts: "stmt_guarantees (keeps accounts_ok) (EnqueueMail em)"
proof (rule stmt_keeps)
  fix t d
  assume ok: "accounts_ok d"
  then have "mail_ok (snd (EnqueueMail em t d))"
    using EnqueueMail_keeps accounts_ok_tables(8) by (simp add: stmt_guarantees_def keeps_def)
  with ok show "accounts_ok (snd (EnqueueMail em t d))"
    by (auto simp: EnqueueMail_def accounts_ok_def references_ok_def split: if_splits)
qed

interpretation ai: account_guarantee "keeps accounts_ok"
  by unfold_locales
    (rule users_keep accounts_keep sessions_keep flows_keep verifications_keep RateLimit_keeps
      EnqueueMail_keeps_accounts CreateFederatedUser_keeps
      | erule CreatePendingUser_keeps UpdateUserEmail_keeps CreateAccount_keeps CreateSession_keeps CreateFlow_keeps
        AppendAudit_keeps verifications_keep users_keep | assumption)+

end
