(* ===== verification/Account_Examples.thy ===== *)
theory Account_Examples
  imports Account_Invariant
begin

text \<open>
  A small deployment on which the properties of the account service are exercised: a service with
  simple dependencies over the quiet environment, an administrator \<^verbatim>\<open>alice\<close> with a password
  and an external account, and a user \<^verbatim>\<open>bob\<close>, each with a session.
\<close>

text \<open>The service as the application wires it: the administrator check is the module's own.\<close>

definition wired :: "Service \<Rightarrow> bool" where
  "wired s \<longleftrightarrow> d_RequireAdmin (sv_deps s) = RequireAdmin (sv_env s)"

definition quiet_deps :: Dependencies where
  "quiet_deps = \<lparr>d_RequireAdmin = RequireAdmin quiet, d_Hash = (\<lambda>_ p. Inr (''#'' @ p)),
     d_Verify = (\<lambda>_ h p. Inr (h = ''#'' @ p, False)), d_Validate = (\<lambda>p. length p \<ge> 4),
     d_Enabled = (\<lambda>i. i = ''idp''), d_Version = (\<lambda>_. ''v1''),
     d_Start = (\<lambda>_ i state verifier. Inr (''https://idp'' @ state, ''v1'')),
     d_VerifyIdentity = (\<lambda>_ i version code verifier. Inr \<lparr>vi_Namespace = ''ns'', vi_Subject = code, vi_Name = ''n''\<rparr>)\<rparr>"

definition quiet_service :: Service where
  "quiet_service = \<lparr>sv_env = quiet, sv_options = \<lparr>IdleTTL = 30 * minute, MaxTTL = 24 * hour, FrontendURL = ''https://web''\<rparr>,
     sv_deps = quiet_deps, sv_parse_url = (\<lambda>u. Some (u, False))\<rparr>"

lemma quiet_service_simps [simp]:
  "sv_env quiet_service = quiet" "sv_deps quiet_service = quiet_deps"
  "FrontendURL (sv_options quiet_service) = ''https://web''" "IdleTTL (sv_options quiet_service) = 30 * minute"
  "MaxTTL (sv_options quiet_service) = 24 * hour" "sv_parse_url quiet_service u = Some (u, False)"
  by (simp_all add: quiet_service_def)

lemma wired_quiet [simp]: "wired quiet_service"
  by (simp add: wired_def quiet_deps_def)

lemma quiet_relies: "rely (keeps accounts_ok) quiet" "rely account_evolves quiet"
  by (rule quiet_rely, rule kp.R_refl) (rule quiet_rely, rule account_evolves_refl)

lemma accounts_ok_empty: "accounts_ok empty_db"
  by (simp add: accounts_ok_def users_ok_def live_accounts_ok_def sessions_ok_def flows_ok_def verifications_ok_def
      audit_ok_def rates_ok_def mail_ok_def references_ok_def empty_db_def count_where_def)

definition bob_token :: string where
  "bob_token = fst (NewToken (e_sha256 quiet) (replicate 32 (CHR ''k'')) SessionPrefix)"

definition alice :: user_row where
  "alice = (new_user ''alice'' 0)\<lparr>u_Status := ''active'', u_Role := ''admin'', u_Email := Some ''a@x'',
     u_EmailNormalized := Some ''a@x'', u_EmailVerifiedAt := Some 0, u_RecoveryEnabled := True\<rparr>"

definition bob :: user_row where
  "bob = (new_user ''bob'' 0)\<lparr>u_Status := ''active''\<rparr>"

definition example_session :: "string \<Rightarrow> string \<Rightarrow> string \<Rightarrow> session_row" where
  "example_session i u h = \<lparr>s_ID = i, s_UserID = u, s_TokenHash = h, s_AuthMethod = ''password'',
     s_AuthSourceID = ''a1'', s_AuthenticatedAt = 0, s_AuthVersion = 1, s_CreatedAt = 0, s_LastSeenAt = 0,
     s_IdleExpiresAt = hour, s_AbsoluteExpiresAt = hour, s_RevokedAt = None\<rparr>"

definition example_account :: "string \<Rightarrow> string \<Rightarrow> string \<Rightarrow> string \<Rightarrow> string \<Rightarrow> string option \<Rightarrow> account_row" where
  "example_account i u provider subject namespace h = \<lparr>a_ID = i, a_UserID = u, a_ProviderID = provider,
     a_ProviderAccountID = subject, a_ProviderNamespace = namespace, a_PasswordHash = h, a_Version = 1,
     a_CreatedAt = 0, a_UpdatedAt = 0, a_LastUsedAt = None, a_RevokedAt = None\<rparr>"

text \<open>A proof, made with the password, that authorizes alice's session to unlink the external account.\<close>

definition example_proof :: flow_row where
  "example_proof = \<lparr>f_ID = ''f1'', f_Purpose = ''reauthenticate'', f_TokenHash = None, f_ProviderID = '''',
     f_ConfigVersion = '''', f_UserID = Some ''alice'', f_SessionID = Some ''s1'', f_AuthVersion = 1,
     f_AccountID = Some ''a1'', f_AccountVersion = 1, f_Operation = ''unlink_account'', f_Target = ''a2'',
     f_ReauthenticationID = None, f_ClaimedBy = None, f_StateHash = None, f_ProtocolState = None,
     f_VerifiedNamespace = '''', f_VerifiedSubject = '''', f_VerifiedName = '''', f_AuthenticatedAt = Some 0,
     f_Status = ''authorized'', f_CreatedAt = 0, f_ExpiresAt = 5 * minute\<rparr>"

definition example_db :: db where
  "example_db = empty_db\<lparr>users := [alice, bob],
     accounts := [example_account ''a1'' ''alice'' ''credential'' ''alice'' ''local'' (Some ''#pass''),
                  example_account ''a2'' ''alice'' ''idp'' ''ext'' ''ns'' None],
     user_sessions := [example_session ''s1'' ''alice'' (replicate 32 (CHR ''x'')),
                       example_session ''s2'' ''bob'' (e_sha256 quiet bob_token)],
     auth_flows := [example_proof]\<rparr>"

definition alice_request :: Request where
  "alice_request = \<lparr>UserID = ''alice'', rq_SessionID = ''s1'', RequestID = ''q'', ClientIP = ''ip''\<rparr>"

lemma bob_token_digest: "TokenDigest (e_sha256 quiet) bob_token SessionPrefix = Inr (e_sha256 quiet bob_token)"
  using TokenDigest_NewToken [of "replicate 32 (CHR ''k'')" "e_sha256 quiet" SessionPrefix]
  by (simp add: bob_token_def tokenEntropyBytes_def NewToken_def Digest_def Let_def)

lemma bob_token_hash: "length (e_sha256 quiet bob_token) = 32" "e_sha256 quiet bob_token \<noteq> replicate 32 (CHR ''x'')"
proof -
  have "bob_token = ''tk_'' @ EncodeToString (replicate 32 (CHR ''k''))"
    by (simp add: bob_token_def NewToken_def Let_def SessionPrefix_def)
  also have "\<dots> = ''tk_a2tra2tra2tra2tra2tra2tra2tra2tra2tra2tra2s''"
    by code_simp
  finally have e: "bob_token = ''tk_a2tra2tra2tra2tra2tra2tra2tra2tra2tra2tra2s''" .
  have "hd (rev bob_token) = CHR ''s''" unfolding e by code_simp
  moreover have "bob_token \<noteq> []" by (simp add: bob_token_def NewToken_def Let_def SessionPrefix_def)
  ultimately have "hd (e_sha256 quiet bob_token) = CHR ''s''" by (simp add: hd_append hd_take)
  moreover have "hd (replicate 32 (CHR ''x'')) \<noteq> CHR ''s''" by (simp add: numeral_eq_Suc)
  ultimately show "e_sha256 quiet bob_token \<noteq> replicate 32 (CHR ''x'')" by metis
qed simp

lemma example_sessions:
  "user_sessions example_db = [example_session ''s1'' ''alice'' (replicate 32 (CHR ''x'')),
     example_session ''s2'' ''bob'' (e_sha256 quiet bob_token)]"
  "users example_db = [alice, bob]"
  by (simp_all add: example_db_def)

lemma bob_live:
  "t < hour \<Longrightarrow> session_valid t example_db (example_session ''s2'' ''bob'' (e_sha256 quiet bob_token))"
  by (simp add: session_valid_def live_session_def example_session_def example_sessions bob_def alice_def new_user_def)

lemma example_ok: "accounts_ok example_db"
  using bob_token_hash
  by (auto simp: accounts_ok_def users_ok_def live_accounts_ok_def sessions_ok_def flows_ok_def verifications_ok_def
      audit_ok_def rates_ok_def mail_ok_def references_ok_def empty_db_def user_row_simps new_user_def
      sha256_Size_def count_where_def example_db_def alice_def bob_def example_session_def example_account_def
      example_proof_def account_row_ok_def provider_defs flow_row_ok_def FlowStatus_Valid_def flow_status_defs
      FlowPurpose_Valid_def flow_purpose_defs simp del: quiet_simps(7))

end
