(* ===== verification/Account_Steps.thy ===== *)
theory Account_Steps
  imports Account_Federation
begin

text \<open>
  What the shared steps of the account operations did when they succeeded inside a transaction,
  where the clock stands still and nobody else writes: one lemma per step, with the rows it found
  and the tables it left alone.
\<close>

text \<open>The tables that authentication depends on.\<close>

definition auth_tables :: "db \<Rightarrow> user_row list \<times> account_row list \<times> session_row list \<times> flow_row list \<times> verification_row list" where
  "auth_tables d = (users d, accounts d, user_sessions d, auth_flows d, auth_verifications d)"

lemma auth_tables_eq [simp]:
  "auth_tables d' = auth_tables d \<longleftrightarrow> users d' = users d \<and> accounts d' = accounts d
     \<and> user_sessions d' = user_sessions d \<and> auth_flows d' = auth_flows d
     \<and> auth_verifications d' = auth_verifications d"
  by (auto simp: auth_tables_def)

lemma audit_step:
  "audit cx (Tx t) r event w = (Inr a, w') \<Longrightarrow>
     auth_tables (w_db w') = auth_tables (w_db w) \<and> mail_outbox (w_db w') = mail_outbox (w_db w)
     \<and> (\<exists>e. audit_events (w_db w') = audit_events (w_db w) @ [e] \<and> au_Action e = ev_Action event
          \<and> au_Outcome e = ev_Outcome event \<and> au_ResourceID e = optional (ev_ResourceID event)
          \<and> au_ActorID e = optional (UserID r))"
  by (auto simp: audit_def store_AppendAudit_def ok_iff AppendAudit_def audit_params_def optional_def split: if_splits)

lemma EnqueueMail_auth [simp]:
  "auth_tables (snd (EnqueueMail p t d)) = auth_tables d" "audit_events (snd (EnqueueMail p t d)) = audit_events d"
  by (auto simp: EnqueueMail_def auth_tables_def)

lemma notify_step:
  "enqueueSecurityNotification cx (Tx t) user body w = (Inr a, w') \<Longrightarrow>
     auth_tables (w_db w') = auth_tables (w_db w) \<and> audit_events (w_db w') = audit_events (w_db w)"
  using EnqueueMail_auth unfolding auth_tables_eq
  by (auto simp: enqueueSecurityNotification_def store_EnqueueMail_def ok_iff split: option.splits)

lemma verification_mail_step:
  "enqueueVerificationMail s (Tx t) v token w = (Inr a, w') \<Longrightarrow>
     auth_tables (w_db w') = auth_tables (w_db w) \<and> audit_events (w_db w') = audit_events (w_db w)"
  using EnqueueMail_auth unfolding auth_tables_eq
  by (auto simp: enqueueVerificationMail_def store_EnqueueMail_def ok_iff split: option.splits)

lemma requireSubject_ok [ok_iff]:
  "requireSubject u i w = (Inr a, w') \<longleftrightarrow> Identifier u \<and> Identifier i \<and> w' = w"
  by (auto simp: requireSubject_def ok_iff)

lemma lockSelf_step:
  "lockSelf cx (Tx t) r w = (Inr (u, x), w') \<Longrightarrow>
     w_db w' = w_db w \<and> u \<in> set (users (w_db w)) \<and> u_ID u = UserID r
     \<and> x \<in> set (user_sessions (w_db w)) \<and> s_ID x = rq_SessionID r \<and> s_UserID x = UserID r
     \<and> session_valid t (w_db w) x \<and> find (\<lambda>v. u_ID v = UserID r) (users (w_db w)) = Some u"
  by (auto simp: lockSelf_def ok_iff LockUser_def GetValidSession_def dest: find_Some_ex)

lemma readSelf_step:
  "readSelf cx (Tx t) r w = (Inr (u, x), w') \<Longrightarrow>
     w_db w' = w_db w \<and> u \<in> set (users (w_db w)) \<and> u_ID u = UserID r
     \<and> x \<in> set (user_sessions (w_db w)) \<and> s_ID x = rq_SessionID r \<and> s_UserID x = UserID r
     \<and> session_valid t (w_db w) x \<and> find (\<lambda>v. u_ID v = UserID r) (users (w_db w)) = Some u"
  by (auto simp: readSelf_def ok_iff GetUser_def GetValidSession_def dest: find_Some_ex)

lemma invalidate_step:
  "invalidate cx (Tx t) u w = (Inr a, w') \<Longrightarrow>
     w_db w' = snd (RevokeUserSessions u t (snd (BumpUserVersion u t (w_db w))))"
  by (auto simp: invalidate_def store_BumpUserVersion_def store_RevokeUserSessions_def ok_iff)

lemma transition_count:
  "transitionResult (query cx (Tx t) f) w = (Inr a, w') \<Longrightarrow> fst (f t (w_db w)) = Inr 1 \<and> w_db w' = snd (f t (w_db w))"
  by (auto simp: ok_iff)

lemma finishAuthorization_step:
  "finishAuthorization cx (Tx t) p w = (Inr a, w') \<Longrightarrow>
     f_Status p \<in> {FlowProcessing, FlowVerified, FlowAuthorized, FlowClaimed}
     \<and> fst (FinishFlow (f_ID p) (f_Status p) t (w_db w)) = Inr 1
     \<and> w_db w' = snd (FinishFlow (f_ID p) (f_Status p) t (w_db w))"
  by (auto simp: finishAuthorization_def consumeFlow_def ok_iff split: if_splits)

text \<open>
  What a proof is worth: it belongs to this user and session, authorizes exactly this operation on
  this target, is unspent (or claimed by this very claimant), the account and the user it was made
  with have not changed since, and the session is still valid.
\<close>

definition proof_valid ::
  "Service \<Rightarrow> time \<Rightarrow> db \<Rightarrow> Request \<Rightarrow> string \<Rightarrow> string \<Rightarrow> string \<Rightarrow> string option \<Rightarrow> flow_row \<Rightarrow> bool" where
  "proof_valid s t d r i operation target claim p \<longleftrightarrow>
     p \<in> set (auth_flows d) \<and> f_ID p = i \<and> f_ExpiresAt p > t \<and> proof_matches p r operation target claim
     \<and> (\<exists>u \<in> set (users d). u_ID u = UserID r \<and> u_Status u = UserActive \<and> u_AuthVersion u = f_AuthVersion p)
     \<and> (\<exists>a \<in> set (accounts d). f_AccountID p = Some (a_ID a) \<and> a_UserID a = UserID r \<and> a_RevokedAt a = None
          \<and> a_Version a = f_AccountVersion p \<and> accountEnabled s a)
     \<and> (\<exists>x \<in> set (user_sessions d). s_ID x = rq_SessionID r \<and> s_UserID x = UserID r \<and> session_valid t d x)"

lemma authorization_step:
  assumes "authorization s (Tx t) r i operation target claim w = (Inr p, w')"
  shows "w_db w' = w_db w \<and> proof_valid s t (w_db w) r i operation target claim p"
proof -
  let ?d = "w_db w"
  obtain w1 u w2 a w3 x where
    g: "find (\<lambda>f. f_ID f = i \<and> f_ExpiresAt f > t) (auth_flows ?d) = Some p" and m: "proof_matches p r operation target claim"
    and u: "find (\<lambda>u. u_ID u = the (f_UserID p)) (users ?d) = Some u"
    and uv: "u_Status u = UserActive" "u_AuthVersion u = f_AuthVersion p"
    and a: "find (\<lambda>a. a_ID a = the (f_AccountID p) \<and> a_UserID a = u_ID u \<and> a_RevokedAt a = None) (accounts ?d) = Some a"
    and av: "a_Version a = f_AccountVersion p" "accountEnabled s a"
    and x: "find (\<lambda>x. s_ID x = the (f_SessionID p) \<and> s_UserID x = u_ID u \<and> session_valid t ?d x) (user_sessions ?d) = Some x"
    and w': "w_db w' = ?d"
    using assms by (auto simp: authorization_def Let_def ok_iff GetFlow_def GetUser_def GetAccount_def GetValidSession_def)
  note found = find_Some_ex [OF g] find_Some_ex [OF u] find_Some_ex [OF a] find_Some_ex [OF x]
  have id: "f_UserID p = Some (UserID r)" "f_SessionID p = Some (rq_SessionID r)" "f_AccountID p \<noteq> None"
    using m by (auto simp: proof_matches_def)
  show ?thesis unfolding proof_valid_def
    using found id m uv av w' by (intro conjI bexI [of _ u] bexI [of _ a] bexI [of _ x]) auto
qed

text \<open>The session that \<^verbatim>\<open>newSession\<close> opens, and the credentials that name it.\<close>

definition session_opened ::
  "Service \<Rightarrow> time \<Rightarrow> user_row \<Rightarrow> account_row \<Rightarrow> string \<Rightarrow> string \<Rightarrow> SessionCredentials \<Rightarrow> session_row \<Rightarrow> bool" where
  "session_opened s t user account method rb cred x \<longleftrightarrow>
     sc_Token cred = fst (NewToken (e_sha256 (sv_env s)) rb SessionPrefix)
     \<and> s_TokenHash x = snd (NewToken (e_sha256 (sv_env s)) rb SessionPrefix)
     \<and> s_ID x = sc_ID cred \<and> s_UserID x = u_ID user \<and> s_AuthVersion x = u_AuthVersion user
     \<and> s_AuthMethod x = method \<and> s_AuthSourceID x = a_ID account \<and> s_RevokedAt x = None
     \<and> s_IdleExpiresAt x = t + Seconds (IdleTTL (sv_options s)) * second
     \<and> s_AbsoluteExpiresAt x = t + Seconds (MaxTTL (sv_options s)) * second
     \<and> sc_IdleExpiresAt cred = s_IdleExpiresAt x \<and> sc_AbsoluteExpiresAt cred = s_AbsoluteExpiresAt x"

text \<open>What of an account a login depends on; using it for a login changes none of that.\<close>

definition account_standing :: "account_row \<Rightarrow> string \<times> string \<times> string \<times> int \<times> time option" where
  "account_standing a = (a_ID a, a_UserID a, a_ProviderID a, a_Version a, a_RevokedAt a)"

lemma update_account_standing:
  assumes "\<And>a. account_standing (f a) = account_standing a"
  shows "map account_standing (accounts (snd (update_account p f d))) = map account_standing (accounts d)"
  using assms by (simp add: update_account_def update_where_def comp_def)

lemma newSession_step:
  assumes "newSession s (Tx t) r user account method w = (Inr cred, w')"
  shows "\<exists>x. session_opened s t user account method (e_rand (sv_env s) (w_seed w)) cred x
    \<and> user_sessions (w_db w') = user_sessions (w_db w) @ [x]
    \<and> users (w_db w') = users (w_db w) \<and> auth_flows (w_db w') = auth_flows (w_db w)
    \<and> map account_standing (accounts (w_db w')) = map account_standing (accounts (w_db w))
    \<and> u_Status user = UserActive \<and> a_UserID account = u_ID user \<and> a_RevokedAt account = None"
proof -
  let ?cx = "sv_env s" and ?rb = "e_rand (sv_env s) (w_seed w)"
  let ?tok = "NewToken (e_sha256 (sv_env s)) ?rb SessionPrefix"
  let ?p = "\<lparr>cs_UserID = u_ID user, cs_TokenHash = snd ?tok, cs_AuthMethod = method, cs_AuthSourceID = a_ID account,
     cs_AuthVersion = u_AuthVersion user, cs_IdleSeconds = Seconds (IdleTTL (sv_options s)),
     cs_MaxSeconds = Seconds (MaxTTL (sv_options s))\<rparr>"
  obtain x w1 w2 w3 r' e where ok: "u_Status user = UserActive" "a_UserID account = u_ID user" "a_RevokedAt account = None"
    and c: "store_CreateSession ?cx (Tx t) ?p w1 = (Inr x, w2)" and w1: "w_db w1 = w_db w"
    and ta: "store_TouchAccount ?cx (Tx t) (a_ID account) (u_ID user) w2 = (Inr (), w3)"
    and au: "audit ?cx (Tx t) r' e w3 = (Inr (), w')"
    and cred: "cred = \<lparr>sc_Token = fst ?tok, sc_ID = s_ID x, sc_IdleExpiresAt = s_IdleExpiresAt x,
           sc_AbsoluteExpiresAt = s_AbsoluteExpiresAt x\<rparr>"
    using assms unfolding newSession_def Let_def new_token_def
    by (auto simp: bindA_ok require_ok ret_ok randomBytes_ok split: prod.splits)
  obtain i where i: "fst (CreateSession i ?p t (w_db w1)) = Inr x" and d2: "w_db w2 = snd (CreateSession i ?p t (w_db w1))"
    using c by (auto simp: store_CreateSession_def ok_iff)
  have "user_sessions (w_db w') = user_sessions (w_db w) @ [x]" "users (w_db w') = users (w_db w)"
    "auth_flows (w_db w') = auth_flows (w_db w)"
    using audit_step [OF au] ta d2 i w1
    by (auto simp: store_TouchAccount_def ok_iff TouchAccount_def update_account_def CreateSession_snd)
  moreover have "map account_standing (accounts (w_db w')) = map account_standing (accounts (w_db w))"
    using audit_step [OF au] ta d2 i w1
    by (auto simp: store_TouchAccount_def ok_iff TouchAccount_def update_account_def CreateSession_snd account_standing_def
        update_where_def)
  moreover have "session_opened s t user account method ?rb cred x"
    using CreateSession_fst [OF i] by (simp add: session_opened_def created_session_def cred)
  ultimately show ?thesis using ok by blast
qed

end
