(* ===== verification/Account_Sessions.thy ===== *)
theory Account_Sessions
  imports Account_Examples Account_Steps
begin

text \<open>
  What sessions guarantee: the invariant and the evolution of the account tables under every
  operation of the service, exactly which tokens authenticate, and that a revocation is final.
\<close>

lemma wired_keeps: "rely (keeps accounts_ok) (sv_env s) \<Longrightarrow> wired s \<Longrightarrow> guarantees (keeps accounts_ok) (run_call s c)"
  by (rule ai.g_run_call) (simp_all add: wired_def ai.g_RequireAdmin)

lemma wired_evolves: "rely account_evolves (sv_env s) \<Longrightarrow> wired s \<Longrightarrow> guarantees account_evolves (run_call s c)"
  by (rule ae.g_run_call) (simp_all add: wired_def ae.g_RequireAdmin)

text \<open>Both at once: the tables move forward and stay well formed.\<close>

definition account_moves :: "db \<Rightarrow> db \<Rightarrow> bool" where
  "account_moves d d' \<longleftrightarrow> account_evolves d d' \<and> keeps accounts_ok d d'"

lemma account_moves_both:
  "stmt_guarantees account_moves f \<longleftrightarrow> stmt_guarantees account_evolves f \<and> stmt_guarantees (keeps accounts_ok) f"
  "rely account_moves cx \<longleftrightarrow> rely account_evolves cx \<and> rely (keeps accounts_ok) cx"
  by (auto simp: stmt_guarantees_def rely_def account_moves_def)

interpretation am: account_guarantee account_moves
  by unfold_locales
    (auto simp: account_moves_both account_moves_def account_evolves_refl
      intro: account_evolves_trans kp.R_refl kp.R_trans ae.writes ai.writes)

text \<open>
  C2.  Every operation of the account service keeps the tables well formed: unique identifiers,
  e-mail addresses and token digests, at most one live account per external identity and one password
  per user, references to existing users, idle deadlines within absolute ones, finished flows without
  protocol material.  This holds whatever statement or commit fails (also when the server had applied
  it) and whatever other sessions commit in between, as long as they keep it.
\<close>

theorem account_invariant:
  assumes "rely (keeps accounts_ok) (sv_env s)" and "wired s"
  shows "guarantees (keeps accounts_ok) (run_call s c)"
  using assms by (rule wired_keeps)

theorem account_invariant_witness:
  "accounts_ok (w_db (snd (run_call quiet_service
     (Register_call \<lparr>UserID = '''', rq_SessionID = '''', RequestID = ''q'', ClientIP = ''ip''\<rparr> ''a@b'') (start empty_db))))"
  using account_invariant [of quiet_service, unfolded quiet_service_simps, OF quiet_relies(1) wired_quiet] accounts_ok_empty
  unfolding guarantees_def keeps_def start_def by (metis (no_types, lifting) world.select_convs(1))

text \<open>
  Every operation of the account service only moves forward: no row is deleted; identities,
  owners, token digests, absolute deadlines and roles never change; authentication and account
  versions never decrease; revoked sessions and accounts, consumed challenges and finished flows stay
  so; the audit log is only appended to.
\<close>

theorem account_evolution:
  assumes "rely account_evolves (sv_env s)" and "wired s"
  shows "guarantees account_evolves (run_call s c)"
  using assms by (rule wired_evolves)

theorem account_evolution_witness:
  "account_evolves empty_db (w_db (snd (run_call quiet_service
     (Register_call \<lparr>UserID = '''', rq_SessionID = '''', RequestID = ''q'', ClientIP = ''ip''\<rparr> ''a@b'') (start empty_db))))"
  using account_evolution [of quiet_service, unfolded quiet_service_simps, OF quiet_relies(2) wired_quiet]
  unfolding guarantees_def start_def by (metis (no_types, lifting) world.select_convs(1))

subsection \<open>Authentication\<close>

lemma find_unique_Some:
  assumes "distinct (map k xs)" and "x \<in> set xs" and "p x" and "\<And>y. p y \<Longrightarrow> k y = k x"
  shows "find p xs = Some x"
proof (rule find_Some_unique [of k])
  show "inj_on k (set xs)" using assms(1) by (simp add: distinct_map)
qed (rule assms | assumption)+

lemma AuthenticateSession_ok:
  assumes "AuthenticateSession s token w = (Inr (u, sid), w')"
  shows "TokenDigest (e_sha256 (sv_env s)) token SessionPrefix = Inr (e_sha256 (sv_env s) token)
    \<and> (\<exists>x. find (\<lambda>x. s_TokenHash x = e_sha256 (sv_env s) token
             \<and> session_valid (e_clock (sv_env s) (w_step w)) (seen (sv_env s) w) x) (user_sessions (seen (sv_env s) w)) = Some x
         \<and> s_ID x = sid \<and> s_UserID x = u)"
proof -
  let ?cx = "sv_env s"
  obtain hash x w1 where t: "TokenDigest (e_sha256 ?cx) token SessionPrefix = Inr hash"
    and q: "query ?cx Pool (FindSession hash) w = (Inr x, w1)" and x: "s_ID x = sid" "s_UserID x = u"
    using assms unfolding AuthenticateSession_def Let_def bindA_ok on_error_ok from_sum_ok ret_ok by blast
  have "hash = e_sha256 ?cx token" using TokenDigest_ok [OF t] by simp
  with t q x show ?thesis by (simp add: query_pool_ok FindSession_def seen_def)
qed

lemma AuthenticateSession_live:
  assumes "accounts_ok (seen (sv_env s) w)" and "\<And>n. e_fault (sv_env s) n = None"
    and "TokenDigest (e_sha256 (sv_env s)) token SessionPrefix = Inr (e_sha256 (sv_env s) token)"
    and "x \<in> set (user_sessions (seen (sv_env s) w))" and "s_TokenHash x = e_sha256 (sv_env s) token"
    and "session_valid (e_clock (sv_env s) (w_step w)) (seen (sv_env s) w) x"
  shows "\<exists>w'. AuthenticateSession s token w = (Inr (s_UserID x, s_ID x), w')"
proof -
  let ?cx = "sv_env s" and ?d = "seen (sv_env s) w"
  let ?p = "\<lambda>x. s_TokenHash x = e_sha256 ?cx token \<and> session_valid (e_clock ?cx (w_step w)) ?d x"
  have "distinct (map s_TokenHash (user_sessions ?d))"
    using accounts_ok_tables(3) [OF assms(1)] by (simp add: sessions_ok_def)
  then have "find ?p (user_sessions ?d) = Some x"
    by (rule find_unique_Some) (use assms in auto)
  then have q: "query ?cx Pool (FindSession (e_sha256 ?cx token)) w = (Inr x, w\<lparr>w_step := Suc (w_step w), w_db := ?d\<rparr>)"
    by (simp add: query_pool_ok FindSession_def seen_def assms(2))
  have touch: "\<exists>w'. store_TouchSession ?cx Pool i v idle renewal w1 = (Inr (), w')" for i v idle renewal w1
    by (simp add: store_TouchSession_def query_pool_ok TouchSession_def assms(2))
  show ?thesis
    unfolding AuthenticateSession_def Let_def bindA_ok on_error_ok from_sum_ok ret_ok time_Now_ok
    using assms(3) q touch by (auto simp: ret_def)
qed

text \<open>
  C4.  Exactly the live tokens authenticate: when no statement fails, a token is accepted for a user
  and session if and only if it is a well-formed session token whose digest is stored with that
  session, and the session is unrevoked, within its idle and absolute deadlines, and its user is
  active and still at the version the session was opened with.
\<close>

theorem authenticate_iff:
  assumes "accounts_ok (seen (sv_env s) w)" and "\<And>n. e_fault (sv_env s) n = None"
  shows "(\<exists>w'. AuthenticateSession s token w = (Inr (u, sid), w')) \<longleftrightarrow>
    TokenDigest (e_sha256 (sv_env s)) token SessionPrefix = Inr (e_sha256 (sv_env s) token)
    \<and> (\<exists>x \<in> set (user_sessions (seen (sv_env s) w)).
         s_ID x = sid \<and> s_UserID x = u \<and> s_TokenHash x = e_sha256 (sv_env s) token
         \<and> session_valid (e_clock (sv_env s) (w_step w)) (seen (sv_env s) w) x)"
    (is "?L \<longleftrightarrow> ?R")
proof
  assume ?L
  then obtain w' where "AuthenticateSession s token w = (Inr (u, sid), w')" ..
  from AuthenticateSession_ok [OF this] show ?R by (blast dest: find_Some_ex)
next
  assume ?R
  then show ?L using AuthenticateSession_live [OF assms] by metis
qed

theorem authenticate_iff_witness:
  "\<exists>w'. AuthenticateSession quiet_service bob_token (start example_db) = (Inr (''bob'', ''s2''), w')"
proof -
  have ok: "accounts_ok (seen (sv_env quiet_service) (start example_db))"
    using example_ok by (simp add: seen_def start_def)
  have fault: "\<And>n. e_fault (sv_env quiet_service) n = None" by simp
  show ?thesis
    unfolding authenticate_iff [OF ok fault, of bob_token "''bob''" "''s2''"]
    using bob_token_digest bob_live by (simp add: seen_def start_def example_sessions example_session_def hour_def del: quiet_simps(7))
qed

subsection \<open>Revocation\<close>

definition all_revoked :: "string \<Rightarrow> db \<Rightarrow> bool" where
  "all_revoked u d \<longleftrightarrow> (\<forall>x \<in> set (user_sessions d). s_UserID x = u \<longrightarrow> s_RevokedAt x \<noteq> None)"

lemma RevokeUserSessions_all: "all_revoked u (snd (RevokeUserSessions u t d))"
  unfolding all_revoked_def
proof (intro ballI impI)
  fix x
  assume x: "x \<in> set (user_sessions (snd (RevokeUserSessions u t d)))" "s_UserID x = u"
  then have "x \<in> (\<lambda>z. if s_UserID z = u \<and> s_RevokedAt z = None then z\<lparr>s_RevokedAt := Some t\<rparr> else z) ` set (user_sessions d)"
    by (simp add: RevokeUserSessions_def set_update_where del: if_image_distrib)
  then obtain z where "x = (if s_UserID z = u \<and> s_RevokedAt z = None then z\<lparr>s_RevokedAt := Some t\<rparr> else z)"
    by (rule imageE)
  with x(2) show "s_RevokedAt x \<noteq> None" by (cases "s_UserID z = u \<and> s_RevokedAt z = None") auto
qed

lemma revoked_by [intro]: "user_sessions d' = user_sessions (snd (RevokeUserSessions u t d)) \<Longrightarrow> all_revoked u d'"
  using RevokeUserSessions_all [of u t d] by (simp add: all_revoked_def)

lemma all_revoked_db [intro]: "all_revoked u d \<Longrightarrow> d' = d \<Longrightarrow> all_revoked u d'"
  by simp

text \<open>The calls that end every session of a user, with that user.\<close>

fun revokes_all :: "account_call \<Rightarrow> string option" where
  "revokes_all (RevokeSession_call r i all) = (if all then Some (UserID r) else None)"
| "revokes_all (SetPassword_call r current new reauth) = Some (UserID r)"
| "revokes_all (Unlink_call r i reauth) = Some (UserID r)"
| "revokes_all (SetStatus_call r i status) = Some i"
| "revokes_all (RevokeUserSessions_call r i) = Some i"
| "revokes_all c = None"

lemma in_tx_ok:
  "in_tx s body w = (Inr a, w') \<Longrightarrow>
     \<exists>w1 w2. w_db w1 = seen (sv_env s) w \<and> body (Tx (e_clock (sv_env s) (w_step w))) w1 = (Inr a, w2) \<and> w_db w' = w_db w2"
proof -
  let ?cx = "sv_env s"
  let ?w1 = "w\<lparr>w_step := Suc (w_step w), w_db := seen ?cx w\<rparr>"
  assume "in_tx s body w = (Inr a, w')"
  then obtain w2 where "body (Tx (e_clock ?cx (w_step w))) ?w1 = (Inr a, w2)" "w_db w' = w_db w2"
    by (auto simp: in_tx_def WithTransaction_ok seen_def)
  then show ?thesis by (intro exI [of _ ?w1] exI [of _ w2]) simp
qed

lemma password_tx_revokes:
  "password_tx s r before acc reauth h (Tx t) w = (Inr a, w') \<Longrightarrow> all_revoked (UserID r) (w_db w')"
  unfolding password_tx_def Let_def
  by (auto simp: bindA_ok require_ok dest!: lockSelf_step audit_step notify_step invalidate_step)

lemma unlink_tx_revokes:
  "unlink_tx s r i reauth (Tx t) w = (Inr a, w') \<Longrightarrow> all_revoked (UserID r) (w_db w')"
  unfolding unlink_tx_def Let_def
  by (auto simp: bindA_ok require_ok dest!: lockSelf_step audit_step notify_step invalidate_step)

text \<open>The end of such a transaction: nothing after the revocation touches the sessions.\<close>

lemma revoked_then_audit:
  "user_sessions (w_db w) = user_sessions (snd (RevokeUserSessions u t d)) \<Longrightarrow>
     audit cx (Tx t') r event w = (Inr a, w') \<Longrightarrow> all_revoked u (w_db w')"
  using audit_step [of cx t' r event w a w'] revoked_by [of "w_db w'"] by simp

lemma RevokeSession_revokes:
  assumes "Service_RevokeSession s r i True w = (Inr a, w')"
  shows "all_revoked (UserID r) (w_db w')"
proof -
  let ?cx = "sv_env s" and ?t = "e_clock (sv_env s) (w_step w)"
  obtain w1 u x w2 w3 e w4 where "lockSelf ?cx (Tx ?t) r w1 = (Inr (u, x), w2)"
    "invalidate ?cx (Tx ?t) (u_ID u) w2 = (Inr (), w3)" "audit ?cx (Tx ?t) r e w3 = (Inr a, w4)" "w_db w' = w_db w4"
    using assms unfolding Service_RevokeSession_def Let_def
    by (auto simp: bindA_ok require_ok dest!: in_tx_ok)
  then show ?thesis using lockSelf_step invalidate_step revoked_then_audit by metis
qed

lemma SetStatus_revokes:
  assumes "SetStatus s r i status w = (Inr x, w')"
  shows "all_revoked i (w_db w')"
proof -
  let ?cx = "sv_env s"
  obtain t w1 w2 e w3 where "store_RevokeUserSessions ?cx (Tx t) i w1 = (Inr (), w2)"
    "audit ?cx (Tx t) r e w2 = (Inr (), w3)" "w_db w' = w_db w3"
    using assms unfolding SetStatus_def Let_def recordFailureOnReturn_ok
    by (auto simp: bindA_ok require_ok ret_ok dest!: in_tx_ok)
  then show ?thesis
    using revoked_then_audit [of w2 i t "w_db w1" ?cx t r e "()" w3]
    by (simp add: store_RevokeUserSessions_def query_tx_ok)
qed

lemma RevokeUserSessions_revokes:
  assumes "Service_RevokeUserSessions s r i w = (Inr a, w')"
  shows "all_revoked i (w_db w')"
proof -
  let ?cx = "sv_env s"
  obtain t w1 w2 e w3 where "invalidate ?cx (Tx t) i w1 = (Inr (), w2)"
    "audit ?cx (Tx t) r e w2 = (Inr a, w3)" "w_db w' = w_db w3"
    using assms unfolding Service_RevokeUserSessions_def Let_def recordFailureOnReturn_ok
    by (auto simp: bindA_ok require_ok ret_ok dest!: in_tx_ok)
  then show ?thesis using invalidate_step revoked_then_audit by metis
qed

lemma discard_ok [ok_iff]: "discard m w = (Inr a, w') \<longleftrightarrow> (\<exists>b. m w = (Inr b, w'))"
  by (auto simp: discard_def ok_iff)

lemma SetPassword_revokes:
  assumes "SetPassword s r current new reauth w = (Inr a, w')"
  shows "all_revoked (UserID r) (w_db w')"
proof -
  obtain before acc h w1 where "in_tx s (password_tx s r before acc reauth h) w1 = (Inr a, w')"
    using assms unfolding SetPassword_def Let_def recordFailureOnReturn_ok by (auto simp: bindA_ok)
  then show ?thesis by (auto dest!: in_tx_ok password_tx_revokes)
qed

lemma Unlink_revokes: "Unlink s r i reauth w = (Inr a, w') \<Longrightarrow> all_revoked (UserID r) (w_db w')"
  unfolding Unlink_def recordFailureOnReturn_ok by (auto simp: bindA_ok dest!: in_tx_ok unlink_tx_revokes)

lemma run_call_revokes:
  assumes "revokes_all c = Some u" and "run_call s c w = (Inr a, w')"
  shows "all_revoked u (w_db w')"
  using assms
  by (cases c) (auto simp: discard_ok split: if_splits dest: RevokeSession_revokes SetStatus_revokes
      RevokeUserSessions_revokes SetPassword_revokes Unlink_revokes)

text \<open>A revoked session stays revoked however the tables evolve.\<close>

lemma revoked_forever:
  assumes "account_evolves d d'" and "sessions_ok (user_sessions d')" and "all_revoked u d"
    and "x \<in> set (user_sessions d)" and "s_UserID x = u" and "y \<in> set (user_sessions d')" and "s_ID y = s_ID x"
  shows "s_RevokedAt y \<noteq> None"
proof -
  obtain z where z: "z \<in> set (user_sessions d')" "session_le x z"
    using grows_set assms(1,4) unfolding account_evolves_def by metis
  then have "s_ID z = s_ID y" using assms(7) by (simp add: session_le_def)
  moreover have "inj_on s_ID (set (user_sessions d'))" using assms(2) by (simp add: sessions_ok_def distinct_map)
  ultimately have "z = y" using z(1) assms(6) by (meson inj_onD)
  with z(2) assms(3-5) show ?thesis by (auto simp: session_le_def all_revoked_def)
qed

text \<open>Any number of calls, by anybody.\<close>

inductive account_run :: "Service \<Rightarrow> world \<Rightarrow> world \<Rightarrow> bool" for s where
  run_refl: "account_run s w w"
| run_call: "account_run s w w1 \<Longrightarrow> account_run s w (snd (run_call s c w1))"

lemma account_run_R:
  assumes "account_run s w w'" and "\<And>c. guarantees R (run_call s c)" and "\<And>d. R d d"
    and "\<And>a b c. R a b \<Longrightarrow> R b c \<Longrightarrow> R a c"
  shows "R (w_db w) (w_db w')"
  using assms by (induction rule: account_run.induct) (auto simp: guarantees_def)

lemma account_run_moves:
  assumes "account_run s w w'" and "wired s" and "rely account_moves (sv_env s)"
  shows "account_moves (w_db w) (w_db w')"
proof (rule account_run_R [OF assms(1), where R = account_moves])
  show "guarantees account_moves (run_call s c)" for c
    using assms(2,3) by (intro am.g_run_call) (simp_all add: wired_def am.g_RequireAdmin)
qed (rule am.R_refl, erule am.R_trans, assumption)
text \<open>
  C3.  Revocation is final: once a password change, an unlink, a sign-out everywhere, a status
  change or an administrator's revocation has succeeded for a user, no session that the user had at
  that moment is ever accepted again, whatever calls follow, whoever makes them and whatever fails.
\<close>

theorem revocation_final:
  assumes inv: "accounts_ok (w_db w)" and "wired s"
    and rely: "rely (keeps accounts_ok) (sv_env s)" "rely account_evolves (sv_env s)"
    and revoke: "run_call s c w = (Inr (), w1)" "revokes_all c = Some u"
    and later: "account_run s w1 w2" "AuthenticateSession s token w2 = (Inr (v, sid), w3)"
  shows "\<not> (\<exists>x \<in> set (user_sessions (w_db w1)). s_ID x = sid \<and> s_UserID x = u)"
proof
  assume "\<exists>x \<in> set (user_sessions (w_db w1)). s_ID x = sid \<and> s_UserID x = u"
  then obtain x where x: "x \<in> set (user_sessions (w_db w1))" "s_ID x = sid" "s_UserID x = u" by blast
  let ?d = "seen (sv_env s) w2"
  have g: "guarantees (keeps accounts_ok) (run_call s c)" "guarantees account_evolves (run_call s c)" for c
    using wired_keeps [OF rely(1) assms(2)] wired_evolves [OF rely(2) assms(2)] by blast+
  have ok1: "accounts_ok (w_db w1)"
    using g(1) inv revoke(1) unfolding guarantees_def keeps_def by (metis snd_conv)
  have ok2: "keeps accounts_ok (w_db w1) (w_db w2)" and ev2: "account_evolves (w_db w1) (w_db w2)"
    by (rule account_run_R [OF later(1) g(1) kp.R_refl kp.R_trans], assumption+)
      (rule account_run_R [OF later(1) g(2) account_evolves_refl account_evolves_trans])
  have ok: "accounts_ok ?d" using ok1 ok2 rely(1) by (simp add: keeps_def rely_def seen_def)
  have ev: "account_evolves (w_db w1) ?d"
    using ev2 rely(2) account_evolves_trans by (auto simp: rely_def seen_def)
  obtain y where y: "y \<in> set (user_sessions ?d)" "s_ID y = sid" "session_valid (e_clock (sv_env s) (w_step w2)) ?d y"
    using AuthenticateSession_ok [OF later(2)] by (auto dest: find_Some_ex)
  have "s_RevokedAt y \<noteq> None"
    using revoked_forever [OF ev accounts_ok_tables(3) [OF ok] run_call_revokes [OF revoke(2,1)] x(1) x(3) y(1)]
      x(2) y(2) by simp
  with y(3) show False by (simp add: session_valid_def live_session_def)
qed

text \<open>The example: alice signs out everywhere; bob's session is not affected.\<close>

lemmas step_defs = on_error_def requireSubject_def lockSelf_def readSelf_def invalidate_def audit_def
  in_tx_def store_BumpUserVersion_def store_RevokeUserSessions_def store_AppendAudit_def
  LockUser_def GetUser_def GetValidSession_def BumpUserVersion_def RevokeUserSessions_def AppendAudit_def

lemmas audit_eval = success_event_def audit_params_def optional_def valid_audit_def AuditOutcome_Valid_def
  AuditSuccess_def AuditActorType_Valid_def ActorUser_def ActorAnonymous_def maxAuditActionRunes_def
  maxAuditMetadataBytes_def validOptionalIdentifier_def push_bit_eq_mult

lemmas example_defs = example_sessions alice_request_def alice_def bob_def new_user_def example_session_def
  example_account_def example_db_def empty_db_def

lemma example_signout:
  "\<exists>w1. run_call quiet_service (RevokeSession_call alice_request '''' True) (start example_db) = (Inr (), w1)
     \<and> user_sessions (w_db w1) = [(example_session ''s1'' ''alice'' (replicate 32 (CHR ''x'')))\<lparr>s_RevokedAt := Some 0\<rparr>,
          example_session ''s2'' ''bob'' (e_sha256 quiet bob_token)]
     \<and> users (w_db w1) = [alice\<lparr>u_AuthVersion := 2, u_UpdatedAt := 0\<rparr>, bob] \<and> w_step w1 < 10"
  by (simp add: Service_RevokeSession_def run_defs step_defs example_defs text_eval audit_eval
      session_valid_def live_session_def hour_def del: quiet_simps(7))

theorem revocation_final_witness:
  "\<exists>w1 w3. run_call quiet_service (RevokeSession_call alice_request '''' True) (start example_db) = (Inr (), w1)
     \<and> AuthenticateSession quiet_service bob_token w1 = (Inr (''bob'', ''s2''), w3)
     \<and> \<not> (\<exists>x \<in> set (user_sessions (w_db w1)). s_ID x = ''s2'' \<and> s_UserID x = ''alice'')"
proof -
  let ?c = "RevokeSession_call alice_request '''' True"
  obtain w1 where w1: "run_call quiet_service ?c (start example_db) = (Inr (), w1)"
    and ss: "user_sessions (w_db w1) = [(example_session ''s1'' ''alice'' (replicate 32 (CHR ''x'')))\<lparr>s_RevokedAt := Some 0\<rparr>,
          example_session ''s2'' ''bob'' (e_sha256 quiet bob_token)]"
    and us: "users (w_db w1) = [alice\<lparr>u_AuthVersion := 2, u_UpdatedAt := 0\<rparr>, bob]" and st: "w_step w1 < 10"
    using example_signout by blast
  have relies: "rely (keeps accounts_ok) (sv_env quiet_service)" "rely account_evolves (sv_env quiet_service)"
    using quiet_relies by simp_all
  have inv: "accounts_ok (w_db (start example_db))" using example_ok by (simp add: start_def)
  have "guarantees (keeps accounts_ok) (run_call quiet_service ?c)"
    by (rule wired_keeps [OF relies(1) wired_quiet])
  then have ok: "accounts_ok (seen (sv_env quiet_service) w1)"
    using inv w1 unfolding guarantees_def keeps_def seen_def by (metis snd_conv quiet_simps(2) quiet_service_simps(1))
  have live: "session_valid (e_clock quiet (w_step w1)) (seen quiet w1) (example_session ''s2'' ''bob'' (e_sha256 quiet bob_token))"
    using st by (simp add: session_valid_def live_session_def seen_def us example_session_def bob_def alice_def
        new_user_def hour_def minute_def)
  obtain w3 where w3: "AuthenticateSession quiet_service bob_token w1 = (Inr (''bob'', ''s2''), w3)"
    using AuthenticateSession_live [OF ok, of bob_token "example_session ''s2'' ''bob'' (e_sha256 quiet bob_token)"]
      bob_token_digest live
    by (auto simp: seen_def ss example_session_def simp del: quiet_simps(7))
  have "\<not> (\<exists>x \<in> set (user_sessions (w_db w1)). s_ID x = ''s2'' \<and> s_UserID x = ''alice'')"
    by (rule revocation_final [OF inv wired_quiet relies w1 _ run_refl w3]) (simp add: alice_request_def)
  with w1 w3 show ?thesis by blast
qed

end
