(* ===== verification/Account_Login.thy ===== *)
theory Account_Login
  imports Account_Sessions
begin

text \<open>
  Password login: what a success means, that the issued token authenticates, that a failure does
  not tell an unknown address from a wrong password, and how failures are recorded.
\<close>

lemma lookup_opt_ok [ok_iff]:
  "lookup_opt g m w = (Inr y, w') \<longleftrightarrow>
     (\<exists>a. m w = (Inr a, w') \<and> y = Some a) \<or> (\<exists>e. m w = (Inl e, w') \<and> errors_is e (Sentinel ErrNoRows) \<and> y = None)"
  by (auto simp: lookup_opt_def attempt_def ret_def fail_def split: prod.splits sum.splits if_splits)

lemma login_tx_step:
  assumes "login_tx s r user account h (Tx t) w = (Inr cred, w')"
  shows "\<exists>u a w1. u \<in> set (users (w_db w)) \<and> u_ID u = u_ID user \<and> u_AuthVersion u = u_AuthVersion user
    \<and> u_Status u = UserActive \<and> a \<in> set (accounts (w_db w)) \<and> a_ID a = a_ID account \<and> a_Version a = a_Version account
    \<and> a_RevokedAt a = None \<and> users (w_db w1) = users (w_db w) \<and> user_sessions (w_db w1) = user_sessions (w_db w)
    \<and> map account_standing (accounts (w_db w1)) = map account_standing (accounts (w_db w))
    \<and> newSession s (Tx t) r u a MethodPassword w1 = (Inr cred, w')"
proof -
  let ?cx = "sv_env s"
  obtain u w1 a w2 w3 where u: "query ?cx (Tx t) (LockUser (u_ID user)) w = (Inr u, w1)"
    and a: "query ?cx (Tx t) (GetAccount (a_ID account) (u_ID user)) w1 = (Inr a, w2)"
    and v: "u_AuthVersion u = u_AuthVersion user" "a_Version a = a_Version account" "u_Status u = UserActive"
    and h: "(if h \<noteq> '''' then store_UpgradePasswordHash ?cx (Tx t) (a_ID account) (u_ID user) (Some h) (a_PasswordHash account)
             else ret ()) w2 = (Inr (), w3)"
    and n: "newSession s (Tx t) r u a MethodPassword w3 = (Inr cred, w')"
    using assms unfolding login_tx_def Let_def by (auto simp: bindA_ok require_ok on_error_ok)
  have "users (w_db w3) = users (w_db w2) \<and> user_sessions (w_db w3) = user_sessions (w_db w2)
      \<and> map account_standing (accounts (w_db w3)) = map account_standing (accounts (w_db w2))"
    using h by (auto simp: store_UpgradePasswordHash_def ok_iff UpgradePasswordHash_def update_account_def update_where_def
        account_standing_def split: if_splits)
  then show ?thesis using u a v n
    by (intro exI [of _ u] exI [of _ a] exI [of _ w3])
      (auto simp: query_tx_ok LockUser_def GetAccount_def dest: find_Some_ex)
qed

text \<open>The login up to its transaction.\<close>

lemma Login_ok:
  assumes "Login s r email password w = (Inr cred, w')"
  shows "\<exists>e user account n up h w1 w2 w3 w4. normalizeEmail (sv_env s) email = Inr e
    \<and> entryLimit s r ''login'' e w = (Inr (), w1)
    \<and> query (sv_env s) Pool (FindUserByEmail (Some e)) w1 = (Inr user, w2)
    \<and> query (sv_env s) Pool (GetPasswordAccount (u_ID user)) w2 = (Inr account, w3)
    \<and> d_Verify (sv_deps s) n (text_of (a_PasswordHash account)) password = Inr (True, up)
    \<and> u_Status user = UserActive \<and> u_EmailVerifiedAt user \<noteq> None
    \<and> w_db w4 = w_db w3 \<and> in_tx s (login_tx s r user account h) w4 = (Inr cred, w')"
proof -
  let ?cx = "sv_env s"
  obtain e w1 found w2 facc w3 valid up w4 where e: "normalizeEmail ?cx email = Inr e"
    and l: "entryLimit s r ''login'' e w = (Inr (), w1)"
    and f: "lookup_opt storage_error (query ?cx Pool (FindUserByEmail (Some e))) w1 = (Inr found, w2)"
    and a: "lookup_opt storage_error (query ?cx Pool
        (GetPasswordAccount (case found of None \<Rightarrow> '''' | Some u \<Rightarrow> u_ID u))) w2 = (Inr facc, w3)"
    and v: "call_dep (\<lambda>n. d_Verify (sv_deps s) n
        (case facc of None \<Rightarrow> '''' | Some a \<Rightarrow> text_of (a_PasswordHash a)) password) w3 = (Inr (valid, up), w4)"
    and rest: "(case (found, facc) of
        (Some user, Some account) \<Rightarrow>
          bindA (require (valid \<and> u_Status user = UserActive \<and> u_EmailVerifiedAt user \<noteq> None)
            (Business ErrCredentials)) (\<lambda>_.
          bindA (if up then call_dep (\<lambda>n. d_Hash (sv_deps s) n password) else ret '''') (\<lambda>newPasswordHash.
          in_tx s (login_tx s r user account newPasswordHash)))
      | _ \<Rightarrow> fail (Business ErrCredentials)) w4 = (Inr cred, w')"
    using assms unfolding Login_def Let_def recordFailureOnReturn_ok bindA_ok on_error_ok from_sum_ok
    by auto
  obtain user account where u: "found = Some user" "facc = Some account"
    using rest by (auto simp: fail_ok split: option.splits)
  with rest obtain h w5 where ok: "valid" "u_Status user = UserActive" "u_EmailVerifiedAt user \<noteq> None"
    and h: "(if up then call_dep (\<lambda>n. d_Hash (sv_deps s) n password) else ret '''') w4 = (Inr h, w5)"
    and tx: "in_tx s (login_tx s r user account h) w5 = (Inr cred, w')"
    by (auto simp: bindA_ok require_ok)
  have d: "w_db w5 = w_db w3" using h v by (auto simp: call_dep_ok ret_ok split: if_splits)
  have q: "query ?cx Pool (FindUserByEmail (Some e)) w1 = (Inr user, w2)"
    "query ?cx Pool (GetPasswordAccount (u_ID user)) w2 = (Inr account, w3)"
    using f a u by (auto simp: lookup_opt_ok)
  have "d_Verify (sv_deps s) (w_seed w3) (text_of (a_PasswordHash account)) password = Inr (True, up)"
    using v u ok(1) by (simp add: call_dep_ok)
  with e l q ok d tx show ?thesis by blast
qed

lemma read_evolves:
  assumes "rely account_evolves cx" and "\<And>t d. snd (f t d) = d" and "query cx q f w = (r, w')"
  shows "account_evolves (w_db w) (w_db w')"
proof -
  have "guarantees account_evolves (query cx q f)" by (rule ae.g_read) (simp_all add: assms)
  then show ?thesis using assms(3) by (rule guaranteesD)
qed

lemma login_tx_evolves:
  "rely account_evolves (sv_env s) \<Longrightarrow> guarantees account_evolves (in_tx s (login_tx s r user account h))"
  unfolding login_tx_def Let_def by (rule ae.g_parts ae.g_read reads_keep | assumption)+

text \<open>The rows that a login reads, as they are found again when it has committed.\<close>

lemma user_kept:
  assumes "account_evolves d d'" and "accounts_ok d'" and "user \<in> set (users d)" and "u \<in> set (users d')"
    and "u_ID u = u_ID user" and "u_AuthVersion u = u_AuthVersion user" and "u_Status user \<noteq> UserPending"
  shows "u_EmailNormalized u = u_EmailNormalized user \<and> u_EmailVerifiedAt u = u_EmailVerifiedAt user"
proof -
  obtain v where v: "v \<in> set (users d')" "user_le user v"
    using grows_set assms(1,3) unfolding account_evolves_def by metis
  have "inj_on u_ID (set (users d'))"
    using accounts_ok_tables(1) [OF assms(2)] by (simp add: users_ok_def distinct_map)
  moreover have "u_ID v = u_ID u" using v(2) assms(5) by (simp add: user_le_def)
  ultimately have "v = u" using v(1) assms(4) by (meson inj_onD)
  with v(2) assms(6,7) show ?thesis by (simp add: user_le_def)
qed

lemma standing_kept:
  assumes "a \<in> set as" and "map account_standing bs = map account_standing as"
  shows "\<exists>b \<in> set bs. account_standing b = account_standing a"
proof -
  have "account_standing a \<in> set (map account_standing bs)" using assms by simp
  then show ?thesis by auto
qed

text \<open>The example: alice logs in with her password.\<close>

definition login_db :: db where
  "login_db = example_db\<lparr>user_sessions := [], auth_flows := []\<rparr>"

definition guest :: Request where
  "guest = \<lparr>UserID = '''', rq_SessionID = '''', RequestID = ''q'', ClientIP = ''ip''\<rparr>"

lemma guest_simps [simp]: "UserID guest = ''''" "rq_SessionID guest = ''''" "RequestID guest = ''q''" "ClientIP guest = ''ip''"
  by (simp_all add: guest_def)

lemma email_a: "normalizeEmail quiet ''a@x'' = Inr ''a@x''"
  by (simp add: normalizeEmail_def text_eval maxEmailBytes_def Email_def ToLower_lower lower_byte_def ContainsByte_def bytes_def)

lemma quiet_hash_length [simp]: "length (e_sha256 quiet x) = 32"
  by simp

lemma login_metadata: "length (json_object ''method'' ''password'') = 21"
  by (simp add: json_object_def json_string_def utf8_def of_bytes_def encode_rune_def text_eval)

lemmas limit_defs = entryLimit_def limit_def store_RateLimit_def RateLimit_def bucket_key_def sha256_Size_def Seconds_def
  ipRateWindow_def subjectRateWindow_def ipRequestLimit_def subjectRequestLimit_def minute_def second_def

lemma example_entry: "\<exists>w'. entryLimit quiet_service guest ''login'' ''a@x'' (start login_db) = (Inr (), w') \<and> w_step w' = 2 \<and> w_seed w' = 0
  \<and> users (w_db w') = [alice, bob] \<and> accounts (w_db w') = accounts example_db \<and> user_sessions (w_db w') = []
  \<and> audit_events (w_db w') = []"
  by (simp add: run_defs limit_defs guest_def login_db_def example_defs)

lemma example_login:
  "\<exists>cred w'. Login quiet_service guest ''a@x'' ''pass'' (start login_db) = (Inr cred, w') \<and> w_step w' < 20
     \<and> sc_IdleExpiresAt cred > 1000 * second \<and> users (w_db w') = [alice, bob]"
proof -
  obtain w1 where w1: "entryLimit quiet_service guest ''login'' ''a@x'' (start login_db) = (Inr (), w1)" "w_step w1 = 2"
    "w_seed w1 = 0" "users (w_db w1) = [alice, bob]" "accounts (w_db w1) = accounts example_db" "user_sessions (w_db w1) = []"
    "audit_events (w_db w1) = []"
    using example_entry by blast
  show ?thesis
    by (simp add: Login_def login_tx_def lookup_opt_def FindUserByEmail_def GetPasswordAccount_def GetAccount_def
      newSession_def new_token_def store_defs TouchAccount_def update_account_def CreateSession_def valid_new_session_def
      AuthMethod_Valid_def MethodPassword_def UserActive_def call_dep_def quiet_deps_def NewToken_def Digest_def
      AppendAudit_def in_tx_def LockUser_def on_error_def w1 text_of_def login_metadata sha256_Size_def Seconds_def audit_def
      email_a run_defs alice_def bob_def new_user_def example_db_def empty_db_def example_account_def text_eval audit_eval
      recordFailureOnReturn_def minute_def second_def hour_def del: quiet_simps(7) start_def)
qed

lemma login_db_ok: "accounts_ok login_db"
  by (auto simp: accounts_ok_def users_ok_def live_accounts_ok_def sessions_ok_def flows_ok_def verifications_ok_def
      audit_ok_def rates_ok_def mail_ok_def references_ok_def empty_db_def user_row_simps new_user_def
      count_where_def login_db_def example_db_def alice_def bob_def example_account_def account_row_ok_def provider_defs)

text \<open>
  C5.  A login succeeds only for a verified, active user who presents the password.  When it has
  committed, the address given normalizes to that of a user who is active and whose address is
  verified; during the call, the stored hash of that user's unrevoked password account matched the
  password; that account is still unrevoked and at the version that was checked; and the credentials
  returned are those of one new session of the user.
\<close>

theorem login_sound:
  assumes "Login s r email password w = (Inr cred, w')"
    and "accounts_ok (w_db w)" and "rely (keeps accounts_ok) (sv_env s)" and "rely account_evolves (sv_env s)"
  shows "\<exists>e d u account n up a t rb x. normalizeEmail (sv_env s) email = Inr e
     \<and> u \<in> set (users (w_db w')) \<and> u_EmailNormalized u = Some e \<and> u_EmailVerifiedAt u \<noteq> None \<and> u_Status u = UserActive
     \<and> account_evolves (w_db w) d \<and> account_evolves d (w_db w')
     \<and> account \<in> set (accounts d) \<and> a_UserID account = u_ID u \<and> a_ProviderID account = CredentialProvider
     \<and> d_Verify (sv_deps s) n (text_of (a_PasswordHash account)) password = Inr (True, up)
     \<and> a \<in> set (accounts (w_db w')) \<and> a_ID a = a_ID account \<and> a_Version a = a_Version account \<and> a_RevokedAt a = None
     \<and> x \<in> set (user_sessions (w_db w')) \<and> session_opened s t u a MethodPassword rb cred x"
proof -
  let ?cx = "sv_env s"
  obtain e user account n up h w1 w2 w3 w4 where e: "normalizeEmail (sv_env s) email = Inr e"
    and lim: "entryLimit s r ''login'' e w = (Inr (), w1)"
    and qu: "query (sv_env s) Pool (FindUserByEmail (Some e)) w1 = (Inr user, w2)"
    and qa: "query (sv_env s) Pool (GetPasswordAccount (u_ID user)) w2 = (Inr account, w3)"
    and v: "d_Verify (sv_deps s) n (text_of (a_PasswordHash account)) password = Inr (True, up)"
    and st: "u_Status user = UserActive" "u_EmailVerifiedAt user \<noteq> None"
    and d4: "w_db w4 = w_db w3" and tx: "in_tx s (login_tx s r user account h) w4 = (Inr cred, w')"
    using Login_ok [OF assms(1)] by blast
  obtain t w5 w6 where l: "login_tx s r user account h (Tx t) w5 = (Inr cred, w6)" and d: "w_db w' = w_db w6"
    using in_tx_ok [OF tx] by blast
  obtain u a w7 where u: "u \<in> set (users (w_db w5))" "u_ID u = u_ID user" "u_AuthVersion u = u_AuthVersion user"
      "u_Status u = UserActive" and a: "a \<in> set (accounts (w_db w5))" "a_ID a = a_ID account" "a_Version a = a_Version account"
      "a_RevokedAt a = None"
    and us: "users (w_db w7) = users (w_db w5)" "map account_standing (accounts (w_db w7)) = map account_standing (accounts (w_db w5))"
    and ns: "newSession s (Tx t) r u a MethodPassword w7 = (Inr cred, w6)"
    using login_tx_step [OF l] by blast
  let ?rb = "e_rand ?cx (w_seed w7)"
  obtain x where x: "session_opened s t u a MethodPassword ?rb cred x"
    "x \<in> set (user_sessions (w_db w'))" "users (w_db w') = users (w_db w7)"
    and as: "map account_standing (accounts (w_db w')) = map account_standing (accounts (w_db w7))"
    using newSession_step [OF ns] d by auto
  obtain b where b: "b \<in> set (accounts (w_db w'))" "account_standing b = account_standing a"
    using standing_kept [OF a(1)] as us(2) by metis
  have b': "a_ID b = a_ID account" "a_Version b = a_Version account" "a_RevokedAt b = None" "a_ID b = a_ID a"
    using b(2) a by (auto simp: account_standing_def)
  have r1: "account_evolves (w_db w) (w_db w1)" using ae.g_shared(1) [OF assms(4)] lim by (rule guaranteesD)
  have r2: "account_evolves (w_db w1) (w_db w2)" using read_evolves [OF assms(4) reads_keep(1) qu] .
  have r3: "account_evolves (w_db w2) (w_db w3)" using read_evolves [OF assms(4) reads_keep(6) qa] .
  have "account_evolves (w_db w4) (w_db w')" using login_tx_evolves [OF assms(4)] tx by (rule guaranteesD)
  then have r4: "account_evolves (w_db w3) (w_db w')" by (simp add: d4)
  have "keeps accounts_ok (w_db w) (w_db w')" using ai.g_Login [OF assms(3)] assms(1) by (rule guaranteesD)
  then have ok: "accounts_ok (w_db w')" using assms(2) by (simp add: keeps_def)
  have user: "user \<in> set (users (w_db w2))" "u_EmailNormalized user = Some e"
    using qu by (auto simp: query_pool_ok FindUserByEmail_def dest!: find_Some_ex)
  have ac: "account \<in> set (accounts (w_db w3))" "a_UserID account = u_ID user" "a_ProviderID account = CredentialProvider"
    using qa by (auto simp: query_pool_ok GetPasswordAccount_def CredentialProvider_def dest!: find_Some_ex)
  have u': "u \<in> set (users (w_db w'))" using u(1) us x(3) by simp
  have "u_EmailNormalized u = u_EmailNormalized user \<and> u_EmailVerifiedAt u = u_EmailVerifiedAt user"
    by (rule user_kept [OF account_evolves_trans [OF r3 r4] ok user(1) u' u(2,3)]) (simp add: st status_defs)
  then have "u_EmailNormalized u = Some e" "u_EmailVerifiedAt u \<noteq> None" using user st by auto
  moreover have "session_opened s t u b MethodPassword ?rb cred x" using x(1) b'(4) by (simp add: session_opened_def)
  moreover have "account_evolves (w_db w) (w_db w3)" using r1 r2 r3 account_evolves_trans by blast
  ultimately show ?thesis using e u' u(2,4) r4 ac v b(1) b'(1-3) x(2) by metis
qed

theorem login_sound_witness:
  "\<exists>cred w' x. Login quiet_service guest ''a@x'' ''pass'' (start login_db) = (Inr cred, w')
     \<and> x \<in> set (user_sessions (w_db w')) \<and> s_UserID x = ''alice'' \<and> s_AuthMethod x = MethodPassword"
proof -
  obtain cred w' where l: "Login quiet_service guest ''a@x'' ''pass'' (start login_db) = (Inr cred, w')"
    and us: "users (w_db w') = [alice, bob]"
    using example_login by blast
  have pre: "accounts_ok (w_db (start login_db))" "rely (keeps accounts_ok) (sv_env quiet_service)"
      "rely account_evolves (sv_env quiet_service)"
    using login_db_ok quiet_relies by (simp_all add: start_def)
  have "u_EmailNormalized bob = None" "u_ID alice = ''alice''" by (simp_all add: bob_def alice_def new_user_def)
  then show ?thesis using login_sound [OF l pre] l us by (auto simp: session_opened_def)
qed

text \<open>
  C6.  The token of a successful login is good: presented next, with nothing failing and nobody
  interfering, and before its idle deadline, it authenticates as the user of that address and the
  session reported.
\<close>

theorem login_authenticates:
  assumes "Login s r email password w = (Inr cred, w')"
    and "accounts_ok (w_db w)" and "wired s" and "rely (keeps accounts_ok) (sv_env s)"
    and fault: "\<And>n. e_fault (sv_env s) n = None"
    and other: "e_other (sv_env s) (w_step w') (w_db w') = w_db w'"
    and entropy: "\<And>n. length (e_rand (sv_env s) n) = tokenEntropyBytes"
    and clock: "e_clock (sv_env s) (w_step w') < sc_IdleExpiresAt cred"
  shows "\<exists>u w''. AuthenticateSession s (sc_Token cred) w' = (Inr (u_ID u, sc_ID cred), w'') \<and> u \<in> set (users (w_db w'))"
proof -
  let ?cx = "sv_env s"
  have g: "guarantees (keeps accounts_ok) (run_call s (Login_call r email password))"
    by (rule wired_keeps [OF assms(4,3)])
  have "run_call s (Login_call r email password) w = (Inr (), w')" using assms(1) by (simp add: discard_ok)
  then have ok: "accounts_ok (w_db w')" using g assms(2) unfolding guarantees_def keeps_def by (metis snd_conv)
  obtain user account h w3 where tx: "in_tx s (login_tx s r user account h) w3 = (Inr cred, w')"
    using Login_ok [OF assms(1)] by blast
  obtain t w4 w5 where l: "login_tx s r user account h (Tx t) w4 = (Inr cred, w5)" and d: "w_db w' = w_db w5"
    using in_tx_ok [OF tx] by blast
  obtain u a w6 where u: "u \<in> set (users (w_db w4))" "u_Status u = UserActive"
    and us: "users (w_db w6) = users (w_db w4)" and ns: "newSession s (Tx t) r u a MethodPassword w6 = (Inr cred, w5)"
    using login_tx_step [OF l] by blast
  let ?rb = "e_rand ?cx (w_seed w6)"
  obtain x where x: "session_opened s t u a MethodPassword ?rb cred x"
    "x \<in> set (user_sessions (w_db w'))" "users (w_db w') = users (w_db w6)"
    using newSession_step [OF ns] d by auto
  have dig: "TokenDigest (e_sha256 ?cx) (sc_Token cred) SessionPrefix = Inr (e_sha256 ?cx (sc_Token cred))"
    and hash: "s_TokenHash x = e_sha256 ?cx (sc_Token cred)"
    using TokenDigest_NewToken [OF entropy, of "e_sha256 ?cx" "w_seed w6" SessionPrefix] x(1)
    by (simp_all add: session_opened_def NewToken_def Digest_def Let_def)
  have "s_IdleExpiresAt x \<le> s_AbsoluteExpiresAt x"
    using accounts_ok_tables(3) [OF ok] x(2) by (simp add: sessions_ok_def)
  moreover have "sc_IdleExpiresAt cred = s_IdleExpiresAt x" using x(1) by (simp add: session_opened_def)
  ultimately have "e_clock ?cx (w_step w') < s_IdleExpiresAt x" "e_clock ?cx (w_step w') < s_AbsoluteExpiresAt x"
    using clock by linarith+
  moreover have "s_RevokedAt x = None" "s_UserID x = u_ID u" "s_AuthVersion x = u_AuthVersion u"
    using x(1) by (simp_all add: session_opened_def)
  ultimately have live: "session_valid (e_clock ?cx (w_step w')) (w_db w') x"
    using x(3) u us by (auto simp: session_valid_def live_session_def list_ex_iff UserActive_def)
  have "\<exists>w''. AuthenticateSession s (sc_Token cred) w' = (Inr (s_UserID x, s_ID x), w'')"
    using AuthenticateSession_live [of s w' "sc_Token cred" x] ok fault dig hash x(2) live other by (simp add: seen_def)
  then show ?thesis using x u us by (auto simp: session_opened_def)
qed

theorem login_authenticates_witness:
  "\<exists>cred w' u w''. Login quiet_service guest ''a@x'' ''pass'' (start login_db) = (Inr cred, w')
     \<and> AuthenticateSession quiet_service (sc_Token cred) w' = (Inr (u_ID u, sc_ID cred), w'') \<and> u \<in> set (users (w_db w'))"
proof -
  obtain cred w' where l: "Login quiet_service guest ''a@x'' ''pass'' (start login_db) = (Inr cred, w')"
    and t: "w_step w' < 20" "sc_IdleExpiresAt cred > 1000 * second"
    using example_login by blast
  have "e_clock quiet (w_step w') < sc_IdleExpiresAt cred" using t by (simp add: second_def)
  then show ?thesis using login_authenticates [OF l] l quiet_relies(1) login_db_ok
    by (auto simp: start_def tokenEntropyBytes_def)
qed
end
