(* ===== verification/Account_Limits.thy ===== *)
theory Account_Limits
  imports Account_Login
begin

text \<open>
  The request limits of \<^verbatim>\<open>rate_limit.go\<close>: how many requests a bucket lets through in any
  stretch of time as long as its window, and what the delay of a refusal promises.
\<close>

definition bucket :: "string \<Rightarrow> db \<Rightarrow> rate_row option" where
  "bucket k d = find (\<lambda>r. r_BucketKey r = k) (auth_rate_limits d)"

text \<open>The bucket after one more request.\<close>

definition charged :: "string \<Rightarrow> int \<Rightarrow> time \<Rightarrow> rate_row option \<Rightarrow> rate_row" where
  "charged k secs now b =
     (case b of
        None \<Rightarrow> \<lparr>r_BucketKey = k, r_Count = 1, r_ExpiresAt = now + secs * second\<rparr>
      | Some r \<Rightarrow> rate_hit secs now r)"

lemma bucket_key_of: "bucket k d = Some r \<Longrightarrow> r_BucketKey r = k"
  by (auto simp: bucket_def dest: find_Some_ex)

lemma RateLimit_charges:
  "fst (RateLimit k secs t d) = Inr (r_Count (charged k secs t (bucket k d)), retry_after_seconds t (charged k secs t (bucket k d)))"
  "bucket k (snd (RateLimit k secs t d)) = Some (charged k secs t (bucket k d))"
proof -
  have "find (\<lambda>r. r_BucketKey r = k) (update_where (\<lambda>r. r_BucketKey r = k) (rate_hit secs t) rs)
      = map_option (rate_hit secs t) (find (\<lambda>r. r_BucketKey r = k) rs)" for rs
    by (rule find_update_where) (simp add: rate_hit_def)
  then show "bucket k (snd (RateLimit k secs t d)) = Some (charged k secs t (bucket k d))"
    by (cases "bucket k d")
      (auto simp: RateLimit_def charged_def bucket_def Let_def find_append split: option.split)
qed (simp add: RateLimit_def charged_def bucket_def Let_def split: option.split)

text \<open>
  One request: it passes only if the charged bucket is within the limit; a refusal may or may not
  have charged it.
\<close>

lemma limit_pass:
  assumes "limit s c key mx window w = (Inr u, w')"
  defines "k \<equiv> bucket_key (sv_env s) c key"
  defines "row \<equiv> charged k (Seconds window) (e_clock (sv_env s) (w_step w)) (bucket k (seen (sv_env s) w))"
  shows "bucket k (w_db w') = Some row \<and> r_Count row \<le> mx \<and> w_step w' = Suc (w_step w)"
proof -
  let ?cx = "sv_env s"
  obtain n ra w1 where q: "store_RateLimit ?cx Pool k (Seconds window) w = (Inr (n, ra), w1)" and n: "n \<le> mx" "w' = w1"
    using assms(1) unfolding limit_def Let_def k_def
    by (cases "store_RateLimit ?cx Pool (bucket_key ?cx c key) (Seconds window) w")
      (auto simp: attempt_def ret_def fail_def split: sum.splits if_splits)
  then show ?thesis
    by (auto simp: store_RateLimit_def ok_iff RateLimit_charges row_def seen_def)
qed

lemma limit_fail:
  assumes "limit s c key mx window w = (Inl e, w')"
  defines "k \<equiv> bucket_key (sv_env s) c key"
  assumes same: "rely (same (bucket k)) (sv_env s)"
  defines "row \<equiv> charged k (Seconds window) (e_clock (sv_env s) (w_step w)) (bucket k (w_db w))"
  shows "(bucket k (w_db w') = bucket k (w_db w) \<or> bucket k (w_db w') = Some row)
    \<and> w_step w \<le> w_step w' \<and> w_step w' \<le> Suc (w_step w)"
proof -
  let ?cx = "sv_env s"
  have o: "bucket k (e_other ?cx n d) = bucket k d" for n d using same by (simp add: rely_def same_def)
  have "w' = snd (store_RateLimit ?cx Pool k (Seconds window) w)"
    using assms(1) unfolding limit_def Let_def k_def
    by (cases "store_RateLimit ?cx Pool (bucket_key ?cx c key) (Seconds window) w")
      (auto simp: attempt_def ret_def fail_def split: sum.splits if_splits)
  then show ?thesis
    by (auto simp: store_RateLimit_def bindA_def require_def ret_def fail_def query_def Let_def RateLimit_charges o row_def
        split: option.split fault.split)
qed

text \<open>A number of requests, one after the other: which of them passed.\<close>

fun limit_run :: "Service \<Rightarrow> string \<Rightarrow> string \<Rightarrow> int \<Rightarrow> time \<Rightarrow> nat \<Rightarrow> world \<Rightarrow> bool list \<times> world" where
  "limit_run s c key mx window 0 w = ([], w)"
| "limit_run s c key mx window (Suc n) w =
     (let (r, w1) = limit s c key mx window w; (rs, w2) = limit_run s c key mx window n w1
      in ((\<not> isl r) # rs, w2))"

definition passes :: "bool list \<Rightarrow> nat" where
  "passes rs = length (filter (\<lambda>b. b) rs)"

lemma passes_simps [simp]: "passes [] = 0" "passes (b # rs) = (if b then Suc (passes rs) else passes rs)"
  by (simp_all add: passes_def)

lemma limit_step_le: "w_step w \<le> w_step (snd (limit s c key mx window w))"
  by (auto simp: limit_def store_RateLimit_def attempt_def bindA_def require_def ret_def fail_def query_def Let_def
      split: option.split fault.split sum.split)

lemma limit_run_step_le: "w_step w \<le> w_step (snd (limit_run s c key mx window n w))"
proof (induction n arbitrary: w)
  case (Suc n)
  have "w_step w \<le> w_step (snd (limit s c key mx window w))" by (rule limit_step_le)
  also have "\<dots> \<le> w_step (snd (limit_run s c key mx window n (snd (limit s c key mx window w))))" by (rule Suc.IH)
  finally show ?case by (auto simp: Let_def split: prod.split)
qed simp

text \<open>
  What may still pass: a live window lets through what its count leaves, an absent or expired one
  starts afresh.
\<close>

definition allowance :: "int \<Rightarrow> time \<Rightarrow> rate_row option \<Rightarrow> nat" where
  "allowance mx now b =
     (case b of
        None \<Rightarrow> nat mx
      | Some r \<Rightarrow> if r_ExpiresAt r \<le> now then nat mx else nat (mx - r_Count r) + nat mx)"

definition count_ok :: "rate_row option \<Rightarrow> bool" where
  "count_ok b \<longleftrightarrow> (\<forall>r. b = Some r \<longrightarrow> 0 \<le> r_Count r \<and> r_Count r \<le> 1000000)"

lemma count_ok_charged: "count_ok b \<Longrightarrow> count_ok (Some (charged k secs t b))"
  by (auto simp: count_ok_def charged_def rate_hit_def split: option.split)

text \<open>While the window stays open.\<close>

lemma passes_open:
  assumes "rely (same (bucket (bucket_key (sv_env s) c key))) (sv_env s)" and "mx < 1000000"
    and mono: "\<And>m n. m \<le> n \<Longrightarrow> e_clock (sv_env s) m \<le> e_clock (sv_env s) n"
    and "limit_run s c key mx window n w = (rs, w')"
    and "bucket (bucket_key (sv_env s) c key) (w_db w) = Some r" and "0 \<le> r_Count r" "r_Count r \<le> 1000000"
    and "e_clock (sv_env s) (w_step w') < r_ExpiresAt r"
  shows "passes rs \<le> nat (mx - r_Count r)"
  using assms(4-)
proof (induction n arbitrary: w r rs)
  case (Suc n)
  let ?cx = "sv_env s" and ?k = "bucket_key (sv_env s) c key"
  let ?r' = "r\<lparr>r_Count := min (r_Count r + 1) 1000000\<rparr>"
  obtain a w1 where l: "limit s c key mx window w = (a, w1)" by force
  obtain rs1 where run: "limit_run s c key mx window n w1 = (rs1, w')" and rs: "rs = (\<not> isl a) # rs1"
    using Suc.prems(1) l by (auto split: prod.splits)
  have "w_step w \<le> w_step w'" using limit_run_step_le [of w s c key mx window "Suc n"] Suc.prems(1) by simp
  then have t: "e_clock ?cx (w_step w) < r_ExpiresAt r" using mono Suc.prems(5) by fastforce
  have seen: "bucket ?k (seen ?cx w) = Some r" using assms(1) Suc.prems(2) by (simp add: rely_def same_def seen_def)
  have ch: "charged ?k (Seconds window) (e_clock ?cx (w_step w)) (Some r) = ?r'"
    using t by (simp add: charged_def rate_hit_def)
  show ?case
  proof (cases a)
    case (Inl e)
    have "bucket ?k (w_db w1) = Some r \<or> bucket ?k (w_db w1) = Some ?r'"
      using limit_fail [OF l [unfolded Inl] assms(1)] Suc.prems(2) ch by simp
    then have "passes rs1 \<le> nat (mx - r_Count r)"
      using Suc.IH [OF run, of r] Suc.IH [OF run, of ?r'] Suc.prems(3-5) by (auto simp: min_def split: if_splits)
    then show ?thesis by (simp add: rs Inl)
  next
    case (Inr u)
    have p: "bucket ?k (w_db w1) = Some ?r'" "r_Count ?r' \<le> mx"
      using limit_pass [OF l [unfolded Inr]] seen ch by auto
    then have "passes rs1 \<le> nat (mx - r_Count ?r')"
      using Suc.IH [OF run, of ?r'] Suc.prems(3-5) by (simp add: min_def)
    then show ?thesis using p(2) assms(2) by (auto simp: rs Inr min_def split: if_splits)
  qed
qed simp

text \<open>In any stretch of time shorter than the window.\<close>

lemma passes_bound:
  assumes "rely (same (bucket (bucket_key (sv_env s) c key))) (sv_env s)" and "mx < 1000000"
    and mono: "\<And>m n. m \<le> n \<Longrightarrow> e_clock (sv_env s) m \<le> e_clock (sv_env s) n"
    and last: "e_clock (sv_env s) (w_step w') < a + Seconds window * second"
    and "limit_run s c key mx window n w = (rs, w')" and "count_ok (bucket (bucket_key (sv_env s) c key) (w_db w))"
    and "a \<le> e_clock (sv_env s) (w_step w)"
  shows "passes rs \<le> allowance mx (e_clock (sv_env s) (w_step w)) (bucket (bucket_key (sv_env s) c key) (w_db w))"
  using assms(5-)
proof (induction n arbitrary: w rs)
  case (Suc n)
  let ?cx = "sv_env s" and ?k = "bucket_key (sv_env s) c key" and ?t = "e_clock (sv_env s) (w_step w)"
  let ?b = "bucket ?k (w_db w)"
  let ?row = "charged ?k (Seconds window) ?t ?b"
  obtain r w1 where l: "limit s c key mx window w = (r, w1)" by force
  obtain rs1 where run: "limit_run s c key mx window n w1 = (rs1, w')" and rs: "rs = (\<not> isl r) # rs1"
    using Suc.prems(1) l by (auto split: prod.splits)
  have "w_step w \<le> w_step w1" using limit_step_le [of w s c key mx window] l by simp
  then have t1: "?t \<le> e_clock ?cx (w_step w1)" by (rule mono)
  have seen: "bucket ?k (seen ?cx w) = ?b" using assms(1) by (simp add: rely_def same_def seen_def)
  have out: "bucket ?k (w_db w1) = ?b \<and> isl r \<or> bucket ?k (w_db w1) = Some ?row \<and> (isl r \<or> r_Count ?row \<le> mx)"
  proof (cases r)
    case (Inl e)
    then show ?thesis using limit_fail [OF l [unfolded Inl] assms(1)] by auto
  next
    case (Inr u)
    then show ?thesis using limit_pass [OF l [unfolded Inr]] seen by auto
  qed
  have ok: "count_ok (Some ?row)" using Suc.prems(2) by (rule count_ok_charged)
  have charged: "passes rs \<le> allowance mx ?t ?b" if b1: "bucket ?k (w_db w1) = Some ?row" and "isl r \<or> r_Count ?row \<le> mx"
  proof (cases "(\<exists>q. ?b = Some q \<and> ?t < r_ExpiresAt q)")
    case True
    then obtain q where q: "?b = Some q" "?t < r_ExpiresAt q" by blast
    then have row: "?row = q\<lparr>r_Count := min (r_Count q + 1) 1000000\<rparr>" by (simp add: charged_def rate_hit_def)
    have "passes rs1 \<le> allowance mx (e_clock ?cx (w_step w1)) (Some ?row)"
      using Suc.IH [OF run] b1 ok t1 Suc.prems(3) by simp
    also have "\<dots> \<le> nat (mx - r_Count ?row) + nat mx" by (simp add: allowance_def)
    finally show ?thesis using q row that(2) assms(2) Suc.prems(2)
      by (auto simp: rs allowance_def count_ok_def min_def split: if_splits)
  next
    case False
    then have row: "r_Count ?row = 1" "r_ExpiresAt ?row = ?t + Seconds window * second"
      by (auto simp: charged_def rate_hit_def split: option.split)
    have "passes rs1 \<le> nat (mx - r_Count ?row)"
      using passes_open [OF assms(1,2) mono run b1] ok row last Suc.prems(3) by (simp add: count_ok_def)
    then show ?thesis using False that(2) row by (auto simp: rs allowance_def split: option.split)
  qed
  have kept: "passes rs \<le> allowance mx ?t ?b" if "bucket ?k (w_db w1) = ?b" and "isl r"
  proof -
    have "passes rs1 \<le> allowance mx (e_clock ?cx (w_step w1)) ?b"
      using Suc.IH [OF run] that(1) Suc.prems(2,3) t1 by simp
    also have "\<dots> \<le> allowance mx ?t ?b" using t1 by (auto simp: allowance_def split: option.split)
    finally show ?thesis using that(2) by (simp add: rs)
  qed
  show ?case using out charged kept by blast
qed simp

text \<open>
  C23.  A rate limit holds: of any number of requests on one bucket that are made within a stretch of
  time shorter than its window, at most twice the limit pass, and at most the limit when the stretch
  starts with no open window, whichever statements fail.
\<close>

theorem rate_limit_bound:
  assumes "accounts_ok (w_db w)" and "rely (same (bucket (bucket_key (sv_env s) c key))) (sv_env s)" and "mx < 1000000"
    and "\<And>m n. m \<le> n \<Longrightarrow> e_clock (sv_env s) m \<le> e_clock (sv_env s) n"
    and "limit_run s c key mx window n w = (rs, w')" and "a \<le> e_clock (sv_env s) (w_step w)"
    and "e_clock (sv_env s) (w_step w') < a + Seconds window * second"
  shows "passes rs \<le> 2 * nat mx
    \<and> ((\<forall>r. bucket (bucket_key (sv_env s) c key) (w_db w) = Some r \<longrightarrow> r_ExpiresAt r \<le> e_clock (sv_env s) (w_step w))
        \<longrightarrow> passes rs \<le> nat mx)"
proof -
  let ?b = "bucket (bucket_key (sv_env s) c key) (w_db w)"
  have ok: "0 \<le> r_Count r \<and> r_Count r \<le> 1000000" if "?b = Some r" for r
    using accounts_ok_tables(7) [OF assms(1)] that by (force simp: rates_ok_def bucket_def dest: find_Some_ex)
  then have "passes rs \<le> allowance mx (e_clock (sv_env s) (w_step w)) ?b"
    by (intro passes_bound [OF assms(2-4,7,5) _ assms(6)]) (simp_all add: count_ok_def)
  then show ?thesis using ok by (cases ?b) (auto simp: allowance_def split: if_splits)
qed

theorem rate_limit_bound_witness:
  "\<exists>w'. limit_run quiet_service ''c'' ''k'' 1 minute (Suc (Suc (Suc 0))) (start empty_db) = ([True, False, False], w')
     \<and> passes [True, False, False] \<le> 2 * nat 1"
proof -
  obtain w' where r: "limit_run quiet_service ''c'' ''k'' 1 minute (Suc (Suc (Suc 0))) (start empty_db) = ([True, False, False], w')"
    and t: "w_step w' = 3"
    by (simp add: limit_def store_RateLimit_def run_defs RateLimit_def rate_hit_def bucket_key_def sha256_Size_def
        Seconds_def minute_def second_def empty_db_def)
  have "passes [True, False, False] \<le> 2 * nat 1"
    by (rule conjunct1 [OF rate_limit_bound [OF _ _ _ _ r, where a = 0]])
      (use t accounts_ok_empty in \<open>simp_all add: start_def rely_def same_def second_def Seconds_def minute_def\<close>)
  with r show ?thesis by blast
qed

text \<open>A request whose statement is executed.\<close>

lemma limit_runs:
  assumes "e_fault (sv_env s) (w_step w) = None"
    and "length (bucket_key (sv_env s) c key) = sha256_Size" and "0 < Seconds window"
  defines "k \<equiv> bucket_key (sv_env s) c key"
  defines "row \<equiv> charged k (Seconds window) (e_clock (sv_env s) (w_step w)) (bucket k (seen (sv_env s) w))"
  shows "\<exists>w'. limit s c key mx window w =
      (if r_Count row > mx
       then Inl (RetryError (Business ErrRateLimited) (retry_after_seconds (e_clock (sv_env s) (w_step w)) row * second))
       else Inr (), w') \<and> bucket k (w_db w') = Some row"
proof -
  have "1 \<le> retry_after_seconds (e_clock (sv_env s) (w_step w)) row" by (simp add: retry_after_seconds_def)
  then show ?thesis using assms(1-3)
    by (auto simp: limit_def store_RateLimit_def run_defs RateLimit_charges seen_def WithRetryAfter_def second_def
        row_def k_def)
qed

lemma limit_refused:
  assumes "limit s c key mx window w = (Inl (RetryError (Business ErrRateLimited) delay), w')"
    and "e_fault (sv_env s) (w_step w) = None"
  shows "length (bucket_key (sv_env s) c key) = sha256_Size \<and> 0 < Seconds window"
  using assms by (auto simp: limit_def store_RateLimit_def run_defs Wrap_def split: if_splits)

lemma retry_after_bounds:
  assumes "now < r_ExpiresAt r"
  shows "r_ExpiresAt r \<le> now + retry_after_seconds now r * second"
    and "now + retry_after_seconds now r * second < r_ExpiresAt r + second"
proof -
  let ?x = "r_ExpiresAt r - now"
  have "?x \<le> - ((- ?x) div second) * second" "- ((- ?x) div second) * second < ?x + second" "1 \<le> - ((- ?x) div second)"
    using assms unfolding second_def by linarith+
  then show "r_ExpiresAt r \<le> now + retry_after_seconds now r * second"
    and "now + retry_after_seconds now r * second < r_ExpiresAt r + second"
    by (simp_all add: retry_after_seconds_def max_def)
qed

text \<open>
  C24.  The delay of a refusal is honest: it is at least a second; a request made once the delay has
  passed, with the bucket as the refusal left it and nothing failing, passes; one made more than a
  second before that is refused again.
\<close>

theorem retry_after_honest:
  assumes refused: "limit s c key mx window w = (Inl (RetryError (Business ErrRateLimited) delay), w')"
    and mx: "1 \<le> mx" "mx < 1000000" and fault: "\<And>n. e_fault (sv_env s) n = None"
    and later: "bucket (bucket_key (sv_env s) c key) (seen (sv_env s) w2) = bucket (bucket_key (sv_env s) c key) (w_db w')"
  shows "second \<le> delay
    \<and> (e_clock (sv_env s) (w_step w) + delay \<le> e_clock (sv_env s) (w_step w2) \<longrightarrow>
         (\<exists>w3. limit s c key mx window w2 = (Inr (), w3)))
    \<and> (e_clock (sv_env s) (w_step w2) + second < e_clock (sv_env s) (w_step w) + delay \<longrightarrow>
         (\<exists>e w3. limit s c key mx window w2 = (Inl e, w3)))"
proof -
  let ?cx = "sv_env s" and ?k = "bucket_key (sv_env s) c key"
  let ?t = "e_clock ?cx (w_step w)" and ?t2 = "e_clock ?cx (w_step w2)"
  let ?row = "charged ?k (Seconds window) ?t (bucket ?k (seen ?cx w))"
  let ?row2 = "charged ?k (Seconds window) ?t2 (Some ?row)"
  note args = limit_refused [OF refused fault]
  note run = limit_runs [OF fault, where c = c and key = key and window = window and mx = mx]
  have c: "mx < r_Count ?row" "delay = retry_after_seconds ?t ?row * second" "bucket ?k (w_db w') = Some ?row"
    using run [where w = w] args refused by (auto split: if_splits)
  have open_: "?t < r_ExpiresAt ?row" using c(1) mx(1) by (auto simp: charged_def rate_hit_def split: option.splits if_splits)
  note b = retry_after_bounds [OF open_, folded c(2)]
  have "1 \<le> retry_after_seconds ?t ?row" by (simp add: retry_after_seconds_def)
  then have "second \<le> delay" using c(2) by (simp add: second_def)
  moreover have "r_Count ?row2 \<le> mx" if "?t + delay \<le> ?t2"
    using that b(1) mx(1) by (simp add: charged_def [of _ _ _ "Some _"] rate_hit_def)
  moreover have "mx < r_Count ?row2" if "?t2 + second < ?t + delay"
  proof -
    have "\<not> r_ExpiresAt ?row \<le> ?t2" using that b(2) by linarith
    then show ?thesis using c(1) mx(2) by (simp add: charged_def [of _ _ _ "Some _"] rate_hit_def)
  qed
  ultimately show ?thesis using run [where w = w2] args later c(3) by auto
qed

theorem retry_after_honest_witness:
  "\<exists>w1 w' w3. limit quiet_service ''c'' ''k'' 1 minute (start empty_db) = (Inr (), w1)
     \<and> limit quiet_service ''c'' ''k'' 1 minute w1 = (Inl (RetryError (Business ErrRateLimited) (59 * second)), w')
     \<and> limit quiet_service ''c'' ''k'' 1 minute (w'\<lparr>w_step := 60\<rparr>) = (Inr (), w3)"
proof -
  obtain w1 w' where l: "limit quiet_service ''c'' ''k'' 1 minute (start empty_db) = (Inr (), w1)"
    "limit quiet_service ''c'' ''k'' 1 minute w1 = (Inl (RetryError (Business ErrRateLimited) (59 * second)), w')"
    and t: "w_step w1 = 1"
    by (simp add: limit_def store_RateLimit_def run_defs RateLimit_def rate_hit_def retry_after_seconds_def WithRetryAfter_def
        bucket_key_def sha256_Size_def Seconds_def minute_def second_def empty_db_def)
  have "\<exists>w3. limit quiet_service ''c'' ''k'' 1 minute (w'\<lparr>w_step := 60\<rparr>) = (Inr (), w3)"
    using retry_after_honest [OF l(2), of "w'\<lparr>w_step := 60\<rparr>"] t by (simp add: seen_def second_def)
  with l show ?thesis by blast
qed

end
