(* ===== verification/Account_Challenges.thy ===== *)
theory Account_Challenges
  imports Account_Limits
begin

text \<open>
  The challenges that are mailed as links (\<^verbatim>\<open>challenges.go\<close>, \<^verbatim>\<open>registration.go\<close>,
  \<^verbatim>\<open>email.go\<close>): what completing one does for each purpose, and that none is accepted twice.
\<close>

subsection \<open>Completion, step by step\<close>

lemma updated_row: "x \<in> set xs \<Longrightarrow> p x \<Longrightarrow> y = f x \<Longrightarrow> y \<in> set (update_where p f xs)"
  by (auto simp: update_where_def)

lemma completeRegistration_step:
  assumes "completeRegistration s (Tx t) user v h w = (Inr u, w')"
  shows "u_Status user = UserPending \<and> text_of (u_EmailNormalized user) = v_Email v
    \<and> u \<in> set (users (w_db w')) \<and> u_ID u = u_ID user \<and> u_Status u = UserActive \<and> u_EmailVerifiedAt u \<noteq> None
    \<and> (\<exists>b \<in> set (users (w_db w)). u_ID b = u_ID user \<and> u_EmailNormalized u = u_EmailNormalized b)
    \<and> (\<exists>a \<in> set (accounts (w_db w')). a_UserID a = u_ID user \<and> a_ProviderID a = CredentialProvider
         \<and> a_PasswordHash a = Some h \<and> a_RevokedAt a = None)
    \<and> auth_verifications (w_db w') = auth_verifications (w_db w)"
proof -
  let ?p = "\<lparr>ca_UserID = u_ID user, ca_ProviderID = CredentialProvider, ca_ProviderAccountID = u_ID user,
         ca_ProviderNamespace = LocalNamespace, ca_PasswordHash = Some h\<rparr>"
  obtain a w1 where ok: "u_Status user = UserPending" "text_of (u_EmailNormalized user) = v_Email v"
    and a: "store_CreateAccount (sv_env s) (Tx t) ?p w = (Inr a, w1)"
    and u: "store_ActivateUser (sv_env s) (Tx t) (u_ID user) w1 = (Inr u, w')"
    using assms unfolding completeRegistration_def Let_def bindA_ok require_ok by blast
  obtain i where c: "fst (CreateAccount i ?p t (w_db w)) = Inr a" "w_db w1 = snd (CreateAccount i ?p t (w_db w))"
    using a by (auto simp: store_CreateAccount_def ok_iff)
  then have d1: "w_db w1 = (w_db w)\<lparr>accounts := accounts (w_db w) @ [a]\<rparr>" by (simp add: CreateAccount_snd)
  have ca: "created_account i ?p a" using CreateAccount_fst [OF c(1)] by simp
  have q: "fst (ActivateUser (u_ID user) t (w_db w1)) = Inr u" "w_db w' = snd (ActivateUser (u_ID user) t (w_db w1))"
    using u by (auto simp: store_ActivateUser_def ok_iff)
  then obtain b where b: "find (\<lambda>u. u_ID u = u_ID user \<and> u_Status u = ''pending'') (users (w_db w)) = Some b"
    and ub: "u = b\<lparr>u_Status := ''active'', u_EmailVerifiedAt := Some t, u_RecoveryEnabled := True, u_UpdatedAt := t\<rparr>"
    by (auto simp: ActivateUser_def update_user_def d1)
  have "u \<in> set (users (w_db w'))" using find_Some_ex [OF b] q(2)
    by (simp add: ActivateUser_def update_user_def d1) (rule updated_row [of b], simp_all add: ub)
  then show ?thesis using ok find_Some_ex [OF b] ca q(2)
    by (auto simp: ub UserActive_def created_account_def ActivateUser_def update_user_def d1)
qed

lemma completePasswordReset_step:
  assumes "completePasswordReset s (Tx t) user v h w = (Inr x, w')"
  shows "u_Status user = UserActive \<and> text_of (u_EmailNormalized user) = v_Email v \<and> all_revoked (u_ID user) (w_db w')
    \<and> (\<exists>a \<in> set (accounts (w_db w')). a_UserID a = u_ID user \<and> a_ProviderID a = CredentialProvider
         \<and> a_PasswordHash a = Some h \<and> a_RevokedAt a = None)
    \<and> auth_verifications (w_db w') = auth_verifications (w_db w)"
proof -
  let ?cx = "sv_env s"
  obtain a w1 n w2 where ok: "u_Status user = UserActive" "text_of (u_EmailNormalized user) = v_Email v"
    and a: "query ?cx (Tx t) (GetPasswordAccount (u_ID user)) w = (Inr a, w1)"
    and c: "store_ChangePassword ?cx (Tx t) (a_ID a) (u_ID user) (Some h) w1 = (Inr n, w2)"
    and i: "invalidate ?cx (Tx t) (u_ID user) w2 = (Inr x, w')"
    using assms unfolding completePasswordReset_def Let_def bindA_ok require_ok on_error_ok by blast
  have d': "w_db w' = snd (RevokeUserSessions (u_ID user) t (snd (BumpUserVersion (u_ID user) t (w_db w2))))"
    using invalidate_step [OF i] .
  have a': "a \<in> set (accounts (w_db w))" "a_UserID a = u_ID user" "a_ProviderID a = ''credential''" "a_RevokedAt a = None"
    "w_db w1 = w_db w"
    using a by (auto simp: query_tx_ok GetPasswordAccount_def dest!: find_Some_ex)
  have d2: "w_db w2 = snd (ChangePassword (a_ID a) (u_ID user) (Some h) t (w_db w))"
    using c a'(5) by (auto simp: store_ChangePassword_def ok_iff)
  have "a\<lparr>a_PasswordHash := Some h, a_Version := a_Version a + 1, a_UpdatedAt := t\<rparr> \<in> set (accounts (w_db w2))"
    unfolding d2 ChangePassword_def update_account_def by simp (rule updated_row [of a], simp_all add: a')
  moreover have "accounts (w_db w') = accounts (w_db w2)" "auth_verifications (w_db w') = auth_verifications (w_db w)"
    unfolding d' RevokeUserSessions_def BumpUserVersion_def by (simp_all add: d2 ChangePassword_def update_account_def)
  moreover have "all_revoked (u_ID user) (w_db w')" unfolding d' by (rule RevokeUserSessions_all)
  ultimately show ?thesis using ok a'(2-4)
    by (intro conjI bexI [of _ "a\<lparr>a_PasswordHash := Some h, a_Version := a_Version a + 1, a_UpdatedAt := t\<rparr>"])
      (simp_all add: CredentialProvider_def)
qed

lemma completeEmailChange_step:
  assumes "completeEmailChange s (Tx t) user v w = (Inr x, w')"
  shows "all_revoked (u_ID user) (w_db w') \<and> auth_verifications (w_db w') = auth_verifications (w_db w)
    \<and> (\<exists>u \<in> set (users (w_db w')). u_ID u = u_ID user \<and> u_Status u = UserActive
         \<and> u_EmailNormalized u = Some (v_Email v) \<and> u_EmailVerifiedAt u \<noteq> None)"
proof -
  let ?cx = "sv_env s"
  obtain sid rid where ids: "v_SessionID v = Some sid" "v_ReauthenticationID v = Some rid"
    using assms unfolding completeEmailChange_def Let_def by (auto simp: fail_ok split: option.splits)
  let ?req = "\<lparr>UserID = u_ID user, rq_SessionID = sid, RequestID = '''', ClientIP = ''''\<rparr>"
  obtain x1 w1 p w2 w3 w4 u w5 w6 where
      q: "query ?cx (Tx t) (GetValidSession sid (u_ID user)) w = (Inr x1, w1)"
    and a: "authorization s (Tx t) ?req rid OperationChangeEmail (v_Email v) (Some (v_ID v)) w1 = (Inr p, w2)"
    and f: "finishAuthorization ?cx (Tx t) p w2 = (Inr (), w3)"
    and r: "store_ReleasePendingEmail ?cx (Tx t) (v_Email v) w3 = (Inr (), w4)"
    and u: "store_UpdateUserEmail ?cx (Tx t) (u_ID user) (Some (v_Email v)) (Some (v_Email v)) w4 = (Inr u, w5)"
    and k: "store_RevokeUserSessions ?cx (Tx t) (u_ID user) w5 = (Inr (), w6)"
    and n: "enqueueSecurityNotification ?cx (Tx t) user emailChangedNotification w6 = (Inr x, w')"
    using assms ids unfolding completeEmailChange_def Let_def by (auto simp: bindA_ok on_error_ok)
  have d3: "auth_verifications (w_db w3) = auth_verifications (w_db w)"
    using q authorization_step [OF a] finishAuthorization_step [OF f]
    by (simp add: query_tx_ok FinishFlow_def update_flow_def)
  have d4: "auth_verifications (w_db w4) = auth_verifications (w_db w3)"
    using r by (auto simp: store_ReleasePendingEmail_def ok_iff ReleasePendingEmail_def)
  have u5: "fst (UpdateUserEmail (u_ID user) (Some (v_Email v)) (Some (v_Email v)) t (w_db w4)) = Inr u"
    "w_db w5 = snd (UpdateUserEmail (u_ID user) (Some (v_Email v)) (Some (v_Email v)) t (w_db w4))"
    using u by (auto simp: store_UpdateUserEmail_def ok_iff)
  have d6: "w_db w6 = snd (RevokeUserSessions (u_ID user) t (w_db w5))"
    using k by (auto simp: store_RevokeUserSessions_def query_tx_ok)
  have d': "auth_tables (w_db w') = auth_tables (w_db w6)" using notify_step [OF n] by simp
  have "\<exists>b \<in> set (users (w_db w5)). u_ID b = u_ID user \<and> u_Status b = UserActive
         \<and> u_EmailNormalized b = Some (v_Email v) \<and> u_EmailVerifiedAt b \<noteq> None"
  proof -
    obtain b where b: "find (\<lambda>u. u_ID u = u_ID user \<and> u_Status u = ''active'') (users (w_db w4)) = Some b"
      and ub: "u = b\<lparr>u_Email := Some (v_Email v), u_EmailNormalized := Some (v_Email v), u_EmailVerifiedAt := Some t,
          u_RecoveryEnabled := True, u_AuthVersion := u_AuthVersion b + 1, u_UpdatedAt := t\<rparr>"
      and us: "users (w_db w5) = update_where (\<lambda>u. u_ID u = u_ID user \<and> u_Status u = ''active'')
          (\<lambda>u. u\<lparr>u_Email := Some (v_Email v), u_EmailNormalized := Some (v_Email v), u_EmailVerifiedAt := Some t,
             u_RecoveryEnabled := True, u_AuthVersion := u_AuthVersion u + 1, u_UpdatedAt := t\<rparr>) (users (w_db w4))"
      using u5 unfolding UpdateUserEmail_def Let_def
      by (auto simp: update_user_def unique_violation_def split: if_splits option.splits)
    have "u \<in> set (users (w_db w5))" unfolding us using find_Some_ex [OF b] by (intro updated_row [of b]) (simp_all add: ub)
    then show ?thesis using find_Some_ex [OF b] by (intro bexI [of _ u]) (simp_all add: ub UserActive_def)
  qed
  moreover have "auth_verifications (w_db w5) = auth_verifications (w_db w4)"
    unfolding u5(2) by (simp add: UpdateUserEmail_def update_user_def unique_violation_def Let_def)
  moreover have "all_revoked (u_ID user) (w_db w6)" unfolding d6 by (rule RevokeUserSessions_all)
  moreover have "users (w_db w6) = users (w_db w5)" "auth_verifications (w_db w6) = auth_verifications (w_db w5)"
    unfolding d6 by (simp_all add: RevokeUserSessions_def)
  ultimately show ?thesis using d' d3 d4 by (simp add: all_revoked_def)
qed

text \<open>What a completed challenge leaves, by purpose.\<close>

definition challenge_done :: "string \<Rightarrow> verification_row \<Rightarrow> string \<Rightarrow> db \<Rightarrow> bool" where
  "challenge_done purpose v h d \<longleftrightarrow>
     (purpose = VerifyRegister \<longrightarrow>
        (\<exists>u \<in> set (users d). u_ID u = v_UserID v \<and> u_Status u = UserActive \<and> u_EmailVerifiedAt u \<noteq> None)
        \<and> (\<exists>a \<in> set (accounts d). a_UserID a = v_UserID v \<and> a_ProviderID a = CredentialProvider
             \<and> a_PasswordHash a = Some h \<and> a_RevokedAt a = None))
     \<and> (purpose = VerifyResetPassword \<longrightarrow>
        all_revoked (v_UserID v) d
        \<and> (\<exists>a \<in> set (accounts d). a_UserID a = v_UserID v \<and> a_ProviderID a = CredentialProvider
             \<and> a_PasswordHash a = Some h \<and> a_RevokedAt a = None))
     \<and> (purpose = VerifyChangeEmail \<longrightarrow>
        all_revoked (v_UserID v) d
        \<and> (\<exists>u \<in> set (users d). u_ID u = v_UserID v \<and> u_Status u = UserActive
             \<and> u_EmailNormalized u = Some (v_Email v) \<and> u_EmailVerifiedAt u \<noteq> None))"

lemma complete_challenge_step:
  assumes "complete_challenge s (Tx t) purpose user v h w = (Inr (u, msg), w')" and "u_ID user = v_UserID v"
  shows "challenge_done purpose v h (w_db w') \<and> u_ID u = v_UserID v \<and> VerificationPurpose_Valid purpose
    \<and> auth_verifications (w_db w') = auth_verifications (w_db w)"
  using assms unfolding complete_challenge_def challenge_done_def
  by (auto simp: bindA_ok ret_ok fail_ok verify_purpose_defs VerificationPurpose_Valid_def split: if_splits
      dest!: completeRegistration_step completePasswordReset_step completeEmailChange_step)

lemma verify_tx_step:
  assumes "verify_tx s r input v h (Tx t) w = (Inr x, w')"
  shows "challenge_done (vf_Purpose input) v h (w_db w')
    \<and> fst (ConsumeVerification (v_ID v) (v_UserID v) t (w_db w)) = Inr 1
    \<and> auth_verifications (w_db w') = auth_verifications (snd (ConsumeVerification (v_ID v) (v_UserID v) t (w_db w)))"
proof -
  let ?cx = "sv_env s"
  obtain l w1 u msg w2 w3 w4 w5 e where
      l: "query ?cx (Tx t) (LockUser (v_UserID v)) w = (Inr l, w1)"
    and c: "complete_challenge s (Tx t) (vf_Purpose input) l v h w1 = (Inr (u, msg), w2)"
    and k: "consumeVerification ?cx (Tx t) (v_ID v) (u_ID u) w2 = (Inr (), w3)"
    and n: "(if msg \<noteq> '''' then enqueueSecurityNotification ?cx (Tx t) u msg else ret ()) w3 = (Inr (), w4)"
    and w5: "w5 = w4\<lparr>w_var := u_ID u\<rparr>" and au: "audit ?cx (Tx t) (r\<lparr>UserID := u_ID u\<rparr>) e w5 = (Inr x, w')"
    using assms unfolding verify_tx_def Let_def by (auto simp: bindA_ok require_ok var_ok)
  have l': "u_ID l = v_UserID v" "w_db w1 = w_db w" using l by (auto simp: query_tx_ok LockUser_def dest!: find_Some_ex)
  note cc = complete_challenge_step [OF c l'(1)]
  have cv: "fst (ConsumeVerification (v_ID v) (v_UserID v) t (w_db w2)) = Inr 1"
    "w_db w3 = snd (ConsumeVerification (v_ID v) (v_UserID v) t (w_db w2))"
    using transition_count k cc unfolding consumeVerification_def by metis+
  have "auth_tables (w_db w4) = auth_tables (w_db w3)"
    using n notify_step [of ?cx t u msg w3] by (auto simp: ret_ok split: if_splits)
  then have tabs: "auth_tables (w_db w') = auth_tables (w_db w3)"
    using audit_step [OF au] by (simp add: w5)
  have "challenge_done (vf_Purpose input) v h (w_db w3)"
    using cc cv(2) by (simp add: challenge_done_def all_revoked_def ConsumeVerification_def Let_def)
  then show ?thesis using tabs cc l'(2) cv
    by (simp add: challenge_done_def all_revoked_def ConsumeVerification_def Let_def)
qed

lemma VerifyChallenge_ok:
  assumes "VerifyChallenge s r token input w = (Inr x, w')"
  shows "\<exists>v h n w1 w2 w3. limit s ''verify.ip'' (ClientIP r) ipRequestLimit ipRateWindow (w\<lparr>w_var := UserID r\<rparr>) = (Inr (), w1)
    \<and> query (sv_env s) Pool (FindVerification (e_sha256 (sv_env s) token)) w1 = (Inr v, w2)
    \<and> v_Purpose v = vf_Purpose input
    \<and> (vf_Purpose input \<in> {VerifyRegister, VerifyResetPassword} \<longrightarrow> d_Validate (sv_deps s) (vf_NewPassword input)
         \<and> d_Hash (sv_deps s) n (vf_NewPassword input) = Inr h)
    \<and> w_db w3 = w_db w2 \<and> in_tx s (verify_tx s r input v h) w3 = (Inr x, w')"
proof -
  let ?cx = "sv_env s"
  have body: "verify_body s r token input (w\<lparr>w_var := UserID r\<rparr>) = (Inr x, w')"
    using assms unfolding VerifyChallenge_def
    by (cases "verify_body s r token input (w\<lparr>w_var := UserID r\<rparr>)")
      (auto simp: attempt_def bindA_ok var_ok fail_ok ret_ok split: sum.splits)
  obtain w1 hash v w2 h w3 where
      l: "limit s ''verify.ip'' (ClientIP r) ipRequestLimit ipRateWindow (w\<lparr>w_var := UserID r\<rparr>) = (Inr (), w1)"
    and t: "TokenDigest (e_sha256 ?cx) token ChallengePrefix = Inr hash"
    and q: "query ?cx Pool (FindVerification hash) w1 = (Inr v, w2)" and p: "v_Purpose v = vf_Purpose input"
    and h: "challenge_password s input w2 = (Inr h, w3)" and tx: "in_tx s (verify_tx s r input v h) w3 = (Inr x, w')"
    using body unfolding verify_body_def Let_def
    by (auto simp: bindA_ok on_error_ok from_sum_ok require_ok)
  have "hash = e_sha256 ?cx token" using TokenDigest_ok [OF t] by simp
  moreover have "(vf_Purpose input \<in> {VerifyRegister, VerifyResetPassword} \<longrightarrow> d_Validate (sv_deps s) (vf_NewPassword input)
         \<and> d_Hash (sv_deps s) (w_seed w2) (vf_NewPassword input) = Inr h) \<and> w_db w3 = w_db w2"
    using h by (auto simp: challenge_password_def bindA_ok require_ok call_dep_ok ret_ok fail_ok split: if_splits)
  ultimately show ?thesis using l q p tx by blast
qed

lemma verification_le_fields:
  assumes "verification_le v v'"
  shows "v_TokenHash v' = v_TokenHash v" "v_ID v' = v_ID v" "v_UserID v' = v_UserID v" "v_Email v' = v_Email v"
    "v_Purpose v' = v_Purpose v"
proof -
  have same: "v'\<lparr>v_ConsumedAt := None\<rparr> = v\<lparr>v_ConsumedAt := None\<rparr>" using assms by (simp add: verification_le_def)
  show "v_TokenHash v' = v_TokenHash v" "v_ID v' = v_ID v" "v_UserID v' = v_UserID v" "v_Email v' = v_Email v"
    "v_Purpose v' = v_Purpose v"
    using arg_cong [OF same, of v_ID] arg_cong [OF same, of v_UserID] arg_cong [OF same, of v_Email]
      arg_cong [OF same, of v_TokenHash] arg_cong [OF same, of v_Purpose]
    by simp_all
qed

lemma counted: "count_where p xs \<noteq> 0 \<Longrightarrow> \<exists>x \<in> set xs. p x"
  by (auto simp: count_where_def filter_empty_conv)

lemma consumed_row:
  assumes "fst (ConsumeVerification i u t d) = Inr 1" and "auth_verifications d' = auth_verifications (snd (ConsumeVerification i u t d))"
  shows "\<exists>y \<in> set (auth_verifications d'). v_ID y = i \<and> v_ConsumedAt y \<noteq> None"
proof -
  let ?p = "\<lambda>v. v_ID v = i \<and> v_UserID v = u \<and> v_ConsumedAt v = None \<and> v_ExpiresAt v > t"
  have "count_where ?p (auth_verifications d) = 1" using assms(1) by (simp add: ConsumeVerification_def Let_def)
  then obtain x where x: "x \<in> set (auth_verifications d)" "?p x"
    using counted [of ?p "auth_verifications d"] by auto
  then have "x\<lparr>v_ConsumedAt := Some t\<rparr> \<in> set (auth_verifications d')"
    unfolding assms(2) ConsumeVerification_def Let_def by simp (rule updated_row [of x], simp_all)
  then show ?thesis using x(2) by (intro bexI [of _ "x\<lparr>v_ConsumedAt := Some t\<rparr>"]) simp_all
qed

text \<open>The notifications are acceptable mails.\<close>

lemma notification_body:
  assumes "list_all (\<lambda>c. valid_rune c \<and> 0x80 \<le> c) cs" and "length cs \<le> 1000"
  shows "validBytes (''<p>'' @ EscapeString (utf8 cs) @ ''</p>'') maxMailBodyBytes"
proof -
  let ?all = "[60, 112, 62] @ cs @ [60, 47, 112, 62]"
  have v: "list_all valid_rune ?all" using assms(1) by (simp add: list_all_iff valid_rune_def)
  have e: "''<p>'' @ EscapeString (utf8 cs) @ ''</p>'' = utf8 ?all"
    unfolding EscapeString_utf8 [OF assms(1)] by (simp add: utf8_def of_bytes_def encode_rune_def char_of_def bit_0)
  have "0 \<notin> set (concat (map encode_rune ?all))"
    using assms(1) encode_rune_bounds(3) by (fastforce simp: list_all_iff encode_rune_def)
  then have "\<not> ContainsByte (utf8 ?all) 0" unfolding ContainsByte_def bytes_utf8 [OF v] .
  moreover have "length (utf8 ?all) \<le> maxMailBodyBytes"
    using length_utf8 [OF v] assms(2) by (simp add: maxMailBodyBytes_def push_bit_eq_mult)
  moreover have "utf8 ?all \<noteq> []" by (simp add: utf8_def of_bytes_def encode_rune_def)
  ultimately show ?thesis unfolding e validBytes_def using ValidString_utf8 [OF v] by blast
qed

lemma registration_body: "validBytes (''<p>'' @ EscapeString registrationCompletedNotification @ ''</p>'') maxMailBodyBytes"
  unfolding registrationCompletedNotification_def by (rule notification_body) (simp_all add: valid_rune_def)
subsection \<open>Challenges as a whole\<close>

lemma challenge_consumed:
  assumes "VerifyChallenge s r token input w = (Inr x, w')" and "accounts_ok (w_db w)"
    and "rely (keeps accounts_ok) (sv_env s)" and "rely account_evolves (sv_env s)"
  shows "\<exists>v h n. v \<in> set (auth_verifications (w_db w')) \<and> v_TokenHash v = e_sha256 (sv_env s) token
    \<and> v_ConsumedAt v \<noteq> None \<and> v_Purpose v = vf_Purpose input
    \<and> (vf_Purpose input \<in> {VerifyRegister, VerifyResetPassword} \<longrightarrow> d_Validate (sv_deps s) (vf_NewPassword input)
         \<and> d_Hash (sv_deps s) n (vf_NewPassword input) = Inr h)
    \<and> challenge_done (vf_Purpose input) v h (w_db w')"
proof -
  let ?cx = "sv_env s"
  obtain v h n w1 w2 w3 where q: "query ?cx Pool (FindVerification (e_sha256 ?cx token)) w1 = (Inr v, w2)"
    and p: "v_Purpose v = vf_Purpose input" and d3: "w_db w3 = w_db w2"
    and h: "vf_Purpose input \<in> {VerifyRegister, VerifyResetPassword} \<longrightarrow> d_Validate (sv_deps s) (vf_NewPassword input)
         \<and> d_Hash (sv_deps s) n (vf_NewPassword input) = Inr h"
    and tx: "in_tx s (verify_tx s r input v h) w3 = (Inr x, w')"
    using VerifyChallenge_ok [OF assms(1)] by blast
  obtain t w4 w5 where b: "verify_tx s r input v h (Tx t) w4 = (Inr x, w5)" and d5: "w_db w' = w_db w5"
    using in_tx_ok [OF tx] by blast
  note st = verify_tx_step [OF b]
  have v: "v \<in> set (auth_verifications (w_db w3))" "v_TokenHash v = e_sha256 ?cx token"
    using q d3 by (auto simp: query_pool_ok FindVerification_def dest!: find_Some_ex)
  have "guarantees account_evolves (in_tx s (verify_tx s r input v h))"
    by (rule ae.g_in_tx [OF assms(4) ae.g_verify_tx [OF assms(4)]])
  then have "account_evolves (w_db w3) (w_db w')" using tx by (rule guaranteesD)
  then obtain v' where v': "v' \<in> set (auth_verifications (w_db w'))" "verification_le v v'"
    using grows_set v(1) unfolding account_evolves_def by metis
  note eq = verification_le_fields [OF v'(2)]
  have "keeps accounts_ok (w_db w) (w_db w')" using ai.g_VerifyChallenge [OF assms(3)] assms(1) by (rule guaranteesD)
  then have "inj_on v_ID (set (auth_verifications (w_db w')))"
    using accounts_ok_tables(5) assms(2) by (auto simp: keeps_def verifications_ok_def distinct_map)
  moreover obtain y where y: "y \<in> set (auth_verifications (w_db w'))" "v_ID y = v_ID v" "v_ConsumedAt y \<noteq> None"
    using st consumed_row d5 by metis
  ultimately have "v' = y" using v'(1) eq(2) by (metis inj_onD)
  then show ?thesis using v' eq v p h y(3) st d5
    by (intro exI [of _ v'] exI [of _ h] exI [of _ n]) (simp add: challenge_done_def)
qed
text \<open>
  C10.  Completing a challenge does what its purpose says, and spends it: the token names a stored
  challenge of that purpose which is consumed now; a registration leaves the user active and verified
  with an unrevoked password account; a reset replaces the password and ends every session; a change
  of address leaves the active user with the verified new address and ends every session.  The stored
  hash is that of the new password, which passed validation.
\<close>

theorem challenge_effect:
  assumes "VerifyChallenge s r token input w = (Inr (), w')" and "accounts_ok (w_db w)"
    and "rely (keeps accounts_ok) (sv_env s)" and "rely account_evolves (sv_env s)"
  shows "\<exists>v h n. v \<in> set (auth_verifications (w_db w')) \<and> v_TokenHash v = e_sha256 (sv_env s) token
    \<and> v_ConsumedAt v \<noteq> None \<and> v_Purpose v = vf_Purpose input
    \<and> (vf_Purpose input \<in> {VerifyRegister, VerifyResetPassword} \<longrightarrow> d_Validate (sv_deps s) (vf_NewPassword input)
         \<and> d_Hash (sv_deps s) n (vf_NewPassword input) = Inr h)
    \<and> challenge_done (vf_Purpose input) v h (w_db w')"
  using assms by (rule challenge_consumed)

text \<open>
  C9.  A challenge is accepted once: after a success no call with the same token succeeds, whatever
  calls come in between, whoever makes them and whatever fails.
\<close>

theorem challenge_single_use:
  assumes "VerifyChallenge s r token input w = (Inr (), w1)" and "accounts_ok (w_db w)" and "wired s"
    and "rely (keeps accounts_ok) (sv_env s)" and "rely account_evolves (sv_env s)"
    and "account_run s w1 w2"
  shows "\<nexists>w3. VerifyChallenge s r' token input' w2 = (Inr (), w3)"
proof
  let ?cx = "sv_env s"
  assume "\<exists>w3. VerifyChallenge s r' token input' w2 = (Inr (), w3)"
  then obtain v' w3 w4 w5 where
      l: "limit s ''verify.ip'' (ClientIP r') ipRequestLimit ipRateWindow (w2\<lparr>w_var := UserID r'\<rparr>) = (Inr (), w4)"
    and q: "query ?cx Pool (FindVerification (e_sha256 ?cx token)) w4 = (Inr v', w5)"
    using VerifyChallenge_ok by blast
  obtain v where v: "v \<in> set (auth_verifications (w_db w1))" "v_TokenHash v = e_sha256 ?cx token" "v_ConsumedAt v \<noteq> None"
    using challenge_consumed [OF assms(1,2,4,5)] by blast
  have rely: "rely account_moves ?cx" using assms(4,5) by (simp add: account_moves_both)
  have m0: "account_moves (w_db w) (w_db w1)" using am.g_VerifyChallenge [OF rely] assms(1) by (rule guaranteesD)
  have m1: "account_moves (w_db w1) (w_db w2)" by (rule account_run_moves [OF assms(6,3) rely])
  have m2: "account_moves (w_db w2) (w_db w4)" using guaranteesD [OF am.g_limit [OF rely] l] by simp
  have m3: "account_moves (w_db w4) (w_db w5)" using am.g_read [OF rely reads_keep(15)] q by (rule guaranteesD)
  note m = am.R_trans [OF m1 am.R_trans [OF m2 m3]]
  have ok: "accounts_ok (w_db w5)" using am.R_trans [OF m0 m] assms(2) by (simp add: account_moves_def keeps_def)
  obtain y where y: "y \<in> set (auth_verifications (w_db w5))" "verification_le v y"
    using grows_set v(1) m unfolding account_moves_def account_evolves_def by metis
  have vq: "v' \<in> set (auth_verifications (w_db w5))" "v_TokenHash v' = e_sha256 ?cx token" "v_ConsumedAt v' = None"
    using q by (auto simp: query_pool_ok FindVerification_def dest!: find_Some_ex)
  have "v_TokenHash y = v_TokenHash v" by (rule verification_le_fields [OF y(2)])
  moreover have "inj_on v_TokenHash (set (auth_verifications (w_db w5)))"
    using accounts_ok_tables(5) [OF ok] by (simp add: verifications_ok_def distinct_map)
  ultimately have "y = v'" using y(1) vq(1,2) v(2) by (metis inj_onD)
  then show False using vq(3) y(2) v(3) by (simp add: verification_le_def)
qed

text \<open>The example: carol completes her registration.\<close>

definition challenge_token :: string where
  "challenge_token = fst (NewToken (e_sha256 quiet) (replicate 32 (CHR ''k'')) ChallengePrefix)"

lemma challenge_token_digest: "TokenDigest (e_sha256 quiet) challenge_token ChallengePrefix = Inr (e_sha256 quiet challenge_token)"
  using TokenDigest_NewToken [of "replicate 32 (CHR ''k'')" "e_sha256 quiet" ChallengePrefix]
  by (simp add: challenge_token_def tokenEntropyBytes_def NewToken_def Digest_def Let_def)

definition carol :: user_row where
  "carol = (new_user ''carol'' 0)\<lparr>u_Email := Some ''c@x'', u_EmailNormalized := Some ''c@x''\<rparr>"

definition carol_challenge :: verification_row where
  "carol_challenge = \<lparr>v_ID = ''v1'', v_UserID = ''carol'', v_Purpose = VerifyRegister,
     v_TokenHash = e_sha256 quiet challenge_token, v_Email = ''c@x'', v_AuthVersion = 1, v_SessionID = None,
     v_ReauthenticationID = None, v_CreatedAt = 0, v_ExpiresAt = hour, v_ConsumedAt = None\<rparr>"

definition registration_db :: db where
  "registration_db = empty_db\<lparr>users := [carol], auth_verifications := [carol_challenge]\<rparr>"

definition registration :: Verification where
  "registration = \<lparr>vf_Purpose = VerifyRegister, vf_NewPassword = ''pass''\<rparr>"

lemma email_c: "normalizeEmail quiet ''c@x'' = Inr ''c@x''"
  by (simp add: normalizeEmail_def text_eval maxEmailBytes_def Email_def ToLower_lower lower_byte_def ContainsByte_def bytes_def)

lemma registration_db_ok: "accounts_ok registration_db"
  by (auto simp: accounts_ok_def users_ok_def live_accounts_ok_def sessions_ok_def flows_ok_def verifications_ok_def
      audit_ok_def rates_ok_def mail_ok_def references_ok_def empty_db_def user_row_simps new_user_def sha256_Size_def
      VerificationPurpose_Valid_def count_where_def registration_db_def carol_def carol_challenge_def simp del: quiet_simps(7))

lemma registration_account: "valid_account \<lparr>ca_UserID = ''carol'', ca_ProviderID = CredentialProvider,
    ca_ProviderAccountID = ''carol'', ca_ProviderNamespace = LocalNamespace, ca_PasswordHash = Some ''#pass''\<rparr>"
  by (simp add: valid_account_def text_eval validBytes_def provider_defs maxProviderIDRunes_def TextWithin_def ContainsByte_def bytes_def
     maxProviderSubjectBytes_def maxProviderNamespaceBytes_def RuneCountInString_def)

lemma registration_kind: "validBytes SecurityNotificationKind maxMailKindBytes" "validBytes securityNotificationSubject maxMailSubjectBytes"
  by (simp_all add: validBytes_def SecurityNotificationKind_def securityNotificationSubject_def text_eval ContainsByte_def bytes_def
     maxMailKindBytes_def maxMailSubjectBytes_def)

lemma example_verify_limit:
  "\<exists>w'. limit quiet_service ''verify.ip'' ''ip'' ipRequestLimit ipRateWindow ((start registration_db)\<lparr>w_var := ''''\<rparr>) = (Inr (), w')
     \<and> w_step w' = 1 \<and> w_seed w' = 0 \<and> users (w_db w') = [carol] \<and> accounts (w_db w') = [] \<and> audit_events (w_db w') = []
     \<and> auth_verifications (w_db w') = [carol_challenge] \<and> mail_outbox (w_db w') = []"
  by (simp add: run_defs limit_defs registration_db_def empty_db_def)

lemma example_verify:
  "\<exists>w'. VerifyChallenge quiet_service guest challenge_token registration (start registration_db) = (Inr (), w')
     \<and> auth_verifications (w_db w') = [carol_challenge\<lparr>v_ConsumedAt := Some (2 * second)\<rparr>]"
proof -
  obtain w1 where w1: "limit quiet_service ''verify.ip'' ''ip'' ipRequestLimit ipRateWindow ((start registration_db)\<lparr>w_var := ''''\<rparr>) = (Inr (), w1)"
    "w_step w1 = 1" "w_seed w1 = 0" "users (w_db w1) = [carol]" "accounts (w_db w1) = []" "audit_events (w_db w1) = []"
    "auth_verifications (w_db w1) = [carol_challenge]" "mail_outbox (w_db w1) = []"
    using example_verify_limit by blast
  show ?thesis
    by (simp add: VerifyChallenge_def verify_body_def verify_tx_def complete_challenge_def completeRegistration_def challenge_password_def
      set_var_def get_var_def registration_def challenge_token_digest FindVerification_def carol_challenge_def
      store_defs verify_purpose_defs call_dep_def quiet_deps_def
      AppendAudit_def in_tx_def LockUser_def on_error_def w1 text_of_def sha256_Size_def Seconds_def audit_def CreateAccount_def GetUser_def ActivateUser_def update_user_def validEmailPair_def transitionResult_def ConsumeVerification_def enqueueSecurityNotification_def valid_mail_def EnqueueMail_def zero_time_def registration_kind securityNotificationTTL_def count_where_def
      registration_body [simplified] registration_account email_c run_defs carol_def new_user_def text_eval audit_eval status_defs
      minute_def second_def hour_def del: quiet_simps(7) start_def)
qed
theorem challenge_effect_witness:
  "\<exists>w' u. VerifyChallenge quiet_service guest challenge_token registration (start registration_db) = (Inr (), w')
     \<and> u \<in> set (users (w_db w')) \<and> u_ID u = ''carol'' \<and> u_Status u = UserActive \<and> u_EmailVerifiedAt u \<noteq> None"
proof -
  obtain w' where v: "VerifyChallenge quiet_service guest challenge_token registration (start registration_db) = (Inr (), w')"
    and vs: "auth_verifications (w_db w') = [carol_challenge\<lparr>v_ConsumedAt := Some (2 * second)\<rparr>]"
    using example_verify by blast
  have pre: "accounts_ok (w_db (start registration_db))" "rely (keeps accounts_ok) (sv_env quiet_service)"
      "rely account_evolves (sv_env quiet_service)"
    using registration_db_ok quiet_relies by (simp_all add: start_def)
  show ?thesis using challenge_effect [OF v pre] v vs
    by (auto simp: challenge_done_def registration_def carol_challenge_def)
qed

theorem challenge_single_use_witness:
  "\<exists>w1. VerifyChallenge quiet_service guest challenge_token registration (start registration_db) = (Inr (), w1)
     \<and> (\<nexists>w3. VerifyChallenge quiet_service guest challenge_token registration w1 = (Inr (), w3))"
proof -
  obtain w1 where v: "VerifyChallenge quiet_service guest challenge_token registration (start registration_db) = (Inr (), w1)"
    using example_verify by blast
  have pre: "accounts_ok (w_db (start registration_db))" "rely (keeps accounts_ok) (sv_env quiet_service)"
      "rely account_evolves (sv_env quiet_service)"
    using registration_db_ok quiet_relies by (simp_all add: start_def)
  show ?thesis using challenge_single_use [OF v pre(1) wired_quiet pre(2,3) run_refl] v by blast
qed
end
