(* ===== verification/Account_Security.thy ===== *)
theory Account_Security
  imports Account_Challenges
begin

text \<open>
  The sensitive operations of the account service: unlinking an account, administration, and what a
  failed operation leaves behind.
\<close>

subsection \<open>Unlinking\<close>

lemma finished_row:
  assumes "fst (FinishFlow i st t d) = Inr 1"
  shows "\<exists>f \<in> set (auth_flows (snd (FinishFlow i st t d))). f_ID f = i \<and> f_Status f = FlowConsumed"
proof -
  let ?p = "\<lambda>f. f_ID f = i \<and> f_Status f = st \<and> f_ExpiresAt f > t"
  have "count_where ?p (auth_flows d) = 1" using assms by (simp add: FinishFlow_def update_flow_def)
  then obtain x where x: "x \<in> set (auth_flows d)" "?p x" using counted [of ?p "auth_flows d"] by auto
  then have "x\<lparr>f_Status := ''consumed'', f_ProtocolState := None\<rparr> \<in> set (auth_flows (snd (FinishFlow i st t d)))"
    unfolding FinishFlow_def update_flow_def by simp (rule updated_row [of x], simp_all)
  then show ?thesis using x(2)
    by (intro bexI [of _ "x\<lparr>f_Status := ''consumed'', f_ProtocolState := None\<rparr>"]) (simp_all add: FlowConsumed_def)
qed

definition unlinked :: "Service \<Rightarrow> string \<Rightarrow> string \<Rightarrow> string \<Rightarrow> db \<Rightarrow> bool" where
  "unlinked s u i reauth d \<longleftrightarrow>
     (\<forall>a \<in> set (accounts d). a_ID a = i \<and> a_UserID a = u \<longrightarrow> a_RevokedAt a \<noteq> None)
     \<and> (\<exists>b \<in> set (accounts d). a_UserID b = u \<and> a_ID b \<noteq> i \<and> a_RevokedAt b = None \<and> accountEnabled s b)
     \<and> (\<exists>f \<in> set (auth_flows d). f_ID f = reauth \<and> f_Status f = FlowConsumed) \<and> all_revoked u d"

lemma RevokeAccount_effect:
  assumes "b \<in> set (accounts d)" and "a_ID b \<noteq> i"
  shows "b \<in> set (accounts (snd (RevokeAccount i u t d)))"
    and "\<forall>a \<in> set (accounts (snd (RevokeAccount i u t d))). a_ID a = i \<and> a_UserID a = u \<longrightarrow> a_RevokedAt a \<noteq> None"
proof -
  let ?p = "\<lambda>a. a_ID a = i \<and> a_UserID a = u \<and> a_RevokedAt a = None"
  let ?f = "\<lambda>a. a\<lparr>a_RevokedAt := Some t, a_Version := a_Version a + 1, a_UpdatedAt := t\<rparr>"
  have e: "accounts (snd (RevokeAccount i u t d)) = map (\<lambda>a. if ?p a then ?f a else a) (accounts d)"
    by (simp add: RevokeAccount_def update_account_def update_where_def)
  show "b \<in> set (accounts (snd (RevokeAccount i u t d)))"
    unfolding e set_map by (rule image_eqI [OF _ assms(1)]) (simp add: assms(2))
  show "\<forall>a \<in> set (accounts (snd (RevokeAccount i u t d))). a_ID a = i \<and> a_UserID a = u \<longrightarrow> a_RevokedAt a \<noteq> None"
    unfolding e set_map by (auto simp del: if_image_distrib)
qed

lemma unlink_tx_step:
  assumes "unlink_tx s r i reauth (Tx t) w = (Inr x, w')"
  shows "\<exists>p. proof_valid s t (w_db w) r reauth OperationUnlinkAccount i None p \<and> f_AccountID p \<noteq> Some i
    \<and> (\<exists>a \<in> set (accounts (w_db w)). a_ID a = i \<and> a_UserID a = UserID r \<and> a_RevokedAt a = None)
    \<and> unlinked s (UserID r) i reauth (w_db w')"
proof -
  let ?cx = "sv_env s" and ?u = "UserID r"
  obtain user x1 w1 account w2 p w3 rows w4 row n w5 w6 w7 w8 e where
      l: "lockSelf ?cx (Tx t) r w = (Inr (user, x1), w1)"
    and a: "query ?cx (Tx t) (GetAccount i (u_ID user)) w1 = (Inr account, w2)"
    and p: "authorization s (Tx t) r reauth OperationUnlinkAccount i None w2 = (Inr p, w3)"
    and pa: "f_AccountID p \<noteq> None" "f_AccountID p \<noteq> Some i"
    and li: "query ?cx (Tx t) (ListAccounts (e_collate ?cx) (u_ID user)) w3 = (Inr rows, w4)"
    and c: "row \<in> set rows" "a_ID row \<noteq> i" "accountEnabled s row"
    and k: "store_RevokeAccount ?cx (Tx t) i (u_ID user) w4 = (Inr n, w5)"
    and f: "finishAuthorization ?cx (Tx t) p w5 = (Inr (), w6)"
    and v: "invalidate ?cx (Tx t) (u_ID user) w6 = (Inr (), w7)"
    and nt: "enqueueSecurityNotification ?cx (Tx t) user accountUnlinkedNotification w7 = (Inr (), w8)"
    and au: "audit ?cx (Tx t) r e w8 = (Inr x, w')"
    using assms unfolding unlink_tx_def Let_def by (auto simp: bindA_ok require_ok)
  have u: "u_ID user = ?u" and d1: "w_db w1 = w_db w" using lockSelf_step [OF l] by auto
  have ac: "account \<in> set (accounts (w_db w))" "a_ID account = i" "a_UserID account = ?u" "a_RevokedAt account = None"
    and d2: "w_db w2 = w_db w"
    using a d1 u by (auto simp: query_tx_ok GetAccount_def dest!: find_Some_ex)
  note pv = authorization_step [OF p, unfolded d2]
  have d4: "w_db w4 = w_db w" and rows: "set rows = {a \<in> set (accounts (w_db w)). a_UserID a = ?u \<and> a_RevokedAt a = None}"
    using li pv u by (auto simp: query_tx_ok ListAccounts_def set_order_by)
  obtain b where b: "b \<in> set (accounts (w_db w))" "a_UserID b = ?u" "a_RevokedAt b = None" "a_ID b \<noteq> i" "accountEnabled s b"
    using c rows by blast
  have d5: "w_db w5 = snd (RevokeAccount i ?u t (w_db w))" using k d4 u by (auto simp: store_RevokeAccount_def query_tx_ok)
  have ff: "fst (FinishFlow (f_ID p) (f_Status p) t (w_db w5)) = Inr 1" and d6: "w_db w6 = snd (FinishFlow (f_ID p) (f_Status p) t (w_db w5))"
    using finishAuthorization_step [OF f] by auto
  have d7: "w_db w7 = snd (RevokeUserSessions ?u t (snd (BumpUserVersion ?u t (w_db w6))))" using invalidate_step [OF v] u by simp
  have tabs: "accounts (w_db w7) = accounts (w_db w5)" "auth_flows (w_db w7) = auth_flows (w_db w6)"
    unfolding d7 d6 by (simp_all add: RevokeUserSessions_def BumpUserVersion_def FinishFlow_def update_flow_def)
  have pid: "f_ID p = reauth" using pv by (simp add: proof_valid_def)
  have "all_revoked ?u (w_db w7)" unfolding d7 by (rule RevokeUserSessions_all)
  moreover have "\<exists>f \<in> set (auth_flows (w_db w7)). f_ID f = reauth \<and> f_Status f = FlowConsumed"
    using finished_row [OF ff] by (simp add: tabs d6 pid)
  ultimately have "unlinked s ?u i reauth (w_db w7)"
    unfolding unlinked_def tabs d5 using RevokeAccount_effect [OF b(1,4)] b by blast
  moreover have "auth_tables (w_db w') = auth_tables (w_db w7)" using notify_step [OF nt] audit_step [OF au] by simp
  ultimately have "unlinked s ?u i reauth (w_db w')" by (simp add: unlinked_def all_revoked_def)
  then show ?thesis using pv pa ac by blast
qed

text \<open>
  C13.  Unlinking is safe: it succeeds only with an unspent proof, made in this session through
  another account, for unlinking exactly this account; afterwards the account is revoked, an enabled
  unrevoked account of the user remains, the proof is spent and every session of the user is ended.
\<close>

theorem unlink_sound:
  assumes "Unlink s r i reauth w = (Inr (), w')"
  shows "\<exists>p. proof_valid s (e_clock (sv_env s) (w_step w)) (seen (sv_env s) w) r reauth OperationUnlinkAccount i None p
    \<and> f_AccountID p \<noteq> Some i
    \<and> (\<exists>a \<in> set (accounts (seen (sv_env s) w)). a_ID a = i \<and> a_UserID a = UserID r \<and> a_RevokedAt a = None)
    \<and> unlinked s (UserID r) i reauth (w_db w')"
proof -
  have tx: "in_tx s (unlink_tx s r i reauth) w = (Inr (), w')"
    using assms unfolding Unlink_def recordFailureOnReturn_ok by (auto simp: bindA_ok require_ok)
  obtain w1 w2 where "w_db w1 = seen (sv_env s) w" "w_db w' = w_db w2"
    "unlink_tx s r i reauth (Tx (e_clock (sv_env s) (w_step w))) w1 = (Inr (), w2)"
    using in_tx_ok [OF tx] by blast
  then show ?thesis using unlink_tx_step by metis
qed


lemma unlink_body: "validBytes (''<p>'' @ EscapeString accountUnlinkedNotification @ ''</p>'') maxMailBodyBytes"
  unfolding accountUnlinkedNotification_def by (rule notification_body) (simp_all add: valid_rune_def)

lemma metadata_length: "length (json_object ''provider'' ''idp'') \<le> 8192"
  by (simp add: json_object_def json_string_def utf8_def of_bytes_def encode_rune_def text_eval)

lemma example_unlink: "\<exists>w'. Unlink quiet_service alice_request ''a2'' ''f1'' (start example_db) = (Inr (), w')"
  by (simp add: Unlink_def unlink_tx_def recordFailureOnReturn_def authorization_def finishAuthorization_def invalidate_def
      lockSelf_def requireSubject_def proof_matches_def accountEnabled_def store_defs GetAccount_def GetFlow_def
      LockUser_def GetUser_def GetValidSession_def ListAccounts_def RevokeAccount_def FinishFlow_def BumpUserVersion_def
      RevokeUserSessions_def update_account_def update_flow_def update_user_def order_by_def
      AppendAudit_def in_tx_def on_error_def text_of_def audit_def transitionResult_def example_proof_def
      enqueueSecurityNotification_def valid_mail_def EnqueueMail_def zero_time_def registration_kind securityNotificationTTL_def
      unlink_body [simplified] email_a run_defs example_defs text_eval audit_eval status_defs provider_defs
      minute_def second_def hour_def count_where_def
      session_valid_def live_session_def flow_status_defs flow_purpose_defs OperationUnlinkAccount_def metadata_length del: quiet_simps(7))


theorem unlink_sound_witness:
  "\<exists>w'. Unlink quiet_service alice_request ''a2'' ''f1'' (start example_db) = (Inr (), w')
     \<and> unlinked quiet_service ''alice'' ''a2'' ''f1'' (w_db w')"
proof -
  obtain w' where u: "Unlink quiet_service alice_request ''a2'' ''f1'' (start example_db) = (Inr (), w')"
    using example_unlink by blast
  show ?thesis using unlink_sound [OF u] u by (auto simp: alice_request_def)
qed

end
