(* ===== verification/App_Api.thy ===== *)
theory App_Api
  imports App_Config Account_Http Password Project Task Account_Security
begin

text \<open>
  The API process: \<^verbatim>\<open>app/api/accounts.go\<close> (the account service over the password hasher and the
  provider registry), \<^verbatim>\<open>wire.go\<close> (the authenticator, the services, the handler), \<^verbatim>\<open>routes.go\<close>
  (the catalogue of routes) and the readiness of \<^verbatim>\<open>server.go\<close>.  Reading a file and decoding the
  provider list are parameters.  The \<open>n\<close>-th call of a dependency runs under the context \<open>calls n\<close>.
\<close>

subsection \<open>accounts.go\<close>

definition passwordHashConcurrency :: int where
  "passwordHashConcurrency = 4"

definition mapProviderError :: "goerr \<Rightarrow> goerr" where
  "mapProviderError err =
     (if errors_is err (Sentinel FederationErrProof) then Business ErrCredentials
      else if errors_is err (Sentinel FederationErrUnavailable) then Wrapped '': '' [Business ErrUnavailable, err]
      else err)"

definition adapter_Start ::
  "oauth \<Rightarrow> registry \<Rightarrow> (nat \<Rightarrow> goerr option) \<Rightarrow> string \<Rightarrow> string \<Rightarrow> string \<Rightarrow> goerr + string \<times> string" where
  "adapter_Start ox r cerr i state verifier = map_sum mapProviderError (\<lambda>x. x) (registry_Start ox r cerr i state verifier)"

definition adapter_Verify ::
  "oauth \<Rightarrow> registry \<Rightarrow> nat \<Rightarrow> (nat \<Rightarrow> goerr option) \<Rightarrow> string \<Rightarrow> string \<Rightarrow> string \<Rightarrow> string \<Rightarrow> goerr + VerifiedIdentity" where
  "adapter_Verify ox r n cerr i version code verifier =
     map_sum mapProviderError
       (\<lambda>v. \<lparr>vi_Namespace = vd_Namespace v, vi_Subject = vd_Subject v, vi_Name = vd_Name v\<rparr>)
       (registry_Verify ox r n cerr i version code verifier)"

record platform =
  pl_argon2 :: argon2
  pl_oauth :: oauth
  pl_calls :: "nat \<Rightarrow> call"
  pl_salt :: nat
  pl_ReadFile :: "string \<Rightarrow> goerr + string"
  pl_Unmarshal :: "string \<Rightarrow> fed_Config list option"
  pl_print_url :: "string \<Rightarrow> (string \<times> bool) option"

fun read_secrets :: "(string \<Rightarrow> goerr + string) \<Rightarrow> fed_Config list \<Rightarrow> goerr + fed_Config list" where
  "read_secrets readFile [] = Inr []"
| "read_secrets readFile (c # cs) =
     (case readFile (fc_ClientSecretFile c) of
        Inl e \<Rightarrow> Inl (Plain (utf8 [0x8bfb, 0x53d6, 0x63d0, 0x4f9b, 0x5546, 0x5ba2, 0x6237, 0x7aef, 0x5bc6, 0x94a5, 0x5931, 0x8d25]))
      | Inr secret \<Rightarrow>
          (case read_secrets readFile cs of
             Inl e \<Rightarrow> Inl e
           | Inr cs' \<Rightarrow> Inr (c\<lparr>fc_ClientSecret := TrimSpace secret\<rparr> # cs')))"

definition load_providers :: "platform \<Rightarrow> string \<Rightarrow> goerr + fed_Config list" where
  "load_providers pl file =
     (if file = '''' then Inr []
      else case pl_ReadFile pl file of
        Inl e \<Rightarrow> Inl e
      | Inr data \<Rightarrow>
          (case pl_Unmarshal pl data of
             None \<Rightarrow> Inl (Plain (utf8 [0x7b2c, 0x4e09, 0x65b9, 0x63d0, 0x4f9b, 0x5546, 0x914d, 0x7f6e, 0x6587, 0x4ef6, 0x65e0, 0x6548]))
           | Some providers \<Rightarrow> read_secrets (pl_ReadFile pl) providers))"

text \<open>\<^verbatim>\<open>NewService\<close>: the database, the passwords, the authorizer and the logger are given here.\<close>

definition NewService :: "env \<Rightarrow> (string \<Rightarrow> (string \<times> bool) option) \<Rightarrow> Options \<Rightarrow> Dependencies \<Rightarrow> goerr + Service" where
  "NewService cx print_url o' deps =
     (if \<not> Service_ok o'
      then Inl (Plain (utf8 [0x8d26, 0x6237, 0x670d, 0x52a1, 0x4f9d, 0x8d56, 0x4e0d, 0x5b8c, 0x6574]))
      else Inr \<lparr>sv_env = cx, sv_options = o', sv_deps = deps, sv_parse_url = print_url\<rparr>)"

definition account_deps :: "env \<Rightarrow> platform \<Rightarrow> Hasher \<Rightarrow> registry \<Rightarrow> Dependencies" where
  "account_deps cx pl hasher r =
     \<lparr>d_RequireAdmin = RequireAdmin cx,
      d_Hash = (\<lambda>n. Hash (pl_argon2 pl) (pl_calls pl n)),
      d_Verify = (\<lambda>n. Verify (pl_argon2 pl) hasher (pl_calls pl n)),
      d_Validate = Validate,
      d_Enabled = Enabled r,
      d_Version = Version r,
      d_Start = (\<lambda>n. adapter_Start (pl_oauth pl) r (cl_err (pl_calls pl n))),
      d_VerifyIdentity = (\<lambda>n. adapter_Verify (pl_oauth pl) r n (cl_err (pl_calls pl n)))\<rparr>"

definition newAccounts :: "env \<Rightarrow> platform \<Rightarrow> api_Config \<Rightarrow> goerr + Service" where
  "newAccounts cx pl cfg =
     (case password_New (pl_argon2 pl) (pl_salt pl) passwordHashConcurrency of
        Inl e \<Rightarrow> Inl e
      | Inr hasher \<Rightarrow>
          (case load_providers pl (AuthProvidersFile cfg) of
             Inl e \<Rightarrow> Inl e
           | Inr providers \<Rightarrow>
               (case federation_New (pl_oauth pl) (e_sha256 cx) providers of
                  Inl e \<Rightarrow> Inl e
                | Inr r \<Rightarrow>
                    NewService cx (pl_print_url pl)
                      \<lparr>IdleTTL = AuthSessionIdleTTL cfg, MaxTTL = AuthSessionMaxTTL cfg, FrontendURL = cfg_FrontendURL cfg\<rparr>
                      (account_deps cx pl hasher r))))"

subsection \<open>wire.go and routes.go\<close>

definition sessionAuthenticator :: "Service \<Rightarrow> ctx \<Rightarrow> string \<Rightarrow> Principal act" where
  "sessionAuthenticator s c raw =
     bindA (AuthenticateSession s raw) (\<lambda>(user, session). ret \<lparr>Subject = user, SessionID = session\<rparr>)"

record api_Dependencies =
  ad_Projects :: env
  ad_Tasks :: env
  ad_Accounts :: Service
  ad_Authenticator :: "ctx \<Rightarrow> string \<Rightarrow> Principal act"
  ad_Ready :: "unit act"

text \<open>The project and task services are their store over the database.\<close>

definition NewServices :: "env \<Rightarrow> platform \<Rightarrow> unit act \<Rightarrow> api_Config \<Rightarrow> goerr + api_Dependencies" where
  "NewServices cx pl ping cfg =
     (case newAccounts cx pl cfg of
        Inl e \<Rightarrow> Inl e
      | Inr s \<Rightarrow>
          Inr \<lparr>ad_Projects = cx, ad_Tasks = cx, ad_Accounts = s, ad_Authenticator = sessionAuthenticator s,
            ad_Ready = ping\<rparr>)"

definition routeCatalog :: "Operation option list" where
  "routeCatalog = concat [HealthRoutes, Routes, AdminRoutes, project_operations, task_operations]"

text \<open>\<^verbatim>\<open>module(...).bind\<close> on an operation: whether the bearer middleware is put in front; other policies panic.\<close>

definition bind_policy :: "Operation option \<Rightarrow> (Operation \<times> bool) option" where
  "bind_policy route =
     Option.bind route (\<lambda>op.
       if op_policy op = Session then Some (op, True) else if op_policy op = Public then Some (op, False) else None)"

fun bind_all :: "Operation option list \<Rightarrow> (Operation \<times> bool) list option" where
  "bind_all [] = Some []"
| "bind_all (r # rs) = Option.bind (bind_policy r) (\<lambda>b. map_option (\<lambda>bs. b # bs) (bind_all rs))"

definition NewHandler :: "(Operation \<times> bool) list option" where
  "NewHandler = bind_all routeCatalog"

subsection \<open>server.go\<close>

definition server_Ready :: "bool \<Rightarrow> goerr option \<Rightarrow> goerr option" where
  "server_Ready draining ping =
     (if draining then Some (Plain (utf8 [0x670d, 0x52a1, 0x6b63, 0x5728, 0x505c, 0x6b62])) else ping)"

subsection \<open>The routes\<close>

fun segments_from :: "string \<Rightarrow> string \<Rightarrow> string list" where
  "segments_from cur [] = [rev cur]"
| "segments_from cur (ch # s) = (if ch = CHR ''/'' then rev cur # segments_from [] s else segments_from (ch # cur) s)"

definition segments :: "string \<Rightarrow> string list" where
  "segments path = segments_from [] path"

definition placeholder :: "string \<Rightarrow> bool" where
  "placeholder seg \<longleftrightarrow> HasPrefix seg ''{''"

text \<open>Two operations that some request would match both.\<close>

definition overlap :: "Operation \<Rightarrow> Operation \<Rightarrow> bool" where
  "overlap a b \<longleftrightarrow> op_Method a = op_Method b
     \<and> list_all2 (\<lambda>x y. x = y \<or> placeholder x \<or> placeholder y) (segments (op_Path a)) (segments (op_Path b))"

definition open_path :: "string \<Rightarrow> bool" where
  "open_path path \<longleftrightarrow> HasPrefix path ''/v1/auth/'' \<or> HasPrefix path ''/health/''"

definition overlaps :: "(Operation \<times> bool) list \<Rightarrow> (string \<times> string) list" where
  "overlaps bs = concat (map (\<lambda>(a, _). map (\<lambda>(b, _). (op_ID a, op_ID b))
     (filter (\<lambda>(b, _). op_ID a \<noteq> op_ID b \<and> overlap a b) bs)) bs)"

lemmas catalog_defs = NewHandler_def routeCatalog_def HealthRoutes_def Routes_def AdminRoutes_def project_operations_def
  task_operations_def authenticationRoutes_def profileRoutes_def securityRoutes_def linkedAccountRoutes_def sessionRoutes_def
  operation_def accepted_def tagged_def NewOperation_def ProtectedOperations_def project_op_def task_op_def spec_def contract_def
  Public_def Session_def bind_policy_def Let_def

lemma catalog_overlaps:
  "map_option overlaps NewHandler = Some [(''start-oauth'', ''oauth-callback''), (''oauth-callback'', ''start-oauth'')]"
  by code_simp

lemma catalog_bound: "\<exists>bs. NewHandler = Some bs \<and> distinct (map (op_ID \<circ> fst) bs)
    \<and> list_all (\<lambda>(op, guarded). guarded \<longleftrightarrow> \<not> open_path (op_Path op)) bs"
  by (simp add: catalog_defs open_path_def HasPrefix_def)

text \<open>
  C31.  The route table: every operation of every module binds without a panic, the operation names
  are distinct, the bearer middleware stands in front of exactly the routes outside
  \<^verbatim>\<open>/v1/auth/\<close> and \<^verbatim>\<open>/health/\<close>, and no request matches two operations, except that the
  provider name \<^verbatim>\<open>callback\<close>, which the registry refuses, would be taken for the callback.
\<close>

theorem routes_guarded:
  "\<exists>bs. NewHandler = Some bs \<and> distinct (map (op_ID \<circ> fst) bs)
     \<and> list_all (\<lambda>(op, guarded). guarded \<longleftrightarrow> \<not> open_path (op_Path op)) bs
     \<and> overlaps bs = [(''start-oauth'', ''oauth-callback''), (''oauth-callback'', ''start-oauth'')]
     \<and> \<not> config_valid ox r (c\<lparr>fc_ID := ''callback''\<rparr>)"
proof -
  obtain bs where bs: "NewHandler = Some bs" "distinct (map (op_ID \<circ> fst) bs)"
      "list_all (\<lambda>(op, guarded). guarded \<longleftrightarrow> \<not> open_path (op_Path op)) bs"
    using catalog_bound by blast
  then have "overlaps bs = [(''start-oauth'', ''oauth-callback''), (''oauth-callback'', ''start-oauth'')]"
    using catalog_overlaps by (metis option.inject option.simps(9))
  moreover have "\<not> config_valid ox r (c\<lparr>fc_ID := ''callback''\<rparr>)" by (simp add: config_valid_def)
  ultimately show ?thesis using bs by blast
qed

subsection \<open>Failures of providers\<close>

lemma map_sum_Inl: "map_sum f g r = Inl e \<longleftrightarrow> (\<exists>e0. r = Inl e0 \<and> e = f e0)"
  by (cases r) auto

text \<open>A flow begun under a configuration that has since changed is answered like a wrong credential.\<close>

lemma stale_configuration:
  assumes "configuration r i = Inr (p, c)" and "pr_version p \<noteq> version"
  shows "adapter_Verify ox r n cerr i version code verifier = Inl (Business ErrCredentials)"
  by (simp add: adapter_Verify_def registry_Verify_def assms mapProviderError_def errors_is_def)

text \<open>What the context of a call says when it has ended, as \<^verbatim>\<open>context.Context\<close> documents it.\<close>

definition context_law :: "(nat \<Rightarrow> goerr option) \<Rightarrow> bool" where
  "context_law cerr \<longleftrightarrow> (\<forall>k. cerr k \<in> {None, Some (Sentinel Canceled), Some (Sentinel DeadlineExceeded)})"

definition ended :: "(nat \<Rightarrow> goerr option) \<Rightarrow> goerr \<Rightarrow> bool" where
  "ended cerr f \<longleftrightarrow> (\<exists>k \<le> 2. cerr k = Some f) \<and> f \<in> {Sentinel Canceled, Sentinel DeadlineExceeded}"

lemma context_ended:
  assumes "context_law cerr" and "cerr k = Some f" and "k \<le> 2"
  shows "ended cerr f \<and> mapProviderError f = f"
proof -
  have "cerr k \<in> {None, Some (Sentinel Canceled), Some (Sentinel DeadlineExceeded)}" using assms(1) by (simp add: context_law_def)
  then have "f = Sentinel Canceled \<or> f = Sentinel DeadlineExceeded" using assms(2) by simp
  then show ?thesis using assms(2,3) by (auto simp: ended_def mapProviderError_def errors_is_def)
qed

text \<open>The three kinds of failure behind the adapter, and what the callback makes of them.\<close>

lemma provider_failure_kinds:
  assumes "provider_failure cerr f" and "context_law cerr"
  shows "f = Sentinel FederationErrProof \<and> mapProviderError f = Business ErrCredentials
    \<or> errors_is f (Sentinel FederationErrUnavailable) \<and> as_business (mapProviderError f) = Some ErrUnavailable
        \<and> \<not> errors_is (mapProviderError f) (Business ErrCredentials)
    \<or> ended cerr f \<and> mapProviderError f = f"
  using assms(1) unfolding provider_failure_def
proof (elim disjE exE conjE)
  fix cause assume c: "foreign cause" "f = unavailableCause cause"
  then have "\<not> errors_is f (Sentinel FederationErrProof)" "\<not> errors_is f (Business ErrCredentials)"
    by (auto simp: foreign_def errors_is_def unavailableCause_def)
  moreover have u: "errors_is f (Sentinel FederationErrUnavailable)" using c(2) by (simp add: errors_is_def unavailableCause_def)
  ultimately have "mapProviderError f = Wrapped '': '' [Business ErrUnavailable, f]" "\<not> errors_is (mapProviderError f) (Business ErrCredentials)"
    by (simp_all add: mapProviderError_def) (simp add: errors_is_def ErrUnavailable_def ErrCredentials_def)
  then show ?thesis using u by (simp add: as_business_def)
qed (use context_ended [OF assms(2)] in \<open>auto simp: mapProviderError_def errors_is_def as_business_def ErrUnavailable_def ErrCredentials_def\<close>)

text \<open>\<^verbatim>\<open>Callback\<close> up to the moment at which it asks the provider: the flow it has claimed.\<close>

definition callback_flow :: "Service \<Rightarrow> Request \<Rightarrow> string \<Rightarrow> string \<Rightarrow> string \<Rightarrow> flow_row act" where
  "callback_flow s r token code state =
     (let cx = sv_env s in
      bindA (limit s ''callback.ip'' (ClientIP r) ipRequestLimit ipRateWindow) (\<lambda>_.
      bindA (on_error (\<lambda>_. Business ErrCredentials) (from_sum (TokenDigest (e_sha256 cx) token FlowPrefix))) (\<lambda>hash.
      bindA (on_error credentialLookupError (query cx Pool (FindFlow hash))) (\<lambda>flow.
      bindA (require (f_Status flow = FlowPending \<and> code \<noteq> '''' \<and> length code \<le> maxOAuthCodeBytes
          \<and> length state \<le> maxOAuthStateBytes) (Business ErrCredentials)) (\<lambda>_.
      bindA (require (Digest (e_sha256 cx) state = text_of (f_StateHash flow)) (Business ErrCredentials)) (\<lambda>_.
      bindA (require (d_Version (sv_deps s) (f_ProviderID flow) = f_ConfigVersion flow) (Business ErrCredentials)) (\<lambda>_.
      bindA (claimPendingFlow cx Pool (f_ID flow)) (\<lambda>_.
      ret flow))))))))"

lemma bindA_assoc: "bindA (bindA m f) g = bindA m (\<lambda>a. bindA (f a) g)"
  by (rule ext) (simp add: bindA_def split: prod.split sum.split)

lemma bindA_ret: "bindA (ret a) k = k a"
  by (rule ext) (simp add: bindA_def ret_def)

lemma callback_body_flow:
  "callback_body s r token code state =
     bindA (callback_flow s r token code state) (\<lambda>flow. or_fail_flow (sv_env s) (f_ID flow) (process_flow s r flow code))"
  by (simp add: callback_body_def callback_flow_def Let_def bindA_assoc bindA_ret)

lemma or_fail_flow_error: "fst (m w) = Inl e \<Longrightarrow> fst (or_fail_flow cx i m w) = Inl e"
  by (auto simp: or_fail_flow_def attempt_def fail_def split: prod.split)

lemma Callback_provider_error:
  assumes "callback_flow s r token code state w = (Inr flow, w1)" and "unmarshal_protocol (f_ProtocolState flow) = Some verifier"
    and "d_VerifyIdentity (sv_deps s) (w_seed w1) (f_ProviderID flow) (f_ConfigVersion flow) code verifier = Inl e"
  shows "fst (Callback s r token code state w) = Inl (proofError e ErrFlow)"
proof -
  have "fst (process_flow s r flow code w1) = Inl e" by (simp add: process_flow_def assms(2,3) bindA_def call_dep_def)
  then have "fst (callback_body s r token code state w) = Inl e"
    using or_fail_flow_error by (simp add: callback_body_flow bindA_def assms(1))
  then show ?thesis by (auto simp: Callback_def recordFailureOnReturn_fst on_error_def attempt_def fail_def split: prod.split)
qed

lemma oauth_callback_error:
  assumes "fst (oauthCallback s c input w) = Inl e"
  shows "\<exists>resp w'. serve authenticate (oauth_callback_route s) c header input w = Some (resp, w')
    \<and> rs_status resp = rs_status (sanitizeErrors (fst (FromError (c_deadline c (w_step w')) e)) :: AuthCallbackResponse response)
    \<and> rs_body resp = rs_body (sanitizeErrors (fst (FromError (c_deadline c (w_step w')) e)) :: AuthCallbackResponse response)"
proof -
  obtain w' where "oauthCallback s c input w = (Inl e, w')" using assms by (metis prod.collapse)
  then show ?thesis
    by (simp add: serve_def oauth_callback_route_def authenticationRoutes_def operation_def tagged_def NewOperation_def Endpoint_def
        contract_def spec_def bind_route_def Policy_def Public_def Session_def Let_def Bind_def no_store_def)
qed

lemma error_answers:
  "rs_status (sanitizeErrors (fst (FromError dl (Wrapped '': '' [Business ErrFlow, Business ErrCredentials])))) = 422"
  "rs_body (sanitizeErrors (fst (FromError dl (Wrapped '': '' [Business ErrFlow, Business ErrCredentials])))) = ProblemBody ''flow_invalid'' []"
  "as_business e = Some ErrUnavailable \<Longrightarrow> rs_status (sanitizeErrors (fst (FromError dl e))) = 503"
  "as_business e = Some ErrUnavailable \<Longrightarrow> rs_body (sanitizeErrors (fst (FromError dl e))) = ProblemBody (ae_message ErrUnavailable) []"
  "f \<in> {Sentinel Canceled, Sentinel DeadlineExceeded} \<Longrightarrow>
     rs_status (sanitizeErrors (fst (FromError dl f))) = (if f = Sentinel DeadlineExceeded \<or> dl then 504 else 500)"
  by (auto simp: FromError_def as_business_def as_status_def errors_is_def ErrFlow_def ErrCredentials_def ErrUnavailable_def
      huma_error_def sanitizeErrors_def InternalError_def)

text \<open>A flow starts unless the provider is unknown or the call has ended.\<close>

lemma prepareOAuthFlow_error:
  assumes "sv_deps s = account_deps cx pl hasher r" and "prepareOAuthFlow s provider w = (Inl e, w')"
    and "\<And>n. context_law (cl_err (pl_calls pl n))"
  shows "e = Business ErrInvalid \<and> \<not> Enabled r provider
    \<or> (\<exists>n. ended (cl_err (pl_calls pl n)) e)"
proof (cases "Enabled r provider")
  case True
  obtain n st v where "adapter_Start (pl_oauth pl) r (cl_err (pl_calls pl n)) provider st v = Inl e"
    using assms(2) True
    by (auto simp: prepareOAuthFlow_def Let_def assms(1) account_deps_def bindA_def require_def ret_def new_token_def randomBytes_def
        call_dep_def NewID_def split: prod.splits sum.splits)
  then obtain f where f: "registry_Start (pl_oauth pl) r (cl_err (pl_calls pl n)) provider st v = Inl f" "e = mapProviderError f"
    unfolding adapter_Start_def map_sum_Inl by blast
  have c: "cl_err (pl_calls pl n) 0 = Some f" by (rule Start_failure [OF True f(1)])
  then have "ended (cl_err (pl_calls pl n)) e" using context_ended [OF assms(3) c] f(2) by simp
  then show ?thesis by blast
next
  case False
  then show ?thesis using assms(2)
    by (auto simp: prepareOAuthFlow_def Let_def assms(1) account_deps_def bindA_def require_def fail_def)
qed


subsection \<open>The configured service\<close>

lemma api_Validate_ttl:
  assumes "api_Validate parse_url cfg = None"
  shows "Service_ok \<lparr>IdleTTL = AuthSessionIdleTTL cfg, MaxTTL = AuthSessionMaxTTL cfg, FrontendURL = cfg_FrontendURL cfg\<rparr>"
  using assms by (auto simp: api_Validate_def Service_ok_def Let_def split: if_splits option.splits)

lemma newAccounts_Inr:
  "newAccounts cx pl cfg = Inr s \<longleftrightarrow> (\<exists>hasher providers r.
     password_New (pl_argon2 pl) (pl_salt pl) passwordHashConcurrency = Inr hasher
     \<and> load_providers pl (AuthProvidersFile cfg) = Inr providers
     \<and> federation_New (pl_oauth pl) (e_sha256 cx) providers = Inr r
     \<and> NewService cx (pl_print_url pl)
          \<lparr>IdleTTL = AuthSessionIdleTTL cfg, MaxTTL = AuthSessionMaxTTL cfg, FrontendURL = cfg_FrontendURL cfg\<rparr>
          (account_deps cx pl hasher r) = Inr s)"
  by (auto simp: newAccounts_def split: sum.splits)

lemma newAccounts_Inl:
  assumes "newAccounts cx pl cfg = Inl e" and "api_Validate parse_url cfg = None"
  shows "password_New (pl_argon2 pl) (pl_salt pl) passwordHashConcurrency = Inl e
    \<or> load_providers pl (AuthProvidersFile cfg) = Inl e
    \<or> (\<exists>providers. load_providers pl (AuthProvidersFile cfg) = Inr providers
         \<and> federation_New (pl_oauth pl) (e_sha256 cx) providers = Inl e)"
  using assms(1) api_Validate_ttl [OF assms(2)]
  by (auto simp: newAccounts_def NewService_def split: sum.splits)

text \<open>
  C30.  A configuration that passed its checks gives a working service, or fails for a reason outside
  the configuration values: the hasher's random source, the provider files or the provider entries.
  The service that is built uses the database's own administrator check, four hashing slots, valid
  session lifetimes, and accepts exactly the providers of the file.
\<close>

theorem configured_service:
  assumes "api_Parse parse_url params decode lookup = Inr cfg"
  shows "case newAccounts cx pl cfg of
      Inr s \<Rightarrow> sv_env s = cx \<and> wired s \<and> Service_ok (sv_options s) \<and> d_Validate (sv_deps s) = Validate
        \<and> (\<exists>hasher providers r. sv_deps s = account_deps cx pl hasher r \<and> h_slots hasher = 4
            \<and> load_providers pl (AuthProvidersFile cfg) = Inr providers
            \<and> (\<forall>i. d_Enabled (sv_deps s) i \<longleftrightarrow> (\<exists>c \<in> set providers. fc_ID c = i)))
    | Inl e \<Rightarrow> password_New (pl_argon2 pl) (pl_salt pl) passwordHashConcurrency = Inl e
        \<or> load_providers pl (AuthProvidersFile cfg) = Inl e
        \<or> (\<exists>providers. load_providers pl (AuthProvidersFile cfg) = Inr providers
             \<and> federation_New (pl_oauth pl) (e_sha256 cx) providers = Inl e)"
proof -
  have v: "api_Validate parse_url cfg = None" using assms by (auto simp: api_Parse_def split: sum.splits option.splits)
  show ?thesis
  proof (cases "newAccounts cx pl cfg")
    case (Inl e)
    then show ?thesis using newAccounts_Inl [OF Inl v] by simp
  next
    case (Inr s)
    then obtain hasher providers r where
        h: "password_New (pl_argon2 pl) (pl_salt pl) passwordHashConcurrency = Inr hasher"
      and p: "load_providers pl (AuthProvidersFile cfg) = Inr providers"
      and r: "federation_New (pl_oauth pl) (e_sha256 cx) providers = Inr r"
      and s: "NewService cx (pl_print_url pl)
          \<lparr>IdleTTL = AuthSessionIdleTTL cfg, MaxTTL = AuthSessionMaxTTL cfg, FrontendURL = cfg_FrontendURL cfg\<rparr>
          (account_deps cx pl hasher r) = Inr s"
      unfolding newAccounts_Inr by blast
    have deps: "sv_deps s = account_deps cx pl hasher r" "sv_env s = cx" "Service_ok (sv_options s)"
      using s api_Validate_ttl [OF v] by (auto simp: NewService_def split: if_splits)
    have "h_slots hasher = 4" using h by (auto simp: password_New_def passwordHashConcurrency_def split: sum.splits)
    moreover have "\<forall>i. Enabled r i \<longleftrightarrow> (\<exists>c \<in> set providers. fc_ID c = i)"
      using New_provider [OF r] by (auto simp: Enabled_def)
    ultimately show ?thesis using deps p by (auto simp: Inr wired_def account_deps_def)
  qed
qed


subsection \<open>Requests with a session\<close>

text \<open>
  C8.  Every protected route acts for the owner of a live session: either the token of the request
  is the token of a stored, unrevoked, unexpired session of an active user, and the handler runs
  with exactly that user and session; or the answer is 401, 503 or 504 and nothing but the
  authentication itself has happened.  No answer may be stored by a cache.
\<close>

theorem api_session_identity:
  assumes "serve (sessionAuthenticator s) (Some e) c header input w = Some (resp, w')" and "Policy e = Session"
  shows "(''Cache-Control'', ''no-store'') \<in> set (rs_headers resp)
    \<and> ((\<exists>raw x c' w1. bearer header = (raw, True) \<and> x \<in> set (user_sessions (seen (sv_env s) w))
         \<and> s_TokenHash x = e_sha256 (sv_env s) raw \<and> session_valid (e_clock (sv_env s) (w_step w)) (seen (sv_env s) w) x
         \<and> UserID (request c') = s_UserID x \<and> rq_SessionID (request c') = s_ID x
         \<and> w1 = snd (AuthenticateSession s raw w)
         \<and> rs_status resp = rs_status (fst (Bind e c' input w1)) \<and> w' = snd (Bind e c' input w1))
       \<or> (rs_status resp \<in> {401, 503, 504} \<and> w' \<in> {w, snd (AuthenticateSession s (fst (bearer header)) w)}))"
proof -
  let ?run = "Middleware (sessionAuthenticator s) c header (\<lambda>c'. Bind e c' input) w"
  have resp: "resp = (fst ?run)\<lparr>rs_headers := no_store_header # rs_headers (fst ?run)\<rparr>" "w' = snd ?run"
    using assms by (auto simp: serve_def bind_route_def no_store_def split_beta Let_def)
  obtain raw ok where h: "bearer header = (raw, ok)" by force
  obtain r w1 where a: "AuthenticateSession s raw w = (r, w1)" by force
  have "(\<exists>x c'. ok \<and> x \<in> set (user_sessions (seen (sv_env s) w))
         \<and> s_TokenHash x = e_sha256 (sv_env s) raw \<and> session_valid (e_clock (sv_env s) (w_step w)) (seen (sv_env s) w) x
         \<and> UserID (request c') = s_UserID x \<and> rq_SessionID (request c') = s_ID x
         \<and> rs_status (fst ?run) = rs_status (fst (Bind e c' input w1)) \<and> snd ?run = snd (Bind e c' input w1))
     \<or> (rs_status (fst ?run) \<in> {401, 503, 504} \<and> snd ?run \<in> {w, w1})"
  proof (cases "ok \<and> (\<exists>u i. r = Inr (u, i) \<and> u \<noteq> '''') \<and> \<not> c_deadline c (w_step w1)")
    case True
    then obtain u i where r: "ok" "r = Inr (u, i)" "u \<noteq> ''''" "\<not> c_deadline c (w_step w1)" by blast
    let ?c = "WithPrincipal c \<lparr>Subject = u, SessionID = i\<rparr>"
    obtain x where x: "x \<in> set (user_sessions (seen (sv_env s) w))" "s_TokenHash x = e_sha256 (sv_env s) raw"
        "session_valid (e_clock (sv_env s) (w_step w)) (seen (sv_env s) w) x" "s_ID x = i" "s_UserID x = u"
      using AuthenticateSession_ok [OF a [unfolded r(2)]] by (auto dest!: find_Some_ex)
    have "UserID (request ?c) = u \<and> rq_SessionID (request ?c) = i"
      by (simp add: request_def Let_def Current_def WithPrincipal_def)
    moreover have "rs_status (fst ?run) = rs_status (fst (Bind e ?c input w1)) \<and> snd ?run = snd (Bind e ?c input w1)"
      using h a r by (simp add: Middleware_def sessionAuthenticator_def bindA_def ret_def Let_def split_beta)
    ultimately show ?thesis using x r(1) by blast
  next
    case False
    then show ?thesis using h a
      by (cases r) (auto simp: Middleware_def sessionAuthenticator_def bindA_def ret_def Let_def session_invalid_def huma_error_def
          split_beta split: if_splits)
  qed
  then show ?thesis using h a resp by (auto simp: no_store_header_def)
qed


subsection \<open>Examples\<close>

definition example_platform :: platform where
  "example_platform = \<lparr>pl_argon2 = plain_argon2, pl_oauth = example_oauth, pl_calls = background, pl_salt = 0,
     pl_ReadFile = (\<lambda>f. Inr ''secret''), pl_Unmarshal = (\<lambda>d. Some [example_provider]), pl_print_url = (\<lambda>u. Some (u, False))\<rparr>"

definition example_config :: api_Config where
  "example_config = \<lparr>Environment = ''test'', HTTPAddr = ''h:1'', DatabaseURL = ''db'', DBMaxConns = 10,
     RequestTimeout = 15 * second, ShutdownTimeout = 10 * second, DocsEnabled = False, AuthProvidersFile = ''providers'',
     AuthSessionIdleTTL = 30 * minute, AuthSessionMaxTTL = 24 * hour, cfg_FrontendURL = ''https://web'',
     OTelEnabled = False, OTelServiceName = ''''\<rparr>"

lemma example_parse:
  "api_Parse (o_parse_url example_oauth) (Some []) (\<lambda>_. (None, example_config)) (Some Map.empty) = Inr example_config"
  by (simp add: api_Parse_def configenv_Parse_def api_Validate_def appfx_Validate_def ValidateDatabaseURL_def api_infrastructure_def
      example_config_def example_oauth_def SplitHostPort_def last_index_def first_index_def time_defs)

lemma example_accounts: "\<exists>s. newAccounts quiet example_platform example_config = Inr s"
proof -
  obtain r where r: "federation_New example_oauth (e_sha256 quiet) [example_provider] = Inr r" using example_registry by blast
  have secret: "TrimSpace ''secret'' = ''secret''" by (simp add: text_eval)
  have same: "example_provider\<lparr>fc_ClientSecret := ''secret''\<rparr> = example_provider" by (simp add: example_provider_def)
  have "load_providers example_platform ''providers'' = Inr [example_provider]"
    by (simp add: load_providers_def example_platform_def secret same)
  with r show ?thesis using plain_hasher
    by (simp add: newAccounts_def passwordHashConcurrency_def example_config_def time_defs)
      (simp add: example_platform_def NewService_def Service_ok_def time_defs)
qed

theorem configured_service_witness:
  "\<exists>s. newAccounts quiet example_platform example_config = Inr s \<and> wired s \<and> Service_ok (sv_options s)"
proof -
  obtain s where s: "newAccounts quiet example_platform example_config = Inr s" using example_accounts by blast
  show ?thesis using configured_service [OF example_parse, where cx = quiet and pl = example_platform] by (simp add: s)
qed

text \<open>An example: the client comes back with a code that the provider refuses.\<close>

definition flow_token :: string where
  "flow_token = fst (NewToken (e_sha256 quiet) (replicate 32 (CHR ''k'')) FlowPrefix)"

lemma flow_token_digest: "TokenDigest (e_sha256 quiet) flow_token FlowPrefix = Inr (e_sha256 quiet flow_token)"
  using TokenDigest_NewToken [of "replicate 32 (CHR ''k'')" "e_sha256 quiet" FlowPrefix]
  by (simp add: flow_token_def tokenEntropyBytes_def NewToken_def Digest_def Let_def)

definition example_flow :: flow_row where
  "example_flow = example_proof\<lparr>f_Purpose := FlowLogin, f_TokenHash := Some (e_sha256 quiet flow_token), f_ProviderID := ''github'',
     f_ConfigVersion := config_version (e_sha256 quiet) example_provider, f_StateHash := Some (e_sha256 quiet ''state''),
     f_ProtocolState := Some (marshal_protocol ''verifier''), f_Status := FlowPending\<rparr>"

definition callback_service :: "registry \<Rightarrow> Service" where
  "callback_service r = quiet_service\<lparr>sv_deps := account_deps quiet example_platform \<lparr>h_slots = 4, h_dummy = ''''\<rparr> r\<rparr>"

lemma example_callback_limit:
  "\<exists>rs. limit (callback_service r) ''callback.ip'' key ipRequestLimit ipRateWindow (start (empty_db\<lparr>auth_flows := [example_flow]\<rparr>))
    = (Inr (), \<lparr>w_db = empty_db\<lparr>auth_flows := [example_flow], auth_rate_limits := rs\<rparr>, w_step = 1, w_seed = 0, w_var = ''''\<rparr>)"
  by (simp add: callback_service_def run_defs limit_defs empty_db_def)

lemma example_callback_flow:
  assumes "federation_New example_oauth (e_sha256 quiet) [example_provider] = Inr r"
  shows "\<exists>w1. callback_flow (callback_service r) q flow_token ''bad'' ''state'' (start (empty_db\<lparr>auth_flows := [example_flow]\<rparr>))
    = (Inr example_flow, w1) \<and> w_seed w1 = 0"
proof -
  have v: "Version r ''github'' = config_version (e_sha256 quiet) example_provider"
    using registry_exact [of example_oauth "e_sha256 quiet" "[example_provider]"] assms by (auto simp: example_provider_def)
  have deps: "d_Version (sv_deps (callback_service r)) = Version r" "sv_env (callback_service r) = quiet"
    by (simp_all add: callback_service_def account_deps_def)
  obtain rs where l: "limit (callback_service r) ''callback.ip'' (ClientIP q) ipRequestLimit ipRateWindow (start (empty_db\<lparr>auth_flows := [example_flow]\<rparr>))
    = (Inr (), \<lparr>w_db = empty_db\<lparr>auth_flows := [example_flow], auth_rate_limits := rs\<rparr>, w_step = 1, w_seed = 0, w_var = ''''\<rparr>)"
    using example_callback_limit by blast
  show ?thesis
    unfolding callback_flow_def deps Let_def bindA_def l
    by (simp add: flow_token_digest bindA_def on_error_def attempt_def from_sum_def ret_def query_def
        require_def fail_def claimPendingFlow_def transitionResult_def FindFlow_def ClaimFlow_def update_flow_def one_def
        example_flow_def example_proof_def v Digest_def text_of_def flow_status_defs maxOAuthCodeBytes_def maxOAuthStateBytes_def
        push_bit_eq_mult update_where_def count_where_def Let_def minute_def second_def empty_db_def del: quiet_simps(7))
qed

lemma example_oauth_law: "oauth_law (pl_oauth example_platform)"
  by (auto simp: oauth_law_def example_platform_def example_oauth_def foreign_def)


theorem api_session_identity_witness:
  "\<exists>e resp w'. get_me_route quiet_service = Some e
     \<and> serve (sessionAuthenticator quiet_service) (Some e) \<lparr>c_principal = None, c_meta = None, c_deadline = (\<lambda>_. False)\<rparr>
         ''Basic x'' () (start example_db) = Some (resp, w')
     \<and> (''Cache-Control'', ''no-store'') \<in> set (rs_headers resp)"
proof -
  obtain e where e: "get_me_route quiet_service = Some e" "Policy e = Session"
    by (simp add: get_me_route_def profileRoutes_def operation_def tagged_def NewOperation_def ItemEndpoint_def MapEndpoint_def
        Endpoint_def contract_def spec_def Policy_def Let_def)
  let ?c = "\<lparr>c_principal = None, c_meta = None, c_deadline = (\<lambda>_. False)\<rparr>"
  obtain resp w' where s: "serve (sessionAuthenticator quiet_service) (Some e) ?c ''Basic x'' () (start example_db) = Some (resp, w')"
    using e(2) by (auto simp: serve_def bind_route_def no_store_def split_beta Let_def)
  show ?thesis using api_session_identity [OF s e(2)] e(1) s by blast
qed

end
