(* ===== verification/Lifecycle.thy ===== *)
theory Lifecycle
  imports App_Api Mail_Outbox
begin

text \<open>
  The life of a process: \<^verbatim>\<open>appfx.Run\<close> and \<^verbatim>\<open>runApplication\<close>, the start and stop hooks of
  telemetry, the database pool, the HTTP server (\<^verbatim>\<open>app/api/server.go\<close>) and the mail consumer
  (\<^verbatim>\<open>app/worker/module.go\<close>), and the failure channel.

  A context is the moment it ends and the error it then reports.  A process is its clock, the
  variables its hooks share, the failures reported so far and a log of what it did.  The hook
  runner (go.uber.org/fx) and the library calls that take time are parameters: a call returns its
  error and the moment it returns.
\<close>

subsection \<open>Contexts\<close>

record gctx =
  cx_done :: "time option"
  cx_cause :: goerr

definition ctx_Err :: "gctx \<Rightarrow> time \<Rightarrow> goerr option" where
  "ctx_Err c now = (case cx_done c of None \<Rightarrow> None | Some t \<Rightarrow> if t \<le> now then Some (cx_cause c) else None)"

definition Background :: gctx where
  "Background = \<lparr>cx_done = None, cx_cause = Sentinel Canceled\<rparr>"

definition WithTimeout :: "gctx \<Rightarrow> time \<Rightarrow> time \<Rightarrow> gctx" where
  "WithTimeout c now d =
     (case cx_done c of
        Some t \<Rightarrow> if t \<le> now + d then c else \<lparr>cx_done = Some (now + d), cx_cause = Sentinel DeadlineExceeded\<rparr>
      | None \<Rightarrow> \<lparr>cx_done = Some (now + d), cx_cause = Sentinel DeadlineExceeded\<rparr>)"

definition WithoutCancel :: "gctx \<Rightarrow> gctx" where
  "WithoutCancel c = Background"

text \<open>
  \<^verbatim>\<open>select\<close> on an event that happens at \<open>t\<close> and the end of a context: the earlier one, and
  the one the runtime picks when both are ready.
\<close>

definition select_done :: "bool \<Rightarrow> gctx \<Rightarrow> time \<Rightarrow> time \<Rightarrow> goerr option \<times> time" where
  "select_done pick c now t =
     (case cx_done c of
        None \<Rightarrow> (None, t)
      | Some d \<Rightarrow>
          if max now d < t \<or> max now d = t \<and> pick then (Some (cx_cause c), max now d) else (None, t))"

subsection \<open>The process\<close>

datatype resource = Telemetry | DatabasePool | HttpServer | MailConsumer

datatype event =
    Started resource
  | Stopped resource
  | Draining \<comment> \<open>readiness is withdrawn\<close>
  | Drained \<comment> \<open>every request in flight has ended\<close>
  | Aborted \<comment> \<open>the lifetime of the requests in flight is cancelled\<close>
  | ConsumerCancelled
  | Closing \<comment> \<open>\<^verbatim>\<open>pool.Close\<close> is called\<close>
  | Panicked

text \<open>
  \<open>p_up\<close> holds the resources whose hook variables are set (\<^verbatim>\<open>shutdown\<close>, \<^verbatim>\<open>database.pool\<close>,
  \<^verbatim>\<open>server\<close> with \<^verbatim>\<open>cancelLifetime\<close>, \<^verbatim>\<open>cancel\<close> with \<^verbatim>\<open>done\<close>); \<open>p_pending\<close> is
  the failure a background goroutine is going to report, with its moment.
\<close>

record proc =
  p_now :: time
  p_up :: "resource set"
  p_draining :: bool
  p_failures :: "goerr list"
  p_pending :: "(time \<times> goerr) option"
  p_log :: "(time \<times> event) list"

definition occur :: "event \<Rightarrow> proc \<Rightarrow> proc" where
  "occur e p = p\<lparr>p_log := p_log p @ [(p_now p, e)]\<rparr>"

type_synonym call = "gctx \<Rightarrow> time \<Rightarrow> goerr option \<times> time"

text \<open>
  The calls of libraries and of the operating system.  \<open>x_close\<close> is the moment
  \<^verbatim>\<open>pool.Close\<close> returns (when every connection has come back), \<open>x_serve\<close> the failure of
  \<^verbatim>\<open>server.Serve\<close> when it ends for another reason than being closed, \<open>x_consumer\<close> the
  moment the consumer's goroutine ends after its context is cancelled.
\<close>

record machine =
  x_resource :: call
  x_trace_exporter :: call
  x_trace_exporter_shutdown :: call
  x_metric_exporter :: call
  x_trace_shutdown :: call
  x_metric_shutdown :: call
  x_parse_config :: "string \<Rightarrow> bool"
  x_connect :: call
  x_ping :: call
  x_close :: "time \<Rightarrow> time"
  x_listen :: call
  x_serve :: "time \<Rightarrow> (time \<times> goerr) option"
  x_shutdown :: call
  x_consumer :: "time \<Rightarrow> time"
  x_pick :: "time \<Rightarrow> bool"

record hook =
  h_start :: "gctx \<Rightarrow> proc \<Rightarrow> goerr option \<times> proc"
  h_stop :: "gctx \<Rightarrow> proc \<Rightarrow> goerr option \<times> proc"

subsection \<open>run.go: failures\<close>

definition Failures_Report :: "goerr option \<Rightarrow> goerr list \<Rightarrow> goerr list" where
  "Failures_Report err events =
     (case err of None \<Rightarrow> events | Some e \<Rightarrow> if length events < 1 then events @ [e] else events)"

subsection \<open>telemetry.go and pool.go\<close>

text \<open>\<^verbatim>\<open>Setup\<close>: the error and the moment it returns.\<close>

definition telemetry_Setup :: "machine \<Rightarrow> bool \<Rightarrow> call" where
  "telemetry_Setup x enabled c now =
     (if \<not> enabled then (None, now)
      else case x_resource x c now of
        (Some e, t) \<Rightarrow> (Some e, t)
      | (None, t) \<Rightarrow>
          (case x_trace_exporter x c t of
             (Some e, t1) \<Rightarrow> (Some e, t1)
           | (None, t1) \<Rightarrow>
               (case x_metric_exporter x c t1 of
                  (Some e, t2) \<Rightarrow> (Some e, snd (x_trace_exporter_shutdown x c t2))
                | (None, t2) \<Rightarrow> (None, t2))))"

definition telemetry_shutdown :: "machine \<Rightarrow> bool \<Rightarrow> call" where
  "telemetry_shutdown x enabled c now =
     (if \<not> enabled then (None, now)
      else (let (e1, t1) = x_trace_shutdown x c now; (e2, t2) = x_metric_shutdown x c t1
            in (errors_Join [e1, e2], t2)))"

definition db_Open :: "machine \<Rightarrow> string \<Rightarrow> call" where
  "db_Open x url c now =
     (if \<not> x_parse_config x url then (Some (Plain ''invalid database configuration''), now)
      else case x_connect x c now of
        (Some e, t) \<Rightarrow> (Some (Wrapped ''create database pool: '' [e]), t)
      | (None, t) \<Rightarrow>
          (case x_ping x (WithTimeout c t (5 * second)) t of
             (Some e, t1) \<Rightarrow> (Some (Wrapped ''database unavailable: '' [e]), x_close x t1)
           | (None, t1) \<Rightarrow> (None, t1)))"

subsection \<open>The hooks\<close>

definition started :: "resource \<Rightarrow> goerr option \<times> time \<Rightarrow> proc \<Rightarrow> goerr option \<times> proc" where
  "started r res p =
     (case res of
        (Some e, t) \<Rightarrow> (Some e, p\<lparr>p_now := t\<rparr>)
      | (None, t) \<Rightarrow> (None, occur (Started r) (p\<lparr>p_now := t, p_up := insert r (p_up p)\<rparr>)))"

definition panics :: "proc \<Rightarrow> goerr option \<times> proc" where
  "panics p = (Some (Plain ''invalid memory address or nil pointer dereference''), occur Panicked p)"

definition newTelemetry :: "machine \<Rightarrow> appfx_Config \<Rightarrow> hook" where
  "newTelemetry x cfg =
     \<lparr>h_start = (\<lambda>c p. started Telemetry (telemetry_Setup x (ac_OTelEnabled cfg) c (p_now p)) p),
      h_stop = (\<lambda>c p.
        if Telemetry \<notin> p_up p then panics p
        else (let (e, t) = telemetry_shutdown x (ac_OTelEnabled cfg) c (p_now p)
              in (e, occur (Stopped Telemetry) (p\<lparr>p_now := t\<rparr>))))\<rparr>"

definition newDatabase :: "machine \<Rightarrow> appfx_Config \<Rightarrow> hook" where
  "newDatabase x cfg =
     \<lparr>h_start = (\<lambda>c p. started DatabasePool (db_Open x (ac_DatabaseURL cfg) c (p_now p)) p),
      h_stop = (\<lambda>c p.
        if DatabasePool \<notin> p_up p then panics p
        else (let p1 = occur Closing p;
                  (e, t) = select_done (x_pick x (p_now p)) c (p_now p) (x_close x (p_now p))
              in (e, occur (Stopped DatabasePool) (p1\<lparr>p_now := t\<rparr>))))\<rparr>"

definition newHTTPService :: "machine \<Rightarrow> api_Config \<Rightarrow> hook" where
  "newHTTPService x cfg =
     \<lparr>h_start = (\<lambda>c p.
        case NewHandler of
          None \<Rightarrow> panics p
        | Some _ \<Rightarrow>
            (case x_listen x c (p_now p) of
               (Some e, t) \<Rightarrow> (Some (Wrapped (utf8 [0x76d1, 0x542c] @ '' HTTP: '') [e]), p\<lparr>p_now := t\<rparr>)
             | (None, t) \<Rightarrow> started HttpServer (None, t) (p\<lparr>p_pending := x_serve x t\<rparr>))),
      h_stop = (\<lambda>c p.
        if HttpServer \<notin> p_up p then panics p
        else (let drain = WithTimeout c (p_now p) (ShutdownTimeout cfg);
                  p1 = occur Draining (p\<lparr>p_draining := True\<rparr>);
                  (e, t) = x_shutdown x drain (p_now p1);
                  p2 = p1\<lparr>p_now := t\<rparr>
              in case e of
                   Some err \<Rightarrow>
                     (Some (Wrapped (utf8 [0x6392, 0x7a7a] @ '' HTTP '' @ utf8 [0x8bf7, 0x6c42] @ '': '') [err]),
                      occur (Stopped HttpServer) (occur Aborted p2))
                 | None \<Rightarrow> (None, occur (Stopped HttpServer) (occur Drained p2))))\<rparr>"

text \<open>The value \<^verbatim>\<open>service.Run\<close> returns (see \<open>mail_Run_result\<close> below).\<close>

definition consumer_result :: "time \<Rightarrow> goerr option" where
  "consumer_result poll =
     (if poll \<le> 0
      then Some (Plain (utf8 [0x90ae, 0x4ef6, 0x8f6e, 0x8be2, 0x95f4, 0x9694, 0x5fc5, 0x987b, 0x4e3a, 0x6b63]))
      else None)"

definition startMailConsumer :: "machine \<Rightarrow> worker_Config \<Rightarrow> hook" where
  "startMailConsumer x cfg =
     \<lparr>h_start = (\<lambda>c p.
        started MailConsumer (None, p_now p)
          (p\<lparr>p_pending := map_option (Pair (p_now p)) (consumer_result (wk_MailPollInterval cfg))\<rparr>)),
      h_stop = (\<lambda>c p.
        if MailConsumer \<notin> p_up p then panics p
        else (let c1 = WithTimeout c (p_now p) (wk_ShutdownTimeout cfg);
                  p1 = occur ConsumerCancelled p;
                  (e, t) = select_done (x_pick x (p_now p)) c1 (p_now p) (x_consumer x (p_now p))
              in (e, occur (Stopped MailConsumer) (p1\<lparr>p_now := t\<rparr>))))\<rparr>"

subsection \<open>The mail sender of the worker\<close>

text \<open>\<^verbatim>\<open>mail.Message\<close> and the sender that only logs; a log entry is a list of keys and values.\<close>

record mail_Message =
  mm_ID :: string
  mm_Kind :: string
  mm_To :: string
  mm_Subject :: string
  mm_HTML :: string

definition LogSender_Send :: "goerr option \<Rightarrow> mail_Message \<Rightarrow> goerr option \<times> (string \<times> string) list list" where
  "LogSender_Send ctxErr message =
     (case ctxErr of
        Some e \<Rightarrow> (Some e, [])
      | None \<Rightarrow>
          (None, [[(''provider'', ''log''), (''message_id'', mm_ID message), (''kind'', mm_Kind message),
            (''delivered'', ''false'')]]))"

definition worker_send :: "goerr option \<Rightarrow> Message \<Rightarrow> goerr option \<times> (string \<times> string) list list" where
  "worker_send ctxErr m =
     LogSender_Send ctxErr \<lparr>mm_ID = msg_ID m, mm_Kind = msg_Kind m, mm_To = msg_To m, mm_Subject = msg_Subject m, mm_HTML = msg_HTML m\<rparr>"

text \<open>\<^verbatim>\<open>mailoutbox.NewService\<close>: which of its arguments are not nil.\<close>

definition mail_NewService :: "bool \<Rightarrow> bool \<Rightarrow> bool \<Rightarrow> goerr option" where
  "mail_NewService database send logger =
     (if \<not> database \<or> \<not> send \<or> \<not> logger
      then Some (Plain (utf8 [0x90ae, 0x4ef6, 0x961f, 0x5217, 0x4f9d, 0x8d56, 0x4e0d, 0x5b8c, 0x6574])) else None)"

subsection \<open>lifecycle.go\<close>

definition guarded :: "gctx \<Rightarrow> hook \<Rightarrow> hook" where
  "guarded startup hk =
     hk\<lparr>h_start := (\<lambda>_ p. case ctx_Err startup (p_now p) of Some e \<Rightarrow> (Some e, p) | None \<Rightarrow> h_start hk startup p)\<rparr>"

definition Append :: "gctx \<Rightarrow> hook \<Rightarrow> hook list \<Rightarrow> hook list" where
  "Append startup hk hks = hks @ [guarded startup hk]"

subsection \<open>run.go\<close>

text \<open>
  The Fx application: \<open>fx_Start\<close> returns the error and the hooks that are still started, the
  last one first; \<open>fx_Stop\<close> takes those; \<open>fx_Err\<close> is what \<^verbatim>\<open>app.Err\<close> makes of the
  error of a constructor.
\<close>

record fx =
  fx_StartTimeout :: time
  fx_Err :: "goerr \<Rightarrow> goerr"
  fx_Start :: "gctx \<Rightarrow> hook list \<Rightarrow> proc \<Rightarrow> goerr option \<times> hook list \<times> proc"
  fx_Stop :: "gctx \<Rightarrow> hook list \<Rightarrow> proc \<Rightarrow> goerr option \<times> proc"

definition infrastructureShutdownGrace :: time where
  "infrastructureShutdownGrace = 10 * second"

text \<open>The wait for the stop signal or a failure; \<^const>\<open>None\<close> when neither ever comes.\<close>

definition await :: "machine \<Rightarrow> gctx \<Rightarrow> proc \<Rightarrow> (goerr option \<times> proc) option" where
  "await x c p =
     (let now = p_now p in
      case (case p_failures p of e # _ \<Rightarrow> Some (now, e) | [] \<Rightarrow> map_option (\<lambda>(t, e). (max now t, e)) (p_pending p)) of
        None \<Rightarrow> map_option (\<lambda>d. (None, p\<lparr>p_now := max now d\<rparr>)) (cx_done c)
      | Some (t, e) \<Rightarrow>
          (case select_done (x_pick x now) c now t of
             (Some _, t') \<Rightarrow> Some (None, p\<lparr>p_now := t'\<rparr>)
           | (None, t') \<Rightarrow>
               Some (Some e, p\<lparr>p_now := t', p_failures := tl (Failures_Report (Some e) (p_failures p)), p_pending := None\<rparr>)))"

definition runApplication ::
  "fx \<Rightarrow> machine \<Rightarrow> time \<Rightarrow> gctx \<Rightarrow> (gctx \<Rightarrow> hook list) \<Rightarrow> proc \<Rightarrow> (goerr option \<times> proc) option" where
  "runApplication a x stopTimeout c app p =
     (let startupCtx = WithTimeout c (p_now p) (fx_StartTimeout a);
          lifecycleCtx = WithTimeout (WithoutCancel c) (p_now p) (fx_StartTimeout a + stopTimeout);
          (err, running, p1) = fx_Start a lifecycleCtx (app startupCtx) p;
          err1 = (case err of None \<Rightarrow> ctx_Err startupCtx (p_now p1) | Some e \<Rightarrow> Some e)
      in case (case err1 of None \<Rightarrow> await x c p1 | Some e \<Rightarrow> Some (Some e, p1)) of
           None \<Rightarrow> None
         | Some (err2, p2) \<Rightarrow>
             (let shutdown = WithTimeout Background (p_now p2) stopTimeout;
                  (stopErr, p3) = fx_Stop a shutdown running p2
              in Some (errors_Join [err2, stopErr], p3)))"

text \<open>
  \<open>built\<close> is the error of building the graph and \<open>service\<close> the hook that the process's own
  module appends; Fx runs a constructor after those of its arguments, so the hooks of telemetry
  and of the database, which the services depend on, come first.
\<close>

definition appfx_hooks :: "machine \<Rightarrow> appfx_Config \<Rightarrow> hook \<Rightarrow> gctx \<Rightarrow> hook list" where
  "appfx_hooks x cfg service startup =
     Append startup service (Append startup (newDatabase x cfg) (Append startup (newTelemetry x cfg) []))"

definition appfx_Run ::
  "fx \<Rightarrow> machine \<Rightarrow> gctx \<Rightarrow> appfx_Config \<Rightarrow> goerr option \<Rightarrow> hook \<Rightarrow> proc \<Rightarrow> (goerr option \<times> proc) option" where
  "appfx_Run a x c cfg built service p =
     (case ctx_Err c (p_now p) of
        Some e \<Rightarrow> Some (Some e, p)
      | None \<Rightarrow>
          (case built of
             Some e \<Rightarrow> Some (Some (fx_Err a e), p)
           | None \<Rightarrow>
               runApplication a x (ac_ShutdownTimeout cfg + infrastructureShutdownGrace) c
                 (appfx_hooks x cfg service) (p\<lparr>p_failures := []\<rparr>)))"

definition api_Run ::
  "(string \<Rightarrow> url option) \<Rightarrow> fx \<Rightarrow> machine \<Rightarrow> env \<Rightarrow> platform \<Rightarrow> unit act \<Rightarrow> gctx \<Rightarrow> api_Config \<Rightarrow> proc
     \<Rightarrow> (goerr option \<times> proc) option" where
  "api_Run parse_url a x cx pl ping c cfg p =
     (case api_Validate parse_url cfg of
        Some e \<Rightarrow> Some (Some e, p)
      | None \<Rightarrow>
          appfx_Run a x c (api_infrastructure cfg)
            (case NewServices cx pl ping cfg of Inl e \<Rightarrow> Some e | Inr _ \<Rightarrow> None) (newHTTPService x cfg) p)"

definition worker_Run ::
  "(string \<Rightarrow> url option) \<Rightarrow> fx \<Rightarrow> machine \<Rightarrow> gctx \<Rightarrow> worker_Config \<Rightarrow> proc \<Rightarrow> (goerr option \<times> proc) option" where
  "worker_Run parse_url a x c cfg p =
     (case worker_Validate parse_url cfg of
        Some e \<Rightarrow> Some (Some e, p)
      | None \<Rightarrow> appfx_Run a x c (worker_infrastructure cfg) (mail_NewService True True True) (startMailConsumer x cfg) p)"

subsection \<open>What is relied on\<close>

text \<open>
  A library call that takes a context returns by the end of that context.  \<^verbatim>\<open>pool.Close\<close> takes
  none and returns when every connection has come back, whenever that is.
\<close>

definition timely :: "call \<Rightarrow> bool" where
  "timely f \<longleftrightarrow> (\<forall>c t. t \<le> snd (f c t) \<and> (\<forall>d. cx_done c = Some d \<longrightarrow> snd (f c t) \<le> max t d))"

definition machine_ok :: "machine \<Rightarrow> bool" where
  "machine_ok x \<longleftrightarrow>
     timely (x_resource x) \<and> timely (x_trace_exporter x) \<and> timely (x_trace_exporter_shutdown x) \<and>
     timely (x_metric_exporter x) \<and> timely (x_trace_shutdown x) \<and> timely (x_metric_shutdown x) \<and>
     timely (x_connect x) \<and> timely (x_ping x) \<and> timely (x_listen x) \<and> timely (x_shutdown x) \<and>
     (\<forall>t. t \<le> x_close x t) \<and> (\<forall>t. t \<le> x_consumer x t)"

text \<open>
  The one place where \<^verbatim>\<open>pool.Close\<close> is waited for without a context: a pool that has handed out
  no connection, because its first ping failed, is closed within the reserve for the infrastructure.
\<close>

definition unused_pool_closes :: "machine \<Rightarrow> bool" where
  "unused_pool_closes x \<longleftrightarrow> (\<forall>c t e t'. x_ping x c t = (Some e, t') \<longrightarrow> x_close x t' < t' + infrastructureShutdownGrace)"

definition reliable :: "machine \<Rightarrow> bool" where
  "reliable x \<longleftrightarrow> machine_ok x \<and> unused_pool_closes x"

text \<open>A pool in use may take longer than the reserve to get its connections back.\<close>

definition slow_pool :: "machine \<Rightarrow> bool" where
  "slow_pool x \<longleftrightarrow> (\<exists>t. t + infrastructureShutdownGrace \<le> x_close x t)"

text \<open>
  The documented behaviour of Fx: \<^verbatim>\<open>Start\<close> runs the start hooks in order and stops at the first
  error; \<^verbatim>\<open>Stop\<close> runs the stop hooks of what has started in reverse order, all of them even if some
  fail, until its context ends; a failed \<^verbatim>\<open>Start\<close> first stops what it had started, with its own
  context, after which nothing more is stopped.  Nothing is said of hooks that outlast the context.
\<close>

fun start_hooks :: "gctx \<Rightarrow> hook list \<Rightarrow> hook list \<Rightarrow> proc \<Rightarrow> goerr option \<times> hook list \<times> proc" where
  "start_hooks c running [] p = (None, running, p)"
| "start_hooks c running (h # hs) p =
     (case ctx_Err c (p_now p) of
        Some e \<Rightarrow> (Some e, running, p)
      | None \<Rightarrow>
          (case h_start h c p of
             (Some e, p1) \<Rightarrow> (Some e, running, p1)
           | (None, p1) \<Rightarrow> start_hooks c (h # running) hs p1))"

fun stop_hooks :: "gctx \<Rightarrow> hook list \<Rightarrow> proc \<Rightarrow> goerr list \<times> hook list \<times> proc" where
  "stop_hooks c [] p = ([], [], p)"
| "stop_hooks c (h # hs) p =
     (case ctx_Err c (p_now p) of
        Some e \<Rightarrow> ([e], h # hs, p)
      | None \<Rightarrow>
          (let (e, p1) = h_stop h c p; (es, rest, p2) = stop_hooks c hs p1
           in (case e of None \<Rightarrow> es | Some e1 \<Rightarrow> e1 # es, rest, p2)))"

definition within :: "gctx \<Rightarrow> proc \<Rightarrow> bool" where
  "within c p \<longleftrightarrow> (\<forall>d. cx_done c = Some d \<longrightarrow> p_now p \<le> d)"

definition fx_starts :: "fx \<Rightarrow> bool" where
  "fx_starts a \<longleftrightarrow> (\<forall>c hs p running q.
     start_hooks c [] hs p = (None, running, q) \<longrightarrow> ctx_Err c (p_now q) = None \<longrightarrow> fx_Start a c hs p = (None, running, q))"

definition fx_rolls_back :: "fx \<Rightarrow> bool" where
  "fx_rolls_back a \<longleftrightarrow> (\<forall>c hs p e running q es rest q'.
     start_hooks c [] hs p = (Some e, running, q) \<longrightarrow> stop_hooks c running q = (es, rest, q') \<longrightarrow> within c q' \<longrightarrow>
     (\<exists>e'. fx_Start a c hs p = (Some e', [], q') \<and> (rest = [] \<and> ctx_Err c (p_now q') = None \<longrightarrow> errors_is e' e)))"

definition fx_stops :: "fx \<Rightarrow> bool" where
  "fx_stops a \<longleftrightarrow> (\<forall>c hs p es rest q.
     stop_hooks c hs p = (es, rest, q) \<longrightarrow> within c q \<longrightarrow>
     (\<exists>e. fx_Stop a c hs p = (e, q) \<and> (e = None \<longleftrightarrow> es = [] \<and> rest = [] \<and> ctx_Err c (p_now q) = None)))"

definition fx_law :: "fx \<Rightarrow> bool" where
  "fx_law a \<longleftrightarrow> fx_starts a \<and> fx_rolls_back a \<and> fx_stops a \<and> 0 < fx_StartTimeout a"

subsection \<open>The contract of a hook\<close>

fun lifecycle_event :: "event \<Rightarrow> bool" where
  "lifecycle_event (Started r) = True"
| "lifecycle_event (Stopped r) = True"
| "lifecycle_event Panicked = True"
| "lifecycle_event _ = False"

definition lifecycle :: "proc \<Rightarrow> event list" where
  "lifecycle p = filter lifecycle_event (map snd (p_log p))"

text \<open>
  Something was cut off: the requests in flight were cancelled, or a wait was given up, so that the
  consumer or the pool is reported as stopped before it really had ended.
\<close>

fun cut_rev :: "machine \<Rightarrow> (time \<times> event) list \<Rightarrow> bool" where
  "cut_rev x [] = False"
| "cut_rev x ((t, e) # before) =
     (cut_rev x before \<or> e = Aborted
      \<or> e = Stopped MailConsumer \<and> (\<exists>t0. take 1 before = [(t0, ConsumerCancelled)] \<and> t < x_consumer x t0)
      \<or> e = Stopped DatabasePool \<and> (\<exists>t0. take 1 before = [(t0, Closing)] \<and> t < x_close x t0))"

definition cut :: "machine \<Rightarrow> proc \<Rightarrow> bool" where
  "cut x p \<longleftrightarrow> cut_rev x (rev (p_log p))"

text \<open>
  A hook for the resource \<open>r\<close>: its start takes no longer than its context, except that a failing
  one may still close a pool; its stop ends with its context and within its budget, if it has one, and
  it reports success only if it cut nothing off.
\<close>

locale managed_hook =
  fixes mk :: "machine \<Rightarrow> hook" and r :: resource and late :: time and budget :: "machine \<Rightarrow> time option"
  assumes start_fails: "reliable x \<Longrightarrow> cx_done c = Some d \<Longrightarrow> p_now p < d \<Longrightarrow> h_start (mk x) c p = (Some e, q) \<Longrightarrow>
      p_now q < d + late \<and> p_up q = p_up p \<and> p_log q = p_log p"
    and start_ok: "reliable x \<Longrightarrow> cx_done c = Some d \<Longrightarrow> p_now p < d \<Longrightarrow> h_start (mk x) c p = (None, q) \<Longrightarrow>
      p_now q \<le> d \<and> p_up q = insert r (p_up p) \<and> lifecycle q = lifecycle p @ [Started r] \<and> cut x q = cut x p"
    and stop: "reliable x \<Longrightarrow> cx_done c = Some d \<Longrightarrow> p_now p < d \<Longrightarrow> r \<in> p_up p \<Longrightarrow> h_stop (mk x) c p = (res, q) \<Longrightarrow>
      p_now p \<le> p_now q \<and> p_now q \<le> d \<and> (\<forall>b. budget x = Some b \<longrightarrow> p_now q \<le> p_now p + b) \<and> p_up q = p_up p \<and>
      lifecycle q = lifecycle p @ [Stopped r] \<and> (res = None \<longrightarrow> cut x q = cut x p)"

subsection \<open>The four hooks keep it\<close>

definition bounded :: "gctx \<Rightarrow> time \<Rightarrow> time \<Rightarrow> bool" where
  "bounded c t t' \<longleftrightarrow> t \<le> t' \<and> (\<forall>d. cx_done c = Some d \<longrightarrow> t' \<le> max t d)"

lemma bounded_refl [simp]: "bounded c t t"
  by (simp add: bounded_def)

lemma bounded_trans: "bounded c t t1 \<Longrightarrow> bounded c t1 t2 \<Longrightarrow> bounded c t t2"
  by (fastforce simp: bounded_def)

lemma timely_bounded: "timely f \<longleftrightarrow> (\<forall>c t. bounded c t (snd (f c t)))"
  by (simp add: timely_def bounded_def)

lemma timelyD: "timely f \<Longrightarrow> f c t = (e, t') \<Longrightarrow> bounded c t t'"
  by (metis snd_conv timely_bounded)

lemma machine_timely:
  assumes "reliable x"
  shows "timely (x_resource x)" "timely (x_trace_exporter x)" "timely (x_metric_exporter x)" "timely (x_trace_exporter_shutdown x)"
    "timely (x_trace_shutdown x)" "timely (x_metric_shutdown x)" "timely (x_connect x)" "timely (x_ping x)"
    "timely (x_listen x)" "timely (x_shutdown x)"
  using assms by (simp_all add: reliable_def machine_ok_def)

lemma WithTimeout_done:
  "\<exists>d. cx_done (WithTimeout c now k) = Some d \<and> d \<le> now + k \<and> (\<forall>d'. cx_done c = Some d' \<longrightarrow> d \<le> d')"
  by (simp add: WithTimeout_def split: option.split)

lemma bounded_WithTimeout:
  "bounded (WithTimeout c t k) t t' \<Longrightarrow> bounded c t t'" "bounded (WithTimeout c t k) t t' \<Longrightarrow> t' \<le> t + max 0 k"
  by (auto simp: bounded_def WithTimeout_def split: option.splits if_splits)

lemma occur_simps [simp]:
  "p_now (occur e p) = p_now p" "p_up (occur e p) = p_up p"
  "lifecycle (occur e p) = lifecycle p @ (if lifecycle_event e then [e] else [])"
  "p_log (occur e p) = p_log p @ [(p_now p, e)]"
  "cut x (occur e p) \<longleftrightarrow> cut x p \<or> e = Aborted
     \<or> e = Stopped MailConsumer \<and> (\<exists>t0. take 1 (rev (p_log p)) = [(t0, ConsumerCancelled)] \<and> p_now p < x_consumer x t0)
     \<or> e = Stopped DatabasePool \<and> (\<exists>t0. take 1 (rev (p_log p)) = [(t0, Closing)] \<and> p_now p < x_close x t0)"
  by (auto simp: occur_def lifecycle_def cut_def)

lemma clock_simps [simp]:
  "lifecycle (p\<lparr>p_now := t\<rparr>) = lifecycle p" "cut x (p\<lparr>p_now := t\<rparr>) = cut x p"
  "lifecycle (p\<lparr>p_up := u\<rparr>) = lifecycle p" "cut x (p\<lparr>p_up := u\<rparr>) = cut x p"
  "lifecycle (p\<lparr>p_pending := f\<rparr>) = lifecycle p" "cut x (p\<lparr>p_pending := f\<rparr>) = cut x p"
  "lifecycle (p\<lparr>p_draining := b\<rparr>) = lifecycle p" "cut x (p\<lparr>p_draining := b\<rparr>) = cut x p"
  "lifecycle (p\<lparr>p_failures := es\<rparr>) = lifecycle p" "cut x (p\<lparr>p_failures := es\<rparr>) = cut x p"
  by (simp_all add: lifecycle_def cut_def)

lemma grace_pos: "0 < infrastructureShutdownGrace"
  by (simp add: infrastructureShutdownGrace_def second_def)

lemma started_cases:
  "started r res p = (Some e, q) \<Longrightarrow> \<exists>t. res = (Some e, t) \<and> q = p\<lparr>p_now := t\<rparr>"
  "started r res p = (None, q) \<Longrightarrow> \<exists>t. res = (None, t) \<and> q = occur (Started r) (p\<lparr>p_now := t, p_up := insert r (p_up p)\<rparr>)"
  by (auto simp: started_def split: prod.splits option.splits)

lemma select_done_bounds:
  assumes "select_done pick c now t = (e, t')" and "now \<le> t"
  shows "bounded c now t'" and "t' \<le> t"
  using assms by (auto simp: select_done_def bounded_def split: option.splits if_splits)

lemma select_done_None: "select_done pick c now t = (None, t') \<Longrightarrow> t' = t"
  by (auto simp: select_done_def split: option.splits if_splits)

lemma telemetry_Setup_timely:
  assumes "reliable x"
  shows "timely (telemetry_Setup x enabled)"
proof (unfold timely_bounded, intro allI)
  fix c t
  note m = machine_timely [OF assms]
  obtain e1 t1 where 1: "x_resource x c t = (e1, t1)" by force
  obtain e2 t2 where 2: "x_trace_exporter x c t1 = (e2, t2)" by force
  obtain e3 t3 where 3: "x_metric_exporter x c t2 = (e3, t3)" by force
  obtain e4 t4 where 4: "x_trace_exporter_shutdown x c t3 = (e4, t4)" by force
  have "bounded c t t1" "bounded c t1 t2" "bounded c t2 t3" "bounded c t3 t4"
    using timelyD [OF m(1) 1] timelyD [OF m(2) 2] timelyD [OF m(3) 3] timelyD [OF m(4) 4] by simp_all
  then have "bounded c t t1" "bounded c t t2" "bounded c t t3" "bounded c t t4" by (meson bounded_trans)+
  then show "bounded c t (snd (telemetry_Setup x enabled c t))"
    by (simp add: telemetry_Setup_def 1 2 3 4 split: option.split)
qed

lemma telemetry_shutdown_timely:
  assumes "reliable x"
  shows "timely (telemetry_shutdown x enabled)"
proof (unfold timely_bounded, intro allI)
  fix c t
  note m = machine_timely [OF assms]
  obtain e1 t1 where 1: "x_trace_shutdown x c t = (e1, t1)" by force
  obtain e2 t2 where 2: "x_metric_shutdown x c t1 = (e2, t2)" by force
  have "bounded c t t2"
    using timelyD [OF m(5)] timelyD [OF m(6)] 1 2 bounded_trans by blast
  then show "bounded c t (snd (telemetry_shutdown x enabled c t))" by (simp add: telemetry_shutdown_def 1 2)
qed

lemma db_Open_time:
  assumes "reliable x" and "db_Open x url c t = (e, t')" and "cx_done c = Some d" and "t < d"
  shows "t' < d + infrastructureShutdownGrace" and "e = None \<Longrightarrow> t' \<le> d"
proof -
  note m = machine_timely [OF assms(1)]
  obtain e1 t1 where 1: "x_connect x c t = (e1, t1)" by force
  obtain e2 t2 where 2: "x_ping x (WithTimeout c t1 (5 * second)) t1 = (e2, t2)" by force
  have b: "bounded c t t1" "bounded c t1 t2"
    using timelyD [OF m(7) 1] bounded_WithTimeout(1) [OF timelyD [OF m(8) 2]] by simp_all
  then have t: "t1 \<le> d" "t2 \<le> d" using assms(3,4) by (auto simp: bounded_def)
  have "x_close x t2 < t2 + infrastructureShutdownGrace" if "e2 = Some e'" for e'
    using assms(1) 2 that unfolding reliable_def unused_pool_closes_def by blast
  then show "t' < d + infrastructureShutdownGrace" "e = None \<Longrightarrow> t' \<le> d"
    using assms(2,4) t grace_pos by (auto simp: db_Open_def 1 2 split: if_splits option.splits)
qed

interpretation telemetry: managed_hook "\<lambda>x. newTelemetry x cfg" Telemetry 1 "\<lambda>_. None" for cfg
proof
  fix x :: machine and c :: gctx and d :: time and p q :: proc and e res
  assume x: "reliable x" and c: "cx_done c = Some d" "p_now p < d"
  note t = timelyD [OF telemetry_Setup_timely [OF x]] timelyD [OF telemetry_shutdown_timely [OF x]]
  show "p_now q < d + 1 \<and> p_up q = p_up p \<and> p_log q = p_log p"
    if "h_start (newTelemetry x cfg) c p = (Some e, q)"
    using that c t(1) [where c = c and t = "p_now p"] by (fastforce simp: newTelemetry_def bounded_def dest: started_cases)
  show "p_now q \<le> d \<and> p_up q = insert Telemetry (p_up p) \<and> lifecycle q = lifecycle p @ [Started Telemetry] \<and> cut x q = cut x p"
    if "h_start (newTelemetry x cfg) c p = (None, q)"
    using that c t(1) [where c = c and t = "p_now p"] by (fastforce simp: newTelemetry_def bounded_def dest: started_cases)
  show "p_now p \<le> p_now q \<and> p_now q \<le> d \<and> (\<forall>b. None = Some b \<longrightarrow> p_now q \<le> p_now p + b) \<and> p_up q = p_up p \<and>
      lifecycle q = lifecycle p @ [Stopped Telemetry] \<and> (res = None \<longrightarrow> cut x q = cut x p)"
    if "Telemetry \<in> p_up p" "h_stop (newTelemetry x cfg) c p = (res, q)"
    using that c t(2) [where c = c and t = "p_now p"] by (fastforce simp: newTelemetry_def bounded_def split: prod.splits)
qed

text \<open>The stop of the pool fits into the reserve unless its connections are slow to come back.\<close>

definition pool_budget :: "machine \<Rightarrow> time option" where
  "pool_budget x = (if slow_pool x then None else Some (infrastructureShutdownGrace - 1))"

interpretation database: managed_hook "\<lambda>x. newDatabase x cfg" DatabasePool infrastructureShutdownGrace pool_budget for cfg
proof
  fix x :: machine and c :: gctx and d :: time and p q :: proc and e res
  assume x: "reliable x" and c: "cx_done c = Some d" "p_now p < d"
  show "p_now q < d + infrastructureShutdownGrace \<and> p_up q = p_up p \<and> p_log q = p_log p"
    if "h_start (newDatabase x cfg) c p = (Some e, q)"
    using that db_Open_time(1) [OF x _ c] by (auto simp: newDatabase_def dest!: started_cases)
  show "p_now q \<le> d \<and> p_up q = insert DatabasePool (p_up p) \<and> lifecycle q = lifecycle p @ [Started DatabasePool] \<and> cut x q = cut x p"
    if "h_start (newDatabase x cfg) c p = (None, q)"
    using that db_Open_time(2) [OF x _ c] by (auto simp: newDatabase_def dest!: started_cases)
  show "p_now p \<le> p_now q \<and> p_now q \<le> d \<and> (\<forall>b. pool_budget x = Some b \<longrightarrow> p_now q \<le> p_now p + b) \<and>
      p_up q = p_up p \<and> lifecycle q = lifecycle p @ [Stopped DatabasePool] \<and> (res = None \<longrightarrow> cut x q = cut x p)"
    if "DatabasePool \<in> p_up p" "h_stop (newDatabase x cfg) c p = (res, q)"
  proof -
    obtain e1 t1 where 1: "select_done (x_pick x (p_now p)) c (p_now p) (x_close x (p_now p)) = (e1, t1)" by force
    have k: "p_now p \<le> x_close x (p_now p)" using x by (simp add: reliable_def machine_ok_def)
    have "x_close x (p_now p) < p_now p + infrastructureShutdownGrace" if "\<not> slow_pool x" using that by (auto simp: slow_pool_def not_le)
    moreover have "t1 = x_close x (p_now p)" if "e1 = None" using 1 that select_done_None by blast
    ultimately show ?thesis using that c select_done_bounds [OF 1 k]
      by (auto simp: newDatabase_def 1 bounded_def pool_budget_def Let_def)
  qed
qed

interpretation http: managed_hook "\<lambda>x. newHTTPService x cfg" HttpServer 1 "\<lambda>_. Some (max 0 (ShutdownTimeout cfg))" for cfg
proof
  fix x :: machine and c :: gctx and d :: time and p q :: proc and e res
  assume x: "reliable x" and c: "cx_done c = Some d" "p_now p < d"
  obtain hs where hs: "NewHandler = Some hs" using catalog_bound by blast
  obtain e1 t1 where 1: "x_listen x c (p_now p) = (e1, t1)" by force
  have b: "bounded c (p_now p) t1" by (rule timelyD [OF machine_timely(9) [OF x] 1])
  show "p_now q < d + 1 \<and> p_up q = p_up p \<and> p_log q = p_log p"
    if "h_start (newHTTPService x cfg) c p = (Some e, q)"
    using that c b by (auto simp: newHTTPService_def hs 1 started_def bounded_def split: option.splits)
  show "p_now q \<le> d \<and> p_up q = insert HttpServer (p_up p) \<and> lifecycle q = lifecycle p @ [Started HttpServer] \<and> cut x q = cut x p"
    if "h_start (newHTTPService x cfg) c p = (None, q)"
    using that c b by (auto simp: newHTTPService_def hs 1 started_def bounded_def split: option.splits)
  show "p_now p \<le> p_now q \<and> p_now q \<le> d \<and> (\<forall>b. Some (max 0 (ShutdownTimeout cfg)) = Some b \<longrightarrow> p_now q \<le> p_now p + b) \<and>
      p_up q = p_up p \<and> lifecycle q = lifecycle p @ [Stopped HttpServer] \<and> (res = None \<longrightarrow> cut x q = cut x p)"
    if "HttpServer \<in> p_up p" "h_stop (newHTTPService x cfg) c p = (res, q)"
  proof -
    obtain e2 t2 where 2: "x_shutdown x (WithTimeout c (p_now p) (ShutdownTimeout cfg)) (p_now p) = (e2, t2)" by force
    have "bounded (WithTimeout c (p_now p) (ShutdownTimeout cfg)) (p_now p) t2"
      by (rule timelyD [OF machine_timely(10) [OF x] 2])
    then show ?thesis using that c bounded_WithTimeout [of c "p_now p" "ShutdownTimeout cfg" t2]
      by (auto simp: newHTTPService_def 2 bounded_def Let_def split: option.splits)
  qed
qed

interpretation consumer: managed_hook "\<lambda>x. startMailConsumer x cfg" MailConsumer 1 "\<lambda>_. Some (max 0 (wk_ShutdownTimeout cfg))" for cfg
proof
  fix x :: machine and c :: gctx and d :: time and p q :: proc and e res
  assume x: "reliable x" and c: "cx_done c = Some d" "p_now p < d"
  show "p_now q < d + 1 \<and> p_up q = p_up p \<and> p_log q = p_log p"
    if "h_start (startMailConsumer x cfg) c p = (Some e, q)"
    using that by (simp add: startMailConsumer_def started_def)
  show "p_now q \<le> d \<and> p_up q = insert MailConsumer (p_up p) \<and> lifecycle q = lifecycle p @ [Started MailConsumer] \<and> cut x q = cut x p"
    if "h_start (startMailConsumer x cfg) c p = (None, q)"
    using that c by (auto simp: startMailConsumer_def started_def)
  show "p_now p \<le> p_now q \<and> p_now q \<le> d \<and> (\<forall>b. Some (max 0 (wk_ShutdownTimeout cfg)) = Some b \<longrightarrow> p_now q \<le> p_now p + b) \<and>
      p_up q = p_up p \<and> lifecycle q = lifecycle p @ [Stopped MailConsumer] \<and> (res = None \<longrightarrow> cut x q = cut x p)"
    if "MailConsumer \<in> p_up p" "h_stop (startMailConsumer x cfg) c p = (res, q)"
  proof -
    obtain e1 t1 where 1: "select_done (x_pick x (p_now p)) (WithTimeout c (p_now p) (wk_ShutdownTimeout cfg)) (p_now p)
        (x_consumer x (p_now p)) = (e1, t1)" by force
    have "bounded (WithTimeout c (p_now p) (wk_ShutdownTimeout cfg)) (p_now p) t1"
      using select_done_bounds(1) [OF 1] x by (simp add: reliable_def machine_ok_def)
    moreover have "t1 = x_consumer x (p_now p)" if "e1 = None" using 1 that select_done_None by blast
    ultimately show ?thesis using that c bounded_WithTimeout [of c "p_now p" "wk_ShutdownTimeout cfg" t1]
      by (auto simp: startMailConsumer_def 1 bounded_def Let_def)
  qed
qed

subsection \<open>Starting and stopping in order\<close>

text \<open>
  \<open>halts x c hs rs p\<close>: stopping the hooks \<open>hs\<close> under \<open>c\<close> ends in time and logs the end of the
  resources \<open>rs\<close> in this order, of all of them without an error unless the pool is slow, when the
  last one may be missing.
\<close>

definition stops_all :: "machine \<Rightarrow> nat \<Rightarrow> nat \<Rightarrow> bool" where
  "stops_all x j n \<longleftrightarrow> j = n \<or> slow_pool x \<and> n = Suc j"

definition halts :: "machine \<Rightarrow> gctx \<Rightarrow> hook list \<Rightarrow> resource list \<Rightarrow> proc \<Rightarrow> bool" where
  "halts x c hs rs p \<longleftrightarrow>
     (\<exists>es rest q j. stop_hooks c hs p = (es, rest, q) \<and> within c q \<and> lifecycle q = lifecycle p @ map Stopped (take j rs) \<and>
        stops_all x j (length rs) \<and> (es = [] \<longrightarrow> rest = [] \<and> j = length rs \<and> cut x q = cut x p))"

lemma halts_Nil: "cx_done c = Some d \<Longrightarrow> p_now p \<le> d \<Longrightarrow> halts x c [] [] p"
  by (simp add: halts_def within_def stops_all_def)

lemma halts_late: "cx_done c = Some d \<Longrightarrow> p_now p = d \<Longrightarrow> slow_pool x \<Longrightarrow> halts x c [h] [r] p"
  by (auto simp: halts_def within_def stops_all_def ctx_Err_def intro!: exI [of _ 0])

context managed_hook
begin

lemma halts_Cons:
  assumes x: "reliable x" and c: "cx_done c = Some d" "p_now p < d" and up: "r \<in> p_up p" and h: "h_stop h = h_stop (mk x)"
    and rest: "\<And>q. p_now p \<le> p_now q \<Longrightarrow> p_now q \<le> d \<Longrightarrow> (\<And>b. budget x = Some b \<Longrightarrow> p_now q \<le> p_now p + b) \<Longrightarrow>
      p_up q = p_up p \<Longrightarrow> halts x c hs rs q"
  shows "halts x c (h # hs) (r # rs) p"
proof -
  obtain res q where q: "h_stop (mk x) c p = (res, q)" by force
  note s = stop [OF x c up q]
  obtain es left q' j where q': "stop_hooks c hs q = (es, left, q')" "within c q'" "lifecycle q' = lifecycle q @ map Stopped (take j rs)"
    "stops_all x j (length rs)" "es = [] \<longrightarrow> left = [] \<and> j = length rs \<and> cut x q' = cut x q"
    using rest [of q] s by (auto simp: halts_def)
  show ?thesis unfolding halts_def
    using s q' c q by (intro exI [of _ "case res of None \<Rightarrow> es | Some e \<Rightarrow> e # es"] exI [of _ left] exI [of _ q'] exI [of _ "Suc j"])
      (auto simp: h ctx_Err_def stops_all_def split: option.splits)
qed

lemma start_step:
  assumes x: "reliable x" and s: "cx_done s = Some d" "p_now p \<le> d" and c: "cx_done c = Some l" "d < l"
  shows "(\<exists>e q. start_hooks c run (guarded s (mk x) # hs) p = (Some e, run, q) \<and>
            p_now q < d + max 1 late \<and> p_up q = p_up p \<and> lifecycle q = lifecycle p \<and> cut x q = cut x p) \<or>
         (\<exists>q. start_hooks c run (guarded s (mk x) # hs) p = start_hooks c (guarded s (mk x) # run) hs q \<and>
            p_now q \<le> d \<and> p_up q = insert r (p_up p) \<and> lifecycle q = lifecycle p @ [Started r] \<and> cut x q = cut x p)"
proof (cases "p_now p < d")
  case True
  obtain res q where q: "h_start (mk x) s p = (res, q)" by force
  have run: "start_hooks c run (guarded s (mk x) # hs) p =
      (case res of Some e \<Rightarrow> (Some e, run, q) | None \<Rightarrow> start_hooks c (guarded s (mk x) # run) hs q)"
    using True s c q by (simp add: guarded_def ctx_Err_def split: option.split)
  show ?thesis
  proof (cases res)
    case None
    then show ?thesis using start_ok [OF x s(1) True] q run by auto
  next
    case (Some e)
    then have "p_now q < d + late \<and> p_up q = p_up p \<and> p_log q = p_log p" using start_fails [OF x s(1) True] q by simp
    then show ?thesis using run Some by (auto simp: lifecycle_def cut_def)
  qed
next
  case False
  then show ?thesis using s c by (auto simp: guarded_def ctx_Err_def)
qed

end

text \<open>
  The process: telemetry first, then the database, then the service, whose stop takes at most the
  configured time.
\<close>

locale application =
  tel: managed_hook tel Telemetry 1 "\<lambda>_. None" +
  db: managed_hook db DatabasePool infrastructureShutdownGrace pool_budget +
  svc: managed_hook svc r 1 "\<lambda>_. Some (max 0 drain)"
  for tel db svc :: "machine \<Rightarrow> hook" and r :: resource and drain :: time
begin

lemma halts_all:
  assumes x: "reliable x" and k: "k \<le> 3" "set (take k [Telemetry, DatabasePool, r]) \<subseteq> p_up p" and c: "cx_done c = Some d"
    and room: "p_now p + (if k = 3 then max 0 drain + infrastructureShutdownGrace - 1
        else if k = 2 then infrastructureShutdownGrace - 1 else 0) < d"
  shows "halts x c (rev (take k [guarded s (tel x), guarded s (db x), guarded s (svc x)]))
    (rev (take k [Telemetry, DatabasePool, r])) p"
proof -
  have g: "h_stop (guarded s h) = h_stop h" for h by (simp add: guarded_def)
  have 1: "halts x c [guarded s (tel x)] [Telemetry] q" if "p_now q < d \<or> slow_pool x \<and> p_now q = d" "Telemetry \<in> p_up q" for q
    using tel.halts_Cons [OF x c _ that(2) g halts_Nil [OF c]] halts_late [OF c] that(1) by blast
  have 2: "halts x c [guarded s (db x), guarded s (tel x)] [DatabasePool, Telemetry] q"
    if q: "p_now q + infrastructureShutdownGrace - 1 < d" "{DatabasePool, Telemetry} \<subseteq> p_up q" for q
  proof (rule db.halts_Cons [OF x c _ _ g])
    show "p_now q < d" "DatabasePool \<in> p_up q" using q grace_pos by auto
    show "halts x c [guarded s (tel x)] [Telemetry] q'"
      if "p_now q' \<le> d" "\<And>b. pool_budget x = Some b \<Longrightarrow> p_now q' \<le> p_now q + b" "p_up q' = p_up q" for q'
    proof (rule 1)
      show "p_now q' < d \<or> slow_pool x \<and> p_now q' = d"
        using q(1) that(1) that(2) [of "infrastructureShutdownGrace - 1"] by (cases "slow_pool x") (auto simp: pool_budget_def)
    qed (use q that in auto)
  qed
  have 3: "halts x c [guarded s (svc x), guarded s (db x), guarded s (tel x)] [r, DatabasePool, Telemetry] q"
    if q: "p_now q + max 0 drain + infrastructureShutdownGrace - 1 < d" "{r, DatabasePool, Telemetry} \<subseteq> p_up q" for q
  proof (rule svc.halts_Cons [OF x c _ _ g])
    show "p_now q < d" "r \<in> p_up q" using q grace_pos by auto
    show "halts x c [guarded s (db x), guarded s (tel x)] [DatabasePool, Telemetry] q'"
      if "\<And>b. Some (max 0 drain) = Some b \<Longrightarrow> p_now q' \<le> p_now q + b" "p_up q' = p_up q" for q'
      by (rule 2) (use q that in force)+
  qed
  consider "k = 0" | "k = 1" | "k = 2" | "k = 3" using k(1) by linarith
  then show ?thesis using k(2) room by cases (auto simp: numeral_2_eq_2 numeral_3_eq_3 intro!: halts_Nil [OF c] 1 2 3)
qed

lemma starts:
  assumes x: "reliable x" and s: "cx_done s = Some d" "p_now p \<le> d" and c: "cx_done c = Some l" "d < l"
  shows "\<exists>k err q. k \<le> 3 \<and> (err = None \<longleftrightarrow> k = 3) \<and>
    start_hooks c [] [guarded s (tel x), guarded s (db x), guarded s (svc x)] p =
      (err, rev (take k [guarded s (tel x), guarded s (db x), guarded s (svc x)]), q) \<and>
    set (take k [Telemetry, DatabasePool, r]) \<subseteq> p_up q \<and>
    lifecycle q = lifecycle p @ map Started (take k [Telemetry, DatabasePool, r]) \<and> cut x q = cut x p \<and>
    p_now q + (if k = 2 then infrastructureShutdownGrace - 1 else 0) < d + infrastructureShutdownGrace \<and>
    (err = None \<longrightarrow> p_now q \<le> d)"
proof -
  let ?t = "guarded s (tel x)" and ?d = "guarded s (db x)" and ?v = "guarded s (svc x)"
  from tel.start_step [OF x s c, of "[]" "[?d, ?v]"] show ?thesis
  proof (elim disjE exE conjE)
    fix e q assume "start_hooks c [] [?t, ?d, ?v] p = (Some e, [], q)" "p_now q < d + max 1 1" "lifecycle q = lifecycle p"
      "cut x q = cut x p"
    then show ?thesis using grace_pos by (intro exI [of _ 0] exI [of _ "Some e"] exI [of _ q]) simp
  next
    fix q1 assume 1: "start_hooks c [] [?t, ?d, ?v] p = start_hooks c [?t] [?d, ?v] q1" "p_now q1 \<le> d"
      "p_up q1 = insert Telemetry (p_up p)" "lifecycle q1 = lifecycle p @ [Started Telemetry]" "cut x q1 = cut x p"
    from db.start_step [OF x s(1) 1(2) c, of "[?t]" "[?v]"] show ?thesis
    proof (elim disjE exE conjE)
      fix e q assume "start_hooks c [?t] [?d, ?v] q1 = (Some e, [?t], q)" "p_now q < d + max 1 infrastructureShutdownGrace"
        "p_up q = p_up q1" "lifecycle q = lifecycle q1" "cut x q = cut x q1"
      then show ?thesis using 1 grace_pos by (intro exI [of _ 1] exI [of _ "Some e"] exI [of _ q]) simp
    next
      fix q2 assume 2: "start_hooks c [?t] [?d, ?v] q1 = start_hooks c [?d, ?t] [?v] q2" "p_now q2 \<le> d"
        "p_up q2 = insert DatabasePool (p_up q1)" "lifecycle q2 = lifecycle q1 @ [Started DatabasePool]" "cut x q2 = cut x q1"
      from svc.start_step [OF x s(1) 2(2) c, of "[?d, ?t]" "[]"] show ?thesis
      proof (elim disjE exE conjE)
        fix e q assume "start_hooks c [?d, ?t] [?v] q2 = (Some e, [?d, ?t], q)" "p_now q < d + max 1 1"
          "p_up q = p_up q2" "lifecycle q = lifecycle q2" "cut x q = cut x q2"
        then show ?thesis using 1 2 by (intro exI [of _ 2] exI [of _ "Some e"] exI [of _ q]) simp
      next
        fix q3 assume "start_hooks c [?d, ?t] [?v] q2 = start_hooks c [?v, ?d, ?t] [] q3" "p_now q3 \<le> d"
          "p_up q3 = insert r (p_up q2)" "lifecycle q3 = lifecycle q2 @ [Started r]" "cut x q3 = cut x q2"
        then show ?thesis using 1 2 grace_pos by (intro exI [of _ 3] exI [of _ None] exI [of _ q3]) auto
      qed
    qed
  qed
qed

end

definition ordered_hooks :: "hook \<Rightarrow> hook \<Rightarrow> hook \<Rightarrow> gctx \<Rightarrow> hook list" where
  "ordered_hooks t d v s = [guarded s t, guarded s d, guarded s v]"

lemma appfx_hooks: "appfx_hooks x cfg service = ordered_hooks (newTelemetry x cfg) (newDatabase x cfg) service"
  by (rule ext) (simp add: appfx_hooks_def Append_def ordered_hooks_def)

lemma await_keeps:
  assumes "await x c p = Some (e, q)"
  shows "lifecycle q = lifecycle p" and "cut x q = cut x p" and "p_up q = p_up p" and "p_now p \<le> p_now q"
    and "e = None \<Longrightarrow> ctx_Err c (p_now q) \<noteq> None" and "cx_done c = Some t \<Longrightarrow> p_now q \<le> max (p_now p) t"
  using assms
  by (auto simp: await_def Let_def select_done_def ctx_Err_def split: option.splits list.splits if_splits prod.splits)

lemma await_returns: "cx_done c = Some t \<Longrightarrow> await x c p \<noteq> None"
  by (auto simp: await_def Let_def split: option.splits list.splits prod.splits)

context application
begin

lemma launch:
  assumes x: "reliable x" and a: "fx_law a" and s: "cx_done s = Some d" "p_now p \<le> d" and dr: "0 < drain"
    and c: "cx_done c = Some l" "d + drain + infrastructureShutdownGrace \<le> l"
  shows "(\<exists>q. fx_Start a c (ordered_hooks (tel x) (db x) (svc x) s) p = (None, rev (ordered_hooks (tel x) (db x) (svc x) s), q) \<and> {Telemetry, DatabasePool, r} \<subseteq> p_up q \<and> p_now q \<le> d \<and>
            lifecycle q = lifecycle p @ map Started [Telemetry, DatabasePool, r] \<and> cut x q = cut x p) \<or>
         (\<exists>e k j q. k < 3 \<and> fx_Start a c (ordered_hooks (tel x) (db x) (svc x) s) p = (Some e, [], q) \<and> p_now q \<le> l \<and>
            stops_all x j k \<and> lifecycle q = lifecycle p @ map Started (take k [Telemetry, DatabasePool, r])
              @ map Stopped (take j (rev (take k [Telemetry, DatabasePool, r]))))"
proof -
  have "d < l" using c(2) dr grace_pos by linarith
  then obtain k err q where k: "k \<le> 3" "err = None \<longleftrightarrow> k = 3"
    and q: "start_hooks c [] (ordered_hooks (tel x) (db x) (svc x) s) p = (err, rev (take k (ordered_hooks (tel x) (db x) (svc x) s)), q)"
      "set (take k [Telemetry, DatabasePool, r]) \<subseteq> p_up q"
      "lifecycle q = lifecycle p @ map Started (take k [Telemetry, DatabasePool, r])" "cut x q = cut x p"
      "p_now q + (if k = 2 then infrastructureShutdownGrace - 1 else 0) < d + infrastructureShutdownGrace"
      "err = None \<longrightarrow> p_now q \<le> d"
    using starts [OF x s c(1)] unfolding ordered_hooks_def by metis
  show ?thesis
  proof (cases err)
    case None
    then have "ctx_Err c (p_now q) = None" using q(6) c(1) \<open>d < l\<close> by (simp add: ctx_Err_def)
    then show ?thesis using None k q a by (auto simp: fx_law_def fx_starts_def ordered_hooks_def numeral_3_eq_3)
  next
    case (Some e)
    have h: "halts x c (rev (take k (ordered_hooks (tel x) (db x) (svc x) s))) (rev (take k [Telemetry, DatabasePool, r])) q"
      unfolding ordered_hooks_def by (rule halts_all [OF x k(1) q(2) c(1)]) (use q(5) k Some c(2) dr in \<open>auto split: if_splits\<close>)
    then obtain es left q' j where st: "stop_hooks c (rev (take k (ordered_hooks (tel x) (db x) (svc x) s))) q = (es, left, q')"
      "within c q'" and j: "stops_all x j k"
      "lifecycle q' = lifecycle q @ map Stopped (take j (rev (take k [Telemetry, DatabasePool, r])))"
    proof -
      have "length (rev (take k [Telemetry, DatabasePool, r])) = k" using k(1) by simp
      then show ?thesis using h that unfolding halts_def by metis
    qed
    obtain e' where "fx_Start a c (ordered_hooks (tel x) (db x) (svc x) s) p = (Some e', [], q')"
      using a q(1) Some st unfolding fx_law_def fx_rolls_back_def by metis
    moreover have "p_now q' \<le> l" using st(2) c(1) by (simp add: within_def)
    ultimately show ?thesis using q(3) k Some j by (intro disjI2 exI [of _ e'] exI [of _ k] exI [of _ j] exI [of _ q']) auto
  qed
qed

lemma settle:
  assumes x: "reliable x" and a: "fx_law a" and dr: "0 < drain" and p: "{Telemetry, DatabasePool, r} \<subseteq> p_up p"
    and c: "cx_done c = Some (p_now p + (drain + infrastructureShutdownGrace))"
  shows "\<exists>e q j. fx_Stop a c (rev (ordered_hooks (tel x) (db x) (svc x) s)) p = (e, q) \<and>
    p_now q \<le> p_now p + (drain + infrastructureShutdownGrace) \<and> stops_all x j 3 \<and>
    lifecycle q = lifecycle p @ map Stopped (take j (rev [Telemetry, DatabasePool, r])) \<and>
    (e = None \<longrightarrow> j = 3 \<and> cut x q = cut x p)"
proof -
  have "halts x c (rev (take 3 (ordered_hooks (tel x) (db x) (svc x) s))) (rev (take 3 [Telemetry, DatabasePool, r])) p"
    unfolding ordered_hooks_def by (rule halts_all [OF x _ _ c]) (use p dr in \<open>auto simp: numeral_3_eq_3\<close>)
  then obtain es left q j where st: "stop_hooks c (rev (ordered_hooks (tel x) (db x) (svc x) s)) p = (es, left, q)" "within c q"
    and j: "lifecycle q = lifecycle p @ map Stopped (take j (rev [Telemetry, DatabasePool, r]))" "stops_all x j 3"
      "es = [] \<longrightarrow> j = 3 \<and> cut x q = cut x p"
    by (auto simp: halts_def ordered_hooks_def numeral_3_eq_3)
  obtain e where "fx_Stop a c (rev (ordered_hooks (tel x) (db x) (svc x) s)) p = (e, q)" "e = None \<longrightarrow> es = []"
    using a st unfolding fx_law_def fx_stops_def by metis
  then show ?thesis using j st(2) c by (intro exI [of _ e] exI [of _ q] exI [of _ j]) (auto simp: within_def)
qed

lemma run_orderly:
  assumes x: "reliable x" and a: "fx_law a" and dr: "0 < drain" and alive: "ctx_Err c (p_now p) = None"
    and run: "runApplication a x (drain + infrastructureShutdownGrace) c (ordered_hooks (tel x) (db x) (svc x)) p = Some (e, p')"
  shows "\<exists>k \<le> 3. \<exists>j. stops_all x j k \<and> lifecycle p' = lifecycle p @ map Started (take k [Telemetry, DatabasePool, r])
              @ map Stopped (take j (rev (take k [Telemetry, DatabasePool, r]))) \<and>
            (e = None \<longrightarrow> k = 3 \<and> j = k \<and> cut x p' = cut x p \<and> (\<exists>t. cx_done c = Some t)) \<and>
            (\<forall>t. cx_done c = Some t \<longrightarrow>
               p_now p' \<le> max (p_now p + fx_StartTimeout a) t + (drain + infrastructureShutdownGrace))"
proof -
  define s where "s = WithTimeout c (p_now p) (fx_StartTimeout a)"
  define l where "l = WithTimeout (WithoutCancel c) (p_now p) (fx_StartTimeout a + (drain + infrastructureShutdownGrace))"
  define stop where "stop = (\<lambda>q :: proc. WithTimeout Background (p_now q) (drain + infrastructureShutdownGrace))"
  have start: "0 < fx_StartTimeout a" using a by (simp add: fx_law_def)
  have "\<exists>d. cx_done s = Some d \<and> p_now p \<le> d \<and> d \<le> p_now p + fx_StartTimeout a"
    using alive start by (auto simp: s_def WithTimeout_def ctx_Err_def split: option.splits if_splits)
  then obtain d where d: "cx_done s = Some d" "p_now p \<le> d" "d \<le> p_now p + fx_StartTimeout a" by blast
  have l: "cx_done l = Some (p_now p + fx_StartTimeout a + (drain + infrastructureShutdownGrace))"
    by (simp add: l_def WithTimeout_def WithoutCancel_def Background_def)
  have c_stop: "cx_done (stop q) = Some (p_now q + (drain + infrastructureShutdownGrace))" for q
    by (simp add: stop_def WithTimeout_def Background_def)
  let ?hs = "ordered_hooks (tel x) (db x) (svc x) s"
  have "d + drain + infrastructureShutdownGrace \<le> p_now p + fx_StartTimeout a + (drain + infrastructureShutdownGrace)"
    using d(3) by simp
  from launch [OF x a d(1,2) dr l this] show ?thesis
  proof (elim disjE exE conjE)
    fix q assume q: "fx_Start a l ?hs p = (None, rev ?hs, q)" "{Telemetry, DatabasePool, r} \<subseteq> p_up q" "p_now q \<le> d"
      "lifecycle q = lifecycle p @ map Started [Telemetry, DatabasePool, r]" "cut x q = cut x p"
    define wait where "wait = (case ctx_Err s (p_now q) of None \<Rightarrow> await x c q | Some e \<Rightarrow> Some (Some e, q))"
    obtain err p2 where w: "wait = Some (err, p2)"
      and p': "err = None \<and> fst (fx_Stop a (stop p2) (rev ?hs) p2) = None \<longleftrightarrow> e = None" "p' = snd (fx_Stop a (stop p2) (rev ?hs) p2)"
      using run q(1) unfolding runApplication_def s_def [symmetric] l_def [symmetric] wait_def
      by (auto simp: Let_def stop_def errors_Join_None split: option.splits prod.splits)
    have p2: "lifecycle p2 = lifecycle q" "cut x p2 = cut x q" "p_up p2 = p_up q" "err = None \<Longrightarrow> ctx_Err c (p_now p2) \<noteq> None"
      "\<And>t. cx_done c = Some t \<Longrightarrow> p_now p2 \<le> max d t"
      using w q(3) await_keeps [of x c q err p2] by (auto simp: wait_def split: option.splits)
    obtain e1 j where e1: "fx_Stop a (stop p2) (rev ?hs) p2 = (e1, p')" "p_now p' \<le> p_now p2 + (drain + infrastructureShutdownGrace)"
      "lifecycle p' = lifecycle p2 @ map Stopped (take j (rev [Telemetry, DatabasePool, r]))" "stops_all x j 3"
      "e1 = None \<longrightarrow> j = 3 \<and> cut x p' = cut x p2"
    proof -
      have "{Telemetry, DatabasePool, r} \<subseteq> p_up p2" using p2(3) q(2) by simp
      from settle [OF x a dr this c_stop] obtain e1 q3 j where "fx_Stop a (stop p2) (rev ?hs) p2 = (e1, q3)"
        "p_now q3 \<le> p_now p2 + (drain + infrastructureShutdownGrace)" "stops_all x j 3"
        "lifecycle q3 = lifecycle p2 @ map Stopped (take j (rev [Telemetry, DatabasePool, r]))"
        "e1 = None \<longrightarrow> j = 3 \<and> cut x q3 = cut x p2" by blast
      then show ?thesis using that [of e1 j] p'(2) by simp
    qed
    have "e = None \<longrightarrow> j = 3 \<and> cut x p' = cut x p \<and> (\<exists>t. cx_done c = Some t)"
      using p'(1) e1(1,5) p2 q(5) by (auto simp: ctx_Err_def split: option.splits)
    moreover have "p_now p' \<le> max (p_now p + fx_StartTimeout a) t + (drain + infrastructureShutdownGrace)" if "cx_done c = Some t" for t
      using e1(2) p2(5) [OF that] d(3) by linarith
    moreover have "lifecycle p' = lifecycle p @ map Started (take 3 [Telemetry, DatabasePool, r])
        @ map Stopped (take j (rev (take 3 [Telemetry, DatabasePool, r])))"
      using e1(3) p2(1) q(4) by (simp add: numeral_3_eq_3)
    ultimately show ?thesis using e1(4) by (intro exI [of _ 3]) blast
  next
    fix e' k j q assume q: "k < 3" "fx_Start a l ?hs p = (Some e', [], q)"
      "p_now q \<le> p_now p + fx_StartTimeout a + (drain + infrastructureShutdownGrace)"
      "stops_all x j k" "lifecycle q = lifecycle p @ map Started (take k [Telemetry, DatabasePool, r])
        @ map Stopped (take j (rev (take k [Telemetry, DatabasePool, r])))"
    have "within (stop q) q" using dr grace_pos c_stop by (simp add: within_def)
    moreover have "stop_hooks (stop q) [] q = ([], [], q)" by simp
    moreover have "ctx_Err (stop q) (p_now q) = None" using dr grace_pos c_stop [of q] by (simp add: ctx_Err_def)
    ultimately have "fx_Stop a (stop q) [] q = (None, q)" using a unfolding fx_law_def fx_stops_def by metis
    then have "e = errors_Join [Some e', None]" and p': "p' = q"
      using run q(2) unfolding runApplication_def s_def [symmetric] l_def [symmetric] by (auto simp: Let_def stop_def)
    then have "e \<noteq> None" using errors_Join_None [of "[Some e', None]"] by simp
    moreover have "p_now p' \<le> max (p_now p + fx_StartTimeout a) t + (drain + infrastructureShutdownGrace)" for t
      using q(3) unfolding p' by linarith
    ultimately show ?thesis using q(1,4,5) p' by (intro exI [of _ k]) auto
  qed
qed

lemma run_returns:
  assumes "cx_done c = Some t"
  shows "\<exists>e p'. runApplication a x stopTimeout c hs p = Some (e, p')"
  using await_returns [OF assms] by (auto simp: runApplication_def Let_def split: prod.splits option.splits; metis option.distinct(1))

end

interpretation api_process: application "\<lambda>x. newTelemetry x icfg" "\<lambda>x. newDatabase x icfg" "\<lambda>x. newHTTPService x cfg"
  HttpServer "ShutdownTimeout cfg" for icfg cfg
  by unfold_locales

interpretation worker_process: application "\<lambda>x. newTelemetry x icfg" "\<lambda>x. newDatabase x icfg" "\<lambda>x. startMailConsumer x cfg"
  MailConsumer "wk_ShutdownTimeout cfg" for icfg cfg
  by unfold_locales

subsection \<open>The two processes\<close>

text \<open>
  What a run of a process leaves behind: it started some of its resources \<open>rs\<close>, from the first
  on, and stopped exactly those, the last one first; only the very last of the stops may be missing, and
  only if the pool is slow.  It reports success only if it started and stopped all of them, was told
  to stop, and cut nothing off; it ends within \<open>stopTimeout\<close> of the signal, or of the time it
  may take to start.
\<close>

definition orderly ::
  "machine \<Rightarrow> resource list \<Rightarrow> gctx \<Rightarrow> time \<Rightarrow> time \<Rightarrow> proc \<Rightarrow> goerr option \<Rightarrow> proc \<Rightarrow> bool" where
  "orderly x rs c startTimeout stopTimeout p e p' \<longleftrightarrow>
     (\<exists>k \<le> length rs. \<exists>j. stops_all x j k \<and>
        lifecycle p' = lifecycle p @ map Started (take k rs) @ map Stopped (take j (rev (take k rs))) \<and>
        (e = None \<longrightarrow> k = length rs \<and> j = k \<and> cut x p' = cut x p \<and> (\<exists>t. cx_done c = Some t)) \<and>
        (\<forall>t. cx_done c = Some t \<longrightarrow> p_now p' \<le> max (p_now p + startTimeout) t + stopTimeout))"

lemma orderly_refused:
  assumes "0 \<le> startTimeout" and "0 \<le> stopTimeout"
  shows "orderly x rs c startTimeout stopTimeout p (Some e) p"
  using assms unfolding orderly_def by (intro exI [of _ 0]) (auto simp: stops_all_def)

lemma Validate_drain:
  "api_Validate parse_url cfg = None \<Longrightarrow> 0 < ShutdownTimeout cfg"
  "worker_Validate parse_url wcfg = None \<Longrightarrow> 0 < wk_ShutdownTimeout wcfg"
  by (auto simp: api_Validate_def worker_Validate_def appfx_Validate_def api_infrastructure_def worker_infrastructure_def
      split: if_splits option.splits)

lemma appfx_Run_returns: "cx_done c = Some t \<Longrightarrow> \<exists>e p'. appfx_Run a x c icfg built service p = Some (e, p')"
  using api_process.run_returns by (auto simp: appfx_Run_def split: option.splits)

lemma api_Run_orderly:
  assumes "fx_law a" and "reliable x" and run: "api_Run parse_url a x cx pl ping c cfg p = Some (e, p')"
  shows "orderly x [Telemetry, DatabasePool, HttpServer] c (fx_StartTimeout a)
    (max 0 (ShutdownTimeout cfg) + infrastructureShutdownGrace) p e p'"
proof (cases "p' = p \<and> e \<noteq> None")
  case True
  then show ?thesis using assms(1) grace_pos orderly_refused by (auto simp: fx_law_def)
next
  case False
  then have ok: "0 < ShutdownTimeout cfg" "ctx_Err c (p_now p) = None"
    and r: "runApplication a x (ShutdownTimeout cfg + infrastructureShutdownGrace) c
      (ordered_hooks (newTelemetry x (api_infrastructure cfg)) (newDatabase x (api_infrastructure cfg)) (newHTTPService x cfg))
      (p\<lparr>p_failures := []\<rparr>) = Some (e, p')"
    using run Validate_drain(1)
    by (auto simp: api_Run_def appfx_Run_def appfx_hooks api_infrastructure_def split: option.splits)
  then show ?thesis using api_process.run_orderly [OF assms(2,1) ok(1) _ r] by (simp add: orderly_def numeral_3_eq_3)
qed

lemma worker_Run_orderly:
  assumes "fx_law a" and "reliable x" and run: "worker_Run parse_url a x c cfg p = Some (e, p')"
  shows "orderly x [Telemetry, DatabasePool, MailConsumer] c (fx_StartTimeout a)
    (max 0 (wk_ShutdownTimeout cfg) + infrastructureShutdownGrace) p e p'"
proof (cases "p' = p \<and> e \<noteq> None")
  case True
  then show ?thesis using assms(1) grace_pos orderly_refused by (auto simp: fx_law_def)
next
  case False
  then have ok: "0 < wk_ShutdownTimeout cfg" "ctx_Err c (p_now p) = None"
    and r: "runApplication a x (wk_ShutdownTimeout cfg + infrastructureShutdownGrace) c
      (ordered_hooks (newTelemetry x (worker_infrastructure cfg)) (newDatabase x (worker_infrastructure cfg)) (startMailConsumer x cfg))
      (p\<lparr>p_failures := []\<rparr>) = Some (e, p')"
    using run Validate_drain(2)
    by (auto simp: worker_Run_def appfx_Run_def appfx_hooks worker_infrastructure_def split: option.splits)
  then show ?thesis using worker_process.run_orderly [OF assms(2,1) ok(1) _ r] by (simp add: orderly_def numeral_3_eq_3)
qed

text \<open>The log never depends on the recipient, the subject or the body of a mail.\<close>

lemma log_sender_private:
  assumes "msg_ID m = msg_ID m'" and "msg_Kind m = msg_Kind m'"
  shows "worker_send ctxErr m = worker_send ctxErr m'"
  using assms by (simp add: worker_send_def LogSender_Send_def split: option.split)

lemma mail_Run_result: "mail_Run cx cancelled send poll w = Some (e, log, w') \<Longrightarrow> e = consumer_result poll"
  by (auto simp: mail_Run_def consumer_result_def split: if_splits)


subsection \<open>An example\<close>

definition plain_fx :: fx where
  "plain_fx =
     \<lparr>fx_StartTimeout = 15 * second, fx_Err = (\<lambda>e. e),
      fx_Start = (\<lambda>c hs p.
        case start_hooks c [] hs p of
          (None, running, q) \<Rightarrow> (None, running, q)
        | (Some e, running, q) \<Rightarrow>
            (case stop_hooks c running q of
               (es, _, q') \<Rightarrow> (Some (if es = [] then e else Wrapped [] (e # es)), [], q'))),
      fx_Stop = (\<lambda>c hs p.
        case stop_hooks c hs p of
          (es, rest, q) \<Rightarrow> (errors_Join (map Some es @ [if rest = [] then ctx_Err c (p_now q) else Some (cx_cause c)]), q))\<rparr>"

lemma plain_fx_law: "fx_law plain_fx"
  unfolding fx_law_def fx_starts_def fx_rolls_back_def fx_stops_def
  by (auto simp: plain_fx_def errors_is_def errors_Join_None second_def)

definition prompt :: call where
  "prompt c t = (None, t)"

definition prompt_machine :: machine where
  "prompt_machine =
     \<lparr>x_resource = prompt, x_trace_exporter = prompt, x_trace_exporter_shutdown = prompt, x_metric_exporter = prompt,
      x_trace_shutdown = prompt, x_metric_shutdown = prompt, x_parse_config = (\<lambda>_. True), x_connect = prompt, x_ping = prompt,
      x_close = (\<lambda>t. t + second), x_listen = prompt, x_serve = (\<lambda>_. None), x_shutdown = prompt,
      x_consumer = (\<lambda>t. t + 2 * second), x_pick = (\<lambda>_. False)\<rparr>"

lemma prompt_machine_ok: "machine_ok prompt_machine"
  by (simp add: machine_ok_def prompt_machine_def timely_def prompt_def second_def)

lemma prompt_pool_closes: "unused_pool_closes prompt_machine"
  by (simp add: unused_pool_closes_def prompt_machine_def prompt_def)

definition idle_process :: proc where
  "idle_process = \<lparr>p_now = 0, p_up = {}, p_draining = False, p_failures = [], p_pending = None, p_log = []\<rparr>"

definition stop_at :: "time \<Rightarrow> gctx" where
  "stop_at t = \<lparr>cx_done = Some t, cx_cause = Sentinel Canceled\<rparr>"

lemmas process_eval = runApplication_def Append_def appfx_hooks_def guarded_def plain_fx_def prompt_machine_def prompt_def idle_process_def
  stop_at_def newTelemetry_def newDatabase_def newHTTPService_def telemetry_Setup_def telemetry_shutdown_def db_Open_def select_done_def
  started_def occur_def ctx_Err_def WithTimeout_def WithoutCancel_def Background_def await_def errors_Join_def map_filter_simps
  infrastructureShutdownGrace_def time_defs

lemma example_api_run:
  "\<exists>p'. api_Run (o_parse_url example_oauth) plain_fx prompt_machine quiet example_platform (ret ()) (stop_at minute)
     example_config idle_process = Some (None, p') \<and> p_now p' = 61 * second"
proof -
  have v: "api_Validate (o_parse_url example_oauth) example_config = None"
    using example_parse by (auto simp: api_Parse_def configenv_Parse_def split: option.splits sum.splits)
  obtain s where s: "newAccounts quiet example_platform example_config = Inr s" using example_accounts by blast
  obtain hs where hs: "NewHandler = Some hs" using catalog_bound by blast
  have c: "ShutdownTimeout example_config = 10 * second" "OTelEnabled example_config = False" by (simp_all add: example_config_def)
  show ?thesis by (simp add: api_Run_def v NewServices_def s appfx_Run_def api_infrastructure_def c process_eval hs)
qed


end
