(* ===== verification/Account_Admin.thy ===== *)
theory Account_Admin
  imports Account_Security
begin

text \<open>
  The administrative operations of \<^verbatim>\<open>account/admin.go\<close>: who may use them, and what a status change
  does.
\<close>

text \<open>The caller's session is live, of an active administrator, at the user's current version.\<close>

definition admin_at :: "time \<Rightarrow> db \<Rightarrow> Request \<Rightarrow> bool" where
  "admin_at now d r \<longleftrightarrow>
     (\<exists>u \<in> set (users d). \<exists>ss \<in> set (user_sessions d).
        u_ID u = UserID r \<and> u_Status u = UserActive \<and> u_Role u = RoleAdmin \<and> s_ID ss = rq_SessionID r
        \<and> s_UserID ss = UserID r \<and> s_AuthVersion ss = u_AuthVersion u \<and> live_session now ss)"

fun admin_call :: "account_call \<Rightarrow> Request option" where
  "admin_call (Users_call r p) = Some r"
| "admin_call (SetStatus_call r i status) = Some r"
| "admin_call (RevokeUserSessions_call r i) = Some r"
| "admin_call c = None"

lemma RequireAdmin_ok:
  assumes "RequireAdmin cx (UserID r) (rq_SessionID r) w = (Inr x, w')"
  shows "admin_at (e_clock cx (w_step w)) (seen cx w) r"
proof -
  obtain u where u: "fst (GetSessionUser (UserID r) (rq_SessionID r) (e_clock cx (w_step w)) (seen cx w)) = Inr u" "u_Role u = RoleAdmin"
    using assms by (auto simp: RequireAdmin_def requireSubject_def ok_iff seen_def)
  then show ?thesis by (auto simp: GetSessionUser_def admin_at_def one_def UserActive_def list_ex_iff split: option.splits
      dest!: find_Some_ex) blast
qed

lemma audit_same:
  assumes "rely (same f) (sv_env s)" and f: "\<And>d es. f (d\<lparr>audit_events := es\<rparr>) = f d"
  shows "guarantees (same f) (recordFailure s r action e)"
proof -
  have "stmt_guarantees (same f) (AppendAudit i p)" for i p
    by (rule stmt_same) (simp add: AppendAudit_def f)
  then show ?thesis unfolding recordFailure_def audit_def store_AppendAudit_def
    by (auto intro!: sm.g_attempt sm.g_bindA sm.g_require sm.g_NewID sm.g_query sm.g_ret assms(1))
qed

lemma refused:
  assumes no: "\<not> admin_at (e_clock (sv_env s) (w_step w)) (seen (sv_env s) w) r"
    and f: "rely (same f) (sv_env s)" "\<And>d es. f (d\<lparr>audit_events := es\<rparr>) = f d"
  shows "\<exists>e w'. recordFailureOnReturn s r action
      (bindA (require b e0) (\<lambda>_. bindA (RequireAdmin (sv_env s) (UserID r) (rq_SessionID r)) k)) w = (Inl e, w')
    \<and> f (w_db w') = f (w_db w)"
proof -
  let ?cx = "sv_env s" and ?admin = "RequireAdmin (sv_env s) (UserID r) (rq_SessionID r)"
  obtain e w1 where a: "?admin w = (Inl e, w1)" using RequireAdmin_ok [of ?cx r w] no by (cases "?admin w", cases "fst (?admin w)") auto
  have "guarantees (same f) ?admin" unfolding RequireAdmin_def requireSubject_def on_error_def
    by (auto intro!: sm.g_bindA sm.g_attempt sm.g_check_err sm.g_require sm.g_query stmt_same sm.g_ret sm.g_fail f(1) split: sum.split)
  then have w1: "f (w_db w1) = f (w_db w)" using guaranteesD a by (metis same_def)
  obtain e' w2 where body: "bindA (require b e0) (\<lambda>_. bindA ?admin k) w = (Inl e', w2)" "f (w_db w2) = f (w_db w)"
    using a w1 by (cases b) (simp_all add: bindA_def require_def ret_def fail_def)
  obtain x w3 where x: "recordFailure s r action e' w2 = (x, w3)" by force
  then have "f (w_db w3) = f (w_db w2)" using guaranteesD [OF audit_same [OF f] x] by (simp add: same_def)
  then show ?thesis using body x
    by (auto simp: recordFailureOnReturn_def attempt_def bindA_def fail_def split: sum.splits)
qed

lemma discarded: "\<exists>e w'. m w = (Inl e, w') \<and> P w' \<Longrightarrow> \<exists>e w'. discard m w = (Inl e, w') \<and> P w'"
  by (auto simp: discard_def bindA_def)

text \<open>What a status change leaves: the new status at a new version, no session, an entry by the administrator.\<close>

definition status_set :: "Request \<Rightarrow> string \<Rightarrow> string \<Rightarrow> user_row \<Rightarrow> db \<Rightarrow> bool" where
  "status_set r i status before d \<longleftrightarrow>
     (\<exists>u \<in> set (users d). u_ID u = i \<and> u_Status u = status \<and> u_AuthVersion u = u_AuthVersion before + 1) \<and> all_revoked i d
     \<and> (\<exists>e \<in> set (audit_events d). au_Action e = ''user.status_change'' \<and> au_Outcome e = AuditSuccess
          \<and> au_ResourceID e = optional i \<and> au_ActorID e = optional (UserID r))"

lemma SetUserStatus_row:
  assumes "find (\<lambda>u. u_ID u = i) (users d) = Some b"
  shows "\<exists>u \<in> set (users (snd (SetUserStatus i status t d))).
    u_ID u = i \<and> u_Status u = status \<and> u_AuthVersion u = u_AuthVersion b + 1"
proof -
  have b: "b \<in> set (users d)" "u_ID b = i" using assms by (auto dest!: find_Some_ex)
  have "b\<lparr>u_Status := status, u_AuthVersion := u_AuthVersion b + 1, u_UpdatedAt := t\<rparr> \<in> set (users (snd (SetUserStatus i status t d)))"
    unfolding SetUserStatus_def update_user_def by simp (rule updated_row [of b], simp_all add: b)
  then show ?thesis using b(2)
    by (intro bexI [of _ "b\<lparr>u_Status := status, u_AuthVersion := u_AuthVersion b + 1, u_UpdatedAt := t\<rparr>"]) simp_all
qed

lemma SetStatus_effect:
  assumes "SetStatus s r i status w = (Inr x, w')"
  shows "\<exists>before. u_Status before \<noteq> UserPending \<and> Settable status \<and> status_set r i status before (w_db w')"
proof -
  let ?cx = "sv_env s"
  obtain t w1 before w2 u w3 w4 w5 where
      b: "query ?cx (Tx t) (GetUser i) w1 = (Inr before, w2)" "u_Status before \<noteq> UserPending" "Settable status"
    and st: "store_SetUserStatus ?cx (Tx t) i status w2 = (Inr u, w3)"
    and rv: "store_RevokeUserSessions ?cx (Tx t) i w3 = (Inr (), w4)"
    and au: "audit ?cx (Tx t) r (success_event ''user.status_change'' ''user'' i i (userStatusAuditMetadata status)) w4 = (Inr (), w5)"
    and d: "w_db w' = w_db w5"
    using assms unfolding SetStatus_def Let_def recordFailureOnReturn_ok
    by (auto simp: bindA_ok require_ok ret_ok dest!: in_tx_ok)
  have f: "find (\<lambda>u. u_ID u = i) (users (w_db w2)) = Some before"
    using b(1) by (auto simp: query_tx_ok GetUser_def one_def split: option.splits)
  have d3: "w_db w3 = snd (SetUserStatus i status t (w_db w2))" using st by (auto simp: store_SetUserStatus_def ok_iff)
  have d4: "w_db w4 = snd (RevokeUserSessions i t (w_db w3))" using rv by (auto simp: store_RevokeUserSessions_def ok_iff)
  have "users (w_db w') = users (w_db w3)" "user_sessions (w_db w') = user_sessions (w_db w4)"
    using audit_step [OF au] d d4 by (simp_all add: RevokeUserSessions_def)
  then have "\<exists>u \<in> set (users (w_db w')). u_ID u = i \<and> u_Status u = status \<and> u_AuthVersion u = u_AuthVersion before + 1"
    using SetUserStatus_row [OF f] by (simp add: d3)
  then show ?thesis using b(2,3) audit_step [OF au] d SetStatus_revokes [OF assms]
    by (auto simp: status_set_def success_event_def intro!: exI [of _ before])
qed

text \<open>
  C14.  Listing users, changing a status and ending a user's sessions are refused unless the caller's
  session is live and belongs to an active administrator at the moment of the check; a refused call
  changes nothing but the audit log.  A status change that succeeds was not made on a pending user, sets
  the status under a new version, ends every session of the user and is on record under the
  administrator's name.
\<close>

theorem admin_only:
  assumes "wired s"
  shows "(admin_call c = Some r \<and> \<not> admin_at (e_clock (sv_env s) (w_step w)) (seen (sv_env s) w) r
            \<and> rely (same f) (sv_env s) \<and> (\<forall>d es. f (d\<lparr>audit_events := es\<rparr>) = f d)
          \<longrightarrow> (\<exists>e w'. run_call s c w = (Inl e, w') \<and> f (w_db w') = f (w_db w)))
     \<and> (\<forall>i status x w'. SetStatus s r i status w = (Inr x, w') \<longrightarrow>
          (\<exists>before. u_Status before \<noteq> UserPending \<and> Settable status \<and> status_set r i status before (w_db w')))"
proof -
  have "\<exists>e w'. run_call s c w = (Inl e, w') \<and> f (w_db w') = f (w_db w)"
    if "admin_call c = Some r" "\<not> admin_at (e_clock (sv_env s) (w_step w)) (seen (sv_env s) w) r"
      "rely (same f) (sv_env s)" "\<forall>d es. f (d\<lparr>audit_events := es\<rparr>) = f d"
  proof -
    have f: "f (d\<lparr>audit_events := es\<rparr>) = f d" for d es using that(4) by blast
    note no = refused [OF that(2,3) f] and adm = assms [unfolded wired_def]
    have "\<exists>e w'. Users s r p w = (Inl e, w') \<and> f (w_db w') = f (w_db w)" for p
      unfolding Users_def Let_def adm by (rule no)
    moreover have "\<exists>e w'. SetStatus s r i st w = (Inl e, w') \<and> f (w_db w') = f (w_db w)" for i st
      unfolding SetStatus_def Let_def adm by (rule no)
    moreover have "\<exists>e w'. Service_RevokeUserSessions s r i w = (Inl e, w') \<and> f (w_db w') = f (w_db w)" for i
      unfolding Service_RevokeUserSessions_def Let_def adm by (rule no)
    ultimately show ?thesis using that(1) by (cases c) (simp_all add: discarded)
  qed
  then show ?thesis using SetStatus_effect by blast
qed

text \<open>An administrator disables a user; the user cannot do the same to the administrator.\<close>

definition bob_request :: Request where
  "bob_request = \<lparr>UserID = ''bob'', rq_SessionID = ''s2'', RequestID = ''q'', ClientIP = ''ip''\<rparr>"

lemma bob_no_admin: "\<not> admin_at t example_db bob_request"
  by (auto simp: admin_at_def example_sessions bob_request_def bob_def alice_def new_user_def RoleAdmin_def)

theorem admin_only_witness:
  "\<exists>e w'. SetStatus quiet_service bob_request ''alice'' ''disabled'' (start example_db) = (Inl e, w') \<and> users (w_db w') = [alice, bob]"
proof -
  have n: "\<not> admin_at (e_clock (sv_env quiet_service) (w_step (start example_db))) (seen (sv_env quiet_service) (start example_db)) bob_request"
    using bob_no_admin by (simp add: seen_def start_def)
  have r: "rely (same users) (sv_env quiet_service)" by (simp add: rely_def same_def)
  obtain e w' where "run_call quiet_service (SetStatus_call bob_request ''alice'' ''disabled'') (start example_db) = (Inl e, w')"
    "users (w_db w') = users example_db"
    using admin_only [where s = quiet_service and c = "SetStatus_call bob_request ''alice'' ''disabled''" and r = bob_request
        and w = "start example_db" and f = users] n r by (auto simp: start_def)
  then show ?thesis by (auto simp: discard_def bindA_def ret_def example_sessions split: prod.splits sum.splits)
qed

end
