(* ===== verification/System.thy ===== *)
theory System
  imports Mail_Outbox Project Task Account_Sessions
begin

text \<open>
  The program as a whole.  \<open>commits\<close> is the least preorder on databases that contains every write
  statement the program has, with the arguments its guards let through: what the sessions of both
  processes can do to the database, in any order.  Every operation of the API and every round of the
  worker is such a sequence of writes, if the sessions it interleaves with are; so nothing has to be
  assumed of them beyond being the same program.
\<close>

subsection \<open>The operations\<close>

datatype program_call =
    Account_op account_call
  | Project_create string string string
  | Project_get string string
  | Project_list string Params
  | Project_update string string string string
  | Project_delete string string
  | Task_create string Details
  | Task_get string string
  | Task_list string string Params
  | Task_update string string Details
  | Task_delete string string
  | Mail_round "nat \<Rightarrow> bool" "nat \<Rightarrow> Message \<Rightarrow> goerr option"

fun run_program :: "Service \<Rightarrow> program_call \<Rightarrow> unit act" where
  "run_program s (Account_op c) = run_call s c"
| "run_program s (Project_create owner name description) = discard (project_Create (sv_env s) owner name description)"
| "run_program s (Project_get owner i) = discard (project_Get (sv_env s) owner i)"
| "run_program s (Project_list owner p) = discard (project_List (sv_env s) owner p)"
| "run_program s (Project_update owner i name description) = discard (project_Update (sv_env s) owner i name description)"
| "run_program s (Project_delete owner i) = discard (project_Delete (sv_env s) owner i)"
| "run_program s (Task_create owner x) = discard (task_Create (sv_env s) owner x)"
| "run_program s (Task_get owner i) = discard (task_Get (sv_env s) owner i)"
| "run_program s (Task_list owner status p) = discard (task_List (sv_env s) owner status p)"
| "run_program s (Task_update owner i x) = discard (task_Update (sv_env s) owner i x)"
| "run_program s (Task_delete owner i) = discard (task_Delete (sv_env s) owner i)"
| "run_program s (Mail_round cancelled send) = (\<lambda>w. (Inr (), snd (ProcessOne (sv_env s) cancelled send w)))"

subsection \<open>The writes\<close>

inductive commits :: "db \<Rightarrow> db \<Rightarrow> bool" where
  refl: "commits d d"
| trans: "commits a b \<Longrightarrow> commits b c \<Longrightarrow> commits a c"
| CreatePendingUser: "normalized \<noteq> None \<Longrightarrow> commits d (snd (CreatePendingUser i email normalized t d))"
| CreateFederatedUser: "commits d (snd (CreateFederatedUser i name t d))"
| ActivateUser: "commits d (snd (ActivateUser i t d))"
| UpdateUserProfile: "commits d (snd (UpdateUserProfile name i sid t d))"
| UpdateUserEmail: "normalized \<noteq> None \<Longrightarrow> commits d (snd (UpdateUserEmail i email normalized t d))"
| ReleasePendingEmail: "commits d (snd (ReleasePendingEmail email t d))"
| BumpUserVersion: "commits d (snd (BumpUserVersion i t d))"
| SetUserStatus: "Settable status \<Longrightarrow> commits d (snd (SetUserStatus i status t d))"
| CreateAccount: "valid_account ca \<Longrightarrow> commits d (snd (CreateAccount i ca t d))"
| ChangePassword: "h \<noteq> None \<Longrightarrow> h \<noteq> Some '''' \<Longrightarrow> commits d (snd (ChangePassword i u h t d))"
| UpgradePasswordHash: "h \<noteq> None \<Longrightarrow> h \<noteq> Some '''' \<Longrightarrow> commits d (snd (UpgradePasswordHash i u h old t d))"
| RevokeAccount: "commits d (snd (RevokeAccount i u t d))"
| TouchAccount: "commits d (snd (TouchAccount i u t d))"
| CreateSession: "valid_new_session cs \<Longrightarrow> commits d (snd (CreateSession i cs t d))"
| TouchSession: "commits d (snd (TouchSession i u idle renewal t d))"
| RevokeSession: "commits d (snd (RevokeSession i u t d))"
| RevokeUserSessions: "commits d (snd (RevokeUserSessions u t d))"
| CreateFlow: "valid_new_flow cf \<Longrightarrow> commits d (snd (CreateFlow cf t d))"
| ClaimFlow: "commits d (snd (ClaimFlow i t d))"
| VerifyFlow: "Verifiable status \<Longrightarrow> commits d (snd (VerifyFlow i status ns sub name at t d))"
| FinishFlow: "expected \<in> {FlowProcessing, FlowVerified, FlowAuthorized, FlowClaimed} \<Longrightarrow> commits d (snd (FinishFlow i expected t d))"
| FailFlow: "commits d (snd (FailFlow i t d))"
| ClaimAuthorization: "claim \<noteq> None \<Longrightarrow> commits d (snd (ClaimAuthorization i claim t d))"
| CreateVerification: "valid_new_verification cx cv \<Longrightarrow> commits d (snd (CreateVerification i cv t d))"
| ConsumeVerification: "commits d (snd (ConsumeVerification i u t d))"
| AppendAudit: "valid_audit aa \<Longrightarrow> commits d (snd (AppendAudit i aa t d))"
| RateLimit: "secs > 0 \<Longrightarrow> commits d (snd (RateLimit key secs t d))"
| EnqueueMail: "commits d (snd (EnqueueMail em t d))"
| ExpireMail: "commits d (snd (ExpireMail locked maxDeliveryAttempts b t d))"
| ClaimMail: "commits d (snd (ClaimMail locked lease maxDeliveryAttempts secs t d))"
| CompleteMail: "commits d (snd (CompleteMail i lease t d))"
| RetryMail: "commits d (snd (RetryMail i lease maxDeliveryAttempts delay t d))"
| CreateProject: "project_text_ok nd \<Longrightarrow> commits d (snd (CreateProject i owner nd t d))"
| UpdateProject: "project_text_ok nd \<Longrightarrow> commits d (snd (UpdateProject i owner nd t d))"
| DeleteProject: "commits d (snd (DeleteProject i owner t d))"
| CreateTask: "task_text_ok x \<Longrightarrow> commits d (snd (CreateTask i owner x t d))"
| UpdateTask: "task_text_ok x \<Longrightarrow> commits d (snd (UpdateTask i owner x t d))"
| DeleteTask: "commits d (snd (DeleteTask i owner t d))"

subsection \<open>What a relation needs for the whole program to keep it\<close>

locale program_guarantee = account_guarantee R + mail_guarantee R for R :: "db \<Rightarrow> db \<Rightarrow> bool" +
  assumes w_CreateProject: "project_text_ok nd \<Longrightarrow> stmt_guarantees R (CreateProject i owner nd)"
    and w_UpdateProject: "project_text_ok nd \<Longrightarrow> stmt_guarantees R (UpdateProject i owner nd)"
    and w_DeleteProject: "stmt_guarantees R (DeleteProject i owner)"
    and w_CreateTask: "task_text_ok x \<Longrightarrow> stmt_guarantees R (CreateTask i owner x)"
    and w_UpdateTask: "task_text_ok x \<Longrightarrow> stmt_guarantees R (UpdateTask i owner x)"
    and w_DeleteTask: "stmt_guarantees R (DeleteTask i owner)"
begin

lemmas owned_writes = w_CreateProject w_UpdateProject w_DeleteProject w_CreateTask w_UpdateTask w_DeleteTask

lemmas mail_writes = expire_R claim_R complete_R retry_R

lemma commits_R: "commits d d' \<Longrightarrow> R d d'"
proof (induction rule: commits.induct)
  case (trans a b c)
  then show ?case using R_trans by blast
qed (simp_all add: R_refl writes [unfolded stmt_guarantees_def] owned_writes [unfolded stmt_guarantees_def]
    mail_writes [unfolded stmt_guarantees_def])

lemma g_projects:
  assumes "rely R cx"
  shows "guarantees R (project_Create cx owner name description)" "guarantees R (project_Get cx owner i)"
    "guarantees R (project_List cx owner p)" "guarantees R (project_Update cx owner i name description)"
    "guarantees R (project_Delete cx owner i)"
  using assms unfolding project_service_defs
  by (auto intro!: g_intros w_CreateProject w_UpdateProject w_DeleteProject
      intro: project_validate_text read_R simp: ok_iff project_reads_keep)

lemma g_tasks:
  assumes "rely R cx"
  shows "guarantees R (task_Create cx owner x)" "guarantees R (task_Get cx owner i)"
    "guarantees R (task_List cx owner status p)" "guarantees R (task_Update cx owner i x)"
    "guarantees R (task_Delete cx owner i)"
  using assms unfolding task_service_defs
  by (auto intro!: g_intros w_CreateTask w_UpdateTask w_DeleteTask
      intro: task_validate_text read_R simp: ok_iff task_reads_keep)

lemma g_run_program:
  assumes "rely R (sv_env s)" and "wired s"
  shows "guarantees R (run_program s c)"
proof (cases c)
  case (Mail_round cancelled send)
  then show ?thesis using ProcessOne_R [OF assms(1)] by (simp add: guarantees_def)
qed (use assms in \<open>simp_all add: g_discard g_projects g_tasks g_run_call g_RequireAdmin wired_def\<close>)

end

interpretation pc: program_guarantee commits
  by unfold_locales (auto simp: stmt_guarantees_def intro: commits.intros)

subsection \<open>What every write of the program keeps\<close>

text \<open>
  All the invariants at once; rows of the account tables move forward only, mails that have ended
  stay as they are.
\<close>

definition db_ok :: "db \<Rightarrow> bool" where
  "db_ok d \<longleftrightarrow> accounts_ok d \<and> projects_ok d \<and> tasks_ok d"

definition program_moves :: "db \<Rightarrow> db \<Rightarrow> bool" where
  "program_moves d d' \<longleftrightarrow> account_moves d d' \<and> mail_steps d d' \<and> keeps projects_ok d d' \<and> keeps tasks_ok d d'"

lemma program_moves_stmt:
  "stmt_guarantees account_moves f \<Longrightarrow> stmt_guarantees mail_steps f \<Longrightarrow> stmt_guarantees (keeps projects_ok) f \<Longrightarrow>
     stmt_guarantees (keeps tasks_ok) f \<Longrightarrow> stmt_guarantees program_moves f"
  by (simp add: stmt_guarantees_def program_moves_def)

text \<open>The account module and the worker leave the projects and tasks alone.\<close>

lemmas account_write_defs = CreatePendingUser_def CreateFederatedUser_def ActivateUser_def UpdateUserProfile_def
  UpdateUserEmail_def ReleasePendingEmail_def BumpUserVersion_def SetUserStatus_def update_user_def
  CreateAccount_def ChangePassword_def UpgradePasswordHash_def RevokeAccount_def TouchAccount_def update_account_def
  CreateSession_def TouchSession_def RevokeSession_def RevokeUserSessions_def
  CreateFlow_def ClaimFlow_def VerifyFlow_def FinishFlow_def FailFlow_def ClaimAuthorization_def update_flow_def
  CreateVerification_def ConsumeVerification_def AppendAudit_def RateLimit_def EnqueueMail_def
  unique_violation_def fk_violation_def Let_def

interpretation ap: account_guarantee "same (\<lambda>d. (projects d, tasks d))"
  by unfold_locales (auto intro!: stmt_same simp: account_write_defs split: option.split)

lemma owned_same:
  assumes "stmt_guarantees (same (\<lambda>d. (projects d, tasks d))) f"
  shows "stmt_guarantees (keeps projects_ok) f" "stmt_guarantees (keeps tasks_ok) f"
  using assms by (simp_all add: stmt_guarantees_def same_def keeps_def projects_ok_def tasks_ok_def)

lemma mail_steps_same: "stmt_guarantees (same mail_outbox) f \<Longrightarrow> stmt_guarantees mail_steps f"
  by (auto simp: stmt_guarantees_def same_def mail_steps_def keeps_def mail_ok_def mail_evolves_def mail_le_def)

lemma EnqueueMail_steps: "stmt_guarantees mail_steps (EnqueueMail em)"
  by (rule mail_steps_stmt [OF EnqueueMail_keeps]) (auto simp: EnqueueMail_def mail_evolves_def nth_append mail_le_def)

interpretation ax: account_guarantee mail_steps
  by unfold_locales
    (auto intro!: EnqueueMail_steps mail_steps_same stmt_same simp: account_write_defs split: option.split)

text \<open>The writes of projects and tasks, and those of the worker, leave the account tables alone.\<close>

lemma owned_rest:
  assumes "stmt_guarantees (same (\<lambda>d. d\<lparr>projects := [], tasks := []\<rparr>)) f"
  shows "stmt_guarantees account_moves f" "stmt_guarantees mail_steps f"
proof -
  have eq: "(snd (f t d))\<lparr>projects := [], tasks := []\<rparr> = d\<lparr>projects := [], tasks := []\<rparr>" for t d
    using assms by (simp add: stmt_guarantees_def same_def)
  have "account_evolves d (snd (f t d)) \<and> (accounts_ok d \<longrightarrow> accounts_ok (snd (f t d))) \<and> mail_outbox (snd (f t d)) = mail_outbox d" for t d
    using eq [of t d] account_evolves_refl [of d]
    by (cases d; cases "snd (f t d)") (simp add: account_evolves_def accounts_ok_def references_ok_def mail_ok_def)
  then have "stmt_guarantees account_moves f" "stmt_guarantees (same mail_outbox) f"
    by (simp_all add: stmt_guarantees_def account_moves_def keeps_def same_def)
  then show "stmt_guarantees account_moves f" "stmt_guarantees mail_steps f" by (auto intro: mail_steps_same)
qed

lemma mail_rest:
  assumes "stmt_guarantees (same (\<lambda>d. d\<lparr>mail_outbox := []\<rparr>)) f" and "stmt_guarantees mail_steps f"
  shows "stmt_guarantees account_moves f" "stmt_guarantees (same (\<lambda>d. (projects d, tasks d))) f"
proof -
  have eq: "(snd (f t d))\<lparr>mail_outbox := []\<rparr> = d\<lparr>mail_outbox := []\<rparr>" for t d
    using assms(1) by (simp add: stmt_guarantees_def same_def)
  have m: "mail_ok d \<longrightarrow> mail_ok (snd (f t d))" for t d using assms(2) by (simp add: stmt_guarantees_def mail_steps_def keeps_def)
  have "account_evolves d (snd (f t d)) \<and> (accounts_ok d \<longrightarrow> accounts_ok (snd (f t d)))
      \<and> projects (snd (f t d)) = projects d \<and> tasks (snd (f t d)) = tasks d" for t d
    using eq [of t d] account_evolves_refl [of d] m [of d t]
    by (cases d; cases "snd (f t d)") (simp add: account_evolves_def accounts_ok_def references_ok_def)
  then show "stmt_guarantees account_moves f" "stmt_guarantees (same (\<lambda>d. (projects d, tasks d))) f"
    by (simp_all add: account_moves_def stmt_guarantees_def keeps_def same_def)
qed

lemma owned_quiet:
  "stmt_guarantees (same (\<lambda>d. d\<lparr>projects := [], tasks := []\<rparr>)) (CreateProject i owner nd)"
  "stmt_guarantees (same (\<lambda>d. d\<lparr>projects := [], tasks := []\<rparr>)) (UpdateProject i owner nd)"
  "stmt_guarantees (same (\<lambda>d. d\<lparr>projects := [], tasks := []\<rparr>)) (DeleteProject i owner)"
  "stmt_guarantees (same (\<lambda>d. d\<lparr>projects := [], tasks := []\<rparr>)) (CreateTask i owner x)"
  "stmt_guarantees (same (\<lambda>d. d\<lparr>projects := [], tasks := []\<rparr>)) (UpdateTask i owner x)"
  "stmt_guarantees (same (\<lambda>d. d\<lparr>projects := [], tasks := []\<rparr>)) (DeleteTask i owner)"
  by (auto intro!: stmt_same simp: CreateProject_def UpdateProject_def DeleteProject_def CreateTask_def UpdateTask_def
      DeleteTask_def Let_def unique_violation_def split: option.split)

lemma projects_leave_tasks:
  "stmt_guarantees (keeps tasks_ok) (CreateProject i owner nd)" "stmt_guarantees (keeps tasks_ok) (UpdateProject i owner nd)"
  "stmt_guarantees (keeps tasks_ok) (DeleteProject i owner)" "stmt_guarantees (keeps projects_ok) (CreateTask i owner x)"
  "stmt_guarantees (keeps projects_ok) (UpdateTask i owner x)" "stmt_guarantees (keeps projects_ok) (DeleteTask i owner)"
  by (auto intro!: stmt_keeps simp: CreateProject_def UpdateProject_def DeleteProject_def CreateTask_def UpdateTask_def
      DeleteTask_def Let_def unique_violation_def tasks_ok_def projects_ok_def split: option.split)

lemma account_stmt:
  "stmt_guarantees account_moves f \<Longrightarrow> stmt_guarantees mail_steps f \<Longrightarrow>
     stmt_guarantees (same (\<lambda>d. (projects d, tasks d))) f \<Longrightarrow> stmt_guarantees program_moves f"
  by (intro program_moves_stmt owned_same)

lemma owned_stmt:
  "stmt_guarantees (same (\<lambda>d. d\<lparr>projects := [], tasks := []\<rparr>)) f \<Longrightarrow> stmt_guarantees (keeps projects_ok) f \<Longrightarrow>
     stmt_guarantees (keeps tasks_ok) f \<Longrightarrow> stmt_guarantees program_moves f"
  by (intro program_moves_stmt owned_rest)

lemma mail_stmt:
  "stmt_guarantees (same (\<lambda>d. d\<lparr>mail_outbox := []\<rparr>)) f \<Longrightarrow> stmt_guarantees mail_steps f \<Longrightarrow> stmt_guarantees program_moves f"
  using mail_rest by (intro account_stmt)

interpretation pm: program_guarantee program_moves
proof unfold_locales
  show "program_moves d d" for d
    using am.R_refl me.R_refl by (simp add: program_moves_def keeps_def)
  show "program_moves a b \<Longrightarrow> program_moves b c \<Longrightarrow> program_moves a c" for a b c
    unfolding program_moves_def using am.R_trans me.R_trans kp.R_trans by blast
qed (rule account_stmt am.writes ax.writes ap.writes owned_stmt owned_quiet projects_leave_tasks mail_stmt mq.expire_R mq.claim_R
    mq.complete_R mq.retry_R me.expire_R me.claim_R me.complete_R me.retry_R CreateProject_keeps UpdateProject_keeps
    DeleteProject_keeps CreateTask_keeps UpdateTask_keeps DeleteTask_keeps | assumption)+

text \<open>
  C1.  The program is closed: an operation of the API or a round of the worker, interleaved with
  sessions that do nothing but what the program does, is itself a sequence of the program's guarded
  writes, whatever fails on the way.  So every database that can be reached from the empty one satisfies
  all invariants of the account, mail, project and task tables together, rows of the account tables
  only move forward, and no mail is lost or changed after it has ended.
\<close>

theorem program_safe:
  assumes "wired s" and "rely commits (sv_env s)" and "run_program s c w = (r, w')"
  shows "commits (w_db w) (w_db w')
    \<and> (commits empty_db (w_db w) \<longrightarrow> db_ok (w_db w') \<and> mail_evolves (w_db w) (w_db w'))
    \<and> account_evolves (w_db w) (w_db w')"
proof -
  have c: "commits (w_db w) (w_db w')" using pc.g_run_program [OF assms(2,1)] assms(3) by (rule guaranteesD)
  have e: "db_ok empty_db" using accounts_ok_empty by (simp add: db_ok_def projects_ok_def tasks_ok_def empty_db_def)
  have "db_ok d" if "commits empty_db d" for d
    using pm.commits_R [OF that] e by (auto simp: program_moves_def account_moves_def keeps_def db_ok_def)
  moreover have "program_moves (w_db w) (w_db w')" by (rule pm.commits_R [OF c])
  ultimately show ?thesis using c commits.trans [OF _ c]
    by (auto simp: program_moves_def account_moves_def mail_steps_def db_ok_def accounts_ok_def)
qed

theorem program_safe_witness:
  "\<exists>w'. run_program quiet_service (Project_create ''alice'' ''plan'' ''first'') (start empty_db) = (Inr (), w')
     \<and> length (projects (w_db w')) = 1 \<and> db_ok (w_db w')"
proof -
  obtain w' where run: "run_program quiet_service (Project_create ''alice'' ''plan'' ''first'') (start empty_db) = (Inr (), w')"
    and n: "length (projects (w_db w')) = 1"
    by (simp add: discard_def project_Create_def run_defs text_eval project_validate_def
        project_maxNameRunes_def project_maxDescriptionRunes_def CreateProject_def empty_db_def)
  have "rely commits (sv_env quiet_service)" by (simp add: rely_def commits.refl)
  moreover have "commits empty_db (w_db (start empty_db))" by (simp add: start_def commits.refl)
  ultimately show ?thesis using program_safe [OF wired_quiet _ run] run n by blast
qed

end
