(* ===== verification/Account_Mailing.thy ===== *)
theory Account_Mailing
  imports Account_Challenges
begin

text \<open>
  From the account service to the mail queue: every challenge is mailed in the transaction that
  creates it, and the link in the mail carries the token the challenge is found by.
\<close>

text \<open>
  A challenge for the user \<open>u\<close> was created at \<open>t\<close>: its row is stored with the digest of a token, the
  token is found by that digest until it expires, and a mail to the address is queued and due, whose
  body is the link with the token.
\<close>

definition challenge_sent :: "Service \<Rightarrow> time \<Rightarrow> string \<Rightarrow> string \<Rightarrow> time \<Rightarrow> string \<Rightarrow> db \<Rightarrow> bool" where
  "challenge_sent s t purpose email ttl u d \<longleftrightarrow>
     (\<exists>v m token base. v \<in> set (auth_verifications d) \<and> m \<in> set (mail_outbox d)
        \<and> TokenDigest (e_sha256 (sv_env s)) token ChallengePrefix = Inr (v_TokenHash v)
        \<and> v_Purpose v = purpose \<and> v_Email v = email \<and> v_UserID v = u \<and> v_ExpiresAt v = t + Seconds ttl * second
        \<and> (\<forall>t' < v_ExpiresAt v. fst (FindVerification (v_TokenHash v) t' d) = Inr v)
        \<and> sv_parse_url s (FrontendURL (sv_options s)) = Some base
        \<and> m_Body m = verificationMailBody (EscapeString (verification_link base token purpose))
        \<and> m_Recipient m = email \<and> m_Kind m = purpose
        \<and> (\<forall>t'. t \<le> t' \<and> t' < v_ExpiresAt v \<longrightarrow> claimable maxDeliveryAttempts t' m))"

lemma challenge_sent_flows:
  "challenge_sent s t purpose email ttl u (snd (update_flow q g d)) = challenge_sent s t purpose email ttl u d"
  by (simp add: challenge_sent_def FindVerification_def update_flow_def)

lemma find_last: "\<forall>x \<in> set xs. \<not> p x \<Longrightarrow> p y \<Longrightarrow> find p (xs @ [y]) = Some y"
  by (induction xs) auto

lemma createChallenge_step:
  assumes "createChallenge s (Tx t) user purpose email ttl session reauth w = (Inr v, w')"
    and entropy: "\<And>n. length (e_rand (sv_env s) n) = tokenEntropyBytes"
  shows "challenge_sent s t purpose email ttl (u_ID user) (w_db w')" and "users (w_db w') = users (w_db w)"
    and "accounts (w_db w') = accounts (w_db w)" and "user_sessions (w_db w') = user_sessions (w_db w)"
proof -
  let ?cx = "sv_env s"
  let ?tok = "NewToken (e_sha256 ?cx) (e_rand ?cx (w_seed w)) ChallengePrefix"
  let ?p = "\<lparr>cv_UserID = u_ID user, cv_Purpose = purpose, cv_TokenHash = snd ?tok, cv_Email = email,
      cv_AuthVersion = u_AuthVersion user, cv_SessionID = session, cv_ReauthenticationID = reauth, cv_TtlSeconds = Seconds ttl\<rparr>"
  obtain w1 w2 where c: "store_CreateVerification ?cx (Tx t) ?p w1 = (Inr v, w2)" and d1: "w_db w1 = w_db w"
    and m: "enqueueVerificationMail s (Tx t) v (fst ?tok) w2 = (Inr (), w')"
    using assms(1) unfolding createChallenge_def new_token_def Let_def by (auto simp: ok_iff split: prod.splits)
  obtain i where i: "fst (CreateVerification i ?p t (w_db w)) = Inr v" "w_db w2 = snd (CreateVerification i ?p t (w_db w))"
    using c d1 by (auto simp: store_CreateVerification_def ok_iff)
  have free: "\<forall>x \<in> set (auth_verifications (w_db w)). v_TokenHash x \<noteq> snd ?tok"
    and v: "v_Purpose v = purpose" "v_Email v = email" "v_UserID v = u_ID user" "v_ExpiresAt v = t + Seconds ttl * second"
      "v_TokenHash v = snd ?tok" "v_ConsumedAt v = None"
    and d2: "w_db w2 = (w_db w)\<lparr>auth_verifications := auth_verifications (w_db w) @ [v]\<rparr>"
    using i by (auto simp: CreateVerification_def Let_def list_ex_iff unique_violation_def fk_violation_def split: if_splits)
  obtain base k where b: "sv_parse_url s (FrontendURL (sv_options s)) = Some base"
    and e: "w_db w' = snd (EnqueueMail \<lparr>em_ID = k, em_Kind = purpose, em_Recipient = email, em_Subject = verificationMailSubject,
        em_Body = verificationMailBody (EscapeString (verification_link base (fst ?tok) purpose)), em_ExpiresAt = v_ExpiresAt v\<rparr> t (w_db w2))"
      "fst (EnqueueMail \<lparr>em_ID = k, em_Kind = purpose, em_Recipient = email, em_Subject = verificationMailSubject,
        em_Body = verificationMailBody (EscapeString (verification_link base (fst ?tok) purpose)), em_ExpiresAt = v_ExpiresAt v\<rparr> t (w_db w2)) = Inr ()"
    using m v(1,2) by (auto simp: enqueueVerificationMail_def store_EnqueueMail_def ok_iff split: option.splits)
  let ?m = "last (mail_outbox (w_db w'))"
  have m': "?m \<in> set (mail_outbox (w_db w'))" "m_Recipient ?m = email" "m_Kind ?m = purpose" "m_Status ?m = ''pending''"
      "m_AvailableAt ?m = t" "m_ExpiresAt ?m = v_ExpiresAt v" "m_Attempts ?m = 0"
      "m_Body ?m = verificationMailBody (EscapeString (verification_link base (fst ?tok) purpose))"
    and av: "auth_verifications (w_db w') = auth_verifications (w_db w) @ [v]"
    and rest: "users (w_db w') = users (w_db w)" "accounts (w_db w') = accounts (w_db w)" "user_sessions (w_db w') = user_sessions (w_db w)"
    using e by (auto simp: EnqueueMail_def d2 unique_violation_def split: if_splits)
  have "fst (FindVerification (v_TokenHash v) t' (w_db w')) = Inr v" if "t' < v_ExpiresAt v" for t'
    using find_last [of "auth_verifications (w_db w)" "\<lambda>x. v_TokenHash x = v_TokenHash v \<and> v_ConsumedAt x = None \<and> v_ExpiresAt x > t'" v]
      free v that by (auto simp: FindVerification_def av one_def)
  moreover have "TokenDigest (e_sha256 ?cx) (fst ?tok) ChallengePrefix = Inr (v_TokenHash v)"
    using TokenDigest_NewToken [OF entropy] v(5) by simp
  ultimately show "challenge_sent s t purpose email ttl (u_ID user) (w_db w')"
    unfolding challenge_sent_def using v b m' av
    by (intro exI [of _ v] exI [of _ ?m] exI [of _ "fst ?tok"] exI [of _ base])
      (auto simp: claimable_def maxDeliveryAttempts_def)
  show "users (w_db w') = users (w_db w)" "accounts (w_db w') = accounts (w_db w)"
    "user_sessions (w_db w') = user_sessions (w_db w)" by (rule rest)+
qed

text \<open>The rows a request is mailed with; what leaves them alone has stored no challenge and queued no mail.\<close>

definition mailing :: "db \<Rightarrow> verification_row list \<times> mail_row list" where
  "mailing d = (auth_verifications d, mail_outbox d)"

lemma entryLimit_mailing:
  assumes "rely (same mailing) (sv_env s)"
  shows "guarantees (same mailing) (entryLimit s r c key)"
proof -
  have "stmt_guarantees (same mailing) (RateLimit k n)" for k n
    by (rule stmt_same) (simp add: RateLimit_def mailing_def Let_def split: option.split)
  then show ?thesis unfolding entryLimit_def limit_def store_RateLimit_def Let_def
    by (auto intro!: sm.g_bindA sm.g_attempt sm.g_require sm.g_query sm.g_ret sm.g_fail assms split: sum.split)
qed

lemma Register_mails:
  assumes "Register s r email w = (Inr (), w')" and "\<And>n. length (e_rand (sv_env s) n) = tokenEntropyBytes"
  shows "\<exists>e n u. normalizeEmail (sv_env s) email = Inr e \<and> u \<in> set (users (w_db w')) \<and> u_EmailNormalized u = Some e
    \<and> (u_Status u = UserPending \<longrightarrow>
          challenge_sent s (e_clock (sv_env s) n) VerifyRegister e registrationChallengeTTL (u_ID u) (w_db w'))
    \<and> (u_Status u \<noteq> UserPending \<and> rely (same mailing) (sv_env s) \<longrightarrow> mailing (w_db w') = mailing (w_db w))"
proof -
  let ?cx = "sv_env s"
  define body where "body e q =
      bindA (store_CreatePendingUser ?cx q (Some e) (Some e)) (\<lambda>user.
      if u_Status user \<noteq> UserPending then ret ()
      else bindA (createChallenge s q user VerifyRegister e registrationChallengeTTL None None) (\<lambda>_. ret ()))" for e q
  obtain e w0 where e: "normalizeEmail ?cx email = Inr e" and l: "entryLimit s r ''register'' e w = (Inr (), w0)"
    and tx: "in_tx s (body e) w0 = (Inr (), w')"
    using assms(1) unfolding Register_def Let_def body_def by (auto simp: bindA_ok require_ok from_sum_ok)
  define t where "t = e_clock ?cx (w_step w0)"
  obtain w1 w3 where b: "body e (Tx t) w1 = (Inr (), w3)" and d: "w_db w' = w_db w3" "w_db w1 = e_other ?cx (w_step w0) (w_db w0)"
    using in_tx_ok [OF tx] unfolding t_def seen_def by blast
  obtain u w2 where u: "store_CreatePendingUser ?cx (Tx t) (Some e) (Some e) w1 = (Inr u, w2)"
    and c: "u_Status u \<noteq> UserPending \<and> w3 = w2 \<or> u_Status u = UserPending \<and>
      (\<exists>v. createChallenge s (Tx t) u VerifyRegister e registrationChallengeTTL None None w2 = (Inr v, w3))"
    using b unfolding body_def by (auto simp: bindA_ok ret_ok split: if_splits)
  obtain i where i: "fst (CreatePendingUser i (Some e) (Some e) t (w_db w1)) = Inr u"
      "w_db w2 = snd (CreatePendingUser i (Some e) (Some e) t (w_db w1))"
    using u by (auto simp: store_CreatePendingUser_def ok_iff)
  then have "u \<in> set (users (w_db w2)) \<and> u_EmailNormalized u = Some e"
    by (auto simp: CreatePendingUser_def Let_def unique_violation_def split: option.splits if_splits dest!: find_Some_ex)
  moreover have "u_Status u \<noteq> UserPending \<and> w_db w3 = w_db w2
      \<or> u_Status u = UserPending \<and> challenge_sent s t VerifyRegister e registrationChallengeTTL (u_ID u) (w_db w3) \<and> users (w_db w3) = users (w_db w2)"
    using c createChallenge_step [OF _ assms(2)] by blast
  moreover have "mailing (w_db w2) = mailing (w_db w)" if rely: "rely (same mailing) ?cx"
  proof -
    have "mailing (w_db w2) = mailing (w_db w1)"
      using i(2) by (auto simp: CreatePendingUser_def Let_def mailing_def split: option.splits)
    moreover have "mailing (w_db w1) = mailing (w_db w0)" using rely d(2) by (simp add: rely_def same_def)
    moreover have "mailing (w_db w0) = mailing (w_db w)" using guaranteesD [OF entryLimit_mailing [OF rely] l] by (simp add: same_def)
    ultimately show ?thesis by simp
  qed
  ultimately show ?thesis using e d(1) unfolding t_def by metis
qed

lemma lookup_found:
  assumes "lookup_opt g (query cx (Tx t) f) w = (Inr found, w')" and "\<And>d. snd (f t d) = d"
    and driver: "\<And>n e b. e_fault cx n = Some (Fault e b) \<Longrightarrow> \<not> errors_is e (Sentinel ErrNoRows)"
  shows "w_db w' = w_db w \<and> (\<forall>x. fst (f t (w_db w)) = Inr x \<longrightarrow> found = Some x)"
proof (cases "e_fault cx (w_step w)")
  case None
  then show ?thesis using assms(1,2)
    by (auto simp: lookup_opt_def attempt_def query_def Let_def ret_def fail_def split: sum.splits prod.splits if_splits)
next
  case (Some ft)
  then show ?thesis using assms(1) driver by (cases ft) (auto simp: lookup_opt_def attempt_def query_def Let_def ret_def fail_def)
qed

lemma lookup_result:
  assumes "lookup_opt g (query cx (Tx t) f) w = (Inr (Some x), w')"
  shows "fst (f t (w_db w)) = Inr x"
  using assms by (auto simp: lookup_opt_def attempt_def query_def Let_def ret_def fail_def
      split: sum.splits prod.splits if_splits option.splits fault.splits)

text \<open>What \<open>ForgotPassword\<close> does in its transaction.\<close>

definition forgot_tx :: "Service \<Rightarrow> string \<Rightarrow> conn \<Rightarrow> unit act" where
  "forgot_tx s email q =
     bindA (lookup_opt (\<lambda>e. e) (query (sv_env s) q (FindUserByEmail (Some email)))) (\<lambda>found.
      case found of
        None \<Rightarrow> ret ()
      | Some user \<Rightarrow>
          if u_Status user \<noteq> UserActive \<or> \<not> u_RecoveryEnabled user \<or> u_EmailVerifiedAt user = None then ret ()
          else bindA (lookup_opt (\<lambda>e. e) (query (sv_env s) q (GetPasswordAccount (u_ID user)))) (\<lambda>account.
            if account = None then ret ()
            else bindA (createChallenge s q user VerifyResetPassword (text_of (u_EmailNormalized user))
                   passwordResetChallengeTTL None None) (\<lambda>_. ret ())))"

lemma ForgotPassword_tx:
  assumes "ForgotPassword s r email w = (Inr (), w')"
  shows "\<exists>e n w0 w1 w2. normalizeEmail (sv_env s) email = Inr e \<and> entryLimit s r ''forgot'' e w = (Inr (), w0)
    \<and> w_db w1 = e_other (sv_env s) n (w_db w0)
    \<and> forgot_tx s e (Tx (e_clock (sv_env s) n)) w1 = (Inr (), w2) \<and> w_db w' = w_db w2"
proof -
  obtain e w0 where "normalizeEmail (sv_env s) email = Inr e" "entryLimit s r ''forgot'' e w = (Inr (), w0)"
      "in_tx s (forgot_tx s e) w0 = (Inr (), w')"
    using assms unfolding ForgotPassword_def Let_def forgot_tx_def by (auto simp: bindA_ok from_sum_ok require_ok)
  then show ?thesis using in_tx_ok [of s "forgot_tx s e" w0 "()" w'] unfolding seen_def by blast
qed

text \<open>A user whose password may be reset by mail, who is found by the address \<open>e\<close>.\<close>

definition recoverable :: "time \<Rightarrow> db \<Rightarrow> string \<Rightarrow> user_row \<Rightarrow> bool" where
  "recoverable t d e u \<longleftrightarrow> fst (FindUserByEmail (Some e) t d) = Inr u \<and> u_Status u = UserActive \<and> u_RecoveryEnabled u
     \<and> u_EmailVerifiedAt u \<noteq> None \<and> (\<exists>a. fst (GetPasswordAccount (u_ID u) t d) = Inr a)"

lemma forgot_tx_keeps:
  assumes "forgot_tx s e (Tx t) w = (Inr (), w')" and "\<And>n. length (e_rand (sv_env s) n) = tokenEntropyBytes"
    and driver: "\<And>n x b. e_fault (sv_env s) n = Some (Fault x b) \<Longrightarrow> \<not> errors_is x (Sentinel ErrNoRows)"
  shows "users (w_db w') = users (w_db w) \<and> accounts (w_db w') = accounts (w_db w)"
proof -
  have find: "w_db w2 = w_db w1"
    if "lookup_opt (\<lambda>e. e) (query (sv_env s) (Tx t) (FindUserByEmail m)) w1 = (Inr a, w2)" for m a w1 w2
    using lookup_found [OF that _ driver] by (simp add: FindUserByEmail_def)
  have get: "w_db w2 = w_db w1"
    if "lookup_opt (\<lambda>e. e) (query (sv_env s) (Tx t) (GetPasswordAccount i)) w1 = (Inr a, w2)" for i a w1 w2
    using lookup_found [OF that _ driver] by (simp add: GetPasswordAccount_def)
  have ch: "users (w_db w2) = users (w_db w1) \<and> accounts (w_db w2) = accounts (w_db w1)"
    if "createChallenge s (Tx t) u p m ttl x y w1 = (Inr v, w2)" for u p m ttl x y v w1 w2
    using createChallenge_step(2,3) [OF that assms(2)] by simp
  show ?thesis using assms(1) unfolding forgot_tx_def bindA_ok
    by (auto simp: bindA_ok ret_ok split: option.splits if_splits dest!: find get ch)
qed

lemma forgot_tx_mails:
  assumes "forgot_tx s e (Tx t) w = (Inr (), w')" and "\<And>n. length (e_rand (sv_env s) n) = tokenEntropyBytes"
    and driver: "\<And>n x b. e_fault (sv_env s) n = Some (Fault x b) \<Longrightarrow> \<not> errors_is x (Sentinel ErrNoRows)"
    and "recoverable t (w_db w') e u"
  shows "challenge_sent s t VerifyResetPassword e passwordResetChallengeTTL (u_ID u) (w_db w')"
proof -
  obtain found w1 where f: "lookup_opt (\<lambda>e. e) (query (sv_env s) (Tx t) (FindUserByEmail (Some e))) w = (Inr found, w1)"
    and rest: "(case found of None \<Rightarrow> ret () | Some user \<Rightarrow>
        if u_Status user \<noteq> UserActive \<or> \<not> u_RecoveryEnabled user \<or> u_EmailVerifiedAt user = None then ret ()
        else bindA (lookup_opt (\<lambda>e. e) (query (sv_env s) (Tx t) (GetPasswordAccount (u_ID user)))) (\<lambda>account.
          if account = None then ret ()
          else bindA (createChallenge s (Tx t) user VerifyResetPassword (text_of (u_EmailNormalized user))
                 passwordResetChallengeTTL None None) (\<lambda>_. ret ()))) w1 = (Inr (), w')"
    using assms(1) unfolding forgot_tx_def bindA_ok by blast
  have found: "w_db w1 = w_db w" "\<And>x. fst (FindUserByEmail (Some e) t (w_db w)) = Inr x \<Longrightarrow> found = Some x"
    using lookup_found [OF f _ driver] by (auto simp: FindUserByEmail_def)
  have e: "u_EmailNormalized u = Some e" using assms(4)
    by (auto simp: recoverable_def FindUserByEmail_def one_def split: option.splits dest!: find_Some_ex)
  show ?thesis
  proof (cases "found = Some u \<and> recoverable t (w_db w) e u")
    case True
    then obtain account w2 where
      a: "lookup_opt (\<lambda>e. e) (query (sv_env s) (Tx t) (GetPasswordAccount (u_ID u))) w1 = (Inr account, w2)"
      and c: "(if account = None then ret () else bindA (createChallenge s (Tx t) u VerifyResetPassword
          (text_of (u_EmailNormalized u)) passwordResetChallengeTTL None None) (\<lambda>_. ret ())) w2 = (Inr (), w')"
      using rest by (auto simp: recoverable_def bindA_ok)
    have "account \<noteq> None" using lookup_found [OF a _ driver] True found(1)
      by (auto simp: recoverable_def GetPasswordAccount_def)
    then obtain v where "createChallenge s (Tx t) u VerifyResetPassword e passwordResetChallengeTTL None None w2 = (Inr v, w')"
      using c e by (auto simp: ok_iff text_of_def)
    then show ?thesis by (rule createChallenge_step(1)) (rule assms(2))
  next
    case False
    then have "\<not> recoverable t (w_db w) e u" using found by (auto simp: recoverable_def)
    moreover have "users (w_db w') = users (w_db w) \<and> accounts (w_db w') = accounts (w_db w)"
      by (rule forgot_tx_keeps [OF assms(1,2) driver])
    ultimately show ?thesis using assms(4) by (auto simp: recoverable_def FindUserByEmail_def GetPasswordAccount_def)
  qed
qed

lemma forgot_tx_silent:
  assumes "forgot_tx s e (Tx t) w = (Inr (), w')" and "\<And>n. length (e_rand (sv_env s) n) = tokenEntropyBytes"
    and driver: "\<And>n x b. e_fault (sv_env s) n = Some (Fault x b) \<Longrightarrow> \<not> errors_is x (Sentinel ErrNoRows)"
    and none: "\<And>u. \<not> recoverable t (w_db w') e u"
  shows "mailing (w_db w') = mailing (w_db w)"
proof -
  have same: "recoverable t (w_db w') e u = recoverable t (w_db w) e u" for u
    using forgot_tx_keeps [OF assms(1,2) driver] by (simp add: recoverable_def FindUserByEmail_def GetPasswordAccount_def)
  obtain found w1 where f: "lookup_opt (\<lambda>e. e) (query (sv_env s) (Tx t) (FindUserByEmail (Some e))) w = (Inr found, w1)"
    and rest: "(case found of None \<Rightarrow> ret () | Some user \<Rightarrow>
        if u_Status user \<noteq> UserActive \<or> \<not> u_RecoveryEnabled user \<or> u_EmailVerifiedAt user = None then ret ()
        else bindA (lookup_opt (\<lambda>e. e) (query (sv_env s) (Tx t) (GetPasswordAccount (u_ID user)))) (\<lambda>account.
          if account = None then ret ()
          else bindA (createChallenge s (Tx t) user VerifyResetPassword (text_of (u_EmailNormalized user))
                 passwordResetChallengeTTL None None) (\<lambda>_. ret ()))) w1 = (Inr (), w')"
    using assms(1) unfolding forgot_tx_def bindA_ok by blast
  have d1: "w_db w1 = w_db w" using lookup_found [OF f _ driver] by (simp add: FindUserByEmail_def)
  show ?thesis
  proof (cases "\<exists>u. found = Some u \<and> u_Status u = UserActive \<and> u_RecoveryEnabled u \<and> u_EmailVerifiedAt u \<noteq> None")
    case False
    then show ?thesis using rest d1 by (auto simp: ret_ok split: option.splits if_splits)
  next
    case True
    then obtain u where u: "found = Some u" "u_Status u = UserActive" "u_RecoveryEnabled u" "u_EmailVerifiedAt u \<noteq> None" by blast
    obtain account w2 where a: "lookup_opt (\<lambda>e. e) (query (sv_env s) (Tx t) (GetPasswordAccount (u_ID u))) w1 = (Inr account, w2)"
      and c: "(if account = None then ret () else bindA (createChallenge s (Tx t) u VerifyResetPassword (text_of (u_EmailNormalized u))
                 passwordResetChallengeTTL None None) (\<lambda>_. ret ())) w2 = (Inr (), w')"
      using rest u by (auto simp: bindA_ok)
    have d2: "w_db w2 = w_db w1" using lookup_found [OF a _ driver] by (simp add: GetPasswordAccount_def)
    have "fst (FindUserByEmail (Some e) t (w_db w)) = Inr u" by (rule lookup_result [OF f [unfolded u(1)]])
    moreover have "fst (GetPasswordAccount (u_ID u) t (w_db w)) = Inr x" if "account = Some x" for x
      using lookup_result [OF a [unfolded that]] d1 by simp
    ultimately have "account = None" using none [unfolded same, of u] u(2-4) unfolding recoverable_def by (cases account) auto
    then show ?thesis using c d1 d2 by (simp add: ret_ok)
  qed
qed

lemma ForgotPassword_mails:
  assumes "ForgotPassword s r email w = (Inr (), w')" and "\<And>n. length (e_rand (sv_env s) n) = tokenEntropyBytes"
    and driver: "\<And>n x b. e_fault (sv_env s) n = Some (Fault x b) \<Longrightarrow> \<not> errors_is x (Sentinel ErrNoRows)"
  shows "\<exists>e n. normalizeEmail (sv_env s) email = Inr e
    \<and> (\<forall>u. recoverable (e_clock (sv_env s) n) (w_db w') e u
         \<longrightarrow> challenge_sent s (e_clock (sv_env s) n) VerifyResetPassword e passwordResetChallengeTTL (u_ID u) (w_db w'))
    \<and> ((\<forall>u. \<not> recoverable (e_clock (sv_env s) n) (w_db w') e u) \<and> rely (same mailing) (sv_env s) \<longrightarrow> mailing (w_db w') = mailing (w_db w))"
proof -
  obtain e n w0 w1 w2 where e: "normalizeEmail (sv_env s) email = Inr e" and l: "entryLimit s r ''forgot'' e w = (Inr (), w0)"
    and d1: "w_db w1 = e_other (sv_env s) n (w_db w0)"
    and tx: "forgot_tx s e (Tx (e_clock (sv_env s) n)) w1 = (Inr (), w2)" and d: "w_db w' = w_db w2"
    using ForgotPassword_tx [OF assms(1)] by blast
  have "challenge_sent s (e_clock (sv_env s) n) VerifyResetPassword e passwordResetChallengeTTL (u_ID u) (w_db w')"
    if "recoverable (e_clock (sv_env s) n) (w_db w') e u" for u
    using forgot_tx_mails [OF tx assms(2) driver] that d by simp
  moreover have "mailing (w_db w') = mailing (w_db w)"
    if "\<forall>u. \<not> recoverable (e_clock (sv_env s) n) (w_db w') e u" "rely (same mailing) (sv_env s)"
  proof -
    have "mailing (w_db w2) = mailing (w_db w1)" using forgot_tx_silent [OF tx assms(2) driver] that(1) d by simp
    moreover have "mailing (w_db w1) = mailing (w_db w0)" using that(2) d1 by (simp add: rely_def same_def)
    moreover have "mailing (w_db w0) = mailing (w_db w)" using guaranteesD [OF entryLimit_mailing [OF that(2)] l] by (simp add: same_def)
    ultimately show ?thesis using d by simp
  qed
  ultimately show ?thesis using e by blast
qed

lemma ChangeEmail_mails:
  assumes "ChangeEmail s r email reauth w = (Inr (), w')" and "\<And>n. length (e_rand (sv_env s) n) = tokenEntropyBytes"
  shows "\<exists>e n. normalizeEmail (sv_env s) email = Inr e
    \<and> challenge_sent s (e_clock (sv_env s) n) VerifyChangeEmail e emailChangeChallengeTTL (UserID r) (w_db w')"
proof -
  obtain e n w1 u x w2 p w3 v w4 w5 where e: "normalizeEmail (sv_env s) email = Inr e"
    and u: "readSelf (sv_env s) (Tx (e_clock (sv_env s) n)) r w1 = (Inr (u, x), w2)"
    and c: "createChallenge s (Tx (e_clock (sv_env s) n)) u VerifyChangeEmail e emailChangeChallengeTTL (Some (s_ID x)) (Some reauth) w3 = (Inr v, w4)"
    and cl: "claimAuthorization (sv_env s) (Tx (e_clock (sv_env s) n)) reauth (v_ID v) w4 = (Inr (), w5)" and d: "w_db w' = w_db w5"
    using assms(1) unfolding ChangeEmail_def Let_def recordFailureOnReturn_ok
    by (auto simp: bindA_ok from_sum_ok require_ok on_error_ok dest!: in_tx_ok)
  have "w_db w5 = snd (ClaimAuthorization reauth (Some (v_ID v)) (e_clock (sv_env s) n) (w_db w4))"
    using cl by (simp add: claimAuthorization_def transition_count)
  then have "challenge_sent s (e_clock (sv_env s) n) VerifyChangeEmail e emailChangeChallengeTTL (u_ID u) (w_db w5)"
    using createChallenge_step(1) [OF c assms(2)] by (simp add: ClaimAuthorization_def challenge_sent_flows)
  then show ?thesis using e d readSelf_step [OF u] by auto
qed

text \<open>
  C11.  Whoever has an address to prove gets the mail to do so, and nobody else is mailed.  A change of
  address that succeeds, a registration that succeeds for a user who is still pending, and a reset
  request that succeeds for a user who can recover the password have stored a challenge and, in the same
  transaction, queued its mail: the mail goes to the normalized address, is due at once and until the
  challenge expires, and its link carries a token whose digest the stored challenge is found by as
  long as it is neither consumed nor expired.  A registration of an address whose user is no longer
  pending, and a reset request for an address nobody can recover, succeed all the same and have stored
  no challenge and queued no mail.
\<close>

theorem challenge_mailed:
  assumes "\<And>n. length (e_rand (sv_env s) n) = tokenEntropyBytes"
    and "\<And>n x b. e_fault (sv_env s) n = Some (Fault x b) \<Longrightarrow> \<not> errors_is x (Sentinel ErrNoRows)"
  shows "(Register s r email w = (Inr (), w') \<longrightarrow>
      (\<exists>e n u. normalizeEmail (sv_env s) email = Inr e \<and> u \<in> set (users (w_db w')) \<and> u_EmailNormalized u = Some e
         \<and> (u_Status u = UserPending \<longrightarrow>
              challenge_sent s (e_clock (sv_env s) n) VerifyRegister e registrationChallengeTTL (u_ID u) (w_db w'))
         \<and> (u_Status u \<noteq> UserPending \<and> rely (same mailing) (sv_env s) \<longrightarrow> mailing (w_db w') = mailing (w_db w))))
    \<and> (ForgotPassword s r email w = (Inr (), w') \<longrightarrow>
      (\<exists>e n. normalizeEmail (sv_env s) email = Inr e
         \<and> (\<forall>u. recoverable (e_clock (sv_env s) n) (w_db w') e u \<longrightarrow>
              challenge_sent s (e_clock (sv_env s) n) VerifyResetPassword e passwordResetChallengeTTL (u_ID u) (w_db w'))
         \<and> ((\<forall>u. \<not> recoverable (e_clock (sv_env s) n) (w_db w') e u) \<and> rely (same mailing) (sv_env s) \<longrightarrow>
              mailing (w_db w') = mailing (w_db w))))
    \<and> (ChangeEmail s r email reauth w = (Inr (), w') \<longrightarrow>
      (\<exists>e n. normalizeEmail (sv_env s) email = Inr e
         \<and> challenge_sent s (e_clock (sv_env s) n) VerifyChangeEmail e emailChangeChallengeTTL (UserID r) (w_db w')))"
  by (intro conjI impI; erule Register_mails ForgotPassword_mails ChangeEmail_mails; (rule assms(1) | erule assms(2)))

text \<open>The example: alice has forgotten her password.\<close>

lemma forgot_entry: "\<exists>w'. entryLimit quiet_service guest ''forgot'' ''a@x'' (start login_db) = (Inr (), w') \<and> w_step w' = 2 \<and> w_seed w' = 0
  \<and> users (w_db w') = [alice, bob] \<and> accounts (w_db w') = accounts example_db \<and> auth_verifications (w_db w') = []
  \<and> mail_outbox (w_db w') = []"
  by (simp add: run_defs limit_defs guest_def login_db_def example_defs)

lemma utf8_body:
  assumes "list_all (\<lambda>c. valid_rune c \<and> c \<noteq> 0) cs" and "cs \<noteq> []" and "length cs \<le> 1000"
  shows "validBytes (utf8 cs) maxMailBodyBytes"
proof -
  have v: "list_all valid_rune cs" using assms(1) by (simp add: list_all_iff)
  have "0 \<notin> set (encode_rune c)" if "c \<noteq> 0" for c using that by (auto simp: encode_rune_def)
  then have "\<not> ContainsByte (utf8 cs) 0" unfolding ContainsByte_def bytes_utf8 [OF v] using assms(1) by (auto simp: list_all_iff)
  moreover have "utf8 cs \<noteq> []" using assms(2) by (cases cs) (auto simp: utf8_def of_bytes_def encode_rune_def)
  ultimately show ?thesis unfolding validBytes_def
    using length_utf8 [OF v] assms(3) ValidString_utf8 [OF v] by (simp add: maxMailBodyBytes_def push_bit_eq_mult)
qed

lemma utf8_append: "utf8 (xs @ ys) = utf8 xs @ utf8 ys"
  by (simp add: utf8_def of_bytes_def)

lemma utf8_ascii: "list_all (\<lambda>c. of_char c < (0x80 :: nat)) s \<Longrightarrow> utf8 (map of_char s) = s"
  by (induction s) (auto simp: utf8_def of_bytes_def encode_rune_def)

lemma verification_body:
  assumes "list_all (\<lambda>c. of_char c < (0x80 :: nat) \<and> of_char c \<noteq> (0 :: nat)) link" and "length link \<le> 500"
  shows "validBytes (verificationMailBody link) maxMailBodyBytes"
proof -
  let ?m = "map of_char :: string \<Rightarrow> nat list"
  let ?cs = "?m ''<p>'' @ [0x8bf7, 0x5728, 0x6709, 0x6548, 0x671f, 0x5185, 0x5b8c, 0x6210, 0x8d26, 0x6237, 0x9a8c,
      0x8bc1, 0x3002, 0x8bf7, 0x52ff, 0x8f6c, 0x53d1, 0x6b64, 0x90ae, 0x4ef6, 0x3002] @ ?m ''</p><p><a href='' @ [0x22]
      @ ?m link @ [0x22] @ ?m ''>'' @ [0x9a8c, 0x8bc1, 0x8d26, 0x6237] @ ?m ''</a></p>''"
  have "utf8 (?m link) = link" using assms(1) by (intro utf8_ascii) (simp add: list_all_iff)
  then have "verificationMailBody link = utf8 ?cs"
    unfolding verificationMailBody_def utf8_append by (simp add: utf8_def of_bytes_def encode_rune_def char_of_def bit_0)
  moreover have "list_all (\<lambda>c. valid_rune c \<and> c \<noteq> 0) ?cs"
    using assms(1) by (auto simp: valid_rune_def list_all_iff)
  ultimately show ?thesis using utf8_body [of ?cs] assms(2) by simp
qed

definition reset_token :: string where
  "reset_token = ''verify_'' @ replicate 43 (CHR ''A'')"

lemma reset_token: "NewToken h (replicate 32 (char_of (0::nat))) ChallengePrefix = (reset_token, Digest h reset_token)"
proof -
  have "EncodeToString (replicate 32 (CHR 0x00)) = replicate 43 (CHR ''A'')" by code_simp
  moreover have "char_of (0::nat) = CHR 0x00" by code_simp
  ultimately show ?thesis by (simp add: NewToken_def ChallengePrefix_def Let_def reset_token_def)
qed

lemma reset_mail:
  "validBytes (verificationMailBody (EscapeString (verification_link (''https://web'', False) reset_token ''reset_password''))) maxMailBodyBytes"
  "validBytes ''reset_password'' maxMailKindBytes" "validBytes verificationMailSubject maxMailSubjectBytes"
proof -
  have link: "EscapeString (verification_link (''https://web'', False) reset_token ''reset_password'')
      = ''https://web/auth/verify#purpose=reset_password&amp;token=verify_'' @ replicate 43 (CHR ''A'')"
    by code_simp
  have "list_all (\<lambda>c. of_char c < (0x80 :: nat) \<and> of_char c \<noteq> (0 :: nat))
      (EscapeString (verification_link (''https://web'', False) reset_token ''reset_password''))"
    unfolding link by (simp add: list_all_iff)
  moreover have "length (EscapeString (verification_link (''https://web'', False) reset_token ''reset_password'')) \<le> 500"
    unfolding link by simp
  ultimately show "validBytes (verificationMailBody (EscapeString (verification_link (''https://web'', False) reset_token
      ''reset_password''))) maxMailBodyBytes" by (rule verification_body)
qed (simp_all add: validBytes_def verificationMailSubject_def text_eval maxMailKindBytes_def maxMailSubjectBytes_def)

lemma example_forgot:
  "\<exists>w'. ForgotPassword quiet_service guest ''a@x'' (start login_db) = (Inr (), w') \<and> users (w_db w') = [alice, bob]
     \<and> accounts (w_db w') = accounts example_db"
proof -
  obtain w1 where w1: "entryLimit quiet_service guest ''forgot'' ''a@x'' (start login_db) = (Inr (), w1)" "w_step w1 = 2"
    "w_seed w1 = 0" "users (w_db w1) = [alice, bob]" "accounts (w_db w1) = accounts example_db" "auth_verifications (w_db w1) = []"
    "mail_outbox (w_db w1) = []"
    using forgot_entry by blast
  show ?thesis
    by (simp add: ForgotPassword_def lookup_opt_def FindUserByEmail_def GetPasswordAccount_def
      createChallenge_def enqueueVerificationMail_def new_token_def store_defs CreateVerification_def EnqueueMail_def
      valid_mail_def reset_token reset_mail UserActive_def valid_new_verification_def validOptionalIdentifier_def
      VerificationPurpose_Valid_def verify_purpose_defs passwordResetChallengeTTL_def Digest_def zero_time_def
      in_tx_def on_error_def w1 text_of_def sha256_Size_def Seconds_def
      email_a run_defs alice_def bob_def new_user_def example_db_def empty_db_def example_account_def text_eval
      minute_def second_def hour_def del: quiet_simps(7) start_def)
qed

theorem challenge_mailed_witness:
  "\<exists>w' n. ForgotPassword quiet_service guest ''a@x'' (start login_db) = (Inr (), w')
     \<and> challenge_sent quiet_service (e_clock quiet n) VerifyResetPassword ''a@x'' passwordResetChallengeTTL ''alice'' (w_db w')"
proof -
  obtain w' where w': "ForgotPassword quiet_service guest ''a@x'' (start login_db) = (Inr (), w')" "users (w_db w') = [alice, bob]"
      "accounts (w_db w') = accounts example_db"
    using example_forgot by blast
  have "recoverable t (w_db w') ''a@x'' alice" for t
    by (simp add: recoverable_def w' FindUserByEmail_def GetPasswordAccount_def one_def alice_def bob_def new_user_def
        UserActive_def example_db_def example_account_def)
  moreover have "\<exists>e n. normalizeEmail (sv_env quiet_service) ''a@x'' = Inr e
      \<and> (\<forall>u. recoverable (e_clock (sv_env quiet_service) n) (w_db w') e u \<longrightarrow>
           challenge_sent quiet_service (e_clock (sv_env quiet_service) n) VerifyResetPassword e passwordResetChallengeTTL (u_ID u) (w_db w'))"
    using challenge_mailed [of quiet_service guest "''a@x''" "start login_db" w' "''''"] w'(1) by (simp add: tokenEntropyBytes_def) blast
  moreover have "u_ID alice = ''alice''" by (simp add: alice_def new_user_def)
  ultimately show ?thesis using w'(1) email_a by (metis quiet_service_simps(1) sum.inject(2))
qed

end
