(* ===== verification/Account_Completeness.thy ===== *)
theory Account_Completeness
  imports Account_Mailing
begin

text \<open>
  What must succeed.  The other theories say what a successful call has done; here a password login is
  shown to succeed exactly for the right credentials, and to be refused uniformly otherwise, when nothing
  fails, no other session interferes and the rate limiter lets the attempt pass.
\<close>

text \<open>An environment in which nothing fails and nobody else writes, with a working digest and entropy source.\<close>

definition healthy :: "Service \<Rightarrow> bool" where
  "healthy s \<longleftrightarrow>
     (\<forall>n. e_fault (sv_env s) n = None) \<and> (\<forall>n d. e_other (sv_env s) n d = d)
     \<and> (\<forall>x. length (e_sha256 (sv_env s) x) = sha256_Size) \<and> (\<forall>n. length (e_rand (sv_env s) n) = tokenEntropyBytes)
     \<and> Service_ok (sv_options s)"

text \<open>The next draws of identifiers and tokens are well formed and not stored yet.\<close>

definition new_hash :: "env \<Rightarrow> nat \<Rightarrow> string \<Rightarrow> string" where
  "new_hash cx k pre = snd (NewToken (e_sha256 cx) (e_rand cx k) pre)"

definition unused :: "env \<Rightarrow> nat \<Rightarrow> db \<Rightarrow> bool" where
  "unused cx n d \<longleftrightarrow>
     (\<forall>k \<in> {n..n + 3}. Identifier (e_id cx k)
        \<and> (\<forall>x \<in> set (user_sessions d). s_ID x \<noteq> e_id cx k \<and> s_TokenHash x \<noteq> new_hash cx k SessionPrefix)
        \<and> (\<forall>x \<in> set (audit_events d). au_ID x \<noteq> e_id cx k))"

text \<open>The rate limiter lets the request pass.\<close>

definition passes_limit :: "unit act \<Rightarrow> world \<Rightarrow> bool" where
  "passes_limit m w \<longleftrightarrow> fst (m w) = Inr ()"

lemma healthy_query:
  "healthy s \<Longrightarrow> query (sv_env s) q f w =
     (let t = (case q of Pool \<Rightarrow> e_clock (sv_env s) (w_step w) | Tx t \<Rightarrow> t); out = f t (w_db w)
      in (fst out, w\<lparr>w_step := Suc (w_step w), w_db := snd out\<rparr>))"
  by (cases q) (simp_all add: query_def healthy_def Let_def)

lemma healthy_tx:
  assumes "healthy s" and "body (Tx (e_clock (sv_env s) (w_step w))) (w\<lparr>w_step := Suc (w_step w)\<rparr>) = (Inr a, w')"
  shows "in_tx s body w = (Inr a, w'\<lparr>w_step := Suc (w_step w')\<rparr>)"
  using assms by (simp add: in_tx_def WithTransaction_def healthy_def Let_def)

lemma healthy_limit:
  assumes "healthy s" and "passes_limit (limit s c key mx window) w"
  shows "\<exists>rs. limit s c key mx window w =
    (Inr (), w\<lparr>w_step := Suc (w_step w), w_db := (w_db w)\<lparr>auth_rate_limits := rs\<rparr>\<rparr>)"
proof -
  have "\<exists>rs. snd (RateLimit k n t d) = d\<lparr>auth_rate_limits := rs\<rparr>" for k n t d
    by (auto simp: RateLimit_def Let_def split: option.split)
  then obtain rs where rs: "snd (RateLimit k n t d) = d\<lparr>auth_rate_limits := rs k n t d\<rparr>" for k n t d by metis
  let ?k = "bucket_key (sv_env s) c key"
  show ?thesis
  proof (cases "length ?k = sha256_Size \<and> 0 < Seconds window")
    case True
    define out where "out = fst (RateLimit ?k (Seconds window) (e_clock (sv_env s) (w_step w)) (w_db w))"
    define w1 where "w1 = w\<lparr>w_step := Suc (w_step w),
          w_db := (w_db w)\<lparr>auth_rate_limits := rs ?k (Seconds window) (e_clock (sv_env s) (w_step w)) (w_db w)\<rparr>\<rparr>"
    have "store_RateLimit (sv_env s) Pool ?k (Seconds window) w = (out, w1)" using True
      by (simp add: store_RateLimit_def bindA_def require_def ret_def healthy_query [OF assms(1)] Let_def rs out_def w1_def)
    then have "limit s c key mx window w = (Inr (), w1)" using assms(2)
      by (cases out) (auto simp: passes_limit_def limit_def attempt_def ret_def fail_def Let_def split: if_splits prod.splits)
    then show ?thesis unfolding w1_def by blast
  next
    case False
    then have "store_RateLimit (sv_env s) Pool ?k (Seconds window) w = (Inl (Business ErrInvalid), w)"
      by (auto simp: store_RateLimit_def bindA_def require_def fail_def)
    then show ?thesis using assms(2) by (simp add: passes_limit_def limit_def attempt_def fail_def Let_def)
  qed
qed

lemma passes_bind: "passes_limit (bindA m (\<lambda>_. k)) w \<Longrightarrow> passes_limit m w \<and> (\<forall>w'. m w = (Inr (), w') \<longrightarrow> passes_limit k w')"
  by (auto simp: passes_limit_def bindA_def split: prod.splits sum.splits)

lemma healthy_entryLimit:
  assumes "healthy s" and "passes_limit (entryLimit s r c key) w"
  shows "\<exists>rs. entryLimit s r c key w =
    (Inr (), w\<lparr>w_step := Suc (Suc (w_step w)), w_db := (w_db w)\<lparr>auth_rate_limits := rs\<rparr>\<rparr>)"
proof -
  let ?l1 = "limit s (c @ ''.ip'') (ClientIP r) ipRequestLimit ipRateWindow"
  let ?l2 = "limit s (c @ ''.subject'') key subjectRequestLimit subjectRateWindow"
  have p: "passes_limit ?l1 w" and q: "\<And>w'. ?l1 w = (Inr (), w') \<Longrightarrow> passes_limit ?l2 w'"
    using passes_bind assms(2) unfolding entryLimit_def by blast+
  obtain rs where l1: "?l1 w = (Inr (), w\<lparr>w_step := Suc (w_step w), w_db := (w_db w)\<lparr>auth_rate_limits := rs\<rparr>\<rparr>)"
    using healthy_limit [OF assms(1) p] by blast
  show ?thesis using healthy_limit [OF assms(1) q [OF l1]] by (auto simp: entryLimit_def bindA_def l1)
qed

lemma AppendAudit_fresh:
  assumes "\<forall>x \<in> set (audit_events d). au_ID x \<noteq> i"
  shows "\<exists>row. au_ID row = i \<and> AppendAudit i p t d = (Inr (), d\<lparr>audit_events := audit_events d @ [row]\<rparr>)"
proof -
  let ?row = "last (audit_events (snd (AppendAudit i p t d)))"
  have "\<not> list_ex (\<lambda>x. au_ID x = i) (audit_events d)" using assms by (simp add: list_ex_iff)
  then have "au_ID ?row = i \<and> AppendAudit i p t d = (Inr (), d\<lparr>audit_events := audit_events d @ [?row]\<rparr>)"
    by (simp add: AppendAudit_def)
  then show ?thesis by blast
qed

text \<open>A record of success is acceptable when what it names are identifiers.\<close>

lemma healthy_audit:
  assumes h: "healthy s" and "\<forall>x \<in> set (audit_events (w_db w)). au_ID x \<noteq> e_id (sv_env s) (w_seed w)"
    and "valid_audit (audit_params r ev)"
  shows "\<exists>row. au_ID row = e_id (sv_env s) (w_seed w) \<and> audit (sv_env s) q r ev w =
    (Inr (), w\<lparr>w_seed := Suc (w_seed w), w_step := Suc (w_step w),
       w_db := (w_db w)\<lparr>audit_events := audit_events (w_db w) @ [row]\<rparr>\<rparr>)"
proof -
  obtain row where row: "au_ID row = e_id (sv_env s) (w_seed w)"
      "AppendAudit (e_id (sv_env s) (w_seed w)) (audit_params r ev) (case q of Pool \<Rightarrow> e_clock (sv_env s) (w_step w) | Tx t \<Rightarrow> t) (w_db w)
        = (Inr (), (w_db w)\<lparr>audit_events := audit_events (w_db w) @ [row]\<rparr>)"
    using AppendAudit_fresh [OF assms(2)] by blast
  have "audit (sv_env s) q r ev w = (Inr (), w\<lparr>w_seed := Suc (w_seed w), w_step := Suc (w_step w),
       w_db := (w_db w)\<lparr>audit_events := audit_events (w_db w) @ [row]\<rparr>\<rparr>)"
    using assms(3) row(2) by (cases q) (simp_all add: audit_def store_AppendAudit_def bindA_def require_def ret_def NewID_def healthy_query [OF h] Let_def)
  with row(1) show ?thesis by blast
qed

lemma success_audit:
  assumes "Identifier (UserID r)" and "Identifier target" and "Identifier scope" and "action \<noteq> ''''"
    and "TextWithin action maxAuditActionRunes" and "length (metadata_json meta) \<le> 1024"
  shows "valid_audit (audit_params r (success_event action kind target scope meta))"
  using assms Identifier_nonempty [OF assms(1)]
  by (auto simp: valid_audit_def audit_params_def success_event_def optional_def validOptionalIdentifier_def
      AuditOutcome_Valid_def AuditSuccess_def AuditActorType_Valid_def ActorUser_def ActorAnonymous_def
      maxAuditMetadataBytes_def push_bit_eq_mult)

lemma login_event:
  "TextWithin ''auth.login'' maxAuditActionRunes" "length (metadata_json (loginAuditMetadata MethodPassword)) \<le> 1024"
  "TextWithin (''auth.'' @ VerifyRegister) maxAuditActionRunes"
  by (simp_all add: TextWithin_def maxAuditActionRunes_def text_eval login_metadata MethodPassword_def VerifyRegister_def)

lemma CreateSession_fresh:
  assumes "\<forall>x \<in> set (user_sessions d). s_ID x \<noteq> i \<and> s_TokenHash x \<noteq> cs_TokenHash p" and "cs_UserID p \<in> u_ID ` set (users d)"
  shows "\<exists>row. s_ID row = i \<and> CreateSession i p t d = (Inr row, d\<lparr>user_sessions := user_sessions d @ [row]\<rparr>)"
proof -
  let ?row = "last (user_sessions (snd (CreateSession i p t d)))"
  have "\<not> list_ex (\<lambda>x. s_ID x = i) (user_sessions d)" "\<not> list_ex (\<lambda>x. s_TokenHash x = cs_TokenHash p) (user_sessions d)"
      "list_ex (\<lambda>u. u_ID u = cs_UserID p) (users d)"
    using assms by (auto simp: list_ex_iff)
  then have "s_ID ?row = i \<and> CreateSession i p t d = (Inr ?row, d\<lparr>user_sessions := user_sessions d @ [?row]\<rparr>)"
    by (simp add: CreateSession_def Let_def)
  then show ?thesis by blast
qed

lemma healthy_newSession:
  assumes h: "healthy s"
    and user: "u_Status user = UserActive" "1 \<le> u_AuthVersion user" "Identifier (u_ID user)" "u_ID user \<in> u_ID ` set (users (w_db w))"
    and account: "a_UserID account = u_ID user" "a_RevokedAt account = None" "Identifier (a_ID account)"
    and new: "\<forall>x \<in> set (user_sessions (w_db w)). s_ID x \<noteq> e_id (sv_env s) (Suc (w_seed w))
        \<and> s_TokenHash x \<noteq> new_hash (sv_env s) (w_seed w) SessionPrefix" "Identifier (e_id (sv_env s) (Suc (w_seed w)))"
      "\<forall>x \<in> set (audit_events (w_db w)). au_ID x \<noteq> e_id (sv_env s) (Suc (Suc (w_seed w)))"
  shows "\<exists>cred w'. newSession s q r user account MethodPassword w = (Inr cred, w')"
proof -
  let ?cx = "sv_env s"
  let ?hash = "new_hash ?cx (w_seed w) SessionPrefix"
  let ?t = "case q of Pool \<Rightarrow> e_clock ?cx (w_step w) | Tx t \<Rightarrow> t"
  define p where "p = \<lparr>cs_UserID = u_ID user, cs_TokenHash = ?hash, cs_AuthMethod = MethodPassword, cs_AuthSourceID = a_ID account,
         cs_AuthVersion = u_AuthVersion user, cs_IdleSeconds = Seconds (IdleTTL (sv_options s)),
         cs_MaxSeconds = Seconds (MaxTTL (sv_options s))\<rparr>"
  obtain token where token: "NewToken (e_sha256 ?cx) (e_rand ?cx (w_seed w)) SessionPrefix = (token, ?hash)"
    by (simp add: new_hash_def) (metis prod.collapse)
  have "minute \<le> IdleTTL (sv_options s)" "IdleTTL (sv_options s) \<le> MaxTTL (sv_options s)"
    using h by (simp_all add: healthy_def Service_ok_def)
  then have "0 < Seconds (IdleTTL (sv_options s))" "Seconds (IdleTTL (sv_options s)) \<le> Seconds (MaxTTL (sv_options s))"
    by (auto simp: Seconds_def minute_def second_def zdiv_mono1)
  moreover have "length ?hash = sha256_Size" using h by (simp add: new_hash_def NewToken_def Digest_def Let_def healthy_def)
  ultimately have valid: "valid_new_session p" using user(2,3) account(3)
    by (simp add: valid_new_session_def p_def AuthMethod_Valid_def)
  obtain row where row: "s_ID row = e_id ?cx (Suc (w_seed w))"
      "CreateSession (e_id ?cx (Suc (w_seed w))) p ?t (w_db w) = (Inr row, (w_db w)\<lparr>user_sessions := user_sessions (w_db w) @ [row]\<rparr>)"
    using CreateSession_fresh [of "w_db w" "e_id ?cx (Suc (w_seed w))" p] new(1) user(4) unfolding p_def CreateSessionParams.simps by blast
  define w1 where "w1 = w\<lparr>w_seed := Suc (Suc (w_seed w)), w_step := Suc (w_step w),
    w_db := (w_db w)\<lparr>user_sessions := user_sessions (w_db w) @ [row]\<rparr>\<rparr>"
  have create: "store_CreateSession ?cx q p (w\<lparr>w_seed := Suc (w_seed w)\<rparr>) = (Inr row, w1)"
    using row(2) valid by (cases q) (simp_all add: store_CreateSession_def bindA_def require_def ret_def NewID_def healthy_query [OF h] Let_def w1_def)
  obtain as where touch: "store_TouchAccount ?cx q (a_ID account) (u_ID user) w1 =
      (Inr (), w1\<lparr>w_step := Suc (w_step w1), w_db := (w_db w1)\<lparr>accounts := as\<rparr>\<rparr>)"
    by (simp add: store_TouchAccount_def healthy_query [OF h] Let_def TouchAccount_def update_account_def)
  define w2 where "w2 = w1\<lparr>w_step := Suc (w_step w1), w_db := (w_db w1)\<lparr>accounts := as\<rparr>\<rparr>"
  have "valid_audit (audit_params (r\<lparr>UserID := u_ID user, rq_SessionID := s_ID row\<rparr>)
      (success_event ''auth.login'' ''session'' (s_ID row) (u_ID user) (loginAuditMetadata MethodPassword)))"
    using new(2) user(3) row(1) login_event by (intro success_audit) simp_all
  then obtain ev w3 where "audit ?cx q (r\<lparr>UserID := u_ID user, rq_SessionID := s_ID row\<rparr>)
      (success_event ''auth.login'' ''session'' (s_ID row) (u_ID user) (loginAuditMetadata MethodPassword)) w2 = (Inr (), w3)"
    using healthy_audit [OF h, of w2] new(3) by (fastforce simp: w2_def w1_def)
  then show ?thesis using user(1) account(1,2) create touch
    by (simp add: newSession_def new_token_def bindA_def require_def ret_def randomBytes_def token Let_def p_def [symmetric] w2_def [symmetric])
qed

text \<open>What a stored password login needs: the user, the account and the hash that the password matches.\<close>

definition can_login :: "(string \<Rightarrow> string \<Rightarrow> bool) \<Rightarrow> string \<Rightarrow> string \<Rightarrow> db \<Rightarrow> bool" where
  "can_login matches e password d \<longleftrightarrow>
     (\<exists>u \<in> set (users d). \<exists>a \<in> set (accounts d). u_EmailNormalized u = Some e \<and> u_Status u = UserActive \<and> u_EmailVerifiedAt u \<noteq> None
        \<and> a_UserID a = u_ID u \<and> a_ProviderID a = CredentialProvider \<and> a_RevokedAt a = None
        \<and> matches (text_of (a_PasswordHash a)) password)"

text \<open>Every user and account is stored under an identifier.\<close>

definition identified :: "db \<Rightarrow> bool" where
  "identified d \<longleftrightarrow> (\<forall>u \<in> set (users d). Identifier (u_ID u)) \<and> (\<forall>a \<in> set (accounts d). Identifier (a_ID a))"

lemma find_only:
  "count_where p xs \<le> 1 \<Longrightarrow> x \<in> set xs \<Longrightarrow> p x \<Longrightarrow> find p xs = Some x"
proof (induction xs)
  case (Cons y ys)
  show ?case
  proof (cases "p y")
    case True
    then have "count_where p ys = 0" using Cons.prems(1) by (simp add: count_where_def)
    then have "\<forall>z \<in> set ys. \<not> p z" by (simp add: count_where_def filter_empty_conv)
    then show ?thesis using True Cons.prems by auto
  qed (use Cons in \<open>auto simp: count_where_def\<close>)
qed simp

lemma login_found:
  assumes ok: "accounts_ok d" and "identified d" and "can_login matches e password d"
  obtains u a where "\<And>t. fst (FindUserByEmail (Some e) t d) = Inr u" "\<And>t. fst (GetPasswordAccount (u_ID u) t d) = Inr a"
    "\<And>t. fst (LockUser (u_ID u) t d) = Inr u" "\<And>t. fst (GetAccount (a_ID a) (u_ID u) t d) = Inr a"
    "u \<in> set (users d)" "u_Status u = UserActive" "u_EmailVerifiedAt u \<noteq> None" "Identifier (u_ID u)" "1 \<le> u_AuthVersion u"
    "a_UserID a = u_ID u" "a_RevokedAt a = None" "Identifier (a_ID a)"
    "matches (text_of (a_PasswordHash a)) password" "a_ProviderID a = CredentialProvider"
proof -
  note tables = accounts_ok_tables [OF ok]
  obtain u a where u: "u \<in> set (users d)" "u_EmailNormalized u = Some e" "u_Status u = UserActive" "u_EmailVerifiedAt u \<noteq> None" "Identifier (u_ID u)"
    and a: "a \<in> set (accounts d)" "a_UserID a = u_ID u" "a_ProviderID a = CredentialProvider" "a_RevokedAt a = None" "Identifier (a_ID a)"
      "matches (text_of (a_PasswordHash a)) password"
    using assms(2,3) unfolding can_login_def identified_def by blast
  have emails: "count_where (\<lambda>u. u_EmailNormalized u = Some e) (users d) \<le> 1" and ids: "inj_on u_ID (set (users d))" and v: "1 \<le> u_AuthVersion u"
    using tables(1) u(1) by (simp_all add: users_ok_def user_row_ok_def distinct_map)
  have creds: "count_where (\<lambda>x. a_RevokedAt x = None \<and> a_UserID x = u_ID u \<and> a_ProviderID x = CredentialProvider) (accounts d) \<le> 1"
    and aids: "inj_on a_ID (set (accounts d))"
    using tables(2) by (simp_all add: live_accounts_ok_def distinct_map)
  have "find (\<lambda>x. u_EmailNormalized x \<noteq> None \<and> u_EmailNormalized x = Some e) (users d) = find (\<lambda>u. u_EmailNormalized u = Some e) (users d)"
    by (rule find_cong) auto
  then have 1: "fst (FindUserByEmail (Some e) t d) = Inr u" for t using find_only [OF emails u(1,2)] by (simp add: FindUserByEmail_def one_def)
  have "find (\<lambda>x. a_UserID x = u_ID u \<and> a_ProviderID x = ''credential'' \<and> a_RevokedAt x = None) (accounts d)
      = find (\<lambda>x. a_RevokedAt x = None \<and> a_UserID x = u_ID u \<and> a_ProviderID x = CredentialProvider) (accounts d)"
    by (rule find_cong) (auto simp: CredentialProvider_def)
  then have 2: "fst (GetPasswordAccount (u_ID u) t d) = Inr a" for t
    using find_only [OF creds a(1)] a(2-4) by (simp add: GetPasswordAccount_def one_def)
  have "find (\<lambda>x. u_ID x = u_ID u) (users d) = Some u" by (rule find_Some_unique [OF ids u(1)]) simp_all
  then have 3: "fst (LockUser (u_ID u) t d) = Inr u" for t by (simp add: LockUser_def one_def)
  have "find (\<lambda>x. a_ID x = a_ID a \<and> a_UserID x = u_ID u \<and> a_RevokedAt x = None) (accounts d) = Some a"
    by (rule find_Some_unique [OF aids a(1)]) (use a(2,4) in simp_all)
  then have 4: "fst (GetAccount (a_ID a) (u_ID u) t d) = Inr a" for t by (simp add: GetAccount_def one_def)
  show ?thesis by (rule that [OF 1 2 3 4 u(1,3-5) v a(2,4-6,3)])
qed

text \<open>Running a chain forwards: each call that succeeds hands its result to the rest.\<close>

lemma run_bind: "m w = (Inr a, w1) \<Longrightarrow> k a w1 = res \<Longrightarrow> bindA m k w = res"
  by (simp add: bindA_def)

lemma run_wrapped:
  assumes "m w = (Inr a, w')"
  shows "on_error g m w = (Inr a, w')" "lookup_opt g m w = (Inr (Some a), w')"
    "recordFailureOnReturn s r action m w = (Inr a, w')"
  using assms by (simp_all add: on_error_def lookup_opt_def recordFailureOnReturn_def attempt_def ret_def)

lemma run_read:
  assumes "healthy s" and "\<And>t. f t (w_db w) = (Inr a, w_db w)"
  shows "query (sv_env s) q f w = (Inr a, w\<lparr>w_step := Suc (w_step w)\<rparr>)"
  using assms by (cases q) (simp_all add: healthy_query Let_def)

lemma reads_pure:
  "FindUserByEmail x t d = (fst (FindUserByEmail x t d), d)" "LockUser i t d = (fst (LockUser i t d), d)"
  "GetPasswordAccount i t d = (fst (GetPasswordAccount i t d), d)" "GetAccount i j t d = (fst (GetAccount i j t d), d)"
  by (simp_all add: FindUserByEmail_def LockUser_def GetPasswordAccount_def GetAccount_def)

lemma reads_frame:
  "fst (FindUserByEmail x t (d\<lparr>auth_rate_limits := rs\<rparr>)) = fst (FindUserByEmail x t d)"
  "fst (LockUser i t (d\<lparr>auth_rate_limits := rs\<rparr>)) = fst (LockUser i t d)"
  "fst (GetPasswordAccount i t (d\<lparr>auth_rate_limits := rs\<rparr>)) = fst (GetPasswordAccount i t d)"
  "fst (GetAccount i j t (d\<lparr>auth_rate_limits := rs\<rparr>)) = fst (GetAccount i j t d)"
  by (simp_all add: FindUserByEmail_def LockUser_def GetPasswordAccount_def GetAccount_def)

lemma run_login_tx:
  assumes h: "healthy s"
    and locked: "\<And>t. fst (LockUser (u_ID u) t (w_db w)) = Inr u"
    and account: "\<And>t. fst (GetAccount (a_ID a) (u_ID u) t (w_db w)) = Inr a"
    and "u_Status u = UserActive" and provider: "a_ProviderID a = CredentialProvider"
    and session: "\<And>w2. w_seed w2 = w_seed w \<Longrightarrow> users (w_db w2) = users (w_db w) \<Longrightarrow> user_sessions (w_db w2) = user_sessions (w_db w)
      \<Longrightarrow> audit_events (w_db w2) = audit_events (w_db w) \<Longrightarrow> \<exists>cred w'. newSession s q r u a MethodPassword w2 = (Inr cred, w')"
  shows "\<exists>cred w'. login_tx s r u a newHash q w = (Inr cred, w')"
proof -
  let ?w1 = "w\<lparr>w_step := Suc (w_step w)\<rparr>" and ?w2 = "w\<lparr>w_step := Suc (Suc (w_step w))\<rparr>" and ?w3 = "w\<lparr>w_step := Suc (Suc (Suc (w_step w)))\<rparr>"
  have 1: "query (sv_env s) q (LockUser (u_ID u)) w = (Inr u, ?w1)"
    by (rule run_read [OF h]) (metis reads_pure(2) locked)
  have read: "query (sv_env s) q (GetAccount (a_ID a) (u_ID u)) (w\<lparr>w_step := n\<rparr>) = (Inr a, w\<lparr>w_step := Suc n\<rparr>)" for n
    using run_read [OF h, of "GetAccount (a_ID a) (u_ID u)" "w\<lparr>w_step := n\<rparr>" a q] reads_pure(4) account
    by (metis (mono_tags, lifting) world.select_convs world.surjective world.update_convs)
  define fresh where "fresh = (if newHash \<noteq> ''''
    then store_UpgradePasswordHash (sv_env s) q (a_ID a) (u_ID u) (Some newHash) (a_PasswordHash a) else ret ())"
  have "\<exists>w2. fresh ?w2 = (Inr (), w2) \<and> w_seed w2 = w_seed w \<and> users (w_db w2) = users (w_db w)
      \<and> user_sessions (w_db w2) = user_sessions (w_db w) \<and> audit_events (w_db w2) = audit_events (w_db w)"
  proof (cases "newHash = ''''")
    case False
    obtain d where d: "\<And>t. UpgradePasswordHash (a_ID a) (u_ID u) (Some newHash) (a_PasswordHash a) t (w_db w) = (Inr (), d t)"
        "\<And>t. users (d t) = users (w_db w)" "\<And>t. user_sessions (d t) = user_sessions (w_db w)" "\<And>t. audit_events (d t) = audit_events (w_db w)"
      by (rule that [of "\<lambda>t. snd (UpgradePasswordHash (a_ID a) (u_ID u) (Some newHash) (a_PasswordHash a) t (w_db w))"])
        (simp_all add: UpgradePasswordHash_def update_account_def)
    show ?thesis using False provider
      by (simp add: fresh_def store_UpgradePasswordHash_def bindA_def require_def ret_def read account healthy_query [OF h] Let_def d)
  qed (simp add: fresh_def ret_def)
  then obtain w2 where w2: "fresh ?w2 = (Inr (), w2)" and same: "w_seed w2 = w_seed w" "users (w_db w2) = users (w_db w)"
      "user_sessions (w_db w2) = user_sessions (w_db w)" "audit_events (w_db w2) = audit_events (w_db w)"
    by blast
  obtain cred w' where n: "newSession s q r u a MethodPassword w2 = (Inr cred, w')" using session [OF same] by blast
  have "login_tx s r u a newHash q w = (Inr cred, w')" unfolding login_tx_def Let_def fresh_def [symmetric]
    by (rule run_bind, rule 1, rule run_bind, rule run_wrapped(1), rule read) (use assms(4) w2 n in \<open>simp add: bindA_def require_def ret_def\<close>)
  then show ?thesis by blast
qed

lemma healthy_login:
  assumes h: "healthy s" and ok: "accounts_ok (w_db w)" and "unused (sv_env s) (w_seed w) (w_db w)"
    and rows: "identified (w_db w)" and verify: "\<And>n h p. d_Verify (sv_deps s) n h p = Inr (matches h p, weak h p)"
    and upgrade: "\<And>n h. matches h password \<Longrightarrow> weak h password \<Longrightarrow>
      (\<exists>h'. d_Hash (sv_deps s) n password = Inr h') \<and> unused (sv_env s) (Suc (w_seed w)) (w_db w)"
    and e: "normalizeEmail (sv_env s) email = Inr e" and can: "can_login matches e password (w_db w)"
    and limit: "passes_limit (entryLimit s r ''login'' e) w"
  shows "\<exists>cred w'. Login s r email password w = (Inr cred, w')"
proof -
  let ?cx = "sv_env s"
  obtain rs where l: "entryLimit s r ''login'' e w =
      (Inr (), w\<lparr>w_step := Suc (Suc (w_step w)), w_db := (w_db w)\<lparr>auth_rate_limits := rs\<rparr>\<rparr>)"
    using healthy_entryLimit [OF h limit] by blast
  define d where "d = (w_db w)\<lparr>auth_rate_limits := rs\<rparr>"
  obtain u a where found: "\<And>t. fst (FindUserByEmail (Some e) t d) = Inr u" "\<And>t. fst (GetPasswordAccount (u_ID u) t d) = Inr a"
      "\<And>t. fst (LockUser (u_ID u) t d) = Inr u" "\<And>t. fst (GetAccount (a_ID a) (u_ID u) t d) = Inr a"
    and u: "u \<in> set (users (w_db w))" "u_Status u = UserActive" "u_EmailVerifiedAt u \<noteq> None" "Identifier (u_ID u)" "1 \<le> u_AuthVersion u"
    and a: "a_UserID a = u_ID u" "a_RevokedAt a = None" "Identifier (a_ID a)"
      "matches (text_of (a_PasswordHash a)) password" "a_ProviderID a = CredentialProvider"
    using login_found [OF ok rows can] unfolding d_def reads_frame by blast
  define w1 where "w1 = w\<lparr>w_step := Suc (Suc (w_step w)), w_db := d\<rparr>"
  have 1: "entryLimit s r ''login'' e w = (Inr (), w1)" using l by (simp add: w1_def d_def)
  have db1: "w_db w1 = d" by (simp add: w1_def)
  have 2: "query ?cx Pool (FindUserByEmail (Some e)) w1 = (Inr u, w1\<lparr>w_step := Suc (w_step w1)\<rparr>)"
    by (rule run_read [OF h]) (metis reads_pure(1) found(1) db1)
  define w2 where "w2 = w1\<lparr>w_step := Suc (w_step w1)\<rparr>"
  have db2: "w_db w2 = d" by (simp add: w2_def db1)
  have 3: "query ?cx Pool (GetPasswordAccount (u_ID u)) w2 = (Inr a, w2\<lparr>w_step := Suc (w_step w2)\<rparr>)"
    by (rule run_read [OF h]) (metis reads_pure(3) found(2) db2)
  define w3 where "w3 = w2\<lparr>w_step := Suc (w_step w2)\<rparr>"
  let ?weak = "weak (text_of (a_PasswordHash a)) password"
  define w4 where "w4 = w3\<lparr>w_seed := Suc (w_seed w3)\<rparr>"
  have 4: "call_dep (\<lambda>n. d_Verify (sv_deps s) n (text_of (a_PasswordHash a)) password) w3 = (Inr (True, ?weak), w4)"
    using a(4) by (simp add: call_dep_def w4_def verify)
  define newHash where "newHash = (if ?weak then call_dep (\<lambda>n. d_Hash (sv_deps s) n password) else ret '''')"
  define k where "k = (if ?weak then Suc (Suc (w_seed w)) else Suc (w_seed w))"
  obtain h' where 5: "newHash w4 = (Inr h', w4\<lparr>w_seed := k\<rparr>)"
    using upgrade [OF a(4)] by (cases ?weak) (auto simp: newHash_def k_def call_dep_def ret_def w4_def w3_def w2_def w1_def)
  define w5 where "w5 = w4\<lparr>w_seed := k\<rparr>"
  define w6 where "w6 = w5\<lparr>w_step := Suc (w_step w5)\<rparr>"
  have db: "w_db w5 = d" "w_db w6 = d" and seed6: "w_seed w6 = k" by (simp_all add: w6_def w5_def w4_def w3_def w2_def w1_def)
  have same: "users d = users (w_db w)" "user_sessions d = user_sessions (w_db w)" "audit_events d = audit_events (w_db w)"
    by (simp_all add: d_def)
  have "unused ?cx (Suc (w_seed w)) (w_db w)" if ?weak using upgrade [OF a(4) that] by blast
  then have new: "\<forall>x \<in> set (user_sessions (w_db w)). s_ID x \<noteq> e_id ?cx (Suc k) \<and> s_TokenHash x \<noteq> new_hash ?cx k SessionPrefix"
      "Identifier (e_id ?cx (Suc k))" "\<forall>x \<in> set (audit_events (w_db w)). au_ID x \<noteq> e_id ?cx (Suc (Suc k))"
    using assms(3) by (auto simp: k_def unused_def)
  have opens: "\<exists>cred w'. newSession s (Tx (e_clock ?cx (w_step w5))) r u a MethodPassword w7 = (Inr cred, w')"
    if "w_seed w7 = w_seed w6" "users (w_db w7) = users (w_db w6)" "user_sessions (w_db w7) = user_sessions (w_db w6)"
      "audit_events (w_db w7) = audit_events (w_db w6)" for w7
  proof (rule healthy_newSession [OF h u(2,5,4) _ a(1-3)])
    show "u_ID u \<in> u_ID ` set (users (w_db w7))" using u(1) that(2) by (simp add: db same)
  qed (use new that in \<open>simp_all add: db same seed6\<close>)
  have "\<exists>cred w7. login_tx s r u a h' (Tx (e_clock ?cx (w_step w5))) w6 = (Inr cred, w7)"
    by (rule run_login_tx [OF h _ _ u(2) a(5)]) (simp_all only: db found opens)
  then obtain cred w7 where "login_tx s r u a h' (Tx (e_clock ?cx (w_step w5))) w6 = (Inr cred, w7)" by blast
  then have 6: "in_tx s (login_tx s r u a h') w5 = (Inr cred, w7\<lparr>w_step := Suc (w_step w7)\<rparr>)"
    using healthy_tx [OF h] by (simp add: w6_def)
  have "Login s r email password w = (Inr cred, w7\<lparr>w_step := Suc (w_step w7)\<rparr>)"
    unfolding Login_def Let_def
    apply (rule run_wrapped(3), rule run_bind, rule run_wrapped(1))
     apply (simp add: from_sum_def e ret_def)
    apply (rule run_bind, rule 1, rule run_bind, rule run_wrapped(2), rule 2)
    apply (rule run_bind, rule run_wrapped(2), simp add: w2_def [symmetric], rule 3)
    apply (rule run_bind, simp add: w3_def [symmetric], rule 4)
    using u(2,3) 5 6 apply (simp add: ret_def bindA_def require_def newHash_def [symmetric] w5_def)
    done
  then show ?thesis by blast
qed

text \<open>When the credentials do not match, every reason gives the same refusal.\<close>

lemma fst_bind: "m w = (Inr a, w1) \<Longrightarrow> fst (bindA m k w) = fst (k a w1)"
  by (simp add: bindA_def)

lemma run_lookup:
  assumes "healthy s" and "\<And>t. f t (w_db w) = (one x, w_db w)"
  shows "lookup_opt g (query (sv_env s) q f) w = (Inr x, w\<lparr>w_step := Suc (w_step w)\<rparr>)"
  using assms by (cases q; cases x) (simp_all add: lookup_opt_def attempt_def ret_def one_def healthy_query Let_def)

lemma login_refused:
  assumes h: "healthy s" and verify: "\<And>n h p. d_Verify (sv_deps s) n h p = Inr (matches h p, weak h p)"
    and e: "normalizeEmail (sv_env s) email = Inr e" and can: "\<not> can_login matches e password (w_db w)"
    and limit: "passes_limit (entryLimit s r ''login'' e) w"
  shows "fst (Login s r email password w) = Inl (Business ErrCredentials)"
proof -
  obtain rs where l: "entryLimit s r ''login'' e w =
      (Inr (), w\<lparr>w_step := Suc (Suc (w_step w)), w_db := (w_db w)\<lparr>auth_rate_limits := rs\<rparr>\<rparr>)" (is "_ = (_, ?w1)")
    using healthy_entryLimit [OF h limit] by blast
  let ?w2 = "?w1\<lparr>w_step := Suc (w_step ?w1)\<rparr>"
  define found where "found = find (\<lambda>u. u_EmailNormalized u \<noteq> None \<and> u_EmailNormalized u = Some e) (users (w_db w))"
  define i where "i = (case found of None \<Rightarrow> '''' | Some u \<Rightarrow> u_ID u)"
  define held where "held = find (\<lambda>a. a_UserID a = i \<and> a_ProviderID a = ''credential'' \<and> a_RevokedAt a = None) (accounts (w_db w))"
  have 1: "lookup_opt storage_error (query (sv_env s) Pool (FindUserByEmail (Some e))) ?w1 = (Inr found, ?w2)"
    by (rule run_lookup [OF h]) (simp add: FindUserByEmail_def found_def)
  have 2: "lookup_opt storage_error (query (sv_env s) Pool (GetPasswordAccount i)) ?w2 = (Inr held, ?w2\<lparr>w_step := Suc (w_step ?w2)\<rparr>)"
    by (rule run_lookup [OF h]) (simp add: GetPasswordAccount_def held_def)
  have "\<not> (matches (text_of (a_PasswordHash a)) password \<and> u_Status u = UserActive \<and> u_EmailVerifiedAt u \<noteq> None)"
    if "found = Some u" "held = Some a" for u a
  proof -
    have "u \<in> set (users (w_db w))" "u_EmailNormalized u = Some e"
      using that(1) by (auto simp: found_def find_Some_iff)
    moreover have "a \<in> set (accounts (w_db w))" "a_UserID a = u_ID u" "a_ProviderID a = CredentialProvider" "a_RevokedAt a = None"
      using that by (auto simp: held_def i_def find_Some_iff CredentialProvider_def)
    ultimately show ?thesis using can unfolding can_login_def by blast
  qed
  then show ?thesis
    apply (simp only: Login_def Let_def recordFailureOnReturn_fst)
    apply (subst fst_bind, rule run_wrapped(1), simp add: from_sum_def e ret_def)
    apply (subst fst_bind, rule l, subst fst_bind, rule 1)
    apply (subst fst_bind, rule 2 [unfolded i_def])
    apply (cases found; cases held)
       apply (auto simp: bindA_def call_dep_def verify fail_def require_def)
    done
qed

text \<open>
  C7.  A password login is decided by the credentials alone.  When nothing fails, no other session
  writes during the call and the rate limiter lets the attempt pass, a login succeeds exactly when the
  address given normalizes to that of an active user whose address is verified and whose unrevoked
  password account the password matches.  Whether the stored hash is current or due for an upgrade makes
  no difference, as long as a new hash can be computed.  In every other case (a malformed or unknown
  address, a user without a password, a wrong password, a pending or disabled user) the login is refused
  with one and the same error.
\<close>

theorem login_decided:
  assumes "healthy s" and "accounts_ok (w_db w)" and "identified (w_db w)" and "unused (sv_env s) (w_seed w) (w_db w)"
    and "unused (sv_env s) (Suc (w_seed w)) (w_db w)"
    and verify: "\<And>n h p. d_Verify (sv_deps s) n h p = Inr (matches h p, weak h p)"
    and upgrade: "\<And>n h. matches h password \<Longrightarrow> weak h password \<Longrightarrow> \<exists>h'. d_Hash (sv_deps s) n password = Inr h'"
    and limit: "\<And>e. normalizeEmail (sv_env s) email = Inr e \<Longrightarrow> passes_limit (entryLimit s r ''login'' e) w"
  shows "case fst (Login s r email password w) of
      Inr cred \<Rightarrow> \<exists>e. normalizeEmail (sv_env s) email = Inr e \<and> can_login matches e password (w_db w)
    | Inl err \<Rightarrow> err = Business ErrCredentials
        \<and> \<not> (\<exists>e. normalizeEmail (sv_env s) email = Inr e \<and> can_login matches e password (w_db w))"
proof (cases "normalizeEmail (sv_env s) email")
  case (Inl err)
  have "fst (Login s r email password w) = Inl (Business ErrCredentials)"
    by (simp add: Login_def Let_def recordFailureOnReturn_fst Inl bindA_def on_error_def attempt_def from_sum_def fail_def)
  then show ?thesis by (simp add: Inl)
next
  case (Inr e)
  show ?thesis
  proof (cases "can_login matches e password (w_db w)")
    case True
    then obtain cred w' where "Login s r email password w = (Inr cred, w')"
      using healthy_login [where matches = matches and weak = weak, OF assms(1,2,4,3) verify _ Inr True limit [OF Inr]] upgrade assms(5) by blast
    with True Inr show ?thesis by simp
  next
    case False
    then show ?thesis using login_refused [OF assms(1) verify Inr False limit [OF Inr]] Inr by simp
  qed
qed

text \<open>The example: alice's password, and a wrong one.\<close>

lemma quiet_healthy: "healthy quiet_service"
  using quiet_hash_length
  by (auto simp: healthy_def sha256_Size_def tokenEntropyBytes_def Service_ok_def minute_def second_def hour_def simp del: quiet_simps(7))

lemma quiet_login_draws: "unused quiet 0 login_db" "unused quiet (Suc 0) login_db"
proof -
  have "{0..0 + 3} = {0, 1, 2, 3 :: nat}" "{Suc 0..Suc 0 + 3} = {1, 2, 3, 4 :: nat}" by auto
  then show "unused quiet 0 login_db" "unused quiet (Suc 0) login_db"
    by (simp_all add: unused_def login_db_def example_db_def empty_db_def text_eval MaxIdentifierBytes_def ContainsByte_def bytes_def
        numeral_eq_Suc)
qed

lemma quiet_login_identified: "identified login_db"
  by (auto simp: identified_def login_db_def example_db_def alice_def bob_def new_user_def example_account_def
      text_eval MaxIdentifierBytes_def ContainsByte_def bytes_def)

text \<open>Every stored hash is due for an upgrade.\<close>

definition upgrading_service :: Service where
  "upgrading_service = quiet_service\<lparr>sv_deps := quiet_deps\<lparr>d_Verify := (\<lambda>_ h p. Inr (h = ''#'' @ p, True))\<rparr>\<rparr>"

lemma upgrading_healthy: "healthy upgrading_service" "sv_env upgrading_service = quiet"
  "entryLimit upgrading_service = entryLimit quiet_service"
proof -
  have same: "sv_env upgrading_service = sv_env quiet_service" "sv_options upgrading_service = sv_options quiet_service"
    by (simp_all add: upgrading_service_def)
  show "healthy upgrading_service" using quiet_healthy unfolding healthy_def same .
  show "sv_env upgrading_service = quiet" by (simp add: same)
  show "entryLimit upgrading_service = entryLimit quiet_service" by (simp only: fun_eq_iff entryLimit_def limit_def Let_def same) simp
qed

theorem login_decided_witness:
  "(\<exists>cred. fst (Login upgrading_service guest ''a@x'' ''pass'' (start login_db)) = Inr cred)
   \<and> fst (Login upgrading_service guest ''a@x'' ''wrong'' (start login_db)) = Inl (Business ErrCredentials)"
proof -
  have pre: "accounts_ok (w_db (start login_db))" "identified (w_db (start login_db))"
      "unused (sv_env upgrading_service) (w_seed (start login_db)) (w_db (start login_db))"
      "unused (sv_env upgrading_service) (Suc (w_seed (start login_db))) (w_db (start login_db))"
      "\<And>n h p. d_Verify (sv_deps upgrading_service) n h p = Inr (h = ''#'' @ p, True)"
      "\<And>n p. \<exists>h'. d_Hash (sv_deps upgrading_service) n p = Inr h'"
      "\<And>e. normalizeEmail (sv_env upgrading_service) ''a@x'' = Inr e \<Longrightarrow> passes_limit (entryLimit upgrading_service guest ''login'' e) (start login_db)"
    using login_db_ok quiet_login_identified quiet_login_draws example_entry
    by (auto simp: start_def quiet_deps_def email_a passes_limit_def upgrading_healthy) (simp_all add: upgrading_service_def quiet_deps_def)
  note decided = login_decided [where matches = "\<lambda>h p. h = ''#'' @ p" and weak = "\<lambda>_ _. True" and email = "''a@x''" and r = guest,
      OF upgrading_healthy(1) pre(1-6,7), unfolded upgrading_healthy(2) email_a]
  have can: "can_login (\<lambda>h p. h = CHR ''#'' # p) ''a@x'' p (w_db (start login_db)) \<longleftrightarrow> p = ''pass''" for p
    by (auto simp: can_login_def start_def login_db_def example_db_def alice_def bob_def new_user_def example_account_def
        UserActive_def CredentialProvider_def text_of_def)
  show ?thesis using decided [of "''pass''"] decided [of "''wrong''"] by (simp add: can split: sum.splits)
qed

end
