(* ===== verification/Account_Registration.thy ===== *)
theory Account_Registration
  imports Account_Completeness
begin

text \<open>
  A registration can be completed: when nothing fails, the link that was mailed activates the account,
  and the password chosen then logs in.  The proof computes what each call needs, backwards from the
  end of \<^verbatim>\<open>VerifyChallenge\<close> (\<^verbatim>\<open>challenges.go\<close>, \<^verbatim>\<open>registration.go\<close>).
\<close>

subsection \<open>Calls that succeed\<close>

text \<open>The call returns a result, and the result and the world after it satisfy the condition.\<close>

definition succeeds :: "'a act \<Rightarrow> ('a \<Rightarrow> world \<Rightarrow> bool) \<Rightarrow> world \<Rightarrow> bool" where
  "succeeds m Q w \<longleftrightarrow> (\<exists>a w'. m w = (Inr a, w') \<and> Q a w')"

lemma succeeds_bind: "succeeds (bindA m k) Q w \<longleftrightarrow> succeeds m (\<lambda>a. succeeds (k a) Q) w"
  by (auto simp: succeeds_def bindA_ok)

lemma succeeds_basic:
  "succeeds (ret a) Q w \<longleftrightarrow> Q a w"
  "succeeds (require b e) P w \<longleftrightarrow> b \<and> P () w"
  "succeeds (from_sum r) Q w \<longleftrightarrow> (\<exists>a. r = Inr a \<and> Q a w)"
  "succeeds (NewID cx) R w \<longleftrightarrow> R (e_id cx (w_seed w)) (w\<lparr>w_seed := Suc (w_seed w)\<rparr>)"
  "succeeds (time_Now cx) S w \<longleftrightarrow> S (e_now cx (w_step w)) w"
  "succeeds (set_var v) P w \<longleftrightarrow> P () (w\<lparr>w_var := v\<rparr>)"
  "succeeds (on_error g m) Q w \<longleftrightarrow> succeeds m Q w"
  "succeeds (call_dep f) Q w \<longleftrightarrow> (\<exists>a. f (w_seed w) = Inr a \<and> Q a (w\<lparr>w_seed := Suc (w_seed w)\<rparr>))"
  by (auto simp: succeeds_def ok_iff NewID_def time_Now_def set_var_def call_dep_def)

lemma succeeds_query:
  "healthy s \<Longrightarrow> succeeds (query (sv_env s) (Tx t) f) Q w
     \<longleftrightarrow> (\<exists>a d. f t (w_db w) = (Inr a, d) \<and> Q a (w\<lparr>w_step := Suc (w_step w), w_db := d\<rparr>))"
  by (cases "f t (w_db w)") (auto simp: succeeds_def healthy_query Let_def)

lemma succeeds_query_pool:
  "healthy s \<Longrightarrow> succeeds (query (sv_env s) Pool f) Q w
     \<longleftrightarrow> (\<exists>a d. f (e_clock (sv_env s) (w_step w)) (w_db w) = (Inr a, d) \<and> Q a (w\<lparr>w_step := Suc (w_step w), w_db := d\<rparr>))"
  by (cases "f (e_clock (sv_env s) (w_step w)) (w_db w)") (auto simp: succeeds_def healthy_query Let_def)

lemma succeeds_tx:
  assumes "healthy s"
    and "succeeds (body (Tx (e_clock (sv_env s) (w_step w)))) (\<lambda>a w'. Q a (w'\<lparr>w_step := Suc (w_step w')\<rparr>)) (w\<lparr>w_step := Suc (w_step w)\<rparr>)"
  shows "succeeds (in_tx s body) Q w"
proof -
  obtain a w' where "body (Tx (e_clock (sv_env s) (w_step w))) (w\<lparr>w_step := Suc (w_step w)\<rparr>) = (Inr a, w')"
    and "Q a (w'\<lparr>w_step := Suc (w_step w')\<rparr>)" using assms(2) unfolding succeeds_def by blast
  then show ?thesis using healthy_tx [OF assms(1)] by (fastforce simp: succeeds_def)
qed

lemma succeeds_audit:
  assumes "healthy s" and "\<forall>x \<in> set (audit_events (w_db w)). au_ID x \<noteq> e_id (sv_env s) (w_seed w)" and "valid_audit (audit_params r ev)"
    and "\<And>es. Q () (w\<lparr>w_seed := Suc (w_seed w), w_step := Suc (w_step w), w_db := (w_db w)\<lparr>audit_events := es\<rparr>\<rparr>)"
  shows "succeeds (audit (sv_env s) q r ev) Q w"
  using healthy_audit [OF assms(1-3), of q] assms(4) unfolding succeeds_def by fastforce

lemma succeeds_limit:
  assumes "healthy s" and "passes_limit (limit s c key mx window) w"
    and "\<And>rs. Q () (w\<lparr>w_step := Suc (w_step w), w_db := (w_db w)\<lparr>auth_rate_limits := rs\<rparr>\<rparr>)"
  shows "succeeds (limit s c key mx window) Q w"
  using healthy_limit [OF assms(1,2)] assms(3) unfolding succeeds_def by blast

subsection \<open>Completing a registration\<close>

text \<open>The next identifiers are well formed and free in every table that a completion appends to.\<close>

definition free_ids :: "env \<Rightarrow> nat \<Rightarrow> db \<Rightarrow> bool" where
  "free_ids cx n d \<longleftrightarrow>
     (\<forall>k \<in> {n..n + 2}. Identifier (e_id cx k) \<and> (\<forall>x \<in> set (accounts d). a_ID x \<noteq> e_id cx k)
        \<and> (\<forall>x \<in> set (mail_outbox d). m_ID x \<noteq> e_id cx k) \<and> (\<forall>x \<in> set (audit_events d). au_ID x \<noteq> e_id cx k))"

text \<open>The pending user with the address and the challenge that a registration leaves behind.\<close>

definition registered :: "env \<Rightarrow> user_row \<Rightarrow> verification_row \<Rightarrow> db \<Rightarrow> bool" where
  "registered cx u v d \<longleftrightarrow>
     u \<in> set (users d) \<and> u_Status u = UserPending \<and> u_EmailNormalized u = Some (v_Email v)
     \<and> validEmailPair cx (u_Email u) (Some (v_Email v))
     \<and> v \<in> set (auth_verifications d) \<and> v_UserID v = u_ID u \<and> v_Purpose v = VerifyRegister \<and> v_AuthVersion v = u_AuthVersion u
     \<and> v_ConsumedAt v = None \<and> (\<forall>a \<in> set (accounts d). a_UserID a = u_ID u \<longrightarrow> a_ProviderID a \<noteq> CredentialProvider)"

lemma registration_credential:
  fixes h :: string
  assumes "live_accounts_ok (accounts d)" and "registered cx u v d" and "Identifier (u_ID u)" and "\<forall>x \<in> set (accounts d). a_ID x \<noteq> i"
  defines "p \<equiv> \<lparr>ca_UserID = u_ID u, ca_ProviderID = CredentialProvider, ca_ProviderAccountID = u_ID u,
         ca_ProviderNamespace = LocalNamespace, ca_PasswordHash = Some h\<rparr>"
  shows "\<exists>row. a_ID row = i \<and> a_UserID row = u_ID u \<and> a_ProviderID row = CredentialProvider \<and> a_RevokedAt row = None
     \<and> a_PasswordHash row = Some h \<and> CreateAccount i p t d = (Inr row, d\<lparr>accounts := accounts d @ [row]\<rparr>)"
proof -
  let ?row = "last (accounts (snd (CreateAccount i p t d)))"
  have rows: "\<And>a. a \<in> set (accounts d) \<Longrightarrow> account_row_ok a"
    using assms(1) by (simp add: live_accounts_ok_def)
  have none: "\<And>a. a \<in> set (accounts d) \<Longrightarrow> a_ProviderAccountID a = u_ID u \<Longrightarrow> a_ProviderID a \<noteq> CredentialProvider \<and> a_ProviderNamespace a \<noteq> LocalNamespace"
    using rows assms(2) unfolding account_row_ok_def registered_def by metis
  have "\<not> list_ex (\<lambda>a. a_ID a = i) (accounts d)"
    "\<not> list_ex (\<lambda>a. a_ProviderID a = ca_ProviderID p \<and> a_ProviderAccountID a = ca_ProviderAccountID p) (filter (\<lambda>a. a_RevokedAt a = None) (accounts d))"
    "\<not> list_ex (\<lambda>a. a_ProviderNamespace a = ca_ProviderNamespace p \<and> a_ProviderAccountID a = ca_ProviderAccountID p) (filter (\<lambda>a. a_RevokedAt a = None) (accounts d))"
    "\<not> list_ex (\<lambda>a. a_UserID a = ca_UserID p \<and> a_ProviderID a = ''credential'') (filter (\<lambda>a. a_RevokedAt a = None) (accounts d))"
    "list_ex (\<lambda>u. u_ID u = ca_UserID p) (users d)"
    using assms(2,4) none unfolding registered_def p_def list_ex_iff by (auto simp: CredentialProvider_def)
  then have "CreateAccount i p t d = (Inr ?row, d\<lparr>accounts := accounts d @ [?row]\<rparr>) \<and> a_ID ?row = i \<and> a_UserID ?row = u_ID u
      \<and> a_ProviderID ?row = CredentialProvider \<and> a_RevokedAt ?row = None \<and> a_PasswordHash ?row = Some h"
    by (simp add: CreateAccount_def Let_def) (simp add: p_def)
  then show ?thesis by blast
qed

lemma credential_valid:
  assumes "Identifier i" and "h \<noteq> ''''"
  shows "valid_account \<lparr>ca_UserID = i, ca_ProviderID = CredentialProvider, ca_ProviderAccountID = i,
         ca_ProviderNamespace = LocalNamespace, ca_PasswordHash = Some h\<rparr>"
  using assms Identifier_nonempty [OF assms(1)]
  by (simp add: valid_account_def text_eval validBytes_def provider_defs maxProviderIDRunes_def TextWithin_def ContainsByte_def bytes_def
     maxProviderSubjectBytes_def maxProviderNamespaceBytes_def RuneCountInString_def Identifier_def MaxIdentifierBytes_def)

text \<open>What the completion leaves in the tables of users and accounts is a login.\<close>

definition activated :: "time \<Rightarrow> user_row \<Rightarrow> user_row" where
  "activated t u = u\<lparr>u_Status := ''active'', u_EmailVerifiedAt := Some t, u_RecoveryEnabled := True, u_UpdatedAt := t\<rparr>"

lemma activated_eta:
  "activated t = (\<lambda>u. u\<lparr>u_Status := ''active'', u_EmailVerifiedAt := Some t, u_RecoveryEnabled := True, u_UpdatedAt := t\<rparr>)"
  by (rule ext) (simp add: activated_def)

lemma completed_login:
  assumes reg: "registered cx u v d" and ids: "identified d"
    and row: "Identifier (a_ID row)" "a_UserID row = u_ID u" "a_ProviderID row = CredentialProvider" "a_RevokedAt row = None"
      "a_PasswordHash row = Some h" "matches h password"
    and d': "users d' = update_where (\<lambda>x. u_ID x = u_ID u \<and> u_Status x = ''pending'') (activated t) (users d)"
      "accounts d' = accounts d @ [row]"
  shows "can_login matches (v_Email v) password d' \<and> identified d'"
proof
  have "activated t u \<in> set (users d')" unfolding d'(1)
    by (rule updated_row [where x = u]) (use reg in \<open>simp_all add: registered_def UserPending_def\<close>)
  moreover have "row \<in> set (accounts d')" by (simp add: d'(2))
  moreover have "u_EmailNormalized (activated t u) = Some (v_Email v)" "u_Status (activated t u) = UserActive"
      "u_EmailVerifiedAt (activated t u) \<noteq> None" "u_ID (activated t u) = u_ID u"
    using reg by (simp_all add: registered_def activated_def UserActive_def)
  ultimately show "can_login matches (v_Email v) password d'"
    unfolding can_login_def using row by (metis text_of_def option.simps(5))
  show "identified d'" using ids row(1) unfolding identified_def d'
    by (auto simp: update_where_def activated_def)
qed

lemma succeeds_notification:
  assumes h: "healthy s" and user: "u_Email user = Some email" "\<exists>n. normalizeEmail (sv_env s) email = Inr n" "u_EmailVerifiedAt user = Some x"
    and i: "Identifier (e_id (sv_env s) (w_seed w))" "\<forall>m \<in> set (mail_outbox (w_db w)). m_ID m \<noteq> e_id (sv_env s) (w_seed w)"
    and now: "0 \<le> e_now (sv_env s) (w_step w)" and body: "validBytes (''<p>'' @ EscapeString body @ ''</p>'') maxMailBodyBytes"
    and Q: "\<And>ms. Q () (w\<lparr>w_seed := Suc (w_seed w), w_step := Suc (w_step w), w_db := (w_db w)\<lparr>mail_outbox := ms\<rparr>\<rparr>)"
  shows "succeeds (enqueueSecurityNotification (sv_env s) (Tx t) user body) Q w"
proof -
  have "\<not> list_ex (\<lambda>m. m_ID m = e_id (sv_env s) (w_seed w)) (mail_outbox (w_db w))" using i(2) by (simp add: list_ex_iff)
  moreover have "e_now (sv_env s) (w_step w) + securityNotificationTTL \<noteq> zero_time"
    using now by (simp add: securityNotificationTTL_def zero_time_def hour_def minute_def second_def)
  ultimately show ?thesis using user i(1) body [simplified] registration_kind Q
    by (simp add: enqueueSecurityNotification_def store_EnqueueMail_def succeeds_bind succeeds_basic succeeds_query [OF h] valid_mail_def
        EnqueueMail_def)
qed

lemma registration_event:
  "Identifier i \<Longrightarrow> valid_audit (audit_params (r\<lparr>UserID := i\<rparr>) (success_event (''auth.'' @ VerifyRegister) ''user'' i i NoMetadata))"
  by (rule success_audit) (simp_all add: login_event [unfolded VerifyRegister_def, simplified] VerifyRegister_def)

lemma registration_notice: "registrationCompletedNotification \<noteq> ''''"
  by (simp add: registrationCompletedNotification_def utf8_def of_bytes_def encode_rune_def)

lemma registration_tx:
  assumes h: "healthy s" 
    and ok: "users_ok (users (w_db w))" "live_accounts_ok (accounts (w_db w))" "verifications_ok (auth_verifications (w_db w))"
    and reg: "registered (sv_env s) u v (w_db w)" and ids: "identified (w_db w)"
    and free: "free_ids (sv_env s) (w_seed w) (w_db w)" and now: "\<And>n. 0 \<le> e_now (sv_env s) n"
    and hash: "hash \<noteq> ''''" "matches hash password" and t: "t < v_ExpiresAt v" and input: "vf_Purpose input = VerifyRegister"
  shows "succeeds (verify_tx s r input v hash (Tx t)) (\<lambda>_ w'. can_login matches (v_Email v) password (w_db w') \<and> identified (w_db w')) w"
proof -
  let ?cx = "sv_env s" and ?d = "w_db w"
  have u: "u \<in> set (users ?d)" "u_Status u = UserPending" "Identifier (u_ID u)" "v_UserID v = u_ID u" "v_AuthVersion v = u_AuthVersion u"
      "text_of (u_EmailNormalized u) = v_Email v" "validEmailPair ?cx (u_Email u) (u_EmailNormalized u)" "v \<in> set (auth_verifications ?d)"
      "v_ConsumedAt v = None"
    using reg ids by (auto simp: registered_def identified_def text_of_def)
  obtain email n where email: "u_Email u = Some email" "normalizeEmail ?cx email = Inr n"
    using u(7) by (auto simp: validEmailPair_def split: option.splits sum.splits)
  have inj: "inj_on u_ID (set (users ?d))" and dist: "distinct (map v_ID (auth_verifications ?d))"
    using ok(1,3) by (simp_all add: users_ok_def verifications_ok_def distinct_map)
  have find: "find (\<lambda>x. u_ID x = u_ID u) (users ?d) = Some u"
      "find (\<lambda>x. u_ID x = u_ID u \<and> u_Status x = ''pending'') (users ?d) = Some u"
    using u(2) by (intro find_Some_unique [OF inj u(1)]; simp add: UserPending_def)+
  let ?p = "\<lambda>x. v_ID x = v_ID v \<and> v_UserID x = u_ID u \<and> v_ConsumedAt x = None \<and> v_ExpiresAt x > t"
  have "count_where ?p (auth_verifications ?d) \<le> 1" by (rule count_where_distinct_le_1 [OF dist]) simp
  moreover have "count_where ?p (auth_verifications ?d) \<noteq> 0" using u(4,8,9) t by auto
  ultimately have one: "count_where ?p (auth_verifications ?d) = 1" by linarith
  have drawn: "{w_seed w..w_seed w + 2} = {w_seed w, Suc (w_seed w), Suc (Suc (w_seed w))}" by auto
  note fresh = free [unfolded free_ids_def drawn, simplified]
  obtain row where row: "a_ID row = e_id ?cx (w_seed w)" "a_UserID row = u_ID u" "a_ProviderID row = CredentialProvider" "a_RevokedAt row = None"
      "a_PasswordHash row = Some hash"
    and create: "CreateAccount (e_id ?cx (w_seed w)) \<lparr>ca_UserID = u_ID u, ca_ProviderID = CredentialProvider, ca_ProviderAccountID = u_ID u,
         ca_ProviderNamespace = LocalNamespace, ca_PasswordHash = Some hash\<rparr> t ?d = (Inr row, ?d\<lparr>accounts := accounts ?d @ [row]\<rparr>)"
    using registration_credential [OF ok(2) reg u(3), of "e_id ?cx (w_seed w)" hash t] fresh by auto
  have final: "can_login matches (v_Email v) password d' \<and> identified d'"
    if "users d' = update_where (\<lambda>x. u_ID x = u_ID u \<and> u_Status x = ''pending'') (activated t) (users ?d)" "accounts d' = accounts ?d @ [row]" for d'
    by (rule completed_login [where row = row and h = hash and matches = matches and t = t, OF reg ids _ row(2-5) hash(2) that])
      (use fresh row(1) in simp)
  show ?thesis
    using u h
    apply (simp add: verify_tx_def Let_def succeeds_bind succeeds_query [OF h] succeeds_basic LockUser_def one_def find)
    apply (simp add: complete_challenge_def input completeRegistration_def succeeds_bind succeeds_basic UserPending_def UserDisabled_def verify_purpose_defs Let_def
        store_CreateAccount_def credential_valid [OF u(3) hash(1)] succeeds_query [OF h] create store_ActivateUser_def GetUser_def one_def find
        ActivateUser_def update_user_def)
    apply (simp add: consumeVerification_def transitionResult_def succeeds_bind succeeds_basic succeeds_query [OF h] ConsumeVerification_def Let_def one)
    apply (simp add: registration_notice)
    apply (rule succeeds_notification [OF h, where email = email])
    apply (simp_all add: succeeds_basic succeeds_bind email now fresh registration_body [simplified])
    apply (rule succeeds_audit [OF h])
      apply (simp_all add: fresh registration_event [unfolded VerifyRegister_def, simplified])
    apply (rule final, simp_all add: activated_eta)
    done
qed

lemma succeeds_recovered:
  "succeeds m Q w \<Longrightarrow> succeeds (attempt m (\<lambda>res. case res of Inl e \<Rightarrow> k e | Inr a \<Rightarrow> ret a)) Q w"
  by (auto simp: succeeds_def attempt_def ret_def)

lemma registration_verified:
  assumes h: "healthy s" and ok: "accounts_ok (w_db w)" and reg: "registered (sv_env s) u v (w_db w)" and ids: "identified (w_db w)"
    and free: "free_ids (sv_env s) (Suc (w_seed w)) (w_db w)" and now: "\<And>n. 0 \<le> e_now (sv_env s) n"
    and token: "TokenDigest (e_sha256 (sv_env s)) token ChallengePrefix = Inr (v_TokenHash v)"
    and limit: "passes_limit (limit s ''verify.ip'' (ClientIP r) ipRequestLimit ipRateWindow) (w\<lparr>w_var := UserID r\<rparr>)"
    and clock: "e_clock (sv_env s) (Suc (w_step w)) < v_ExpiresAt v" "e_clock (sv_env s) (Suc (Suc (w_step w))) < v_ExpiresAt v"
    and password: "d_Validate (sv_deps s) password" "d_Hash (sv_deps s) (w_seed w) password = Inr hash" "hash \<noteq> ''''" "matches hash password"
  shows "succeeds (VerifyChallenge s r token \<lparr>vf_Purpose = VerifyRegister, vf_NewPassword = password\<rparr>)
      (\<lambda>_ w'. can_login matches (v_Email v) password (w_db w') \<and> identified (w_db w')) w"
proof -
  let ?w = "w\<lparr>w_var := UserID r\<rparr>"
  have v: "v \<in> set (auth_verifications (w_db w))" "v_Purpose v = VerifyRegister" "v_ConsumedAt v = None"
    using reg by (simp_all add: registered_def)
  have "inj_on v_TokenHash (set (auth_verifications (w_db w)))"
    using accounts_ok_tables(5) [OF ok] by (simp add: verifications_ok_def distinct_map)
  then have find: "find (\<lambda>x. v_TokenHash x = v_TokenHash v \<and> v_ConsumedAt x = None \<and> v_ExpiresAt x > e_clock (sv_env s) (Suc (w_step w)))
      (auth_verifications (w_db w)) = Some v"
    using v clock(1) by (intro find_Some_unique [where k = v_TokenHash]) auto
  show ?thesis
    apply (simp add: VerifyChallenge_def succeeds_bind succeeds_basic)
    apply (rule succeeds_recovered)
    apply (simp add: verify_body_def Let_def succeeds_bind)
    apply (rule succeeds_limit [OF h limit])
    apply (simp add: succeeds_basic token succeeds_query_pool [OF h] FindVerification_def one_def find v challenge_password_def succeeds_bind password)
    apply (rule succeeds_tx [OF h])
    apply (simp, rule registration_tx [OF h, where matches = matches and u = u])
             apply (use accounts_ok_tables [OF ok] reg ids free now password clock in
          \<open>simp_all add: registered_def identified_def free_ids_def\<close>)
    done
qed

lemma healthy_relies:
  assumes "healthy s"
  shows "rely (keeps accounts_ok) (sv_env s)"
  using assms by (simp add: rely_def healthy_def keeps_def)

text \<open>
  C12.  A registration can always be completed.  When nothing fails, no other session writes and the
  rate limiter lets the call pass, the token of a pending user's unexpired registration challenge,
  sent back with an acceptable password, is accepted; and after that a login with that address and
  that password succeeds, again when nothing fails and the limiter lets it pass.
\<close>

theorem registration_completes:
  assumes "healthy s" and "accounts_ok (w_db w)" and "identified (w_db w)" and "registered (sv_env s) u v (w_db w)"
    and "free_ids (sv_env s) (Suc (w_seed w)) (w_db w)" and "\<And>n. 0 \<le> e_now (sv_env s) n"
    and "TokenDigest (e_sha256 (sv_env s)) token ChallengePrefix = Inr (v_TokenHash v)"
    and "passes_limit (limit s ''verify.ip'' (ClientIP r) ipRequestLimit ipRateWindow) (w\<lparr>w_var := UserID r\<rparr>)"
    and "e_clock (sv_env s) (Suc (w_step w)) < v_ExpiresAt v" "e_clock (sv_env s) (Suc (Suc (w_step w))) < v_ExpiresAt v"
    and "d_Validate (sv_deps s) password" and "d_Hash (sv_deps s) (w_seed w) password = Inr hash" and "hash \<noteq> ''''" and "matches hash password"
    and verify: "\<And>n h p. d_Verify (sv_deps s) n h p = Inr (matches h p, False)"
  shows "\<exists>w'. VerifyChallenge s r token \<lparr>vf_Purpose = VerifyRegister, vf_NewPassword = password\<rparr> w = (Inr (), w')
    \<and> (\<forall>r' email. normalizeEmail (sv_env s) email = Inr (v_Email v) \<longrightarrow> unused (sv_env s) (w_seed w') (w_db w')
         \<longrightarrow> passes_limit (entryLimit s r' ''login'' (v_Email v)) w'
         \<longrightarrow> (\<exists>cred w''. Login s r' email password w' = (Inr cred, w'')))"
proof -
  obtain w' where w': "VerifyChallenge s r token \<lparr>vf_Purpose = VerifyRegister, vf_NewPassword = password\<rparr> w = (Inr (), w')"
    and login: "can_login matches (v_Email v) password (w_db w')" "identified (w_db w')"
    using registration_verified [where matches = matches, OF assms(1,2,4,3,5-14)] unfolding succeeds_def by auto
  have "accounts_ok (w_db w')"
    using guaranteesD [OF ai.g_VerifyChallenge [OF healthy_relies [OF assms(1)]] w'] assms(2) by (simp add: keeps_def)
  then have "\<exists>cred w''. Login s r' email password w' = (Inr cred, w'')"
    if "normalizeEmail (sv_env s) email = Inr (v_Email v)" "unused (sv_env s) (w_seed w') (w_db w')"
      "passes_limit (entryLimit s r' ''login'' (v_Email v)) w'" for r' email
    using healthy_login [where matches = matches and weak = "\<lambda>_ _. False", OF assms(1) _ that(2) login(2) verify _ that(1) login(1) that(3)] by blast
  with w' show ?thesis by blast
qed

text \<open>The example: carol follows her link.\<close>

lemma carol_registered: "registered quiet carol carol_challenge registration_db"
  using email_c by (simp add: registered_def registration_db_def empty_db_def carol_def carol_challenge_def new_user_def UserPending_def
      validEmailPair_def text_eval)

lemma carol_free: "free_ids quiet (Suc 0) registration_db"
proof -
  have "{Suc 0..Suc 0 + 2} = {1, 2, 3}" by auto
  then show ?thesis
    by (simp add: free_ids_def registration_db_def empty_db_def text_eval MaxIdentifierBytes_def ContainsByte_def bytes_def numeral_eq_Suc)
qed

lemma carol_identified: "identified registration_db"
  by (simp add: identified_def registration_db_def empty_db_def carol_def new_user_def text_eval MaxIdentifierBytes_def ContainsByte_def bytes_def)

theorem registration_completes_witness:
  "\<exists>w'. VerifyChallenge quiet_service guest challenge_token registration (start registration_db) = (Inr (), w')"
proof -
  have start: "w_db (start registration_db) = registration_db" "w_seed (start registration_db) = 0" "w_step (start registration_db) = 0"
    by (simp_all add: start_def)
  have limit: "passes_limit (limit quiet_service ''verify.ip'' (ClientIP guest) ipRequestLimit ipRateWindow)
      ((start registration_db)\<lparr>w_var := UserID guest\<rparr>)"
    using example_verify_limit by (auto simp: passes_limit_def)
  have deps: "d_Verify (sv_deps quiet_service) n h p = Inr (h = ''#'' @ p, False)" "d_Validate (sv_deps quiet_service) ''pass''"
      "d_Hash (sv_deps quiet_service) 0 ''pass'' = Inr ''#pass''" for n h p
    by (simp_all add: quiet_deps_def)
  have clock: "e_clock (sv_env quiet_service) (Suc 0) < v_ExpiresAt carol_challenge" "e_clock (sv_env quiet_service) (Suc (Suc 0)) < v_ExpiresAt carol_challenge"
      "0 \<le> e_now (sv_env quiet_service) n" for n
    by (simp_all add: carol_challenge_def hour_def minute_def second_def)
  have token: "TokenDigest (e_sha256 (sv_env quiet_service)) challenge_token ChallengePrefix = Inr (v_TokenHash carol_challenge)"
    by (simp only: quiet_service_simps challenge_token_digest carol_challenge_def verification_row.simps)
  have hash: "''#pass'' \<noteq> ''''" "''#pass'' = ''#'' @ ''pass''" by simp_all
  have "\<exists>w'. VerifyChallenge quiet_service guest challenge_token \<lparr>vf_Purpose = VerifyRegister, vf_NewPassword = ''pass''\<rparr>
        (start registration_db) = (Inr (), w')"
    using registration_completes [where s = quiet_service and w = "start registration_db" and matches = "\<lambda>h p. h = ''#'' @ p",
        unfolded start, OF quiet_healthy registration_db_ok carol_identified
        carol_registered [folded quiet_service_simps(1)] carol_free [folded quiet_service_simps(1)] clock(3) token limit clock(1,2) deps(2,3) hash deps(1)]
    by blast
  then show ?thesis by (simp add: registration_def)
qed

end
