(* ===== verification/Api_Contract.thy ===== *)
theory Api_Contract
  imports App_Api
begin

text \<open>
  The HTTP surface around the routes: \<^verbatim>\<open>httpapi/api.go\<close> (the router's fallbacks and what the
  program sets in huma's configuration) and the offline contract of \<^verbatim>\<open>app/api/routes.go\<close>.
  Huma's default configuration and its rendering of the described operations are parameters; a type is
  named by its Go name, a transformer is a function on responses, a create hook is opaque.
\<close>

subsection \<open>api.go\<close>

record httpapi_Config =
  hc_RequestTimeout :: time
  hc_DocsEnabled :: bool

record ('b, 'h) huma_Config =
  hu_Title :: string
  hu_Version :: string
  hu_OpenAPIPath :: string
  hu_DocsPath :: string
  hu_SchemasPath :: string
  hu_SchemaName :: "string \<Rightarrow> string \<Rightarrow> string"
  hu_RejectUnknownQueryParameters :: bool
  hu_Transformers :: "('b response \<Rightarrow> 'b response) list"
  hu_CreateHooks :: "'h list"
  hu_SecuritySchemes :: "(string \<times> string \<times> string) list"

record 'b router =
  ro_RequestTimeout :: time
  ro_NotFound :: "'b response"
  ro_MethodNotAllowed :: "string \<Rightarrow> string \<Rightarrow> 'b response"

definition schema_name :: "(string \<Rightarrow> string \<Rightarrow> string) \<Rightarrow> string \<Rightarrow> string \<Rightarrow> string" where
  "schema_name DefaultSchemaNamer t hint =
     (if t = ''huma.ErrorModel'' \<or> t = ''*huma.ErrorModel'' then ''ErrorResponse'' else DefaultSchemaNamer t hint)"

definition httpapi_New ::
  "(string \<Rightarrow> string \<Rightarrow> ('b, 'h) huma_Config) \<Rightarrow> (string \<Rightarrow> string \<Rightarrow> bool) \<Rightarrow> httpapi_Config
     \<Rightarrow> 'b router \<times> ('b, 'h) huma_Config" where
  "httpapi_New DefaultConfig match cfg =
     (let router = \<lparr>ro_RequestTimeout = hc_RequestTimeout cfg, ro_NotFound = Problem 404 ''route not found'',
            ro_MethodNotAllowed = MethodNotAllowed match\<rparr>;
          c0 = DefaultConfig ''Go Starter Kit API'' ''1.0.0'';
          c1 = c0\<lparr>hu_SchemaName := schema_name (hu_SchemaName c0), hu_RejectUnknownQueryParameters := True,
                  hu_Transformers := hu_Transformers c0 @ [sanitizeErrors], hu_CreateHooks := [], hu_SchemasPath := ''''\<rparr>;
          c2 = (if \<not> hc_DocsEnabled cfg then c1\<lparr>hu_OpenAPIPath := '''', hu_DocsPath := ''''\<rparr> else c1)
      in (router, c2\<lparr>hu_SecuritySchemes := [(''bearer'', ''http'', ''bearer'')]\<rparr>))"

text \<open>\<^verbatim>\<open>OpenAPI\<close>: the contract of every route, described on an API that needs no configuration.\<close>

definition OpenAPI ::
  "(string \<Rightarrow> string \<Rightarrow> ('b, 'h) huma_Config) \<Rightarrow> (('b, 'h) huma_Config \<Rightarrow> Operation option list \<Rightarrow> goerr + string) \<Rightarrow> goerr + string" where
  "OpenAPI DefaultConfig MarshalIndent =
     MarshalIndent (snd (httpapi_New DefaultConfig (\<lambda>_ _. False) \<lparr>hc_RequestTimeout = 15 * second, hc_DocsEnabled = False\<rparr>)) routeCatalog"

subsection \<open>What the surface answers\<close>

text \<open>The methods the second fallback asks about.\<close>

definition http_methods :: "string list" where
  "http_methods = [''CONNECT'', ''DELETE'', ''GET'', ''HEAD'', ''OPTIONS'', ''PATCH'', ''POST'', ''PUT'', ''TRACE'']"

text \<open>Chi hands a request no route takes to one of the two fallbacks.\<close>

definition unrouted :: "(string \<Rightarrow> string \<Rightarrow> bool) \<Rightarrow> 'b router \<Rightarrow> string \<Rightarrow> string \<Rightarrow> 'b response option" where
  "unrouted match router meth path =
     (if match meth path then None
      else if \<exists>m \<in> set http_methods. match m path
      then Some (ro_MethodNotAllowed router '''' path) else Some (ro_NotFound router))"

lemma unrouted_answer:
  fixes r :: "'b response"
  assumes "unrouted match (fst (httpapi_New dc match cfg)) meth path = Some r"
  shows "rs_status r \<in> {404, 405} \<and> (''Content-Type'', ''application/problem+json'') \<in> set (rs_headers r)
    \<and> (rs_status r = 405 \<longrightarrow> (\<exists>allowed. (''Allow'', Join allowed '', '') \<in> set (rs_headers r) \<and> allowed \<noteq> []
         \<and> meth \<notin> set allowed \<and> (\<forall>m \<in> set allowed. match m path)))"
proof -
  let ?allowed = "filter (\<lambda>m. match m path) http_methods"
  have miss: "\<not> match meth path" using assms unfolding unrouted_def by (metis option.distinct(1))
  have router: "ro_MethodNotAllowed (fst (httpapi_New dc match cfg)) = MethodNotAllowed match"
      "ro_NotFound (fst (httpapi_New dc match cfg)) = Problem 404 ''route not found''"
    by (simp_all add: httpapi_New_def Let_def)
  have r: "r = (if \<exists>m \<in> set http_methods. match m path then MethodNotAllowed match '''' path else Problem 404 ''route not found'')"
    using assms unfolding unrouted_def if_not_P [OF miss] router by (metis option.inject)
  show ?thesis
  proof (cases "\<exists>m \<in> set http_methods. match m path")
    case True
    have "(MethodNotAllowed match '''' path :: 'b response) =
        (Problem 405 ''method not allowed'')\<lparr>rs_headers := (''Allow'', Join ?allowed '', '') # rs_headers (Problem 405 ''method not allowed'' :: 'b response)\<rparr>"
      unfolding MethodNotAllowed_def Let_def http_methods_def if_P [OF refl] by (rule refl)
    then have m: "r = (Problem 405 ''method not allowed'')\<lparr>rs_headers := (''Allow'', Join ?allowed '', '') # rs_headers (Problem 405 ''method not allowed'' :: 'b response)\<rparr>"
      using r unfolding if_P [OF True] by (rule trans [rotated])
    have "meth \<notin> set ?allowed \<and> (\<forall>m \<in> set ?allowed. match m path) \<and> ?allowed \<noteq> []" using miss True by (auto simp: filter_empty_conv)
    moreover have "rs_status r = 405" "(''Allow'', Join ?allowed '', '') \<in> set (rs_headers r)"
        "(''Content-Type'', ''application/problem+json'') \<in> set (rs_headers r)"
      unfolding m by (simp_all add: Problem_def)
    ultimately show ?thesis by blast
  qed (use r in \<open>simp add: Problem_def\<close>)
qed

text \<open>Without documentation enabled nothing is published; unknown parameters are refused, and the last transformer sanitizes.\<close>

lemma surface_config:
  "\<not> hc_DocsEnabled cfg \<Longrightarrow> hu_OpenAPIPath (snd (httpapi_New dc match cfg)) = '''' \<and> hu_DocsPath (snd (httpapi_New dc match cfg)) = ''''"
  "hu_SchemasPath (snd (httpapi_New dc match cfg)) = ''''"
  "hu_RejectUnknownQueryParameters (snd (httpapi_New dc match cfg))"
  "last (hu_Transformers (snd (httpapi_New dc match cfg))) = sanitizeErrors"
  by (simp_all add: httpapi_New_def Let_def)

end
