(* ===== verification/Commands.thy ===== *)
theory Commands
  imports Lifecycle Api_Contract
begin

text \<open>
  The command lines of both programs: \<^verbatim>\<open>app/api/command.go\<close>, \<^verbatim>\<open>app/worker/command.go\<close>, the
  main functions under \<^verbatim>\<open>cmd\<close>, and \<^verbatim>\<open>db/migrate.go\<close>.  The libraries are parameters: cobra's
  choice of the command, goose and \<^verbatim>\<open>database/sql\<close>, huma's document.
\<close>

subsection \<open>migrate.go\<close>

text \<open>
  \<open>go_Open\<close> is \<^verbatim>\<open>sql.Open("pgx", url)\<close>, \<open>go_Sub\<close> and \<open>go_NewProvider\<close> the errors of the
  embedded files and of goose's provider, \<open>go_Up\<close> and \<open>go_Down\<close> its two calls.
\<close>

record goose =
  go_Open :: "string \<Rightarrow> goerr option"
  go_Ping :: call
  go_Sub :: "goerr option"
  go_NewProvider :: "goerr option"
  go_Up :: call
  go_Down :: call

datatype migration_event =
    Opened string
  | SingleConnection
  | MigratedUp
  | MigratedDown
  | Closed

text \<open>What ran, when it returned, with what error.\<close>

type_synonym migration = "goerr option \<times> time \<times> migration_event list"

text \<open>\<^verbatim>\<open>%q\<close>, for a command without characters that need an escape.\<close>

definition quote :: "string \<Rightarrow> string" where
  "quote s = [CHR 0x22] @ s @ [CHR 0x22]"

text \<open>What is done once the database is open; \<^verbatim>\<open>defer database.Close()\<close> follows in any case.\<close>

definition migrate_opened :: "goose \<Rightarrow> gctx \<Rightarrow> time \<Rightarrow> string \<Rightarrow> migration" where
  "migrate_opened g c now command =
     (case go_Ping g c now of
        (Some e, t) \<Rightarrow> (Some (Wrapped ''connect migration database'' [e]), t, [SingleConnection])
      | (None, t) \<Rightarrow>
          (case go_Sub g of
             Some e \<Rightarrow> (Some e, t, [SingleConnection])
           | None \<Rightarrow>
               (case go_NewProvider g of
                  Some e \<Rightarrow> (Some (Wrapped ''create migration provider'' [e]), t, [SingleConnection])
                | None \<Rightarrow>
                    if command = ''up'' then (case go_Up g c t of (e, t') \<Rightarrow> (e, t', [SingleConnection, MigratedUp]))
                    else if command = ''down'' then (case go_Down g c t of (e, t') \<Rightarrow> (e, t', [SingleConnection, MigratedDown]))
                    else (Some (Plain (''unsupported migration command '' @ quote command @ '' (use up or down)'')), t, [SingleConnection]))))"

definition db_Migrate :: "goose \<Rightarrow> gctx \<Rightarrow> time \<Rightarrow> string \<Rightarrow> string \<Rightarrow> migration" where
  "db_Migrate g c now url command =
     (case go_Open g url of
        Some e \<Rightarrow> (Some (Wrapped ''open migration database'' [e]), now, [])
      | None \<Rightarrow> (case migrate_opened g c now command of (e, t, evs) \<Rightarrow> (e, t, Opened url # evs @ [Closed])))"

subsection \<open>command.go\<close>

text \<open>What the \<^verbatim>\<open>RunE\<close> of a command does.\<close>

datatype action =
    Serve
  | ExportOpenAPI
  | MigrateUsage
  | MigrateDirection string
  | RunWorker

text \<open>A command with its name, its \<^verbatim>\<open>RunE\<close> and its subcommands; every one has \<^verbatim>\<open>Args: noArgs\<close>.\<close>

datatype Command = Command (cmd_Use: string) (cmd_RunE: action) (cmd_Commands: "Command list")

definition migrate_command :: Command where
  "migrate_command = Command ''migrate'' MigrateUsage (map (\<lambda>direction. Command direction (MigrateDirection direction) []) [''up'', ''down''])"

definition api_NewCommand :: Command where
  "api_NewCommand = Command ''api'' Serve [Command ''serve'' Serve [], Command ''openapi'' ExportOpenAPI [], migrate_command]"

definition worker_NewCommand :: Command where
  "worker_NewCommand = Command ''worker'' RunWorker []"

fun commands :: "Command \<Rightarrow> Command list" where
  "commands (Command u a cs) = Command u a cs # concat (map commands cs)"

definition msg_help :: string where
  "msg_help = utf8 [0xff0c, 0x8bf7, 0x4f7f, 0x7528] @ '' --help''"

definition noArgs :: "string list \<Rightarrow> goerr option" where
  "noArgs args =
     (if length args \<noteq> 0
      then Some (Plain (utf8 [0x547d, 0x4ee4, 0x4e0d, 0x63a5, 0x53d7, 0x989d, 0x5916, 0x53c2, 0x6570] @ msg_help)) else None)"

definition worker_Args :: "string list \<Rightarrow> goerr option" where
  "worker_Args args =
     (if length args \<noteq> 0
      then Some (Plain (''Worker '' @ utf8 [0x4e0d, 0x63a5, 0x53d7, 0x4f4d, 0x7f6e, 0x53c2, 0x6570] @ msg_help)) else None)"

definition flagError :: goerr where
  "flagError = Plain (utf8 [0x547d, 0x4ee4, 0x884c, 0x9009, 0x9879, 0x65e0, 0x6548] @ msg_help)"

record migrationConfig =
  mc_DatabaseURL :: string

text \<open>
  The machine a command runs on: the environment with the field lists and decoders of
  \<^verbatim>\<open>caarlos0/env\<close> for the three configurations, Fx and the calls of the processes, goose,
  huma's rendering of the described operations, and standard output, which may take only part of what
  is written.
\<close>

record host =
  ho_lookup :: "string \<Rightarrow> string option"
  ho_parse_url :: "string \<Rightarrow> url option"
  ho_api_fields :: "FieldParams list option"
  ho_api_decode :: "(string \<Rightarrow> string option) \<Rightarrow> env_error option \<times> api_Config"
  ho_worker_fields :: "FieldParams list option"
  ho_worker_decode :: "(string \<Rightarrow> string option) \<Rightarrow> env_error option \<times> worker_Config"
  ho_migration_fields :: "FieldParams list option"
  ho_migration_decode :: "(string \<Rightarrow> string option) \<Rightarrow> env_error option \<times> migrationConfig"
  ho_fx :: fx
  ho_machine :: machine
  ho_env :: env
  ho_platform :: platform
  ho_ping :: "unit act"
  ho_goose :: goose
  ho_DefaultConfig :: "string \<Rightarrow> string \<Rightarrow> (unit, string) huma_Config"
  ho_MarshalIndent :: "(unit, string) huma_Config \<Rightarrow> Operation option list \<Rightarrow> goerr + string"
  ho_Write :: "string \<Rightarrow> goerr option \<times> string"

text \<open>What a command leaves behind: the process, the migrations it ran and what it wrote to standard output.\<close>

record console =
  co_proc :: proc
  co_migrated :: "migration_event list"
  co_out :: string

definition api_Load :: "host \<Rightarrow> goerr + api_Config" where
  "api_Load h = api_Parse (ho_parse_url h) (ho_api_fields h) (ho_api_decode h) (Some (ho_lookup h))"

definition worker_Load :: "host \<Rightarrow> goerr + worker_Config" where
  "worker_Load h = worker_Parse (ho_parse_url h) (ho_worker_fields h) (ho_worker_decode h) (Some (ho_lookup h))"

text \<open>\<^const>\<open>None\<close>: the process serves until a signal that never comes.\<close>

definition serve_command :: "host \<Rightarrow> gctx \<Rightarrow> console \<Rightarrow> (goerr option \<times> console) option" where
  "serve_command h c k =
     (case api_Load h of
        Inl e \<Rightarrow> Some (Some e, k)
      | Inr cfg \<Rightarrow>
          map_option (\<lambda>(e, p). (e, k\<lparr>co_proc := p\<rparr>))
            (api_Run (ho_parse_url h) (ho_fx h) (ho_machine h) (ho_env h) (ho_platform h) (ho_ping h) c cfg (co_proc k)))"

definition openapi_command :: "host \<Rightarrow> console \<Rightarrow> goerr option \<times> console" where
  "openapi_command h k =
     (case OpenAPI (ho_DefaultConfig h) (ho_MarshalIndent h) of
        Inl e \<Rightarrow> (Some e, k)
      | Inr data \<Rightarrow> (case ho_Write h (data @ [CHR 0x0A]) of (e, written) \<Rightarrow> (e, k\<lparr>co_out := co_out k @ written\<rparr>)))"

definition migrate_usage :: goerr where
  "migrate_usage = Plain (utf8 [0x8bf7, 0x6307, 0x5b9a] @ '' migrate up '' @ utf8 [0x6216] @ '' migrate down'')"

definition direction_command :: "host \<Rightarrow> gctx \<Rightarrow> string \<Rightarrow> console \<Rightarrow> goerr option \<times> console" where
  "direction_command h c direction k =
     (case configenv_Parse (ho_migration_fields h) (ho_migration_decode h) (Some (ho_lookup h)) of
        Inl e \<Rightarrow> (Some e, k)
      | Inr cfg \<Rightarrow>
          (case ValidateDatabaseURL (ho_parse_url h) (mc_DatabaseURL cfg) of
             Some e \<Rightarrow> (Some e, k)
           | None \<Rightarrow>
               (let now = p_now (co_proc k) in
                case db_Migrate (ho_goose h) (WithTimeout c now (2 * minute)) now (mc_DatabaseURL cfg) direction of
                  (e, t, evs) \<Rightarrow>
                    (e, k\<lparr>co_proc := (co_proc k)\<lparr>p_now := t\<rparr>, co_migrated := co_migrated k @ evs\<rparr>))))"

definition worker_command :: "host \<Rightarrow> gctx \<Rightarrow> console \<Rightarrow> (goerr option \<times> console) option" where
  "worker_command h c k =
     (case worker_Load h of
        Inl e \<Rightarrow> Some (Some e, k)
      | Inr cfg \<Rightarrow>
          map_option (\<lambda>(e, p). (e, k\<lparr>co_proc := p\<rparr>))
            (worker_Run (ho_parse_url h) (ho_fx h) (ho_machine h) c cfg (co_proc k)))"

fun RunE :: "host \<Rightarrow> gctx \<Rightarrow> action \<Rightarrow> console \<Rightarrow> (goerr option \<times> console) option" where
  "RunE h c Serve k = serve_command h c k"
| "RunE h c ExportOpenAPI k = Some (openapi_command h k)"
| "RunE h c MigrateUsage k = Some (Some migrate_usage, k)"
| "RunE h c (MigrateDirection direction) k = Some (direction_command h c direction k)"
| "RunE h c RunWorker k = worker_command h c k"

subsection \<open>Execution\<close>

text \<open>
  Cobra reads the arguments: it prints help, hands an error of the flags to \<^verbatim>\<open>FlagErrorFunc\<close>, or
  selects a command and the arguments left for it, which it checks with \<^verbatim>\<open>Args\<close> before \<^verbatim>\<open>RunE\<close>.
\<close>

datatype selection = Help | BadFlag | Selected Command "string list"

type_synonym cobra = "Command \<Rightarrow> string list \<Rightarrow> selection"

definition ExecuteContext ::
  "cobra \<Rightarrow> (string list \<Rightarrow> goerr option) \<Rightarrow> host \<Rightarrow> gctx \<Rightarrow> Command \<Rightarrow> string list \<Rightarrow> console \<Rightarrow> (goerr option \<times> console) option" where
  "ExecuteContext cb check h c root args k =
     (case cb root args of
        Help \<Rightarrow> Some (None, k)
      | BadFlag \<Rightarrow> Some (Some flagError, k)
      | Selected cmd rest \<Rightarrow>
          (case check rest of Some e \<Rightarrow> Some (Some e, k) | None \<Rightarrow> RunE h c (cmd_RunE cmd) k))"

text \<open>\<^verbatim>\<open>main\<close>: the exit code and the state of the machine; a failure is logged and exits with 1.\<close>

definition exit_code :: "goerr option \<times> console \<Rightarrow> int \<times> console" where
  "exit_code r = (if fst r \<noteq> None then 1 else 0, snd r)"

definition api_main :: "cobra \<Rightarrow> host \<Rightarrow> gctx \<Rightarrow> string list \<Rightarrow> console \<Rightarrow> (int \<times> console) option" where
  "api_main cb h c args k = map_option exit_code (ExecuteContext cb noArgs h c api_NewCommand args k)"

definition worker_main :: "cobra \<Rightarrow> host \<Rightarrow> gctx \<Rightarrow> string list \<Rightarrow> console \<Rightarrow> (int \<times> console) option" where
  "worker_main cb h c args k = map_option exit_code (ExecuteContext cb worker_Args h c worker_NewCommand args k)"

subsection \<open>What a command line can do\<close>

text \<open>
  The migration of one direction was refused, or it opened the configured database for a single
  connection, ran goose at most once and closed the database again, in at most two minutes, with the
  exit code that goose's own result gives.
\<close>

definition status_code :: "goerr option \<Rightarrow> int" where
  "status_code e = (if e = None then 0 else 1)"

definition migration_run :: "host \<Rightarrow> gctx \<Rightarrow> string \<Rightarrow> int \<Rightarrow> console \<Rightarrow> console \<Rightarrow> bool" where
  "migration_run h c direction code k k' \<longleftrightarrow>
     code = 1 \<and> k' = k \<or>
     (\<exists>cfg evs t. configenv_Parse (ho_migration_fields h) (ho_migration_decode h) (Some (ho_lookup h)) = Inr cfg
        \<and> ValidateDatabaseURL (ho_parse_url h) (mc_DatabaseURL cfg) = None
        \<and> k' = k\<lparr>co_proc := (co_proc k)\<lparr>p_now := t\<rparr>,
                  co_migrated := co_migrated k @ Opened (mc_DatabaseURL cfg) # SingleConnection # evs @ [Closed]\<rparr>
        \<and> p_now (co_proc k) \<le> t \<and> t \<le> p_now (co_proc k) + 2 * minute
        \<and> (evs = [] \<and> code = 1
           \<or> evs = [if direction = ''up'' then MigratedUp else MigratedDown]
             \<and> (\<exists>t0. code = status_code (fst ((if direction = ''up'' then go_Up (ho_goose h) else go_Down (ho_goose h))
                      (WithTimeout c (p_now (co_proc k)) (2 * minute)) t0)))))"

text \<open>A process that was run on its configuration, or whose configuration was refused.\<close>

definition process_run :: "goerr + 'c \<Rightarrow> ('c \<Rightarrow> proc \<Rightarrow> (goerr option \<times> proc) option) \<Rightarrow> int \<Rightarrow> console \<Rightarrow> console \<Rightarrow> bool" where
  "process_run cfg run code k k' \<longleftrightarrow>
     (case cfg of
        Inl _ \<Rightarrow> code = 1 \<and> k' = k
      | Inr c \<Rightarrow> \<exists>e p. run c (co_proc k) = Some (e, p) \<and> code = status_code e \<and> k' = k\<lparr>co_proc := p\<rparr>)"

lemma exit_status: "fst (exit_code (e, k)) = status_code e"
  by (simp add: exit_code_def status_code_def)

lemma timely_bound:
  "timely f \<Longrightarrow> cx_done c = Some d \<Longrightarrow> f c t = (e, t') \<Longrightarrow> t \<le> t' \<and> t' \<le> max t d"
  unfolding timely_def by (metis snd_conv)

lemma migrate_opened_step:
  assumes "migrate_opened g c now direction = (e, t, evs)" and "direction \<in> {''up'', ''down''}" and "cx_done c = Some d"
    and "timely (go_Ping g)" "timely (go_Up g)" "timely (go_Down g)"
  shows "now \<le> t \<and> t \<le> max now d \<and> (\<exists>xs. evs = SingleConnection # xs
    \<and> (xs = [] \<and> e \<noteq> None \<or> xs = [if direction = ''up'' then MigratedUp else MigratedDown]
         \<and> (\<exists>t0. e = fst ((if direction = ''up'' then go_Up g else go_Down g) c t0))))"
proof -
  obtain pe t1 where p: "go_Ping g c now = (pe, t1)" by fastforce
  obtain ue t2 where u: "go_Up g c t1 = (ue, t2)" by fastforce
  obtain de t3 where v: "go_Down g c t1 = (de, t3)" by fastforce
  note b = timely_bound [OF assms(4,3) p] timely_bound [OF assms(5,3) u] timely_bound [OF assms(6,3) v]
  have r: "\<exists>t0. ue = fst (go_Up g c t0)" "\<exists>t0. de = fst (go_Down g c t0)" using u v by (metis fst_conv)+
  show ?thesis using assms(1,2) b r by (auto simp: migrate_opened_def p u v split: option.splits if_splits; metis)
qed

lemma migration_deadline: "\<exists>d. cx_done (WithTimeout c now x) = Some d \<and> d \<le> now + x"
  by (auto simp: WithTimeout_def split: option.splits)

lemma direction_command_run:
  assumes "direction_command h c direction k = (e, k')" and "direction \<in> {''up'', ''down''}"
    and timely: "timely (go_Ping (ho_goose h))" "timely (go_Up (ho_goose h))" "timely (go_Down (ho_goose h))"
  shows "migration_run h c direction (fst (exit_code (e, k'))) k k'"
proof (cases "k' = k \<and> e \<noteq> None")
  case True
  then show ?thesis by (simp add: migration_run_def exit_code_def)
next
  case False
  let ?now = "p_now (co_proc k)"
  let ?c = "WithTimeout c ?now (2 * minute)"
  obtain d where d: "cx_done ?c = Some d" "d \<le> ?now + 2 * minute" using migration_deadline by blast
  obtain cfg where cfg: "configenv_Parse (ho_migration_fields h) (ho_migration_decode h) (Some (ho_lookup h)) = Inr cfg"
    using assms(1) False by (cases "configenv_Parse (ho_migration_fields h) (ho_migration_decode h) (Some (ho_lookup h))")
      (auto simp: direction_command_def)
  have url: "ValidateDatabaseURL (ho_parse_url h) (mc_DatabaseURL cfg) = None"
    using assms(1) False by (cases "ValidateDatabaseURL (ho_parse_url h) (mc_DatabaseURL cfg)") (auto simp: direction_command_def cfg)
  obtain e0 t evs where m0: "db_Migrate (ho_goose h) ?c ?now (mc_DatabaseURL cfg) direction = (e0, t, evs)" by (metis prod_cases3)
  have m: "db_Migrate (ho_goose h) ?c ?now (mc_DatabaseURL cfg) direction = (e, t, evs)"
    and k': "k' = k\<lparr>co_proc := (co_proc k)\<lparr>p_now := t\<rparr>, co_migrated := co_migrated k @ evs\<rparr>"
    using assms(1) m0 by (auto simp: direction_command_def cfg url Let_def)
  show ?thesis
  proof (cases "go_Open (ho_goose h) (mc_DatabaseURL cfg)")
    case None
    obtain e1 t1 xs where o: "migrate_opened (ho_goose h) ?c ?now direction = (e1, t1, xs)" by (metis prod_cases3)
    then have same: "e1 = e" "t1 = t" "evs = Opened (mc_DatabaseURL cfg) # xs @ [Closed]" using m None by (simp_all add: db_Migrate_def)
    obtain ys where ys: "xs = SingleConnection # ys" "?now \<le> t" "t \<le> max ?now d"
        "ys = [] \<and> e \<noteq> None \<or> ys = [if direction = ''up'' then MigratedUp else MigratedDown]
           \<and> (\<exists>t0. e = fst ((if direction = ''up'' then go_Up (ho_goose h) else go_Down (ho_goose h)) ?c t0))"
      using migrate_opened_step [OF o assms(2) d(1) timely] same(1,2) by blast
    have "t \<le> ?now + 2 * minute" using ys(3) d(2) by (simp add: minute_def second_def)
    moreover have "k' = k\<lparr>co_proc := (co_proc k)\<lparr>p_now := t\<rparr>,
        co_migrated := co_migrated k @ Opened (mc_DatabaseURL cfg) # SingleConnection # ys @ [Closed]\<rparr>"
      using k' same(3) ys(1) by simp
    moreover have "ys = [] \<and> fst (exit_code (e, k')) = 1 \<or> ys = [if direction = ''up'' then MigratedUp else MigratedDown]
        \<and> (\<exists>t0. fst (exit_code (e, k')) =
             status_code (fst ((if direction = ''up'' then go_Up (ho_goose h) else go_Down (ho_goose h)) ?c t0)))"
      using ys(4)
    proof (elim disjE conjE exE)
      fix t0
      assume "ys = [if direction = ''up'' then MigratedUp else MigratedDown]"
        and "e = fst ((if direction = ''up'' then go_Up (ho_goose h) else go_Down (ho_goose h)) ?c t0)"
      then show ?thesis unfolding exit_status by (intro disjI2 conjI exI [of _ t0]) simp_all
    qed (simp add: exit_status status_code_def)
    ultimately show ?thesis unfolding migration_run_def using cfg url ys(2) by blast
  next
    case (Some e1)
    then show ?thesis using m k' False by (simp add: db_Migrate_def)
  qed
qed

lemma process_commands:
  "serve_command h c k = Some (e, k') \<Longrightarrow> process_run (api_Load h)
     (api_Run (ho_parse_url h) (ho_fx h) (ho_machine h) (ho_env h) (ho_platform h) (ho_ping h) c) (status_code e) k k'"
  "worker_command h c k = Some (e, k') \<Longrightarrow> process_run (worker_Load h)
     (worker_Run (ho_parse_url h) (ho_fx h) (ho_machine h) c) (status_code e) k k'"
  by (auto simp: serve_command_def worker_command_def process_run_def status_code_def split: sum.splits)

lemma api_commands:
  "cmd \<in> set (commands api_NewCommand) \<longleftrightarrow>
     cmd = api_NewCommand \<or> cmd = Command ''serve'' Serve [] \<or> cmd = Command ''openapi'' ExportOpenAPI [] \<or> cmd = migrate_command
     \<or> cmd = Command ''up'' (MigrateDirection ''up'') [] \<or> cmd = Command ''down'' (MigrateDirection ''down'') []"
  by (auto simp: api_NewCommand_def migrate_command_def)

definition api_effect :: "selection \<Rightarrow> host \<Rightarrow> gctx \<Rightarrow> int \<Rightarrow> console \<Rightarrow> console \<Rightarrow> bool" where
  "api_effect sel h c code k k' =
     (case sel of
        Help \<Rightarrow> code = 0 \<and> k' = k
      | BadFlag \<Rightarrow> code = 1 \<and> k' = k
      | Selected cmd rest \<Rightarrow>
          if rest \<noteq> [] \<or> cmd_Use cmd = ''migrate'' then code = 1 \<and> k' = k
          else if cmd_Use cmd \<in> {''api'', ''serve''} then
            process_run (api_Load h)
              (api_Run (ho_parse_url h) (ho_fx h) (ho_machine h) (ho_env h) (ho_platform h) (ho_ping h) c) code k k'
          else if cmd_Use cmd = ''openapi'' then
            (case OpenAPI (ho_DefaultConfig h) (ho_MarshalIndent h) of
               Inl _ \<Rightarrow> code = 1 \<and> k' = k
             | Inr document \<Rightarrow> (case ho_Write h (document @ [CHR 0x0A]) of
                 (e, written) \<Rightarrow> code = status_code e \<and> k' = k\<lparr>co_out := co_out k @ written\<rparr>))
          else cmd_Use cmd \<in> {''up'', ''down''} \<and> migration_run h c (cmd_Use cmd) code k k')"

definition worker_effect :: "selection \<Rightarrow> host \<Rightarrow> gctx \<Rightarrow> int \<Rightarrow> console \<Rightarrow> console \<Rightarrow> bool" where
  "worker_effect sel h c code k k' =
     (case sel of
        Help \<Rightarrow> code = 0 \<and> k' = k
      | BadFlag \<Rightarrow> code = 1 \<and> k' = k
      | Selected cmd rest \<Rightarrow>
          if rest \<noteq> [] then code = 1 \<and> k' = k
          else process_run (worker_Load h) (worker_Run (ho_parse_url h) (ho_fx h) (ho_machine h) c) code k k')"

lemma api_selected:
  assumes "RunE h c (cmd_RunE cmd) k = Some (e, k')" and "cmd \<in> set (commands api_NewCommand)"
    and timely: "timely (go_Ping (ho_goose h))" "timely (go_Up (ho_goose h))" "timely (go_Down (ho_goose h))"
  shows "api_effect (Selected cmd []) h c (status_code e) k k'"
  using assms(1) assms(2) [unfolded api_commands] direction_command_run [OF _ _ timely, unfolded exit_status]
    process_commands(1)
  by (elim disjE) (auto simp: api_effect_def api_NewCommand_def migrate_command_def status_code_def openapi_command_def
      split: sum.splits prod.splits)

lemma main_cases:
  assumes "map_option exit_code (ExecuteContext cb check h c root args k) = Some (code, k')"
  obtains "cb root args = Help" "code = 0" "k' = k"
    | "cb root args = BadFlag" "code = 1" "k' = k"
    | cmd rest where "cb root args = Selected cmd rest" "check rest \<noteq> None" "code = 1" "k' = k"
    | cmd rest e where "cb root args = Selected cmd rest" "check rest = None" "RunE h c (cmd_RunE cmd) k = Some (e, k')"
        "code = status_code e"
  using assms by (cases "cb root args") (auto simp: ExecuteContext_def exit_code_def status_code_def split: option.splits)

text \<open>
  C26.  A command line does what it names and nothing else.  With either program an unknown flag or a
  left-over argument exits with 1 and has touched nothing, and help exits with 0.  \<^verbatim>\<open>api\<close>,
  \<^verbatim>\<open>api serve\<close> and \<^verbatim>\<open>worker\<close> only run their process, on a configuration that was accepted, and exit
  with 0 exactly if it reports no error; \<^verbatim>\<open>openapi\<close> only writes the document to standard output, and
  exits with 0 exactly if it could be written; \<^verbatim>\<open>migrate\<close> alone
  is refused; \<^verbatim>\<open>migrate up\<close> and \<^verbatim>\<open>migrate down\<close> run goose in their direction at most once, on the configured
  PostgreSQL database, within two minutes, close it again, and exit with 0 exactly if goose reports no
  error; no other command line changes the schema.
\<close>

theorem command_effects:
  assumes law: "\<And>root args cmd rest. cb root args = Selected cmd rest \<Longrightarrow> cmd \<in> set (commands root)"
    and timely: "timely (go_Ping (ho_goose h))" "timely (go_Up (ho_goose h))" "timely (go_Down (ho_goose h))"
  shows "(api_main cb h c args k = Some (code, k') \<longrightarrow> api_effect (cb api_NewCommand args) h c code k k')
    \<and> (worker_main cb h c args k = Some (code, k') \<longrightarrow> worker_effect (cb worker_NewCommand args) h c code k k')"
proof (rule conjI; rule impI)
  assume "api_main cb h c args k = Some (code, k')"
  then show "api_effect (cb api_NewCommand args) h c code k k'" unfolding api_main_def
  proof (cases rule: main_cases)
    case (4 cmd rest e)
    have "rest = []" using 4(2) by (simp add: noArgs_def split: if_splits)
    then show ?thesis using api_selected [OF 4(3) law [OF 4(1)] timely] 4(1,4) by simp
  qed (auto simp: api_effect_def noArgs_def)
next
  assume "worker_main cb h c args k = Some (code, k')"
  then show "worker_effect (cb worker_NewCommand args) h c code k k'" unfolding worker_main_def
  proof (cases rule: main_cases)
    case (4 cmd rest e)
    have "rest = []" "cmd_RunE cmd = RunWorker"
      using 4(2) law [OF 4(1)] by (simp_all add: worker_Args_def worker_NewCommand_def split: if_splits)
    then show ?thesis using process_commands(2) [of h c k e k'] 4(1,3,4) by (simp add: worker_effect_def)
  qed (auto simp: worker_effect_def worker_Args_def)
qed

subsection \<open>An example\<close>

text \<open>A reader of the arguments that knows no flags: it descends along the names of the commands.\<close>

fun walk :: "Command \<Rightarrow> string list \<Rightarrow> selection" where
  "walk cmd [] = Selected cmd []"
| "walk cmd (a # args) =
     (case find (\<lambda>sub. cmd_Use sub = a) (cmd_Commands cmd) of
        None \<Rightarrow> Selected cmd (a # args)
      | Some sub \<Rightarrow> walk sub args)"

lemma commands_self: "cmd \<in> set (commands cmd)"
  by (cases cmd) simp

lemma commands_sub: "sub \<in> set (cmd_Commands cmd) \<Longrightarrow> x \<in> set (commands sub) \<Longrightarrow> x \<in> set (commands cmd)"
  by (cases cmd) auto

lemma walk_law: "walk root args = Selected cmd rest \<Longrightarrow> cmd \<in> set (commands root)"
proof (induction root args rule: walk.induct)
  case (1 cmd')
  then show ?case using commands_self by simp
next
  case (2 cmd' a args)
  then show ?case using commands_self commands_sub by (auto split: option.splits dest!: find_Some_ex)
qed

definition example_goose :: goose where
  "example_goose = \<lparr>go_Open = (\<lambda>_. None), go_Ping = prompt, go_Sub = None, go_NewProvider = None, go_Up = prompt, go_Down = prompt\<rparr>"

definition example_huma :: "string \<Rightarrow> string \<Rightarrow> (unit, string) huma_Config" where
  "example_huma title version = \<lparr>hu_Title = title, hu_Version = version, hu_OpenAPIPath = ''/openapi'', hu_DocsPath = ''/docs'',
     hu_SchemasPath = ''/schemas'', hu_SchemaName = (\<lambda>t hint. t), hu_RejectUnknownQueryParameters = False,
     hu_Transformers = [], hu_CreateHooks = [''schema link''], hu_SecuritySchemes = []\<rparr>"

definition example_host :: host where
  "example_host =
     \<lparr>ho_lookup = [''DATABASE_URL'' \<mapsto> ''db''], ho_parse_url = o_parse_url example_oauth,
      ho_api_fields = Some [], ho_api_decode = (\<lambda>_. (None, example_config)),
      ho_worker_fields = Some [], ho_worker_decode = (\<lambda>_. (None, \<lparr>wk_DatabaseURL = ''db'', wk_DBMaxConns = 10,
        wk_MailPollInterval = second, wk_ShutdownTimeout = 10 * second, wk_OTelEnabled = False, wk_OTelServiceName = ''''\<rparr>)),
      ho_migration_fields = Some [\<lparr>fp_Key = ''DATABASE_URL'', fp_HasDefaultValue = False, fp_DefaultValue = ''''\<rparr>],
      ho_migration_decode = (\<lambda>vs. case vs ''DATABASE_URL'' of
         None \<Rightarrow> (Some (VarIsNotSetError ''DATABASE_URL'' ''''), \<lparr>mc_DatabaseURL = ''''\<rparr>)
       | Some u \<Rightarrow> (None, \<lparr>mc_DatabaseURL = u\<rparr>)),
      ho_fx = plain_fx, ho_machine = prompt_machine, ho_env = quiet, ho_platform = example_platform, ho_ping = ret (),
      ho_goose = example_goose, ho_DefaultConfig = example_huma, ho_MarshalIndent = (\<lambda>_ ops. Inr ''{}''), ho_Write = (\<lambda>s. (None, s))\<rparr>"

definition example_console :: console where
  "example_console = \<lparr>co_proc = idle_process, co_migrated = [], co_out = ''''\<rparr>"

lemma example_migrate:
  "\<exists>k'. api_main walk example_host (stop_at hour) [''migrate'', ''up''] example_console = Some (0, k')
     \<and> co_migrated k' = [Opened ''db'', SingleConnection, MigratedUp, Closed]"
  by (simp add: api_main_def ExecuteContext_def api_NewCommand_def migrate_command_def noArgs_def direction_command_def
      example_host_def configenv_Parse_def ValidateDatabaseURL_def example_oauth_def db_Migrate_def migrate_opened_def
      example_goose_def prompt_def example_console_def exit_code_def Let_def)

theorem command_effects_witness:
  "\<exists>k'. api_main walk example_host (stop_at hour) [''migrate'', ''up''] example_console = Some (0, k')
     \<and> migration_run example_host (stop_at hour) ''up'' 0 example_console k'
     \<and> co_migrated k' = [Opened ''db'', SingleConnection, MigratedUp, Closed]"
proof -
  obtain k' where k': "api_main walk example_host (stop_at hour) [''migrate'', ''up''] example_console = Some (0, k')"
      "co_migrated k' = [Opened ''db'', SingleConnection, MigratedUp, Closed]"
    using example_migrate by blast
  have "timely prompt" by (simp add: timely_def prompt_def)
  then have t: "timely (go_Ping (ho_goose example_host))" "timely (go_Up (ho_goose example_host))" "timely (go_Down (ho_goose example_host))"
    by (simp_all add: example_host_def example_goose_def)
  have "api_effect (walk api_NewCommand [''migrate'', ''up'']) example_host (stop_at hour) 0 example_console k'"
    using command_effects [where cb = walk and c = "stop_at hour" and args = "[''migrate'', ''up'']", OF _ t] walk_law k'(1) by blast
  then show ?thesis using k' by (auto simp: api_effect_def api_NewCommand_def migrate_command_def)
qed

end
