(* ===== verification/Text_Runes.thy ===== *)
theory Text_Runes
  imports Go_Strings
begin

text \<open>
  Trimming on the level of code points.  Text from JSON is a sequence of code points; on its UTF-8
  encoding the byte-wise \<^const>\<open>TrimSpace\<close> drops exactly the leading and trailing white-space
  code points.
\<close>

definition is_space :: "nat \<Rightarrow> bool" where
  "is_space c \<longleftrightarrow> c \<in> set space_runes"

definition trim_runes :: "nat list \<Rightarrow> nat list" where
  "trim_runes cs = rev (dropWhile is_space (rev (dropWhile is_space cs)))"

lemma space_valid: "c \<in> set space_runes \<Longrightarrow> valid_rune c"
  by (auto simp: space_runes_def valid_rune_def)

lemma utf8_Cons: "utf8 (c # cs) = of_bytes (encode_rune c) @ utf8 cs"
  by (simp add: utf8_def of_bytes_def)

lemma utf8_snoc: "utf8 (cs @ [c]) = utf8 cs @ of_bytes (encode_rune c)"
  by (simp add: utf8_def of_bytes_def)

lemma bytes_of_append: "bytes (s @ t) = bytes s @ bytes t"
  by (simp add: bytes_def)

lemma bytes_encode: "valid_rune c \<Longrightarrow> bytes (of_bytes (encode_rune c)) = encode_rune c"
  by (rule bytes_of_bytes) (rule encode_rune_bytes)

text \<open>No encoding is a proper prefix or suffix of another.\<close>

lemma encode_prefix_free:
  assumes "valid_rune a" and "valid_rune c" and "encode_rune a @ x = encode_rune c @ y"
  shows "a = c"
  using decode_encode_rune [OF assms(1), of x] decode_encode_rune [OF assms(2), of y] assms(3) by simp

lemma encode_rune_head: "valid_rune c \<Longrightarrow> \<not> cont (hd (encode_rune c)) \<and> (\<forall>b \<in> set (tl (encode_rune c)). cont b)"
  by (auto simp: encode_rune_def cont_def valid_rune_def)

lemma encode_suffix_free:
  assumes "valid_rune a" and "valid_rune c" and "x @ encode_rune a = y @ encode_rune c"
  shows "a = c"
proof -
  have key: "z = []" if "valid_rune p" "valid_rune q" "encode_rune p = z @ encode_rune q" for p q z
  proof (rule ccontr)
    assume "z \<noteq> []"
    then have "hd (encode_rune q) \<in> set (tl (encode_rune p))" using that(3) encode_rune_nonempty [of q] by (cases z) auto
    then show False using encode_rune_head that by blast
  qed
  from assms(3) consider z where "encode_rune a = z @ encode_rune c" | z where "encode_rune c = z @ encode_rune a"
    by (metis append_eq_append_conv2)
  then have "encode_rune a = encode_rune c" using key assms(1,2) by cases auto
  then show ?thesis using encode_prefix_free [OF assms(1,2), of "[]" "[]"] by simp
qed

lemma strip_one_found:
  assumes "e \<in> set encs" and "e \<noteq> []" and "\<And>e' x. e' \<in> set encs \<Longrightarrow> e @ s = e' @ x \<Longrightarrow> e' = e"
  shows "strip_one encs (e @ s) = Some s"
proof -
  have "\<exists>y. find (\<lambda>e'. e' \<noteq> [] \<and> take (length e') (e @ s) = e') encs = Some y"
    using assms(1,2) by (cases "find (\<lambda>e'. e' \<noteq> [] \<and> take (length e') (e @ s) = e') encs") (auto simp: find_None_iff)
  then obtain y where y: "find (\<lambda>e'. e' \<noteq> [] \<and> take (length e') (e @ s) = e') encs = Some y" by blast
  then have "y \<in> set encs" "take (length y) (e @ s) = y" by (auto dest!: find_Some_ex)
  then have "y = e" using assms(3) [of y "drop (length y) (e @ s)"] by (metis append_take_drop_id)
  then show ?thesis unfolding strip_one_def y by simp
qed

lemma strip_one_absent:
  assumes "\<And>e x. e \<in> set encs \<Longrightarrow> s = e @ x \<Longrightarrow> False"
  shows "strip_one encs s = None"
proof -
  have "\<not> (e \<noteq> [] \<and> take (length e) s = e)" if "e \<in> set encs" for e
    using assms [OF that, of "drop (length e) s"] by (metis append_take_drop_id)
  then have "find (\<lambda>e. e \<noteq> [] \<and> take (length e) s = e) encs = None" by (simp add: find_None_iff)
  then show ?thesis by (simp add: strip_one_def)
qed

lemma spaces_iff: "e \<in> set spaces \<longleftrightarrow> (\<exists>c \<in> set space_runes. e = of_bytes (encode_rune c))"
  by (auto simp: spaces_def)

lemma strip_left:
  assumes "valid_rune c"
  shows "strip_one spaces (of_bytes (encode_rune c) @ s) = (if is_space c then Some s else None)"
proof -
  have same: "a = c" if "a \<in> set space_runes" "of_bytes (encode_rune c) @ s = of_bytes (encode_rune a) @ x" for a x
    using encode_prefix_free [of c a] that assms space_valid bytes_of_append bytes_encode by metis
  show ?thesis
  proof (cases "is_space c")
    case True
    have "e = of_bytes (encode_rune c)" if e: "e \<in> set spaces" "of_bytes (encode_rune c) @ s = e @ x" for e x
      using e same unfolding spaces_iff by blast
    moreover have "of_bytes (encode_rune c) \<noteq> []" by (simp add: of_bytes_def)
    moreover have "of_bytes (encode_rune c) \<in> set spaces" using True by (auto simp: is_space_def spaces_iff)
    ultimately have "strip_one spaces (of_bytes (encode_rune c) @ s) = Some s" using strip_one_found by metis
    then show ?thesis using True by simp
  next
    case False
    then have "strip_one spaces (of_bytes (encode_rune c) @ s) = None"
      using same by (intro strip_one_absent) (metis is_space_def spaces_iff)
    then show ?thesis using False by simp
  qed
qed

lemma strip_right:
  assumes "valid_rune c"
  shows "strip_one (map rev spaces) (rev (s @ of_bytes (encode_rune c))) = (if is_space c then Some (rev s) else None)"
proof -
  have same: "a = c" if "a \<in> set space_runes" "rev (s @ of_bytes (encode_rune c)) = rev (of_bytes (encode_rune a)) @ x" for a x
  proof -
    have "s @ of_bytes (encode_rune c) = rev x @ of_bytes (encode_rune a)" using that(2) by (metis rev_append rev_rev_ident)
    then show ?thesis using encode_suffix_free [of c a] that assms space_valid bytes_of_append bytes_encode by metis
  qed
  show ?thesis
  proof (cases "is_space c")
    case True
    have "e = rev (of_bytes (encode_rune c))" if e: "e \<in> set (map rev spaces)" "rev (of_bytes (encode_rune c)) @ rev s = e @ x" for e x
    proof -
      obtain a where "a \<in> set space_runes" "e = rev (of_bytes (encode_rune a))" using e(1) by (auto simp: spaces_iff)
      then show ?thesis using same [of a x] e(2) by simp
    qed
    moreover have "rev (of_bytes (encode_rune c)) \<noteq> []" by (simp add: of_bytes_def)
    moreover have "rev (of_bytes (encode_rune c)) \<in> set (map rev spaces)" using True by (auto simp: is_space_def spaces_iff intro!: imageI)
    ultimately have "strip_one (map rev spaces) (rev (of_bytes (encode_rune c)) @ rev s) = Some (rev s)"
      using strip_one_found by metis
    then show ?thesis using True by simp
  next
    case False
    have "strip_one (map rev spaces) (rev (s @ of_bytes (encode_rune c))) = None"
    proof (rule strip_one_absent)
      fix e x assume e: "e \<in> set (map rev spaces)" "rev (s @ of_bytes (encode_rune c)) = e @ x"
      obtain a where "a \<in> set space_runes" "e = rev (of_bytes (encode_rune a))" using e(1) by (auto simp: spaces_iff)
      then show False using same [of a x] e(2) False by (simp add: is_space_def)
    qed
    then show ?thesis using False by simp
  qed
qed

lemma strip_Nil: "strip_one (map rev spaces) [] = None" "strip_one spaces [] = None"
  by (auto simp: spaces_iff of_bytes_def intro!: strip_one_absent)

lemma trim_left: "list_all valid_rune cs \<Longrightarrow> trim_with spaces (utf8 cs) = utf8 (dropWhile is_space cs)"
proof (induction cs)
  case Nil
  then show ?case by (simp add: trim_with.simps [of spaces "[]"] strip_Nil utf8_def of_bytes_def)
next
  case (Cons c cs)
  then show ?case by (simp add: utf8_Cons trim_with.simps [of spaces "of_bytes (encode_rune c) @ utf8 cs"] strip_left)
qed

lemma trim_right:
  "list_all valid_rune cs \<Longrightarrow> trim_with (map rev spaces) (rev (utf8 cs)) = rev (utf8 (rev (dropWhile is_space (rev cs))))"
proof (induction cs rule: rev_induct)
  case Nil
  then show ?case by (simp add: trim_with.simps [of "map rev spaces" "[]"] strip_Nil utf8_def of_bytes_def)
next
  case (snoc c cs)
  then have "trim_with (map rev spaces) (rev (utf8 (cs @ [c]))) =
      (if is_space c then rev (utf8 (rev (dropWhile is_space (rev cs)))) else rev (utf8 (cs @ [c])))"
    unfolding utf8_snoc by (subst trim_with.simps) (simp add: strip_right del: rev_append)
  then show ?case by simp
qed

lemma TrimSpace_utf8: "list_all valid_rune cs \<Longrightarrow> TrimSpace (utf8 cs) = utf8 (trim_runes cs)"
proof -
  assume v: "list_all valid_rune cs"
  then have "list_all valid_rune (dropWhile is_space cs)" by (auto simp: list_all_iff dest: set_dropWhileD)
  then show ?thesis by (simp add: TrimSpace_def trim_left [OF v] trim_right trim_runes_def)
qed

lemma trim_runes_set: "c \<in> set (trim_runes cs) \<Longrightarrow> c \<in> set cs"
  unfolding trim_runes_def set_rev by (drule set_dropWhileD) (auto dest: set_dropWhileD)

lemma trim_runes_valid: "list_all valid_rune cs \<Longrightarrow> list_all valid_rune (trim_runes cs)"
  by (auto simp: list_all_iff dest: trim_runes_set)

lemma length_trim_runes: "length (trim_runes cs) \<le> length cs"
  unfolding trim_runes_def length_rev by (rule le_trans [OF length_dropWhile_le]) (simp add: length_dropWhile_le)

lemma trim_runes_Nil: "trim_runes cs = [] \<longleftrightarrow> list_all is_space cs"
proof -
  have "dropWhile is_space (rev (dropWhile is_space cs)) = [] \<longleftrightarrow> (\<forall>c \<in> set (dropWhile is_space cs). is_space c)"
    by (simp add: dropWhile_eq_Nil_conv)
  also have "\<dots> \<longleftrightarrow> list_all is_space cs"
    by (induction cs) auto
  finally show ?thesis by (simp add: trim_runes_def)
qed

lemma utf8_zero: "list_all valid_rune cs \<Longrightarrow> ContainsByte (utf8 cs) 0 \<longleftrightarrow> 0 \<in> set cs"
proof -
  assume v: "list_all valid_rune cs"
  have "0 \<in> set (encode_rune c) \<longleftrightarrow> c = 0" for c by (auto simp: encode_rune_def)
  then show ?thesis unfolding ContainsByte_def bytes_utf8 [OF v] by auto
qed

lemma utf8_Nil_iff: "utf8 cs = [] \<longleftrightarrow> cs = []"
  by (cases cs) (auto simp: utf8_def of_bytes_def encode_rune_def)

lemma RuneCount_pos: "s \<noteq> '''' \<Longrightarrow> 1 \<le> RuneCountInString s"
  by (cases s) (auto simp: RuneCountInString_def bytes_def split: prod.splits)

end
