(* ===== verification/Account_Responses.thy ===== *)
theory Account_Responses
  imports Account_Http Account_Invariant Text_Runes
begin

text \<open>
  The published response types of \<^verbatim>\<open>modules/account/dto.go\<close> as predicates, with the payload
  accessors of \<^verbatim>\<open>authentication_result.go\<close>: a response that is one of several declares its
  alternatives with \<^verbatim>\<open>oneOf\<close>, and an alternative admits no property it does not name.
\<close>

subsection \<open>authentication\_result.go\<close>

text \<open>The payload and whether the result has it; a missing payload is Go's zero value.\<close>

fun CallbackResult_Session :: "CallbackResult \<Rightarrow> SessionCredentials option" where
  "CallbackResult_Session (sessionCallback s) = Some s"
| "CallbackResult_Session _ = None"

fun CallbackResult_Link :: "CallbackResult \<Rightarrow> LinkConfirmation option" where
  "CallbackResult_Link (linkPendingCallback l) = Some l"
| "CallbackResult_Link _ = None"

fun CallbackResult_ReauthenticationID :: "CallbackResult \<Rightarrow> string" where
  "CallbackResult_ReauthenticationID (reauthenticatedCallback i) = i"
| "CallbackResult_ReauthenticationID _ = ''''"

fun ReauthenticationResult_Flow :: "ReauthenticationResult \<Rightarrow> FlowResult option" where
  "ReauthenticationResult_Flow (redirectReauthentication f) = Some f"
| "ReauthenticationResult_Flow _ = None"

fun ReauthenticationResult_ReauthenticationID :: "ReauthenticationResult \<Rightarrow> string" where
  "ReauthenticationResult_ReauthenticationID (completedReauthentication i) = i"
| "ReauthenticationResult_ReauthenticationID _ = ''''"

subsection \<open>dto.go\<close>

definition user_dto_schema :: "UserRecord \<Rightarrow> bool" where
  "user_dto_schema u \<longleftrightarrow> runes_within 1 255 (ur_ID u) \<and> ur_Status u \<in> {''pending'', ''active'', ''disabled''}
     \<and> ur_Role u \<in> {''user'', ''admin''}"

definition session_create_schema :: "SessionCreateResponse \<Rightarrow> bool" where
  "session_create_schema s \<longleftrightarrow> sn_TokenType s = ''Bearer'' \<and> runes_within 1 255 (sn_SessionID s)"

definition flow_schema :: "AuthFlowResponse \<Rightarrow> bool" where
  "flow_schema f \<longleftrightarrow> runes_within 1 255 (fw_FlowID f)"

definition session_result_schema :: "AuthCallbackResponse \<Rightarrow> bool" where
  "session_result_schema b \<longleftrightarrow> cb_Result b = ''session'' \<and> (\<exists>s. cb_Session b = Some s \<and> session_create_schema s)
     \<and> cb_ReauthenticationID b = None \<and> cb_FlowID b = None \<and> cb_Provider b = None \<and> cb_Name b = None"

definition reauthenticated_result_schema :: "AuthCallbackResponse \<Rightarrow> bool" where
  "reauthenticated_result_schema b \<longleftrightarrow> cb_Result b = ''reauthenticated''
     \<and> (\<exists>i. cb_ReauthenticationID b = Some i \<and> runes_within 1 255 i)
     \<and> cb_Session b = None \<and> cb_FlowID b = None \<and> cb_Provider b = None \<and> cb_Name b = None"

definition link_pending_result_schema :: "AuthCallbackResponse \<Rightarrow> bool" where
  "link_pending_result_schema b \<longleftrightarrow> cb_Result b = ''link_pending'' \<and> (\<exists>i. cb_FlowID b = Some i \<and> runes_within 1 255 i)
     \<and> cb_Provider b \<noteq> None \<and> cb_Name b \<noteq> None \<and> cb_Session b = None \<and> cb_ReauthenticationID b = None"

definition callback_response_schema :: "AuthCallbackResponse \<Rightarrow> bool" where
  "callback_response_schema = one_of [session_result_schema, reauthenticated_result_schema, link_pending_result_schema]"

definition redirect_result_schema :: "UserReauthenticateResponse \<Rightarrow> bool" where
  "redirect_result_schema b \<longleftrightarrow> re_Result b = ''redirect'' \<and> (\<exists>f. re_Flow b = Some f \<and> flow_schema f) \<and> re_ReauthenticationID b = None"

definition completed_result_schema :: "UserReauthenticateResponse \<Rightarrow> bool" where
  "completed_result_schema b \<longleftrightarrow> re_Result b = ''reauthenticated''
     \<and> (\<exists>i. re_ReauthenticationID b = Some i \<and> runes_within 1 255 i) \<and> re_Flow b = None"

definition reauthenticate_response_schema :: "UserReauthenticateResponse \<Rightarrow> bool" where
  "reauthenticate_response_schema = one_of [redirect_result_schema, completed_result_schema]"

subsection \<open>Every response is what its type publishes\<close>

lemma Identifier_length: "Identifier i \<Longrightarrow> runes_within 1 255 i"
  using length_runes_le [of "bytes i"] RuneCount_pos [OF Identifier_nonempty]
  by (auto simp: Identifier_def MaxIdentifierBytes_def runes_within_def RuneCountInString_def bytes_def)

lemma RuneCount_pos_iff: "Suc 0 \<le> RuneCountInString s \<longleftrightarrow> s \<noteq> []"
  using RuneCount_pos [of s] by auto

lemmas result_schema_defs = session_result_schema_def reauthenticated_result_schema_def link_pending_result_schema_def
  redirect_result_schema_def completed_result_schema_def session_create_schema_def flow_schema_def runes_within_def RuneCount_pos_iff
  sessionDTO_def flowDTO_def empty_callback_def ResultSession_def ResultReauthenticated_def ResultLinkPending_def ResultRedirect_def

text \<open>The handler refuses a result without its identifiers, so what it sends matches exactly one alternative, its own.\<close>

lemma callback_conforms:
  assumes "callbackOutput r = Inr (hs, Body b)"
    and "\<And>s. CallbackResult_Session r = Some s \<Longrightarrow> RuneCountInString (sc_ID s) \<le> 255"
    and "\<And>l. CallbackResult_Link r = Some l \<Longrightarrow> RuneCountInString (lc_FlowID l) \<le> 255"
    and "RuneCountInString (CallbackResult_ReauthenticationID r) \<le> 255"
  shows "callback_response_schema b \<and> cb_Result b = CallbackResult_Result r \<and> hs = [no_store_header]"
proof (cases r)
  case (sessionCallback s)
  then have "hs = [no_store_header]" "b = (empty_callback ResultSession)\<lparr>cb_Session := Some (sessionDTO s)\<rparr>" "sc_ID s \<noteq> []"
      "RuneCountInString (sc_ID s) \<le> 255"
    using assms(1) assms(2) [of s] by (simp_all split: if_splits)
  then show ?thesis by (simp add: callback_response_schema_def one_of_def result_schema_defs sessionCallback)
next
  case (reauthenticatedCallback i)
  then have "hs = [no_store_header]" "b = (empty_callback ResultReauthenticated)\<lparr>cb_ReauthenticationID := Some i\<rparr>" "i \<noteq> []"
      "RuneCountInString i \<le> 255"
    using assms(1,4) by (simp_all split: if_splits)
  then show ?thesis by (simp add: callback_response_schema_def one_of_def result_schema_defs reauthenticatedCallback)
next
  case (linkPendingCallback l)
  then have "hs = [no_store_header]" "b = (empty_callback ResultLinkPending)
      \<lparr>cb_FlowID := Some (lc_FlowID l), cb_Provider := Some (lc_Provider l), cb_Name := Some (lc_Name l)\<rparr>" "lc_FlowID l \<noteq> []"
      "RuneCountInString (lc_FlowID l) \<le> 255"
    using assms(1) assms(3) [of l] by (simp_all split: if_splits)
  then show ?thesis by (simp add: callback_response_schema_def one_of_def result_schema_defs linkPendingCallback)
qed

lemma reauthenticate_conforms:
  assumes "reauthenticateOutput r = Inr (hs, Body b)"
    and "\<And>f. ReauthenticationResult_Flow r = Some f \<Longrightarrow> RuneCountInString (fr_ID f) \<le> 255"
    and "RuneCountInString (ReauthenticationResult_ReauthenticationID r) \<le> 255"
  shows "reauthenticate_response_schema b \<and> re_Result b = ReauthenticationResult_Result r \<and> hs = [no_store_header]"
proof (cases r)
  case (redirectReauthentication f)
  then show ?thesis using assms(1) assms(2) [of f]
    by (simp add: reauthenticate_response_schema_def one_of_def result_schema_defs split: if_splits) auto
next
  case (completedReauthentication i)
  then show ?thesis using assms(1,3)
    by (simp add: reauthenticate_response_schema_def one_of_def result_schema_defs split: if_splits) auto
qed

lemma user_conforms:
  "users_ok us \<Longrightarrow> u \<in> set us \<Longrightarrow> Identifier (u_ID u) \<Longrightarrow> user_dto_schema (userDTO (userRecord u))"
  using Identifier_length
  by (auto simp: users_ok_def user_row_ok_def user_dto_schema_def userDTO_def userRecord_def UserStatus_Valid_def UserRole_Valid_def
      status_defs RoleUser_def RoleAdmin_def)

end
