(* ===== verification/Resource_Schemas.thy ===== *)
theory Resource_Schemas
  imports Project Task Account_Responses
begin

text \<open>
  The requests of the project and task routes (\<^verbatim>\<open>modules/project/dto.go\<close>,
  \<^verbatim>\<open>modules/task/dto.go\<close>, \<^verbatim>\<open>httpapi/pagination.go\<close>) with the constraints of their tags,
  and how these fit the checks of the services behind them.  The API library counts characters as code
  points, rejects a request that breaks a constraint, and fills in the declared defaults; an omitted
  optional text is empty.
\<close>

definition enum_tag :: "string list \<Rightarrow> string \<Rightarrow> bool" where
  "enum_tag vs s \<longleftrightarrow> s \<in> set vs"

subsection \<open>pagination.go\<close>

record PageQuery =
  pq_Limit :: int32
  pq_Offset :: int32

definition page_query :: "int32 option \<Rightarrow> int32 option \<Rightarrow> PageQuery" where
  "page_query lim off =
     \<lparr>pq_Limit = (case lim of None \<Rightarrow> 20 | Some n \<Rightarrow> n), pq_Offset = (case off of None \<Rightarrow> 0 | Some n \<Rightarrow> n)\<rparr>"

definition page_schema :: "PageQuery \<Rightarrow> bool" where
  "page_schema p \<longleftrightarrow> 1 \<le> sint (pq_Limit p) \<and> sint (pq_Limit p) \<le> 100 \<and> 0 \<le> sint (pq_Offset p) \<and> sint (pq_Offset p) \<le> 10000"

definition PageQuery_Params :: "PageQuery \<Rightarrow> Params" where
  "PageQuery_Params p = \<lparr>Limit = pq_Limit p, Offset = pq_Offset p\<rparr>"

subsection \<open>Projects\<close>

record ProjectCreateRequest =
  pc_Name :: string
  pc_Description :: string

definition project_create_request :: "string \<Rightarrow> string option \<Rightarrow> ProjectCreateRequest" where
  "project_create_request name description =
     \<lparr>pc_Name = name, pc_Description = (case description of None \<Rightarrow> '''' | Some s \<Rightarrow> s)\<rparr>"

definition project_create_schema :: "ProjectCreateRequest \<Rightarrow> bool" where
  "project_create_schema b \<longleftrightarrow> runes_within 1 100 (pc_Name b) \<and> runes_within 0 2000 (pc_Description b)"

definition project_id_schema :: "string \<Rightarrow> bool" where
  "project_id_schema i \<longleftrightarrow> runes_within 1 255 i"

text \<open>\<^verbatim>\<open>ProjectUpdateRequest\<close> is the create request under another name.\<close>

definition project_update_schema :: "string \<times> ProjectCreateRequest \<Rightarrow> bool" where
  "project_update_schema i \<longleftrightarrow> runes_within 1 255 (fst i) \<and> project_create_schema (snd i)"

subsection \<open>Tasks\<close>

record TaskCreateRequest =
  tc_Title :: string
  tc_Description :: string
  tc_Status :: string

definition status_enum :: "string list" where
  "status_enum = [''todo'', ''in_progress'', ''done'']"

definition task_create_request :: "string \<Rightarrow> string option \<Rightarrow> string option \<Rightarrow> TaskCreateRequest" where
  "task_create_request title description status =
     \<lparr>tc_Title = title, tc_Description = (case description of None \<Rightarrow> '''' | Some s \<Rightarrow> s),
      tc_Status = (case status of None \<Rightarrow> ''todo'' | Some s \<Rightarrow> s)\<rparr>"

definition task_create_schema :: "TaskCreateRequest \<Rightarrow> bool" where
  "task_create_schema b \<longleftrightarrow> runes_within 1 200 (tc_Title b) \<and> runes_within 0 2000 (tc_Description b) \<and> enum_tag status_enum (tc_Status b)"

definition task_id_schema :: "string \<Rightarrow> bool" where
  "task_id_schema i \<longleftrightarrow> runes_within 1 255 i"

record TaskUpdateRequest =
  tu_Title :: string
  tu_Description :: string
  tu_Status :: string

definition task_update_schema :: "string \<times> TaskUpdateRequest \<Rightarrow> bool" where
  "task_update_schema i \<longleftrightarrow> runes_within 1 255 (fst i) \<and> runes_within 1 200 (tu_Title (snd i))
     \<and> runes_within 0 2000 (tu_Description (snd i)) \<and> enum_tag status_enum (tu_Status (snd i))"

text \<open>An absent status filter is the empty string.\<close>

definition task_list_input :: "string option \<Rightarrow> PageQuery \<Rightarrow> string \<times> PageQuery" where
  "task_list_input status p = (case status of None \<Rightarrow> '''' | Some s \<Rightarrow> s, p)"

definition task_list_schema :: "string option \<Rightarrow> PageQuery \<Rightarrow> bool" where
  "task_list_schema status p \<longleftrightarrow> (case status of None \<Rightarrow> True | Some s \<Rightarrow> enum_tag status_enum s) \<and> page_schema p"

text \<open>What the handlers pass on.\<close>

definition create_details :: "TaskCreateRequest \<Rightarrow> Details" where
  "create_details b = \<lparr>d_Title = tc_Title b, d_Description = tc_Description b, d_Status = tc_Status b\<rparr>"

definition update_details :: "TaskUpdateRequest \<Rightarrow> Details" where
  "update_details b = \<lparr>d_Title = tu_Title b, d_Description = tu_Description b, d_Status = tu_Status b\<rparr>"

subsection \<open>The schemas against the services\<close>

lemma enum_status: "enum_tag status_enum s \<longleftrightarrow> Status_Valid s"
  by (auto simp: enum_tag_def status_enum_def Status_Valid_def Todo_def InProgress_def Done_def)

lemma page_schema_exact: "page_schema p \<longleftrightarrow> Params_Validate (PageQuery_Params p) = None"
  by (simp add: page_schema_def Params_Validate_None PageQuery_Params_def)

lemma TextWithin_length: "TextWithin s (int n) \<Longrightarrow> runes_within 0 n s"
  by (simp add: TextWithin_def runes_within_def)

lemma RequiredText_length: "RequiredText s (int n) = (s, True) \<Longrightarrow> runes_within 1 n s"
  using RuneCount_pos [of s] by (auto simp: RequiredText_def Let_def TextWithin_def runes_within_def)

text \<open>On text of code points, required text within the declared length fails only when it is blank or contains a NUL.\<close>

lemma RequiredText_utf8:
  assumes v: "list_all valid_rune cs" and "runes_within lo n (utf8 cs)"
  shows "RequiredText (utf8 cs) (int n) = (utf8 (trim_runes cs), \<not> list_all is_space cs \<and> 0 \<notin> set (trim_runes cs))"
proof -
  note v' = trim_runes_valid [OF v]
  have "length cs \<le> n" using assms(2) by (simp add: runes_within_def RuneCount_utf8 [OF v])
  then have "length (trim_runes cs) \<le> n" using length_trim_runes le_trans by blast
  then show ?thesis
    by (simp add: RequiredText_def Let_def TrimSpace_utf8 [OF v] TextWithin_def ValidString_utf8 [OF v'] RuneCount_utf8 [OF v']
        utf8_zero [OF v'] utf8_Nil_iff trim_runes_Nil)
qed

lemma TextWithin_utf8:
  assumes v: "list_all valid_rune cs" and "runes_within lo n (utf8 cs)"
  shows "TextWithin (utf8 cs) (int n) \<longleftrightarrow> 0 \<notin> set cs"
  using assms(2) by (simp add: runes_within_def TextWithin_def ValidString_utf8 [OF v] utf8_zero [OF v])

text \<open>Whatever its length: required text is accepted when its trimmed form is of the declared length and has no NUL.\<close>

lemma RequiredText_exact:
  assumes v: "list_all valid_rune cs"
  shows "RequiredText (utf8 cs) (int n) = (utf8 (trim_runes cs), runes_within 1 n (utf8 (trim_runes cs)) \<and> 0 \<notin> set (trim_runes cs))"
proof -
  note v' = trim_runes_valid [OF v]
  show ?thesis using length_greater_0_conv [of "trim_runes cs"]
    by (auto simp: RequiredText_def Let_def TrimSpace_utf8 [OF v] TextWithin_def ValidString_utf8 [OF v'] RuneCount_utf8 [OF v']
        utf8_zero [OF v'] utf8_Nil_iff runes_within_def Suc_le_eq)
qed

lemma TextWithin_exact:
  "list_all valid_rune cs \<Longrightarrow> TextWithin (utf8 cs) (int n) \<longleftrightarrow> runes_within 0 n (utf8 cs) \<and> 0 \<notin> set cs"
  by (auto simp: runes_within_def TextWithin_def ValidString_utf8 utf8_zero)

lemma limits: "project_maxNameRunes = int 100" "project_maxDescriptionRunes = int 2000" "maxTitleRunes = int 200"
  "task_maxDescriptionRunes = int 2000"
  by (simp_all add: project_maxNameRunes_def project_maxDescriptionRunes_def maxTitleRunes_def task_maxDescriptionRunes_def)

lemma project_request_validated:
  assumes "list_all valid_rune cs" "list_all valid_rune ds" "project_create_schema \<lparr>pc_Name = utf8 cs, pc_Description = utf8 ds\<rparr>"
  shows "project_validate (utf8 cs) (utf8 ds) =
    (if list_all is_space cs \<or> 0 \<in> set (trim_runes cs @ ds) then Inl (Business project_ErrInvalid) else Inr (utf8 (trim_runes cs)))"
proof -
  have t: "runes_within 1 100 (utf8 cs)" "runes_within 0 2000 (utf8 ds)" using assms(3) by (simp_all add: project_create_schema_def)
  show ?thesis unfolding project_validate_def limits RequiredText_utf8 [OF assms(1) t(1)] TextWithin_utf8 [OF assms(2) t(2)] by auto
qed

lemma task_request_validated:
  assumes "list_all valid_rune cs" "list_all valid_rune ds"
    "task_create_schema \<lparr>tc_Title = utf8 cs, tc_Description = utf8 ds, tc_Status = st\<rparr>"
  shows "task_validate \<lparr>d_Title = utf8 cs, d_Description = utf8 ds, d_Status = st\<rparr> =
    (if list_all is_space cs \<or> 0 \<in> set (trim_runes cs @ ds) then Inl (Business task_ErrInvalid)
     else Inr \<lparr>d_Title = utf8 (trim_runes cs), d_Description = utf8 ds, d_Status = st\<rparr>)"
proof -
  have t: "runes_within 1 200 (utf8 cs)" "runes_within 0 2000 (utf8 ds)" "Status_Valid st"
    using assms(3) by (simp_all add: task_create_schema_def enum_status)
  show ?thesis using t(3)
    unfolding task_validate_def limits Details.simps RequiredText_utf8 [OF assms(1) t(1)] TextWithin_utf8 [OF assms(2) t(2)] by auto
qed

lemma requests_exact:
  assumes v: "list_all valid_rune cs" "list_all valid_rune ds"
  shows "project_validate (utf8 cs) (utf8 ds) =
      (if project_create_schema (project_create_request (utf8 (trim_runes cs)) (Some (utf8 ds))) \<and> 0 \<notin> set (trim_runes cs @ ds)
       then Inr (utf8 (trim_runes cs)) else Inl (Business project_ErrInvalid))"
    and "task_validate (create_details (task_create_request (utf8 cs) (Some (utf8 ds)) st)) =
      (if task_create_schema (task_create_request (utf8 (trim_runes cs)) (Some (utf8 ds)) st) \<and> 0 \<notin> set (trim_runes cs @ ds)
       then Inr (create_details (task_create_request (utf8 (trim_runes cs)) (Some (utf8 ds)) st)) else Inl (Business task_ErrInvalid))"
proof -
  show "project_validate (utf8 cs) (utf8 ds) =
      (if project_create_schema (project_create_request (utf8 (trim_runes cs)) (Some (utf8 ds))) \<and> 0 \<notin> set (trim_runes cs @ ds)
       then Inr (utf8 (trim_runes cs)) else Inl (Business project_ErrInvalid))"
    unfolding project_validate_def limits RequiredText_exact [OF v(1)] TextWithin_exact [OF v(2)]
    by (auto simp: project_create_schema_def project_create_request_def)
  show "task_validate (create_details (task_create_request (utf8 cs) (Some (utf8 ds)) st)) =
      (if task_create_schema (task_create_request (utf8 (trim_runes cs)) (Some (utf8 ds)) st) \<and> 0 \<notin> set (trim_runes cs @ ds)
       then Inr (create_details (task_create_request (utf8 (trim_runes cs)) (Some (utf8 ds)) st)) else Inl (Business task_ErrInvalid))"
    unfolding task_validate_def limits create_details_def task_create_request_def Details.simps TaskCreateRequest.simps option.case
      RequiredText_exact [OF v(1)] TextWithin_exact [OF v(2)]
    by (auto simp: task_create_schema_def enum_status)
qed

lemma stored_project_accepted:
  assumes "projects_ok d" "r \<in> set (projects d)"
  shows "project_create_schema \<lparr>pc_Name = p_Name r, pc_Description = p_Description r\<rparr>"
    "project_validate (p_Name r) (p_Description r) = Inr (p_Name r)"
proof -
  have "project_text_ok (p_Name r, p_Description r)" using assms by (simp add: projects_ok_def)
  then have t: "RequiredText (p_Name r) (int 100) = (p_Name r, True)" "TextWithin (p_Description r) (int 2000)"
    by (simp_all add: project_text_ok_def limits)
  show "project_create_schema \<lparr>pc_Name = p_Name r, pc_Description = p_Description r\<rparr>"
    using RequiredText_length [OF t(1)] TextWithin_length [OF t(2)] by (simp add: project_create_schema_def)
  show "project_validate (p_Name r) (p_Description r) = Inr (p_Name r)" using t unfolding project_validate_ok limits by simp
qed

lemma stored_task_accepted:
  assumes "tasks_ok d" "r \<in> set (tasks d)" "Identifier (t_ID r)"
  shows "task_update_schema (t_ID r, \<lparr>tu_Title = t_Title r, tu_Description = t_Description r, tu_Status = t_Status r\<rparr>)"
    "task_validate (task_details r) = Inr (task_details r)"
proof -
  have "task_text_ok (task_details r)" using assms by (simp add: tasks_ok_def)
  then have t: "RequiredText (t_Title r) (int 200) = (t_Title r, True)" "TextWithin (t_Description r) (int 2000)"
      "Status_Valid (t_Status r)"
    by (simp_all add: task_text_ok_def task_details_def limits)
  show "task_update_schema (t_ID r, \<lparr>tu_Title = t_Title r, tu_Description = t_Description r, tu_Status = t_Status r\<rparr>)"
    using RequiredText_length [OF t(1)] TextWithin_length [OF t(2)] t(3) Identifier_length [OF assms(3)]
    by (simp add: task_update_schema_def enum_status)
  show "task_validate (task_details r) = Inr (task_details r)"
    using t unfolding task_validate_def task_details_def limits by simp
qed



end
