(* ===== verification/Spec2Isabelle.thy ===== *)
theory Spec2Isabelle
  imports Mail_System Locker Lifecycle Account_Admin System Account_Registration Commands Resource_Schemas
begin

text \<open>
  \<^bold>\<open>A model of the go-starter-kit service\<close>

  The repository is a starter for a Go web service: an HTTP API and a background worker over one
  PostgreSQL database.  The API serves accounts (registration, login by password or through GitHub,
  sessions, reauthentication, linked accounts, administration), projects and tasks; the worker sends
  the mails that the account service queues in the transaction that causes them.  Both processes are
  assembled with Fx from a configuration read from the environment.  A PostgreSQL advisory lock is
  provided for code that must run in one process at a time.  All paths below are under
  \<^verbatim>\<open>src/internal\<close>.

  \<^bold>\<open>How the parts are modelled\<close>

  \<^item> \<^verbatim>\<open>Prelude\<close>: lists as tables (row update, counting, ordering, limit and offset), durations in
    nanoseconds, the collections \<open>ok_iff\<close> and others that the component proofs draw on.
  \<^item> \<^verbatim>\<open>Go_Text\<close>, \<^verbatim>\<open>Go_Strings\<close>, \<^verbatim>\<open>Go_Encoding\<close>: what the program uses of Go's libraries on byte
    strings (a \<^typ>\<open>string\<close> is a list of bytes): UTF-8, trimming and splitting, base64url, HTML and URL
    escaping.
  \<^item> \<^verbatim>\<open>App_Error\<close> (\<^verbatim>\<open>apperror\<close>): error values as trees, \<^verbatim>\<open>errors.Is\<close>, \<^verbatim>\<open>As\<close> and \<^verbatim>\<open>Join\<close>, business
    kinds, retry delays, diagnostic attributes.  \<^verbatim>\<open>Validation\<close>, \<^verbatim>\<open>Pagination\<close>, \<^verbatim>\<open>Tokens\<close>
    (\<^verbatim>\<open>identity/token.go\<close>): the shared checks, 32-bit page arithmetic, opaque tokens.
  \<^item> \<^verbatim>\<open>Schema\<close> (\<^verbatim>\<open>db/sqlc/models.go\<close>, the migration's constraints) and \<^verbatim>\<open>World\<close> (\<^verbatim>\<open>db/errors.go\<close>,
    \<^verbatim>\<open>db/transaction.go\<close>): the ten tables; a service call is an action on a world of database, step
    counter and random seed.  Before every statement on the pool and before every transaction the other
    sessions may commit anything (\<open>e_other\<close>, restricted by a rely condition in each theorem); every
    statement and every commit can fail, also after it has taken effect; a transaction that fails is
    rolled back.  Statements inside a transaction are not interleaved with those of others: the
    program's transactions lock the rows they depend on or check them again when writing.
  \<^item> \<^verbatim>\<open>Owned_Table\<close>, \<^verbatim>\<open>Project\<close>, \<^verbatim>\<open>Task\<close> (\<^verbatim>\<open>modules/project\<close>, \<^verbatim>\<open>modules/task\<close>): the contract of a
    table whose rows have an owner, as a locale that both modules interpret; statements, services,
    handlers.  \<^verbatim>\<open>Resource_Schemas\<close>: the request types of both modules and of the page parameters
    with the constraints of their tags; \<^verbatim>\<open>Text_Runes\<close>: trimming seen on code points.
  \<^item> \<^verbatim>\<open>Http_Api\<close> (\<^verbatim>\<open>httpapi\<close>): route policies, typed endpoints, the bearer middleware, the translation
    of errors to responses, the request envelope, health.
  \<^item> The account module (\<^verbatim>\<open>modules/account\<close>): \<^verbatim>\<open>Account_Model\<close> (enums, records, validation),
    \<^verbatim>\<open>Account_Queries\<close> (every SQL statement), \<^verbatim>\<open>Account_Store\<close> (\<^verbatim>\<open>store.go\<close>, \<^verbatim>\<open>store_flows.go\<close>),
    \<^verbatim>\<open>Account_Auth\<close> (audit, notifications, limits, proofs, new sessions, the administrator check),
    \<^verbatim>\<open>Account_Ops\<close> and \<^verbatim>\<open>Account_Federation\<close> (one definition per operation of the service),
    \<^verbatim>\<open>Account_Http\<close> (every route with its input constraints, handler and response),
    \<^verbatim>\<open>Account_Responses\<close> (the response types as published, the payloads of the two result types).
  \<^item> \<^verbatim>\<open>Mail_Outbox\<close> (\<^verbatim>\<open>modules/mailoutbox\<close>): statements, one round of the worker, its loop.
    \<^verbatim>\<open>Mail_System\<close>: any number of workers as a step relation.
  \<^item> \<^verbatim>\<open>Password\<close> (\<^verbatim>\<open>platform/password\<close>), \<^verbatim>\<open>Federation\<close> (\<^verbatim>\<open>platform/federation\<close>), \<^verbatim>\<open>Locker\<close>
    (\<^verbatim>\<open>platform/locker\<close> and its PostgreSQL backend).
  \<^item> \<^verbatim>\<open>App_Config\<close> (\<^verbatim>\<open>platform/configenv\<close>, the three \<^verbatim>\<open>config.go\<close>), \<^verbatim>\<open>App_Api\<close> (\<^verbatim>\<open>app/api\<close>: services,
    provider adapter, session authenticator, route catalogue), \<^verbatim>\<open>Lifecycle\<close> (\<^verbatim>\<open>app/appfx\<close>,
    \<^verbatim>\<open>app/api/server.go\<close>, \<^verbatim>\<open>app/worker/module.go\<close>: start and stop of both processes),
    \<^verbatim>\<open>Api_Contract\<close> (\<^verbatim>\<open>httpapi/api.go\<close> and the offline contract), \<^verbatim>\<open>Commands\<close>
    (\<^verbatim>\<open>app/api/command.go\<close>, \<^verbatim>\<open>app/worker/command.go\<close>, \<^verbatim>\<open>cmd\<close>, \<^verbatim>\<open>db/migrate.go\<close>: the
    command lines and the migrations they run).
  \<^item> \<^verbatim>\<open>System\<close>: every call of either program over the one database, and \<open>commits\<close>, the least
    preorder that contains the program's guarded writes.

  \<^bold>\<open>What the lemmas show\<close>

  \<^item> \<^verbatim>\<open>Account_Laws\<close> proves once, for every preorder on databases that the statements respect, that
    every operation of the service respects it, under all failures and interleavings (the locale
    \<open>account_guarantee\<close>).  Its interpretations give the table invariant (\<^verbatim>\<open>Account_Invariant\<close>), the
    forward-only evolution of rows (\<^verbatim>\<open>Account_Evolution\<close>) and the motion of sessions
    (\<^verbatim>\<open>Account_Sessions\<close>); \<open>mail_guarantee\<close> does the same for the mail worker.  \<^verbatim>\<open>System\<close> joins
    them with the project and task services (the locale \<open>program_guarantee\<close>): when the other sessions
    run this program too, no rely condition is left but \<open>commits\<close> itself, and every reachable
    database satisfies the invariants of all tables.
  \<^item> \<^verbatim>\<open>Account_Sessions\<close>: exactly which tokens authenticate, and that revocation is final.
    \<^verbatim>\<open>Account_Steps\<close> and \<^verbatim>\<open>Account_Login\<close>: what a login checked and wrote, and that its token works.
    \<^verbatim>\<open>Account_Challenges\<close>: mailed challenges are single-use and do what their purpose says;
    \<^verbatim>\<open>Account_Mailing\<close>: the link that proves an address is queued with the challenge it opens, and a
    request that does not qualify is answered alike but stores and mails nothing.
    \<^verbatim>\<open>Account_Completeness\<close> and \<^verbatim>\<open>Account_Registration\<close>: what must succeed when nothing fails;
    a password login is decided by the credentials alone, also when it upgrades the stored hash, and a
    mailed registration can be completed.
    \<^verbatim>\<open>Account_Security\<close> and \<^verbatim>\<open>Account_Admin\<close>: unlinking, administration.  \<^verbatim>\<open>Account_Limits\<close>: how much a
    rate limit lets through, and that its retry delay is honest.
  \<^item> \<^verbatim>\<open>Project\<close>, \<^verbatim>\<open>Task\<close>: invariants, isolation and noninterference of owners, round trips, exact pages.
    \<^verbatim>\<open>Resource_Schemas\<close>: the services accept exactly what the published request types admit once
    names are trimmed and texts with NUL excluded.  \<^verbatim>\<open>Account_Responses\<close>: the published response
    types against what the handlers send.
  \<^item> \<^verbatim>\<open>Mail_System\<close>: at most five sends per mail, exclusive leases, every round of \<open>ProcessOne\<close>,
    with other workers and sessions acting before each of its statements, is a run of the machine, a
    due mail is delivered when nothing fails; \<^verbatim>\<open>Mail_Outbox\<close>: the invariant of
    the queue, the end of the loop, the bounds of the retry delay.
  \<^item> \<^verbatim>\<open>Http_Api\<close>, \<^verbatim>\<open>App_Api\<close>: what errors disclose, status codes, every route behind its policy, the
    identity a protected handler sees, what the client of a callback is answered when the provider
    fails (422, 503, or the end of its own context), the configured service.
  \<^item> \<^verbatim>\<open>Password\<close>, \<^verbatim>\<open>Federation\<close>, \<^verbatim>\<open>Locker\<close>: bounded slots without deadlock, hash round trip, which
    hashes a verification computes (\<open>verify_run\<close> is \<open>Verify\<close> with the hashes it asks argon2id for),
    proved external identities, mutual exclusion and the outcomes of a locked task.
  \<^item> \<^verbatim>\<open>Lifecycle\<close>: orderly start and stop within the configured time, and success reported only if
    nothing was cut off (\<open>cut\<close>: no request cancelled, no wait for the consumer or the pool given up).
    No bound is assumed on closing a pool in use; if it can take longer than the reserve
    (\<open>slow_pool\<close>), telemetry may be left unstopped, with an error.  \<^verbatim>\<open>Commands\<close>: what each command
    line can touch and its exit code.

  \<^bold>\<open>Bounds, loops and parameters\<close>

  No definition uses fuel.  The two loops that may not end (the mail worker's and the locker's) are
  \<^verbatim>\<open>partial_function (option)\<close>; when they return is proved.  32- and 64-bit integers of the source are
  words where they are computed with (page arithmetic, configured sizes, lock keys, provider user ids);
  row versions and attempt counts are integers that the invariants bound below.  Times are integers.
  Code outside the repository is an argument: identifiers, random bytes, SHA-256 and the database's
  collation in \<open>env\<close>, argon2id, the oauth2 client, the environment decoder, Fx, the calls of the
  process's start and stop, and what a command line meets in \<open>host\<close>.  What is relied on is named
  (\<open>argon2_law\<close>, \<open>oauth_law\<close>, \<open>context_law\<close>, \<open>linear_collation\<close>, \<open>machine_ok\<close>,
  \<open>unused_pool_closes\<close>, \<open>fx_law\<close> and the rely conditions) or written out
  in the theorem, and each theorem that assumes it has an instance that satisfies it.

  \<^bold>\<open>Not modelled\<close>

  The insides of chi, huma (JSON decoding, schema checks, rendering of the contract), cobra, goose, Fx,
  argon2id and the oauth2 client, which are parameters; the transcription of command help texts; the
  warning that \<^verbatim>\<open>mailoutbox/delivery.go\<close> logs for a failed send; metrics
  and tracing (\<^verbatim>\<open>locker/metrics.go\<close>), which nothing reads back; the delegating database adapter and
  the Fx declarations (\<^verbatim>\<open>app/appfx/database.go\<close>, \<^verbatim>\<open>app/api/module.go\<close>); interface declarations;
  row locks and \<^verbatim>\<open>SKIP LOCKED\<close> except as the set of rows a claim may not see; the real time a statement
  takes.
\<close>

end
